(* ===== verification/Prelude.thy ===== *)
theory Prelude
imports Main "HOL-Library.Word" "HOL-Library.Signed_Division" "HOL-Library.Monad_Syntax"
begin

text \<open>Shared vocabulary of the development.

C code that can fail is a function into \<open>option\<close>: \<open>None\<close> is undefined behaviour or a
kernel oops (an access outside an object, a division by zero, an overlapping memcpy) or, for a
loop, not returning.  C integers are \<open>int\<close> where the code's values stay in range and the range is
shown or checked by \<open>fits_int\<close>, and words where wrap-around matters.  A C array is a list with
its true length, so that every access carries its bounds check.

The collections \<open>c_simps\<close> (the checks and buffer operations) and \<open>c_arith\<close> (the truncating
division of C) are what the component proofs rewrite with.\<close>

named_theorems c_simps
named_theorems c_arith

type_synonym byte = "8 word"

section \<open>Checks and integers\<close>

definition chk :: "bool \<Rightarrow> unit option" where
  "chk b = (if b then Some () else None)"

lemma chk_bind [c_simps]: "(chk b \<bind> f) = (if b then f () else None)"
  by (simp add: chk_def)

lemma chk_Some [simp]: "chk b = Some u \<longleftrightarrow> b"
  by (simp add: chk_def)

definition INT_MAX :: int where "INT_MAX = 2147483647"
definition INT_MIN :: int where "INT_MIN = - 2147483648"

definition fits_int :: "int \<Rightarrow> bool" where
  "fits_int i \<longleftrightarrow> INT_MIN \<le> i \<and> i \<le> INT_MAX"

text \<open>C's \<open>/\<close> and \<open>%\<close> on int: truncation towards zero; no value for a zero divisor.\<close>

definition c_div :: "int \<Rightarrow> int \<Rightarrow> int option" where
  "c_div a b = (if b = 0 then None else Some (a sdiv b))"

definition c_mod :: "int \<Rightarrow> int \<Rightarrow> int option" where
  "c_mod a b = (if b = 0 then None else Some (a smod b))"

lemma smod_nonneg [c_arith]:
  fixes a b :: int assumes "0 \<le> a" "0 < b" shows "a smod b = a mod b"
  using assms by (simp add: signed_modulo_int_def sgn_if)

lemma sdiv_nonneg [c_arith]:
  fixes a b :: int assumes "0 \<le> a" "0 < b" shows "a sdiv b = a div b"
  using assms by (simp add: signed_divide_int_def sgn_if abs_if)

lemma c_mod_nonneg [c_arith]: "0 \<le> a \<Longrightarrow> 0 < b \<Longrightarrow> c_mod a b = Some (a mod b)"
  by (simp add: c_mod_def smod_nonneg)

lemma c_div_nonneg [c_arith]: "0 \<le> a \<Longrightarrow> 0 < b \<Longrightarrow> c_div a b = Some (a div b)"
  by (simp add: c_div_def sdiv_nonneg)

section \<open>Buffers\<close>

text \<open>\<open>rd_block xs i n\<close> reads \<open>n\<close> elements at index \<open>i\<close>; \<open>wr_block\<close> overwrites from \<open>i\<close>.
A negative length is a huge \<open>size_t\<close> in C and therefore has no result here.\<close>

definition rd_block :: "'a list \<Rightarrow> int \<Rightarrow> int \<Rightarrow> 'a list option" where
  "rd_block xs i n = (if 0 \<le> i \<and> 0 \<le> n \<and> i + n \<le> int (length xs)
     then Some (take (nat n) (drop (nat i) xs)) else None)"

definition wr_block :: "'a list \<Rightarrow> int \<Rightarrow> 'a list \<Rightarrow> 'a list option" where
  "wr_block xs i ys = (if 0 \<le> i \<and> i + int (length ys) \<le> int (length xs)
     then Some (take (nat i) xs @ ys @ drop (nat i + length ys) xs) else None)"

definition rd :: "'a list \<Rightarrow> int \<Rightarrow> 'a option" where
  "rd xs i = (if 0 \<le> i \<and> i < int (length xs) then Some (xs ! nat i) else None)"

definition wr :: "'a list \<Rightarrow> int \<Rightarrow> 'a \<Rightarrow> 'a list option" where
  "wr xs i v = (if 0 \<le> i \<and> i < int (length xs) then Some (xs[nat i := v]) else None)"

lemma rd_nat [c_simps]: "rd xs (int n) = (if n < length xs then Some (xs ! n) else None)"
  by (simp add: rd_def)

lemma wr_nat [c_simps]: "wr xs (int n) v = (if n < length xs then Some (xs[n := v]) else None)"
  by (simp add: wr_def)

lemma rd_block_nat [c_simps]:
  "rd_block xs (int i) (int n) = (if i + n \<le> length xs then Some (take n (drop i xs)) else None)"
  by (auto simp: rd_block_def)

lemma wr_block_nat [c_simps]:
  "wr_block xs (int i) ys = (if i + length ys \<le> length xs
     then Some (take i xs @ ys @ drop (i + length ys) xs) else None)"
  by (auto simp: wr_block_def)

lemma wr_length: "wr xs i v = Some ys \<Longrightarrow> length ys = length xs"
  by (auto simp: wr_def split: if_splits)

lemma wr_block_length: "wr_block xs i v = Some ys \<Longrightarrow> length ys = length xs"
  by (auto simp: wr_block_def split: if_splits)

text \<open>Appending over the front of a tail: what a copy into a partly filled buffer leaves.\<close>

lemma wr_block_append [c_simps]:
  assumes "length xs = n" "length ys \<le> length zs"
  shows "wr_block (xs @ zs) (int n) ys = Some (xs @ ys @ drop (length ys) zs)"
  using assms by (simp add: wr_block_nat)

lemma rd_block_append_fst [c_simps]:
  assumes "n \<le> length xs"
  shows "rd_block (xs @ zs) 0 (int n) = Some (take n xs)"
  using assms rd_block_nat [of "xs @ zs" 0 n] by simp

section \<open>Loops over a list\<close>

text \<open>\<open>ofold f xs s\<close> runs the loop body \<open>f\<close> for each element of \<open>xs\<close> and stops at the first fault.\<close>

fun ofold :: "('a \<Rightarrow> 's \<Rightarrow> 's option) \<Rightarrow> 'a list \<Rightarrow> 's \<Rightarrow> 's option" where
  "ofold f [] s = Some s"
| "ofold f (x # xs) s = do { s' \<leftarrow> f x s; ofold f xs s' }"

lemma ofold_append: "ofold f (xs @ ys) s = ofold f xs s \<bind> ofold f ys"
  by (induction xs arbitrary: s) (auto split: Option.bind_splits)

lemma ofold_total:
  assumes "\<And>x s. x \<in> set xs \<Longrightarrow> f x s = Some (g x s)"
  shows "ofold f xs s = Some (fold g xs s)"
  using assms by (induction xs arbitrary: s) auto

lemma ofold_invariant:
  assumes "ofold f xs s = Some s'" "P s" "\<And>x s t. x \<in> set xs \<Longrightarrow> P s \<Longrightarrow> f x s = Some t \<Longrightarrow> P t"
  shows "P s'"
  using assms by (induction xs arbitrary: s) (auto simp: bind_eq_Some_conv)

text \<open>Filling an array cell by cell.\<close>

lemma ofold_wr_fill:
  "k + n \<le> length xs \<Longrightarrow> ofold (\<lambda>i a. wr a (int i) (v i)) [k..<k + n] xs =
    Some (take k xs @ map v [k..<k + n] @ drop (k + n) xs)"
proof (induction n)
  case (Suc n)
  then show ?case
    by (simp add: ofold_append c_simps list_update_append upt_Suc_append Cons_nth_drop_Suc [symmetric])
qed simp

section \<open>Strings\<close>

text \<open>C's \<open>strcmp(a, b) == 0\<close> is equality of lists, \<open>strncmp(a, b, n) == 0\<close> equality of prefixes
(neither string holds a NUL).\<close>

definition strneq :: "nat \<Rightarrow> string \<Rightarrow> string \<Rightarrow> bool" where
  "strneq n a b \<longleftrightarrow> take n a = take n b"

text \<open>printf's \<open>%d\<close>.\<close>

fun nat_to_string :: "nat \<Rightarrow> string" where
  "nat_to_string n = (if n < 10 then [char_of (48 + n)]
     else nat_to_string (n div 10) @ [char_of (48 + n mod 10)])"

declare nat_to_string.simps [simp del]

definition int_to_string :: "int \<Rightarrow> string" where
  "int_to_string i = (if i < 0 then ''-'' @ nat_to_string (nat (- i)) else nat_to_string (nat i))"

end
