(* ===== verification/DmaLib.thy ===== *)
theory DmaLib
imports Prelude
begin

unbundle bit_operations_syntax

text \<open>\<open>kernel/testcases/dma/kernel_space/dma_test_lib.c\<close>: the buffer list of the kernel DMA tests.

A \<open>buflist\<close> holds the C struct and, for the channel it uses, the descriptors submitted and issued
and not yet completed.  The kernel is the argument \<open>kenv\<close>: which channel requests are granted,
what kmalloc's blocks can hold, what the n-th transfer on a channel leaves in its destination, and
so on.  \<open>None\<close> is a kernel oops or memory corruption.  The allocations inside a list succeed and the
driver prepares every descriptor (the code checks neither); the allocation of whole tests in \<open>DmaTests\<close>
may fail.\<close>

type_synonym u32 = "32 word"

section \<open>The kernel the code calls\<close>

datatype dma_flag = DMA_PREP_INTERRUPT | DMA_CTRL_ACK

text \<open>\<open>e_ptr\<close>: size of a pointer.  \<open>e_ksize\<close>: usable bytes of a kmalloc block of the given size.
\<open>e_grant n\<close>: the channel the n-th \<open>dma_request_channel\<close> returns.  \<open>e_rand n\<close>: the n-th random32.
\<open>e_xfer c n k src dst\<close>: what the n-th transfer on channel \<open>c\<close>, of \<open>k\<close> bytes, makes of the
destination.  \<open>e_intr n\<close>: whether the n-th interruptible wait is cut short by a signal, and after how
many events.  \<open>e_wq n\<close>: whether the n-th workqueue can be created.  \<open>e_lock\<close>: the result of taking the
mutex.  \<open>e_residue\<close>: the bytes left a paused channel reports.  \<open>e_map_sg\<close>: how many entries a
scatter list of given length maps to.  \<open>e_mem\<close>: whether the checked kmalloc succeeds.  \<open>e_page\<close>:
\<open>PAGE_SIZE\<close>.  \<open>e_mmc\<close>, \<open>e_debug\<close>: \<open>CONFIG_MMC\<close> and \<open>CONFIG_STE_DMA40_DEBUG\<close>.  \<open>e_sgsize\<close>: the result of
\<open>stedma40_debug_mmc_sgsize\<close>.\<close>

record kenv =
  e_ptr :: nat
  e_ksize :: "nat \<Rightarrow> nat"
  e_grant :: "nat \<Rightarrow> nat option"
  e_rand :: "nat \<Rightarrow> u32"
  e_xfer :: "nat \<Rightarrow> nat \<Rightarrow> nat \<Rightarrow> byte list \<Rightarrow> byte list \<Rightarrow> byte list"
  e_intr :: "nat \<Rightarrow> nat option"
  e_wq :: "nat \<Rightarrow> bool"
  e_lock :: "nat \<Rightarrow> int"
  e_residue :: "nat \<Rightarrow> int"
  e_map_sg :: "nat \<Rightarrow> nat"
  e_mem :: "nat \<Rightarrow> bool"
  e_page :: nat
  e_mmc :: bool
  e_debug :: bool
  e_sgsize :: "u32 \<Rightarrow> bool \<Rightarrow> int"

text \<open>The part of the kernel's state the tests change: counters of the calls that have an answer in
\<open>kenv\<close>, the channels and workqueues held, and what the seq_file has been sent.\<close>

record kern =
  k_reqs :: nat
  k_held :: "nat list"
  k_wqreqs :: nat
  k_wqs :: nat
  k_rands :: nat
  k_waits :: nat
  k_locks :: nat
  k_residues :: nat
  k_mallocs :: nat
  k_chan22 :: "nat option"
  k_unlocks :: nat
  k_seq :: "string list"

definition EINVAL :: int where "EINVAL = 22"

section \<open>struct buflist\<close>

datatype desc = Memcpy nat nat | Sg

record buflist =
  bl_name :: string
  list_size :: "int option list"
  list_buf_src :: "byte list option list"
  list_buf_dst :: "byte list option list"
  bl_desc :: "desc option list"
  sgl_src_len :: nat
  sgl_dst_len :: nat
  bl_flags :: "dma_flag list"
  is_dma_prepared :: bool
  bl_list_len :: nat
  dma_chan :: "nat option"
  bl_callback :: bool
  finished_jobs :: u32
  sent_jobs :: u32
  bl_timer :: bool
  timeout_len :: int
  bl_end_padding :: nat
  bl_submitted :: "desc list"
  bl_issued :: "desc list"
  bl_xfers :: nat
  bl_maps :: int

text \<open>A struct of zero bytes, as the designated initialisers and kzalloc leave it.\<close>

definition buflist0 :: buflist where
  "buflist0 = \<lparr>bl_name = [], list_size = [], list_buf_src = [], list_buf_dst = [], bl_desc = [],
     sgl_src_len = 0, sgl_dst_len = 0, bl_flags = [], is_dma_prepared = False, bl_list_len = 0,
     dma_chan = None, bl_callback = False, finished_jobs = 0, sent_jobs = 0, bl_timer = False,
     timeout_len = 0, bl_end_padding = 0, bl_submitted = [], bl_issued = [], bl_xfers = 0, bl_maps = 0\<rparr>"

text \<open>The loops \<open>for (i = 0; list_size[i] != -1; i++)\<close>: the sizes before the sentinel; no value when
an uninitialised cell or the end of the block comes first.\<close>

fun until_sentinel :: "int option list \<Rightarrow> int list option" where
  "until_sentinel [] = None"
| "until_sentinel (None # xs) = None"
| "until_sentinel (Some v # xs) =
    (if v = - 1 then Some [] else do { vs \<leftarrow> until_sentinel xs; Some (v # vs) })"

section \<open>Creation and sizes\<close>

definition MAX_NAME_LEN :: nat where "MAX_NAME_LEN = 128"

definition int_cells :: "kenv \<Rightarrow> nat \<Rightarrow> nat" where
  "int_cells e len = e_ksize e (e_ptr e * len + 1) div 4"

definition dma_request_channel :: "kenv \<Rightarrow> kern \<Rightarrow> nat option \<times> kern" where
  "dma_request_channel e k = (case e_grant e (k_reqs k) of
      None \<Rightarrow> (None, k\<lparr>k_reqs := k_reqs k + 1\<rparr>)
    | Some c \<Rightarrow> (Some c, k\<lparr>k_reqs := k_reqs k + 1, k_held := c # k_held k\<rparr>))"

definition dma_release_channel :: "nat \<Rightarrow> kern \<Rightarrow> kern" where
  "dma_release_channel c k = k\<lparr>k_held := remove1 c (k_held k)\<rparr>"

definition dmatest_buflist_create ::
  "kenv \<Rightarrow> kern \<Rightarrow> buflist \<Rightarrow> nat \<Rightarrow> nat \<Rightarrow> string \<Rightarrow> dma_flag list \<Rightarrow> int \<Rightarrow> nat option
    \<Rightarrow> int \<times> buflist \<times> kern" where
  "dmatest_buflist_create e k bl len end_padding name flags timeout given =
    (let bl = bl\<lparr>is_dma_prepared := False, bl_flags := flags\<rparr>;
         (chan, k) = (case given of Some c \<Rightarrow> (Some c, k) | None \<Rightarrow> dma_request_channel e k);
         bl = bl\<lparr>dma_chan := chan\<rparr>
     in if chan = None then (- EINVAL, bl, k)
        else (0, bl\<lparr>bl_list_len := len, finished_jobs := 0, bl_name := take (MAX_NAME_LEN - 1) name,
                 sent_jobs := 0, list_size := replicate (int_cells e len) None,
                 list_buf_dst := replicate len None, list_buf_src := replicate len None,
                 bl_desc := replicate len None,
                 bl_end_padding := end_padding, timeout_len := timeout, bl_callback := False,
                 bl_timer := False\<rparr>, k))"

definition ALIGN :: "u32 \<Rightarrow> u32 \<Rightarrow> u32" where
  "ALIGN x a = (x + (a - 1)) AND NOT (a - 1)"

definition u32_div :: "u32 \<Rightarrow> u32 \<Rightarrow> u32 option" where
  "u32_div a b = (if b = 0 then None else Some (a div b))"

definition random_size :: "u32 \<Rightarrow> u32 \<Rightarrow> u32 \<Rightarrow> u32 \<Rightarrow> u32 option" where
  "random_size r mn mx al = do {
     bucket \<leftarrow> u32_div 0xFFFFFFFF (mx - mn);
     q \<leftarrow> u32_div r bucket;
     let v = ALIGN (q + mn) al;
     chk (v \<le> ALIGN mx al);
     Some v
   }"

definition randomize_step :: "kenv \<Rightarrow> u32 \<Rightarrow> u32 \<Rightarrow> u32 \<Rightarrow> nat \<Rightarrow> buflist \<times> kern \<Rightarrow> (buflist \<times> kern) option" where
  "randomize_step e mn mx al i s = do {
     let (bl, k) = s;
     v \<leftarrow> random_size (e_rand e (k_rands k)) mn mx al;
     ls \<leftarrow> wr (list_size bl) (int i) (Some (sint v));
     Some (bl\<lparr>list_size := ls\<rparr>, k\<lparr>k_rands := k_rands k + 1\<rparr>)
   }"

definition dmatest_sizelist_randomize ::
  "kenv \<Rightarrow> u32 \<Rightarrow> u32 \<Rightarrow> u32 \<Rightarrow> buflist \<times> kern \<Rightarrow> (buflist \<times> kern) option" where
  "dmatest_sizelist_randomize e mn mx al s = do {
     (bl, k) \<leftarrow> ofold (randomize_step e mn mx al) [0..<bl_list_len (fst s)] s;
     ls \<leftarrow> wr (list_size bl) (int (bl_list_len bl)) (Some (- 1));
     Some (bl\<lparr>list_size := ls\<rparr>, k)
   }"

definition dmatest_sizelist_set ::
  "u32 \<Rightarrow> u32 \<Rightarrow> buflist \<Rightarrow> buflist option" where
  "dmatest_sizelist_set value al bl = do {
     ls \<leftarrow> ofold (\<lambda>i ls. wr ls (int i) (Some (sint (ALIGN value al))))
       [0..<bl_list_len bl] (list_size bl);
     ls \<leftarrow> wr ls (int (bl_list_len bl)) (Some (- 1));
     Some (bl\<lparr>list_size := ls\<rparr>)
   }"

section \<open>Buffers\<close>

text \<open>What the loops of \<open>dmatest_buflist_alloc\<close> write: \<open>(u8) (i + buf_i)\<close> and 0xAA, then the padding.\<close>

definition src_init :: "nat \<Rightarrow> nat \<Rightarrow> nat \<Rightarrow> byte list" where
  "src_init buf_i sz pad = map (\<lambda>i. of_nat (i + buf_i)) [0..<sz] @ replicate pad 0xBE"

definition dst_init :: "nat \<Rightarrow> nat \<Rightarrow> byte list" where
  "dst_init sz pad = replicate sz 0xAA @ replicate pad 0xBE"

definition alloc_step :: "int list \<Rightarrow> nat \<Rightarrow> buflist \<Rightarrow> buflist option" where
  "alloc_step sizes buf_i bl = do {
     let sz = sizes ! buf_i;
     chk (0 \<le> sz);
     src \<leftarrow> wr (list_buf_src bl) (int buf_i) (Some (src_init buf_i (nat sz) (bl_end_padding bl)));
     dst \<leftarrow> wr (list_buf_dst bl) (int buf_i) (Some (dst_init (nat sz) (bl_end_padding bl)));
     Some (bl\<lparr>list_buf_src := src, list_buf_dst := dst,
       bl_maps := bl_maps bl + (if bl_end_padding bl \<noteq> 0 then 2 else 0)\<rparr>)
   }"

definition dmatest_buflist_alloc :: "buflist \<Rightarrow> buflist option" where
  "dmatest_buflist_alloc bl = do {
     sizes \<leftarrow> until_sentinel (list_size bl);
     ofold (alloc_step sizes) [0..<length sizes] bl
   }"

definition free_step :: "nat \<Rightarrow> buflist \<Rightarrow> buflist option" where
  "free_step i bl = do {
     src \<leftarrow> wr (list_buf_src bl) (int i) None;
     dst \<leftarrow> wr (list_buf_dst bl) (int i) None;
     Some (bl\<lparr>list_buf_src := src, list_buf_dst := dst\<rparr>)
   }"

definition dmatest_buflist_free :: "buflist \<Rightarrow> buflist option" where
  "dmatest_buflist_free bl = do {
     sizes \<leftarrow> until_sentinel (list_size bl);
     ofold free_step [0..<length sizes] bl
   }"

definition dmatest_buflist_destroy :: "buflist \<times> kern \<Rightarrow> (buflist \<times> kern) option" where
  "dmatest_buflist_destroy s = do {
     let (bl, k) = s;
     let k = (case dma_chan bl of None \<Rightarrow> k | Some c \<Rightarrow> dma_release_channel c k);
     bl \<leftarrow> dmatest_buflist_free bl;
     Some (bl\<lparr>list_size := [], list_buf_src := [], list_buf_dst := [], bl_desc := []\<rparr>, k)
   }"

text \<open>\<open>payload_printdiff\<close>: the indices it prints, at most 16.\<close>

definition dmatest_buflist_payload_printdiff :: "buflist \<Rightarrow> nat \<Rightarrow> nat list option" where
  "dmatest_buflist_payload_printdiff bl i = do {
     sz \<leftarrow> rd (list_size bl) (int i);
     n \<leftarrow> sz;
     src \<leftarrow> rd (list_buf_src bl) (int i);
     s \<leftarrow> src;
     dst \<leftarrow> rd (list_buf_dst bl) (int i);
     d \<leftarrow> dst;
     chk (nat n \<le> length s \<and> nat n \<le> length d);
     Some (take 16 [j \<leftarrow> [0..<nat n]. d ! j \<noteq> s ! j])
   }"

text \<open>One buffer of \<open>dmatest_buflist_payload_check\<close>: \<open>memcmp(...) != 0\<close>.\<close>

definition payload_differs :: "buflist \<Rightarrow> nat \<Rightarrow> int \<Rightarrow> bool option" where
  "payload_differs bl i sz = do {
     src \<leftarrow> rd (list_buf_src bl) (int i);
     s \<leftarrow> src;
     dst \<leftarrow> rd (list_buf_dst bl) (int i);
     d \<leftarrow> dst;
     x \<leftarrow> rd_block d 0 sz;
     y \<leftarrow> rd_block s 0 sz;
     Some (x \<noteq> y)
   }"

definition payload_check_step :: "int list \<Rightarrow> nat \<Rightarrow> int \<times> buflist \<Rightarrow> (int \<times> buflist) option" where
  "payload_check_step sizes i s = do {
     let (err, bl) = s;
     let bl = bl\<lparr>bl_maps := bl_maps bl - (if sgl_src_len bl = 0 then 1 else 0)
                             - (if sgl_dst_len bl = 0 then 1 else 0)\<rparr>;
     differ \<leftarrow> payload_differs bl i (sizes ! i);
     Some (if differ then - 1 else err, bl)
   }"

definition dmatest_buflist_payload_check :: "buflist \<Rightarrow> (int \<times> buflist) option" where
  "dmatest_buflist_payload_check bl = do {
     sizes \<leftarrow> until_sentinel (list_size bl);
     let bl = bl\<lparr>bl_maps := bl_maps bl - (if sgl_src_len bl \<noteq> 0 then 1 else 0)
                              - (if sgl_dst_len bl \<noteq> 0 then 1 else 0)\<rparr>;
     ofold (payload_check_step sizes) [0..<length sizes] (0, bl)
   }"

section \<open>Starting transfers\<close>

definition prep_single :: "nat \<Rightarrow> int \<Rightarrow> buflist \<Rightarrow> buflist option" where
  "prep_single i sz bl = do {
     d \<leftarrow> wr (bl_desc bl) (int i) (Some (Memcpy i (nat sz)));
     Some (bl\<lparr>bl_desc := d, bl_maps := bl_maps bl + 2\<rparr>)
   }"

definition submit :: "nat \<Rightarrow> buflist \<Rightarrow> buflist option" where
  "submit i bl = do {
     dd \<leftarrow> rd (bl_desc bl) (int i);
     d \<leftarrow> dd;
     Some (bl\<lparr>bl_submitted := bl_submitted bl @ [d]\<rparr>)
   }"

definition dma_async_issue_pending :: "buflist \<Rightarrow> buflist" where
  "dma_async_issue_pending bl =
    bl\<lparr>bl_issued := bl_issued bl @ bl_submitted bl, bl_submitted := []\<rparr>"

definition dmatest_buflist_start_single :: "buflist \<Rightarrow> buflist option" where
  "dmatest_buflist_start_single bl = do {
     sizes \<leftarrow> until_sentinel (list_size bl);
     bl \<leftarrow> (if DMA_CTRL_ACK \<in> set (bl_flags bl) \<or> \<not> is_dma_prepared bl then do {
         bl \<leftarrow> ofold (\<lambda>i. prep_single i (sizes ! i)) [0..<length sizes] bl;
         Some (bl\<lparr>is_dma_prepared := True\<rparr>)
       } else Some bl);
     let bl = bl\<lparr>bl_callback := True, sgl_src_len := 0, sgl_dst_len := 0\<rparr>;
     bl \<leftarrow> ofold submit [0..<length sizes] bl;
     Some (dma_async_issue_pending (bl\<lparr>bl_timer := True\<rparr>))
   }"

definition dmatest_buflist_start_sg :: "kenv \<Rightarrow> buflist \<Rightarrow> buflist option" where
  "dmatest_buflist_start_sg e bl = do {
     let bl = bl\<lparr>sgl_src_len := e_map_sg e (bl_list_len bl), sgl_dst_len := e_map_sg e (bl_list_len bl),
                 bl_maps := bl_maps bl + 2\<rparr>;
     bl \<leftarrow> (if DMA_CTRL_ACK \<in> set (bl_flags bl) \<or> \<not> is_dma_prepared bl then do {
         d \<leftarrow> wr (bl_desc bl) 0 (Some Sg);
         Some (bl\<lparr>bl_desc := d, is_dma_prepared := True\<rparr>)
       } else Some bl);
     let bl = bl\<lparr>bl_callback := True\<rparr>;
     bl \<leftarrow> submit 0 bl;
     Some (dma_async_issue_pending (bl\<lparr>bl_timer := True\<rparr>))
   }"

definition dmatest_buflist_reset_nbr_finished :: "buflist \<Rightarrow> buflist" where
  "dmatest_buflist_reset_nbr_finished bl = bl\<lparr>finished_jobs := 0, sent_jobs := 0\<rparr>"

definition dmatest_buflist_get_nbr_finished :: "buflist \<Rightarrow> int" where
  "dmatest_buflist_get_nbr_finished bl = sint (finished_jobs bl)"

section \<open>Completion\<close>

text \<open>What the engine does with one descriptor: the buffers it copies, through \<open>e_xfer\<close>.\<close>

definition copy_buf :: "kenv \<Rightarrow> nat \<Rightarrow> nat \<Rightarrow> buflist \<Rightarrow> buflist option" where
  "copy_buf e i sz bl = do {
     c \<leftarrow> dma_chan bl;
     src \<leftarrow> rd (list_buf_src bl) (int i);
     s \<leftarrow> src;
     dst \<leftarrow> rd (list_buf_dst bl) (int i);
     d \<leftarrow> dst;
     dst' \<leftarrow> wr (list_buf_dst bl) (int i) (Some (e_xfer e c (bl_xfers bl) sz s d));
     Some (bl\<lparr>list_buf_dst := dst', bl_xfers := bl_xfers bl + 1\<rparr>)
   }"

definition engine_exec :: "kenv \<Rightarrow> desc \<Rightarrow> buflist \<Rightarrow> buflist option" where
  "engine_exec e d bl = (case d of
      Memcpy i sz \<Rightarrow> copy_buf e i sz bl
    | Sg \<Rightarrow> do {
        sizes \<leftarrow> until_sentinel (list_size bl);
        ofold (\<lambda>i. copy_buf e i (nat (sizes ! i))) [0..<length sizes] bl
      })"

text \<open>\<open>transmit_cb\<close> up to the call of \<open>buflist->callback\<close>.\<close>

definition transmit_cb :: "buflist \<Rightarrow> buflist" where
  "transmit_cb bl = bl\<lparr>bl_timer := False, finished_jobs := finished_jobs bl + 1\<rparr>"

text \<open>\<open>transfer_timedout\<close> prints one line per buffer and the number of jobs, and changes nothing.\<close>

definition transfer_timedout :: "buflist \<Rightarrow> int option" where
  "transfer_timedout bl = map_option (\<lambda>s. int (length s)) (until_sentinel (list_size bl))"

end
