(* ===== verification/DmaEngine.thy ===== *)
theory DmaEngine
imports DmaLib
begin

text \<open>The test engine of \<open>kernel/testcases/dma/kernel_space/dma_test_module.c\<close>: \<open>struct tc_struct\<close>,
the work functions, the completion callback \<open>tc_worker\<close> that counts callbacks into laps, and waiting
for the end of a test.

A running test is a state machine.  Its events are the workqueue running \<open>work_start\<close> and the DMA
engine finishing the oldest issued descriptor (which runs the callback); \<open>tc_step\<close> is the next
event, \<open>tc_wait\<close> waits through events until \<open>complete\<close> was called or a signal arrives, and
\<open>pstep\<close> (in \<open>DmaSchedule\<close>) is one event of one of several tests.\<close>

section \<open>struct tc_struct\<close>

datatype wqueue = WqNull | WqLive | WqFreed

record tc =
  tc_name :: string
  laps :: int
  tc_end_padding :: nat
  do_check_buffer :: bool
  tc_list_len :: nat
  tc_err :: int
  nbr_returns_per_transfer :: int
  tc_wq :: wqueue
  tc_bl :: buflist
  work_sg :: bool
  work_queued :: bool
  tc_done :: nat
  job_counter :: int

definition tc0 :: tc where
  "tc0 = \<lparr>tc_name = [], laps = 0, tc_end_padding = 0, do_check_buffer = False, tc_list_len = 0,
     tc_err = 0, nbr_returns_per_transfer = 0, tc_wq = WqNull, tc_bl = buflist0, work_sg = False,
     work_queued = False, tc_done = 0, job_counter = 0\<rparr>"

section \<open>Workqueue, callback, wait\<close>

definition queue_work :: "tc \<Rightarrow> tc option" where
  "queue_work tc = do { chk (tc_wq tc = WqLive); Some (tc\<lparr>work_queued := True\<rparr>) }"

definition tc_worker_start_single :: "tc \<Rightarrow> tc option" where
  "tc_worker_start_single tc = do {
     bl \<leftarrow> dmatest_buflist_start_single (tc_bl tc);
     Some (tc\<lparr>tc_bl := bl\<rparr>)
   }"

definition tc_worker_start_sg :: "kenv \<Rightarrow> tc \<Rightarrow> tc option" where
  "tc_worker_start_sg e tc = do {
     bl \<leftarrow> dmatest_buflist_start_sg e (tc_bl tc);
     Some (tc\<lparr>tc_bl := bl\<rparr>)
   }"

definition run_work :: "kenv \<Rightarrow> tc \<Rightarrow> tc option" where
  "run_work e tc = (let tc = tc\<lparr>work_queued := False\<rparr> in
     if work_sg tc then tc_worker_start_sg e tc else tc_worker_start_single tc)"

definition tc_worker :: "tc \<Rightarrow> tc option" where
  "tc_worker tc = do {
     let finished_cbs = dmatest_buflist_get_nbr_finished (tc_bl tc);
     let tc = tc\<lparr>job_counter := job_counter tc + 1\<rparr>;
     if job_counter tc = nbr_returns_per_transfer tc then do {
       tc \<leftarrow> (if do_check_buffer tc then do {
           (err, bl) \<leftarrow> dmatest_buflist_payload_check (tc_bl tc);
           Some (tc\<lparr>tc_err := err, tc_bl := bl\<rparr>)
         } else Some tc);
       let tc = tc\<lparr>laps := laps tc - 1\<rparr>;
       if laps tc = 0 then Some (tc\<lparr>tc_done := tc_done tc + 1\<rparr>)
       else queue_work (tc\<lparr>tc_bl := dmatest_buflist_reset_nbr_finished (tc_bl tc), job_counter := 0\<rparr>)
     } else Some tc
   }"

definition tc_step :: "kenv \<Rightarrow> tc \<Rightarrow> tc option" where
  "tc_step e tc =
    (if work_queued tc then run_work e tc
     else case bl_issued (tc_bl tc) of
       [] \<Rightarrow> None
     | d # ds \<Rightarrow> do {
         bl \<leftarrow> engine_exec e d ((tc_bl tc)\<lparr>bl_issued := ds\<rparr>);
         if DMA_PREP_INTERRUPT \<in> set (bl_flags bl) then do {
           let bl = transmit_cb bl;
           let tc = tc\<lparr>tc_bl := bl\<rparr>;
           if bl_callback bl then tc_worker tc else Some tc
         } else Some (tc\<lparr>tc_bl := bl\<rparr>)
       })"

text \<open>\<open>wait_for_completion_interruptible\<close>: \<open>sig = Some n\<close> is a signal after \<open>n\<close> events.  \<open>None\<close> when
no event is left to wait for (the caller blocks) or an event oopses.\<close>

partial_function (option) tc_wait :: "kenv \<Rightarrow> nat option \<Rightarrow> tc \<Rightarrow> tc option" where
  "tc_wait e sig tc =
    (if 0 < tc_done tc then Some (tc\<lparr>tc_done := tc_done tc - 1\<rparr>)
     else if sig = Some 0 then Some tc
     else do {
       tc' \<leftarrow> tc_step e tc;
       tc_wait e (map_option (\<lambda>n. n - 1) sig) tc'
     })"

text \<open>\<open>while (!tc_test_is_done(tc)) ...\<close>: polling, one event per turn, not interruptible.\<close>

definition tc_test_is_done :: "tc \<Rightarrow> bool" where
  "tc_test_is_done tc = (0 < tc_done tc)"

partial_function (option) tc_poll :: "kenv \<Rightarrow> tc \<Rightarrow> tc option" where
  "tc_poll e tc = (if tc_test_is_done tc then Some tc else do { tc' \<leftarrow> tc_step e tc; tc_poll e tc' })"

definition create_singlethread_workqueue :: "kenv \<Rightarrow> kern \<Rightarrow> wqueue \<times> kern" where
  "create_singlethread_workqueue e k =
    (if e_wq e (k_wqreqs k)
     then (WqLive, k\<lparr>k_wqreqs := k_wqreqs k + 1, k_wqs := k_wqs k + 1\<rparr>)
     else (WqNull, k\<lparr>k_wqreqs := k_wqreqs k + 1\<rparr>))"

text \<open>Destroying a workqueue runs the work still queued on it first.\<close>

definition destroy_workqueue :: "kenv \<Rightarrow> tc \<times> kern \<Rightarrow> (tc \<times> kern) option" where
  "destroy_workqueue e s = do {
     let (tc, k) = s;
     chk (tc_wq tc = WqLive);
     tc \<leftarrow> (if work_queued tc then run_work e tc else Some tc);
     Some (tc\<lparr>tc_wq := WqFreed\<rparr>, k\<lparr>k_wqs := k_wqs k - 1\<rparr>)
   }"

definition tc_test_wait :: "kenv \<Rightarrow> tc \<times> kern \<Rightarrow> (tc \<times> kern) option" where
  "tc_test_wait e s = do {
     let (tc, k) = s;
     tc \<leftarrow> tc_wait e (e_intr e (k_waits k)) tc;
     Some (tc, k\<lparr>k_waits := k_waits k + 1\<rparr>)
   }"

definition tc_test_run :: "tc \<Rightarrow> tc option" where
  "tc_test_run tc = queue_work tc"

definition tc_test_free :: "kenv \<Rightarrow> tc \<times> kern \<Rightarrow> (tc \<times> kern) option" where
  "tc_test_free e s = do {
     (tc, k) \<leftarrow> destroy_workqueue e s;
     (bl, k) \<leftarrow> dmatest_buflist_destroy (tc_bl tc, k);
     Some (tc\<lparr>tc_bl := bl\<rparr>, k)
   }"

definition tc_test_init ::
  "kenv \<Rightarrow> tc \<Rightarrow> bool \<Rightarrow> u32 \<Rightarrow> bool \<Rightarrow> dma_flag list \<Rightarrow> u32 \<Rightarrow> int \<Rightarrow> kern \<Rightarrow> (int \<times> tc \<times> kern) option" where
  "tc_test_init e tc is_sg_transfer sz is_const_size dma_flags tx_align timeout k = do {
     let (wq, k) = create_singlethread_workqueue e k;
     let tc = tc\<lparr>tc_wq := wq\<rparr>;
     if wq = WqNull then Some (- EINVAL, tc, k)
     else do {
       let (err, bl, k) = dmatest_buflist_create e k (tc_bl tc) (tc_list_len tc) (tc_end_padding tc)
         (tc_name tc) dma_flags timeout None;
       let tc = tc\<lparr>tc_bl := bl\<rparr>;
       if err \<noteq> 0 then do {
         (tc, k) \<leftarrow> destroy_workqueue e (tc, k);
         Some (- EINVAL, tc, k)
       } else do {
         let tc = tc\<lparr>job_counter := 0, work_sg := is_sg_transfer,
           nbr_returns_per_transfer := (if is_sg_transfer then 1 else int (tc_list_len tc)),
           tc_done := 0\<rparr>;
         (bl, k) \<leftarrow> (if is_const_size then do {
             bl \<leftarrow> dmatest_sizelist_set sz tx_align (tc_bl tc);
             Some (bl, k)
           } else dmatest_sizelist_randomize e 1 (60 * 1024) tx_align (tc_bl tc, k));
         bl \<leftarrow> dmatest_buflist_alloc bl;
         Some (0, tc\<lparr>tc_bl := bl\<rparr>, k)
       }
     }
   }"

section \<open>Buffer lists in good order\<close>

text \<open>\<open>bl_good sizes ss ds\<close>: the list has these sizes, source and destination buffers; every buffer
holds its size, and source and destination agree beyond it (the padding).\<close>

definition bl_good :: "int list \<Rightarrow> byte list list \<Rightarrow> byte list list \<Rightarrow> buflist \<Rightarrow> bool" where
  "bl_good sizes ss ds bl \<longleftrightarrow>
     until_sentinel (list_size bl) = Some sizes \<and> bl_list_len bl = length sizes \<and>
     (\<forall>s \<in> set sizes. 0 \<le> s) \<and>
     list_buf_src bl = map Some ss \<and> list_buf_dst bl = map Some ds \<and>
     length ss = length sizes \<and> length ds = length sizes \<and> length (bl_desc bl) = length sizes \<and>
     (\<forall>i < length sizes. nat (sizes ! i) \<le> length (ss ! i) \<and> length (ds ! i) = length (ss ! i) \<and>
        drop (nat (sizes ! i)) (ds ! i) = drop (nat (sizes ! i)) (ss ! i)) \<and>
     dma_chan bl \<noteq> None \<and> bl_submitted bl = []"

text \<open>An engine that copies what it was asked to copy, and nothing else.\<close>

definition faithful_engine :: "kenv \<Rightarrow> bool" where
  "faithful_engine e \<longleftrightarrow> (\<forall>c n k s d. e_xfer e c n k s d = take k s @ drop k d)"

lemma bl_good_size: "bl_good sizes ss ds bl \<Longrightarrow> i < length sizes \<Longrightarrow> 0 \<le> sizes ! i"
  by (simp add: bl_good_def)

lemma copy_buf_good:
  assumes "faithful_engine e" "bl_good sizes ss ds bl" "i < length sizes"
  shows "copy_buf e i (nat (sizes ! i)) bl =
    Some (bl\<lparr>list_buf_dst := map Some (ds[i := ss ! i]), bl_xfers := bl_xfers bl + 1\<rparr>)"
proof -
  from assms have len: "length ss = length sizes" "length ds = length sizes"
    and d: "drop (nat (sizes ! i)) (ds ! i) = drop (nat (sizes ! i)) (ss ! i)"
    by (auto simp: bl_good_def)
  obtain c where c: "dma_chan bl = Some c" using assms(2) by (auto simp: bl_good_def)
  have "e_xfer e c (bl_xfers bl) (nat (sizes ! i)) (ss ! i) (ds ! i) = ss ! i"
    using assms(1) d by (simp add: faithful_engine_def)
  with assms len c show ?thesis
    by (simp add: copy_buf_def bl_good_def c_simps map_update)
qed

lemma bl_good_update:
  assumes "bl_good sizes ss ds bl" "i < length sizes"
  shows "bl_good sizes ss (ds[i := ss ! i])
    (bl\<lparr>list_buf_dst := map Some (ds[i := ss ! i]), bl_xfers := n\<rparr>)"
  using assms by (auto simp: bl_good_def nth_list_update)

lemma list_update_fill: "j < length ds \<Longrightarrow> length ss = length ds \<Longrightarrow>
  (take j ss @ drop j ds)[j := ss ! j] = take (Suc j) ss @ drop (Suc j) ds"
  by (simp add: list_update_append take_Suc_conv_app_nth Cons_nth_drop_Suc [symmetric])

lemma payload_differs_good:
  assumes "bl_good sizes ss ds bl" "i < length sizes"
  shows "payload_differs bl i (sizes ! i) = Some (ds ! i \<noteq> ss ! i)"
proof -
  let ?n = "nat (sizes ! i)"
  from assms have n: "0 \<le> sizes ! i" "?n \<le> length (ss ! i)" "length (ds ! i) = length (ss ! i)"
    and d: "drop ?n (ds ! i) = drop ?n (ss ! i)"
    by (auto simp: bl_good_def)
  have "take ?n (ds ! i) = take ?n (ss ! i) \<longleftrightarrow> ds ! i = ss ! i"
    using d by (metis append_take_drop_id)
  then show ?thesis
    using assms n by (simp add: payload_differs_def bl_good_def c_simps rd_block_def le_nat_iff nat_le_iff)
qed

lemma payload_fold_good:
  assumes "bl_good sizes ss ds bl" "j + n = length sizes"
  shows "\<exists>m'. ofold (payload_check_step sizes) [j..<length sizes] (err, bl\<lparr>bl_maps := m\<rparr>) =
     Some (if drop j ds = drop j ss then err else - 1, bl\<lparr>bl_maps := m'\<rparr>)"
  using assms
proof (induction n arbitrary: j err m)
  case 0
  then show ?case by (auto simp: bl_good_def)
next
  case (Suc n)
  let ?m = "m - (if sgl_src_len bl = 0 then 1 else 0) - (if sgl_dst_len bl = 0 then 1 else 0)"
  let ?e = "if ds ! j \<noteq> ss ! j then - 1 else err"
  have j: "j < length sizes" using Suc.prems by simp
  have g: "bl_good sizes ss ds (bl\<lparr>bl_maps := ?m\<rparr>)"
    using Suc.prems by (simp add: bl_good_def)
  have step: "payload_check_step sizes j (err, bl\<lparr>bl_maps := m\<rparr>) = Some (?e, bl\<lparr>bl_maps := ?m\<rparr>)"
    using payload_differs_good [OF g j] by (simp add: payload_check_step_def Let_def)
  have dr: "drop j ds = drop j ss \<longleftrightarrow> ds ! j = ss ! j \<and> drop (Suc j) ds = drop (Suc j) ss"
    using j Suc.prems(1) by (simp add: bl_good_def Cons_nth_drop_Suc [symmetric])
  have "ofold (payload_check_step sizes) [j..<length sizes] (err, bl\<lparr>bl_maps := m\<rparr>) =
      ofold (payload_check_step sizes) [Suc j..<length sizes] (?e, bl\<lparr>bl_maps := ?m\<rparr>)"
    using j step by (simp add: upt_conv_Cons)
  moreover obtain m' where "ofold (payload_check_step sizes) [Suc j..<length sizes] (?e, bl\<lparr>bl_maps := ?m\<rparr>) =
      Some (if drop (Suc j) ds = drop (Suc j) ss then ?e else - 1, bl\<lparr>bl_maps := m'\<rparr>)"
    using Suc.IH [OF Suc.prems(1), of "Suc j" ?e ?m] Suc.prems(2) by auto
  moreover have "(if drop (Suc j) ds = drop (Suc j) ss then ?e else - 1) =
      (if drop j ds = drop j ss then err else - 1)"
    using dr by simp
  ultimately show ?case by (intro exI [of _ m']) (simp only:)
qed

lemma payload_check_good:
  assumes "bl_good sizes ss ds bl"
  shows "\<exists>m. dmatest_buflist_payload_check bl = Some (if ds = ss then 0 else - 1, bl\<lparr>bl_maps := m\<rparr>)"
proof -
  let ?m = "bl_maps bl - (if sgl_src_len bl \<noteq> 0 then 1 else 0) - (if sgl_dst_len bl \<noteq> 0 then 1 else 0)"
  have "dmatest_buflist_payload_check bl =
      ofold (payload_check_step sizes) [0..<length sizes] (0, bl\<lparr>bl_maps := ?m\<rparr>)"
    using assms by (simp add: dmatest_buflist_payload_check_def bl_good_def Let_def)
  with payload_fold_good [OF assms, of 0 "length sizes" 0 ?m] show ?thesis by simp
qed


section \<open>One lap\<close>

definition all_descs :: "int list \<Rightarrow> desc list" where
  "all_descs sizes = map (\<lambda>i. Memcpy i (nat (sizes ! i))) [0..<length sizes]"

lemma all_descs_length [simp]: "length (all_descs sizes) = length sizes"
  by (simp add: all_descs_def)

lemma all_descs_nth [simp]: "i < length sizes \<Longrightarrow> all_descs sizes ! i = Memcpy i (nat (sizes ! i))"
  by (simp add: all_descs_def)

lemma prep_single_fold:
  assumes "length (bl_desc bl) = length sizes" "n \<le> length sizes"
  shows "ofold (\<lambda>i. prep_single i (sizes ! i)) [0..<n] bl =
    Some (bl\<lparr>bl_desc := map Some (take n (all_descs sizes)) @ drop n (bl_desc bl),
              bl_maps := bl_maps bl + 2 * int n\<rparr>)"
  using assms(2)
proof (induction n)
  case (Suc n)
  then show ?case using assms(1)
    by (simp add: ofold_append prep_single_def c_simps list_update_append take_Suc_conv_app_nth
        Cons_nth_drop_Suc [symmetric] min_absorb1)
qed simp

lemma submit_fold:
  assumes "bl_desc bl = map Some dl" "n \<le> length dl"
  shows "ofold submit [0..<n] bl = Some (bl\<lparr>bl_submitted := bl_submitted bl @ take n dl\<rparr>)"
  using assms(2)
proof (induction n)
  case (Suc n)
  then show ?case using assms(1)
    by (simp add: ofold_append submit_def c_simps take_Suc_conv_app_nth)
qed simp

text \<open>What a (re)start needs: descriptors can be prepared, or the ones of the first lap are there.\<close>

definition startable :: "bool \<Rightarrow> int list \<Rightarrow> buflist \<Rightarrow> bool" where
  "startable sg sizes bl \<longleftrightarrow> DMA_CTRL_ACK \<in> set (bl_flags bl) \<or> \<not> is_dma_prepared bl \<or>
     (if sg then bl_desc bl ! 0 = Some Sg else bl_desc bl = map Some (all_descs sizes))"

text \<open>The outcome of a start: the same buffers, all descriptors issued, still startable.\<close>

definition started :: "bool \<Rightarrow> int list \<Rightarrow> buflist \<Rightarrow> buflist \<Rightarrow> bool" where
  "started sg sizes bl bl' \<longleftrightarrow> bl_issued bl' = (if sg then [Sg] else all_descs sizes) \<and>
     bl_flags bl' = bl_flags bl \<and> bl_callback bl' \<and> startable sg sizes bl' \<and> dma_chan bl' = dma_chan bl"

lemma start_single_good:
  assumes "bl_good sizes ss ds bl" "startable False sizes bl" "bl_issued bl = []"
  shows "\<exists>bl'. dmatest_buflist_start_single bl = Some bl' \<and> bl_good sizes ss ds bl' \<and> started False sizes bl bl'"
proof -
  from assms(1) have s: "until_sentinel (list_size bl) = Some sizes" "length (bl_desc bl) = length sizes"
    "bl_submitted bl = []"
    by (auto simp: bl_good_def)
  show ?thesis
  proof (cases "DMA_CTRL_ACK \<in> set (bl_flags bl) \<or> \<not> is_dma_prepared bl")
    case True
    have p: "ofold (\<lambda>i. prep_single i (sizes ! i)) [0..<length sizes] bl =
        Some (bl\<lparr>bl_desc := map Some (all_descs sizes), bl_maps := bl_maps bl + 2 * int (length sizes)\<rparr>)"
      using prep_single_fold [OF s(2), of "length sizes"] s by simp
    show ?thesis
      using assms True s p
      by (auto simp: dmatest_buflist_start_single_def submit_fold Let_def dma_async_issue_pending_def
          bl_good_def started_def startable_def)
  next
    case False
    then have "bl_desc bl = map Some (all_descs sizes)" using assms(2) by (auto simp: startable_def)
    with assms False s show ?thesis
      by (auto simp: dmatest_buflist_start_single_def submit_fold Let_def dma_async_issue_pending_def
          bl_good_def started_def startable_def)
  qed
qed

lemma start_sg_good:
  assumes "bl_good sizes ss ds bl" "startable True sizes bl" "bl_issued bl = []" "sizes \<noteq> []"
  shows "\<exists>bl'. dmatest_buflist_start_sg e bl = Some bl' \<and> bl_good sizes ss ds bl' \<and> started True sizes bl bl'"
proof -
  have l: "0 < length (bl_desc bl)" using assms by (auto simp: bl_good_def)
  have w: "wr (bl_desc bl) 0 v = Some ((bl_desc bl)[0 := v])" for v
    using l by (simp add: wr_def)
  have r: "rd ((bl_desc bl)[0 := v]) 0 = Some v" "rd (bl_desc bl) 0 = Some (bl_desc bl ! 0)" for v
    using l by (simp_all add: rd_def)
  show ?thesis
    using assms l w r
    by (auto simp: dmatest_buflist_start_sg_def submit_def Let_def dma_async_issue_pending_def
        bl_good_def started_def startable_def)
qed

lemma copy_all_good:
  assumes "faithful_engine e" "bl_good sizes ss ds bl" "n \<le> length sizes"
  shows "ofold (\<lambda>i. copy_buf e i (nat (sizes ! i))) [0..<n] bl =
      Some (bl\<lparr>list_buf_dst := map Some (take n ss @ drop n ds), bl_xfers := bl_xfers bl + n\<rparr>) \<and>
    bl_good sizes ss (take n ss @ drop n ds)
      (bl\<lparr>list_buf_dst := map Some (take n ss @ drop n ds), bl_xfers := bl_xfers bl + n\<rparr>)"
  using assms(3)
proof (induction n)
  case 0
  have "bl\<lparr>list_buf_dst := map Some ds, bl_xfers := bl_xfers bl\<rparr> = bl"
    using assms(2) by (simp add: bl_good_def)
  with assms(2) show ?case by simp
next
  case (Suc n)
  let ?bl = "bl\<lparr>list_buf_dst := map Some (take n ss @ drop n ds), bl_xfers := bl_xfers bl + n\<rparr>"
  have len: "length ss = length ds" "length ds = length sizes" using assms(2) by (auto simp: bl_good_def)
  from Suc have g: "bl_good sizes ss (take n ss @ drop n ds) ?bl" and n: "n < length sizes" by auto
  have u: "(take n ss @ drop n ds)[n := ss ! n] = take (Suc n) ss @ drop (Suc n) ds"
    using n len by (intro list_update_fill) auto
  show ?case
    using Suc copy_buf_good [OF assms(1) g n] bl_good_update [OF g n, of "bl_xfers bl + Suc n"]
    by (simp add: ofold_append u)
qed

section \<open>A whole test\<close>

text \<open>What stays fixed while a test runs.\<close>

definition tc_fixed :: "int list \<Rightarrow> byte list list \<Rightarrow> byte list list \<Rightarrow> nat \<Rightarrow> tc \<Rightarrow> bool" where
  "tc_fixed sizes ss ds L tc \<longleftrightarrow> bl_good sizes ss ds (tc_bl tc) \<and>
     startable (work_sg tc) sizes (tc_bl tc) \<and> tc_wq tc = WqLive \<and> tc_done tc = 0 \<and>
     laps tc = int L \<and> 0 < L \<and> DMA_PREP_INTERRUPT \<in> set (bl_flags (tc_bl tc)) \<and> sizes \<noteq> [] \<and>
     nbr_returns_per_transfer tc = (if work_sg tc then 1 else int (length sizes)) \<and> do_check_buffer tc"

definition tc_ready :: "int list \<Rightarrow> byte list list \<Rightarrow> byte list list \<Rightarrow> nat \<Rightarrow> tc \<Rightarrow> bool" where
  "tc_ready sizes ss ds L tc \<longleftrightarrow> tc_fixed sizes ss ds L tc \<and>
     bl_issued (tc_bl tc) = [] \<and> work_queued tc \<and> job_counter tc = 0"

definition tc_running :: "int list \<Rightarrow> byte list list \<Rightarrow> byte list list \<Rightarrow> nat \<Rightarrow> nat \<Rightarrow> tc \<Rightarrow> bool" where
  "tc_running sizes ss ds L j tc \<longleftrightarrow> tc_fixed sizes ss (take j ss @ drop j ds) L tc \<and>
     bl_issued (tc_bl tc) = (if work_sg tc then [Sg] else drop j (all_descs sizes)) \<and>
     \<not> work_queued tc \<and> job_counter tc = int j \<and> bl_callback (tc_bl tc) \<and>
     (if work_sg tc then j = 0 else j < length sizes)"

definition tc_finished :: "int list \<Rightarrow> byte list list \<Rightarrow> tc \<Rightarrow> bool" where
  "tc_finished sizes ss tc \<longleftrightarrow> bl_good sizes ss ss (tc_bl tc) \<and> tc_wq tc = WqLive \<and> tc_err tc = 0 \<and>
     bl_issued (tc_bl tc) = [] \<and> \<not> work_queued tc \<and> laps tc = 0"

lemma ready_step:
  assumes "tc_ready sizes ss ds L tc"
  shows "\<exists>tc'. tc_step e tc = Some tc' \<and> tc_running sizes ss ds L 0 tc' \<and> dma_chan (tc_bl tc') = dma_chan (tc_bl tc)"
proof (cases "work_sg tc")
  case True
  from assms True obtain bl' where "dmatest_buflist_start_sg e (tc_bl tc) = Some bl'"
    "bl_good sizes ss ds bl'" "started True sizes (tc_bl tc) bl'"
    using start_sg_good [of sizes ss ds "tc_bl tc" e] by (auto simp: tc_ready_def tc_fixed_def)
  with assms True show ?thesis
    by (simp add: tc_step_def run_work_def tc_worker_start_sg_def tc_ready_def tc_fixed_def
        tc_running_def started_def Let_def)
next
  case False
  from assms False obtain bl' where "dmatest_buflist_start_single (tc_bl tc) = Some bl'"
    "bl_good sizes ss ds bl'" "started False sizes (tc_bl tc) bl'"
    using start_single_good [of sizes ss ds "tc_bl tc"] by (auto simp: tc_ready_def tc_fixed_def)
  with assms False show ?thesis
    by (simp add: tc_step_def run_work_def tc_worker_start_single_def tc_ready_def tc_fixed_def
        tc_running_def started_def Let_def)
qed

lemma bl_good_issued [simp]:
  "bl_good sizes ss ds (bl\<lparr>bl_issued := x\<rparr>) = bl_good sizes ss ds bl"
  "bl_good sizes ss ds (bl\<lparr>bl_maps := m\<rparr>) = bl_good sizes ss ds bl"
  "bl_good sizes ss ds (bl\<lparr>bl_timer := t\<rparr>) = bl_good sizes ss ds bl"
  "bl_good sizes ss ds (bl\<lparr>finished_jobs := f\<rparr>) = bl_good sizes ss ds bl"
  "bl_good sizes ss ds (bl\<lparr>sent_jobs := f\<rparr>) = bl_good sizes ss ds bl"
  by (simp_all add: bl_good_def)

lemma startable_fields [simp]:
  "startable sg sizes (bl\<lparr>bl_issued := x\<rparr>) = startable sg sizes bl"
  "startable sg sizes (bl\<lparr>bl_maps := m\<rparr>) = startable sg sizes bl"
  "startable sg sizes (bl\<lparr>bl_timer := t\<rparr>) = startable sg sizes bl"
  "startable sg sizes (bl\<lparr>finished_jobs := f\<rparr>) = startable sg sizes bl"
  "startable sg sizes (bl\<lparr>sent_jobs := f\<rparr>) = startable sg sizes bl"
  "startable sg sizes (bl\<lparr>list_buf_dst := d\<rparr>) = startable sg sizes bl"
  "startable sg sizes (bl\<lparr>bl_xfers := n\<rparr>) = startable sg sizes bl"
  by (simp_all add: startable_def)

text \<open>The callback that ends a lap.\<close>

lemma tc_worker_lap:
  assumes "tc_fixed sizes ss ds L tc" "bl_issued (tc_bl tc) = []" "\<not> work_queued tc"
    "job_counter tc + 1 = nbr_returns_per_transfer tc"
  shows "\<exists>tc'. tc_worker tc = Some tc' \<and> tc_err tc' = (if ds = ss then 0 else - 1) \<and>
    dma_chan (tc_bl tc') = dma_chan (tc_bl tc) \<and>
    (if L = 1 then tc_done tc' = 1 \<and> laps tc' = 0 \<and> bl_good sizes ss ds (tc_bl tc') \<and> tc_wq tc' = WqLive \<and>
        bl_issued (tc_bl tc') = [] \<and> \<not> work_queued tc'
     else tc_ready sizes ss ds (L - 1) tc')"
proof -
  obtain m where m: "dmatest_buflist_payload_check (tc_bl tc) =
      Some (if ds = ss then 0 else - 1, (tc_bl tc)\<lparr>bl_maps := m\<rparr>)"
    using assms payload_check_good [of sizes ss ds "tc_bl tc"] by (auto simp: tc_fixed_def)
  show ?thesis
    using assms m
    by (auto simp: tc_worker_def tc_fixed_def tc_ready_def Let_def queue_work_def c_simps
        dmatest_buflist_reset_nbr_finished_def)
qed

lemma tc_worker_mid:
  "job_counter tc + 1 \<noteq> nbr_returns_per_transfer tc \<Longrightarrow> tc_worker tc = Some (tc\<lparr>job_counter := job_counter tc + 1\<rparr>)"
  by (simp add: tc_worker_def Let_def)

lemma tc_step_callback:
  assumes "\<not> work_queued tc" "bl_issued (tc_bl tc) = d # ds"
    "engine_exec e d ((tc_bl tc)\<lparr>bl_issued := ds\<rparr>) = Some bl"
    "DMA_PREP_INTERRUPT \<in> set (bl_flags bl)" "bl_callback bl"
  shows "tc_step e tc = tc_worker (tc\<lparr>tc_bl := transmit_cb bl\<rparr>)"
  using assms by (simp add: tc_step_def transmit_cb_def Let_def)

text \<open>Completing descriptor \<open>j\<close> of a lap copies buffer \<open>j\<close>; the one of a scatter list copies all.\<close>

lemma engine_exec_single:
  assumes "faithful_engine e" "bl_good sizes ss (take j ss @ drop j ds) bl" "j < length sizes"
    "length ds = length sizes"
  shows "\<exists>bl'. engine_exec e (Memcpy j (nat (sizes ! j))) bl = Some bl' \<and>
    bl_good sizes ss (take (Suc j) ss @ drop (Suc j) ds) bl' \<and>
    (startable sg sizes bl \<longrightarrow> startable sg sizes bl') \<and> bl_flags bl' = bl_flags bl \<and>
    bl_callback bl' = bl_callback bl \<and> bl_issued bl' = bl_issued bl \<and> dma_chan bl' = dma_chan bl"
proof -
  from assms(2) have len: "length ss = length sizes" by (simp add: bl_good_def)
  have u: "(take j ss @ drop j ds)[j := ss ! j] = take (Suc j) ss @ drop (Suc j) ds"
    using assms len by (intro list_update_fill) auto
  show ?thesis
    using copy_buf_good [OF assms(1,2,3)] bl_good_update [OF assms(2,3), of "bl_xfers bl + 1"]
    by (simp add: engine_exec_def u)
qed

lemma engine_exec_sg:
  assumes "faithful_engine e" "bl_good sizes ss ds bl"
  shows "\<exists>bl'. engine_exec e Sg bl = Some bl' \<and> bl_good sizes ss ss bl' \<and>
    (startable sg sizes bl \<longrightarrow> startable sg sizes bl') \<and> bl_flags bl' = bl_flags bl \<and>
    bl_callback bl' = bl_callback bl \<and> bl_issued bl' = bl_issued bl \<and> dma_chan bl' = dma_chan bl"
proof -
  from assms(2) have "length ss = length sizes" "length ds = length sizes"
    "until_sentinel (list_size bl) = Some sizes" by (simp_all add: bl_good_def)
  then show ?thesis
    using copy_all_good [OF assms, of "length sizes"] by (simp add: engine_exec_def)
qed

lemma running_single_exec:
  assumes e: "faithful_engine e" and r: "tc_running sizes ss ds L j tc" and j: "\<not> work_sg tc" "j < length sizes"
  shows "\<exists>bl. tc_step e tc = tc_worker (tc\<lparr>tc_bl := transmit_cb bl\<rparr>) \<and>
    tc_fixed sizes ss (take (Suc j) ss @ drop (Suc j) ds) L (tc\<lparr>tc_bl := transmit_cb bl\<rparr>) \<and>
    bl_issued bl = drop (Suc j) (all_descs sizes) \<and> bl_callback bl \<and> dma_chan bl = dma_chan (tc_bl tc)"
proof -
  let ?bl = "(tc_bl tc)\<lparr>bl_issued := drop (Suc j) (all_descs sizes)\<rparr>"
  from r j have f: "tc_fixed sizes ss (take j ss @ drop j ds) L tc" by (simp add: tc_running_def)
  then have g: "bl_good sizes ss (take j ss @ drop j ds) ?bl" by (simp add: tc_fixed_def)
  then have "length ds = length sizes" using j by (auto simp: bl_good_def)
  then obtain bl' where bl: "engine_exec e (Memcpy j (nat (sizes ! j))) ?bl = Some bl'"
      "bl_good sizes ss (take (Suc j) ss @ drop (Suc j) ds) bl'"
      "startable False sizes ?bl \<longrightarrow> startable False sizes bl'" "bl_flags bl' = bl_flags ?bl"
      "bl_callback bl' = bl_callback ?bl" "bl_issued bl' = bl_issued ?bl" "dma_chan bl' = dma_chan ?bl"
    using engine_exec_single [OF e g j(2)] by blast
  have iss: "bl_issued (tc_bl tc) = Memcpy j (nat (sizes ! j)) # drop (Suc j) (all_descs sizes)"
    using r j Cons_nth_drop_Suc [of j "all_descs sizes"] by (simp add: tc_running_def)
  have "tc_step e tc = tc_worker (tc\<lparr>tc_bl := transmit_cb bl'\<rparr>)"
    using r f iss bl by (intro tc_step_callback [OF _ iss bl(1)]) (auto simp: tc_running_def tc_fixed_def)
  with f bl j r show ?thesis
    by (intro exI [of _ bl']) (simp add: tc_fixed_def transmit_cb_def tc_running_def)
qed

lemma running_step:
  assumes "faithful_engine e" "tc_running sizes ss ds L j tc" "\<not> work_sg tc" "Suc j < length sizes"
  shows "\<exists>tc'. tc_step e tc = Some tc' \<and> tc_running sizes ss ds L (Suc j) tc' \<and>
    work_sg tc' = work_sg tc \<and> dma_chan (tc_bl tc') = dma_chan (tc_bl tc)"
proof -
  obtain bl where bl: "tc_step e tc = tc_worker (tc\<lparr>tc_bl := transmit_cb bl\<rparr>)"
    "tc_fixed sizes ss (take (Suc j) ss @ drop (Suc j) ds) L (tc\<lparr>tc_bl := transmit_cb bl\<rparr>)"
    "bl_issued bl = drop (Suc j) (all_descs sizes)" "bl_callback bl" "dma_chan bl = dma_chan (tc_bl tc)"
    using running_single_exec [OF assms(1-3)] assms(4) by auto
  from bl(2) assms have "job_counter tc + 1 \<noteq> nbr_returns_per_transfer tc"
    by (simp add: tc_running_def tc_fixed_def)
  with bl assms show ?thesis
    by (simp add: tc_worker_mid tc_running_def tc_fixed_def transmit_cb_def)
qed

definition lap_over :: "int list \<Rightarrow> byte list list \<Rightarrow> nat \<Rightarrow> tc \<Rightarrow> bool" where
  "lap_over sizes ss L tc \<longleftrightarrow> tc_err tc = 0 \<and>
    (if L = 1 then tc_done tc = 1 \<and> laps tc = 0 \<and> bl_good sizes ss ss (tc_bl tc) \<and> tc_wq tc = WqLive \<and>
        bl_issued (tc_bl tc) = [] \<and> \<not> work_queued tc
     else tc_ready sizes ss ss (L - 1) tc)"

lemma running_last:
  assumes e: "faithful_engine e" and r: "tc_running sizes ss ds L j tc" and j: "work_sg tc \<or> Suc j = length sizes"
  shows "\<exists>tc'. tc_step e tc = Some tc' \<and> lap_over sizes ss L tc' \<and> dma_chan (tc_bl tc') = dma_chan (tc_bl tc)"
proof -
  have "\<exists>bl. tc_step e tc = tc_worker (tc\<lparr>tc_bl := transmit_cb bl\<rparr>) \<and>
     tc_fixed sizes ss ss L (tc\<lparr>tc_bl := transmit_cb bl\<rparr>) \<and> bl_issued bl = [] \<and> dma_chan bl = dma_chan (tc_bl tc)"
  proof (cases "work_sg tc")
    case False
    with j have n: "j < length sizes" "Suc j = length sizes" by auto
    obtain bl where bl: "tc_step e tc = tc_worker (tc\<lparr>tc_bl := transmit_cb bl\<rparr>)"
      "tc_fixed sizes ss (take (Suc j) ss @ drop (Suc j) ds) L (tc\<lparr>tc_bl := transmit_cb bl\<rparr>)"
      "bl_issued bl = drop (Suc j) (all_descs sizes)" "dma_chan bl = dma_chan (tc_bl tc)"
      using running_single_exec [OF e r False n(1)] by auto
    moreover have "take (Suc j) ss @ drop (Suc j) ds = ss"
      using bl(2) n by (auto simp: tc_fixed_def bl_good_def)
    ultimately show ?thesis using n by auto
  next
    case True
    with r have f: "tc_fixed sizes ss ds L tc" "bl_issued (tc_bl tc) = [Sg]"
      by (auto simp: tc_running_def)
    let ?bl = "(tc_bl tc)\<lparr>bl_issued := []\<rparr>"
    have g: "bl_good sizes ss ds ?bl" using f by (simp add: tc_fixed_def)
    obtain bl' where bl: "engine_exec e Sg ?bl = Some bl'" "bl_good sizes ss ss bl'"
        "startable True sizes ?bl \<longrightarrow> startable True sizes bl'" "bl_flags bl' = bl_flags ?bl"
        "bl_callback bl' = bl_callback ?bl" "bl_issued bl' = bl_issued ?bl" "dma_chan bl' = dma_chan ?bl"
      using engine_exec_sg [OF e g] by blast
    have "tc_step e tc = tc_worker (tc\<lparr>tc_bl := transmit_cb bl'\<rparr>)"
      using r f bl by (intro tc_step_callback [OF _ f(2) bl(1)]) (auto simp: tc_running_def tc_fixed_def)
    with f bl True show ?thesis
      by (intro exI [of _ bl']) (simp add: tc_fixed_def transmit_cb_def)
  qed
  then obtain bl where bl: "tc_step e tc = tc_worker (tc\<lparr>tc_bl := transmit_cb bl\<rparr>)"
     "tc_fixed sizes ss ss L (tc\<lparr>tc_bl := transmit_cb bl\<rparr>)" "bl_issued bl = []" "dma_chan bl = dma_chan (tc_bl tc)"
    by blast
  have "job_counter tc + 1 = nbr_returns_per_transfer tc"
    using r j by (auto simp: tc_running_def tc_fixed_def)
  with r bl tc_worker_lap [OF bl(2)] show ?thesis
    by (auto simp: tc_running_def transmit_cb_def lap_over_def)
qed

text \<open>A lap that has started ends, and the wait goes on from its end.\<close>

lemma tc_wait_event:
  "tc_done tc = 0 \<Longrightarrow> tc_step e tc = Some tc' \<Longrightarrow> tc_wait e None tc = tc_wait e None tc'"
  by (subst tc_wait.simps) simp

lemma running_lap:
  assumes "faithful_engine e" "tc_running sizes ss ds L j tc"
  shows "\<exists>tc'. tc_wait e None tc = tc_wait e None tc' \<and> lap_over sizes ss L tc' \<and>
    dma_chan (tc_bl tc') = dma_chan (tc_bl tc)"
  using assms(2)
proof (induction "length sizes - j" arbitrary: j tc rule: less_induct)
  case less
  have d: "tc_done tc = 0" using less.prems by (simp add: tc_running_def tc_fixed_def)
  show ?case
  proof (cases "work_sg tc \<or> Suc j = length sizes")
    case True
    with running_last [OF assms(1) less.prems] d show ?thesis
      by (metis tc_wait_event)
  next
    case False
    with less.prems have j: "\<not> work_sg tc" "Suc j < length sizes" by (auto simp: tc_running_def)
    from running_step [OF assms(1) less.prems j] obtain tc' where
      "tc_step e tc = Some tc'" "tc_running sizes ss ds L (Suc j) tc'" "dma_chan (tc_bl tc') = dma_chan (tc_bl tc)"
      by auto
    with less.hyps [of "Suc j" tc'] j d show ?thesis
      by (metis diff_less_mono2 lessI less_trans tc_wait_event)
  qed
qed

lemma wait_ready:
  assumes "faithful_engine e" "tc_ready sizes ss ds L tc"
  shows "\<exists>tc'. tc_wait e None tc = Some tc' \<and> tc_finished sizes ss tc' \<and> dma_chan (tc_bl tc') = dma_chan (tc_bl tc)"
  using assms(2)
proof (induction L arbitrary: ds tc rule: less_induct)
  case (less L)
  then have d: "tc_done tc = 0" "0 < L" by (simp_all add: tc_ready_def tc_fixed_def)
  from ready_step [OF less.prems] obtain tc1 where tc1: "tc_step e tc = Some tc1"
    "tc_running sizes ss ds L 0 tc1" "dma_chan (tc_bl tc1) = dma_chan (tc_bl tc)" by blast
  from running_lap [OF assms(1) tc1(2)] obtain tc2 where tc2: "tc_wait e None tc1 = tc_wait e None tc2"
    "lap_over sizes ss L tc2" "dma_chan (tc_bl tc2) = dma_chan (tc_bl tc1)" by blast
  have w: "tc_wait e None tc = tc_wait e None tc2" using tc_wait_event [OF d(1) tc1(1)] tc2 by simp
  show ?case
  proof (cases "L = 1")
    case True
    with tc2 tc1 have "tc_wait e None tc2 = Some (tc2\<lparr>tc_done := 0\<rparr>)"
      by (subst tc_wait.simps) (simp add: lap_over_def)
    with w True tc1 tc2 show ?thesis by (simp add: tc_finished_def lap_over_def)
  next
    case False
    with tc2 have "tc_ready sizes ss ss (L - 1) tc2" by (simp add: lap_over_def)
    with less.IH [of "L - 1" ss tc2] d False w tc1 tc2 show ?thesis by auto
  qed
qed

end
