(* ===== verification/DmaSchedule.thy ===== *)
theory DmaSchedule
imports DmaEngine
begin

text \<open>Properties of the test engine beyond one test on a faithful engine: what the verdict says
whatever the engine does, and the interleaving of the events of several tests, which the parallel
test cases run (\<open>tc_run_parallel\<close> and its relatives in \<open>dma_test_module.c\<close>).  How such a run ends is in \<open>DmaShared\<close>.\<close>

section \<open>The verdict\<close>

text \<open>Every destination buffer of the list holds its source.\<close>

definition buffers_match :: "buflist \<Rightarrow> bool" where
  "buffers_match bl \<longleftrightarrow> (case until_sentinel (list_size bl) of
      None \<Rightarrow> False
    | Some sizes \<Rightarrow> list_all (\<lambda>i. payload_differs bl i (sizes ! i) = Some False) [0..<length sizes])"

lemma payload_differs_maps [simp]:
  "payload_differs (bl\<lparr>bl_maps := m\<rparr>) i sz = payload_differs bl i sz"
  "payload_differs (bl\<lparr>finished_jobs := f\<rparr>) i sz = payload_differs bl i sz"
  "payload_differs (bl\<lparr>sent_jobs := f\<rparr>) i sz = payload_differs bl i sz"
  by (simp_all add: payload_differs_def)

lemma buffers_match_fields [simp]:
  "buffers_match (bl\<lparr>bl_maps := m\<rparr>) = buffers_match bl"
  "buffers_match (bl\<lparr>finished_jobs := f\<rparr>) = buffers_match bl"
  "buffers_match (bl\<lparr>sent_jobs := f\<rparr>) = buffers_match bl"
  by (simp_all add: buffers_match_def split: option.split)

lemma payload_fold_verdict:
  assumes "ofold (payload_check_step sizes) xs (err, bl) = Some (err', bl')"
  shows "\<exists>m. bl' = bl\<lparr>bl_maps := m\<rparr> \<and> (err \<in> {0, - 1} \<longrightarrow> err' \<in> {0, - 1}) \<and>
    (err' = 0 \<longleftrightarrow> err = 0 \<and> list_all (\<lambda>i. payload_differs bl i (sizes ! i) = Some False) xs)"
  using assms
proof (induction xs arbitrary: err bl)
  case Nil
  then show ?case by (auto intro: exI [of _ "bl_maps bl"])
next
  case (Cons i xs)
  from Cons.prems obtain err1 bl1 where s: "payload_check_step sizes i (err, bl) = Some (err1, bl1)"
    "ofold (payload_check_step sizes) xs (err1, bl1) = Some (err', bl')"
    by (auto simp: bind_eq_Some_conv)
  then obtain d m1 where d: "payload_differs bl i (sizes ! i) = Some d" "bl1 = bl\<lparr>bl_maps := m1\<rparr>"
    "err1 = (if d then - 1 else err)"
    by (auto simp: payload_check_step_def Let_def bind_eq_Some_conv)
  from Cons.IH [OF s(2)] obtain m where "bl' = bl1\<lparr>bl_maps := m\<rparr>"
    "err1 \<in> {0, - 1} \<longrightarrow> err' \<in> {0, - 1}"
    "err' = 0 \<longleftrightarrow> err1 = 0 \<and> list_all (\<lambda>i. payload_differs bl1 i (sizes ! i) = Some False) xs"
    by blast
  with d show ?case by (intro exI [of _ m]) auto
qed

lemma payload_check_verdict:
  assumes "dmatest_buflist_payload_check bl = Some (err, bl')"
  shows "err \<in> {0, - 1} \<and> (err = 0 \<longleftrightarrow> buffers_match bl) \<and> (\<exists>m. bl' = bl\<lparr>bl_maps := m\<rparr>)"
proof -
  from assms obtain sizes m where s: "until_sentinel (list_size bl) = Some sizes"
    "ofold (payload_check_step sizes) [0..<length sizes] (0, bl\<lparr>bl_maps := m\<rparr>) = Some (err, bl')"
    by (auto simp: dmatest_buflist_payload_check_def Let_def bind_eq_Some_conv)
  from payload_fold_verdict [OF s(2)] s(1) show ?thesis
    by (auto simp: buffers_match_def)
qed

definition verdict_ok :: "tc \<Rightarrow> bool" where
  "verdict_ok tc \<longleftrightarrow> tc_err tc \<in> {0, - 1} \<and> (tc_err tc = 0 \<longleftrightarrow> buffers_match (tc_bl tc))"

lemma tc_worker_verdict:
  assumes "tc_worker tc = Some tc'" "do_check_buffer tc" "tc_done tc = 0"
  shows "do_check_buffer tc' \<and> (0 < tc_done tc' \<longrightarrow> verdict_ok tc')"
  using assms payload_check_verdict [of "tc_bl tc"]
  by (auto simp: tc_worker_def Let_def bind_eq_Some_conv queue_work_def verdict_ok_def split: if_splits)

lemma tc_step_verdict:
  assumes "tc_step e tc = Some tc'" "do_check_buffer tc" "tc_done tc = 0"
  shows "do_check_buffer tc' \<and> (0 < tc_done tc' \<longrightarrow> verdict_ok tc')"
  using assms tc_worker_verdict
  by (fastforce simp: tc_step_def run_work_def tc_worker_start_sg_def tc_worker_start_single_def Let_def
      bind_eq_Some_conv split: if_splits list.splits)

lemma tc_wait_verdict:
  assumes w: "tc_wait e None tc = Some tc'" and c: "do_check_buffer tc" "0 < tc_done tc \<longrightarrow> verdict_ok tc"
  shows "verdict_ok tc'"
proof -
  have "None = (None :: nat option) \<longrightarrow> do_check_buffer tc \<longrightarrow> (0 < tc_done tc \<longrightarrow> verdict_ok tc) \<longrightarrow> verdict_ok tc'"
  proof (rule tc_wait.raw_induct [where P = "\<lambda>e sig tc tc'. sig = None \<longrightarrow> do_check_buffer tc \<longrightarrow>
      (0 < tc_done tc \<longrightarrow> verdict_ok tc) \<longrightarrow> verdict_ok tc'", OF _ w])
    fix wait e sig tc tc'
    assume IH: "\<And>e sig tc tc'. wait e sig tc = Some tc' \<Longrightarrow> sig = None \<longrightarrow> do_check_buffer tc \<longrightarrow>
        (0 < tc_done tc \<longrightarrow> verdict_ok tc) \<longrightarrow> verdict_ok tc'"
      and body: "(if 0 < tc_done tc then Some (tc\<lparr>tc_done := tc_done tc - 1\<rparr>)
       else if sig = Some 0 then Some tc
       else do { tc' \<leftarrow> tc_step e tc; wait e (map_option (\<lambda>n. n - 1) sig) tc' }) = Some tc'"
    show "sig = None \<longrightarrow> do_check_buffer tc \<longrightarrow> (0 < tc_done tc \<longrightarrow> verdict_ok tc) \<longrightarrow> verdict_ok tc'"
      using body IH tc_step_verdict
      by (cases "0 < tc_done tc") (fastforce simp: verdict_ok_def bind_eq_Some_conv)+
  qed
  with c show ?thesis by simp
qed

section \<open>Interleaving\<close>

text \<open>One event of one of the tests that run in parallel.  The tests share the transfer engine: each event is done
by one of the engines \<open>E\<close>, any of them, so that what a transfer writes may depend on what the other tests have done.\<close>

inductive pstep :: "kenv set \<Rightarrow> tc list \<Rightarrow> tc list \<Rightarrow> bool" for E where
  pstep: "e \<in> E \<Longrightarrow> i < length ts \<Longrightarrow> tc_step e (ts ! i) = Some t' \<Longrightarrow> pstep E ts (ts[i := t'])"

inductive_cases pstepE [elim!]: "pstep E ts ts'"

text \<open>The phases of a test on a faithful engine.\<close>

definition in_phase :: "tc \<Rightarrow> bool" where
  "in_phase t \<longleftrightarrow> (\<exists>sizes ss ds L. tc_ready sizes ss ds L t) \<or>
     (\<exists>sizes ss ds L j. tc_running sizes ss ds L j t) \<or>
     (\<exists>sizes ss. lap_over sizes ss 1 t)"

lemma lap_over_phase: "lap_over sizes ss L t \<Longrightarrow> in_phase t"
  by (cases "L = 1") (auto simp: in_phase_def lap_over_def)

lemma lap_over_no_step: "lap_over sizes ss 1 t \<Longrightarrow> tc_step e t = None"
  by (simp add: lap_over_def tc_step_def)

lemma in_phase_step:
  assumes e: "faithful_engine e" and p: "in_phase t" and s: "tc_step e t = Some t'"
  shows "in_phase t' \<and> tc_wait e None t' = tc_wait e None t"
proof -
  consider (ready) sizes ss ds L where "tc_ready sizes ss ds L t"
    | (running) sizes ss ds L j where "tc_running sizes ss ds L j t"
    | (over) sizes ss where "lap_over sizes ss 1 t"
    using p by (auto simp: in_phase_def)
  then show ?thesis
  proof cases
    case ready
    then have "tc_done t = 0" by (simp add: tc_ready_def tc_fixed_def)
    with ready_step [OF ready, of e] s show ?thesis
      by (auto simp: in_phase_def dest: tc_wait_event)
  next
    case running
    then have d: "tc_done t = 0" by (simp add: tc_running_def tc_fixed_def)
    show ?thesis
    proof (cases "work_sg t \<or> Suc j = length sizes")
      case True
      from running_last [OF e running True] s have "lap_over sizes ss L t'" by auto
      with tc_wait_event [OF d s] show ?thesis by (auto dest: lap_over_phase)
    next
      case False
      with running have "\<not> work_sg t" "Suc j < length sizes" by (auto simp: tc_running_def)
      from running_step [OF e running this] s have "tc_running sizes ss ds L (Suc j) t'" by auto
      with tc_wait_event [OF d s] show ?thesis by (auto simp: in_phase_def)
    qed
  next
    case over
    with s show ?thesis by (simp add: lap_over_no_step)
  qed
qed

text \<open>On one faithful engine the order of the events does not matter to the test that is waited for.\<close>

lemma psteps_wait:
  assumes "(pstep {e})\<^sup>*\<^sup>* ts ts'" "faithful_engine e" "\<forall>t \<in> set ts. in_phase t"
  shows "length ts' = length ts \<and> (\<forall>i < length ts. in_phase (ts' ! i) \<and>
    tc_wait e None (ts' ! i) = tc_wait e None (ts ! i))"
  using assms(1)
proof (induction rule: rtranclp_induct)
  case base
  with assms(3) show ?case by simp
next
  case (step ts1 ts2)
  from step.hyps(2) obtain i t' where i: "i < length ts1" "tc_step e (ts1 ! i) = Some t'" "ts2 = ts1[i := t']"
    by auto
  with step.IH have "in_phase t' \<and> tc_wait e None t' = tc_wait e None (ts1 ! i)"
    using in_phase_step [OF assms(2) _ i(2)] by simp
  with step.IH i show ?case by (simp add: nth_list_update)
qed

end
