(* ===== verification/DmaTests.thy ===== *)
theory DmaTests
imports DmaSchedule
begin

unbundle bit_operations_syntax

text \<open>The test cases of \<open>kernel/testcases/dma/kernel_space/dma_test_module.c\<close> and the dispatcher behind
each \<open>test_<n>\<close> debugfs file.  A test is a function from the kernel's state to its return value and
the new state.  The tests 1 to 5, 8 and 15 to 20 are written out one by one in the source with the same
statements; \<open>tc_plain\<close> holds those statements and each test gives its constants.\<close>

section \<open>Tests 1 to 20\<close>

definition TX_ALIGN :: u32 where "TX_ALIGN = 1"
definition DEFAULT_TIMEOUT :: int where "DEFAULT_TIMEOUT = 10000"

datatype sizing = Fixed u32 | Random u32 u32

definition set_sizes :: "kenv \<Rightarrow> sizing \<Rightarrow> u32 \<Rightarrow> buflist \<times> kern \<Rightarrow> (buflist \<times> kern) option" where
  "set_sizes e sz al s = (case sz of
      Fixed v \<Rightarrow> do { bl \<leftarrow> dmatest_sizelist_set v al (fst s); Some (bl, snd s) }
    | Random mn mx \<Rightarrow> dmatest_sizelist_randomize e mn mx al s)"

text \<open>From the successful creation of the list on.\<close>

definition tc_plain_body :: "kenv \<Rightarrow> nat \<Rightarrow> sizing \<Rightarrow> tc \<Rightarrow> kern \<Rightarrow> (int \<times> kern) option" where
  "tc_plain_body e len sz tc k = do {
     (bl, k) \<leftarrow> set_sizes e sz TX_ALIGN (tc_bl tc, k);
     bl \<leftarrow> dmatest_buflist_alloc bl;
     let tc = tc\<lparr>tc_bl := bl, job_counter := 0,
       nbr_returns_per_transfer := (if work_sg tc then 1 else int len)\<rparr>;
     tc \<leftarrow> queue_work tc;
     (tc, k) \<leftarrow> tc_test_wait e (tc, k);
     (tc, k) \<leftarrow> destroy_workqueue e (tc, k);
     (bl, k) \<leftarrow> dmatest_buflist_destroy (tc_bl tc, k);
     Some (tc_err tc, k)
   }"

text \<open>\<open>checked\<close>: the test looks at the result of \<open>dmatest_buflist_create\<close>.\<close>

definition tc_plain ::
  "kenv \<Rightarrow> bool \<Rightarrow> bool \<Rightarrow> int \<Rightarrow> nat \<Rightarrow> sizing \<Rightarrow> string \<Rightarrow> int \<Rightarrow> kern \<Rightarrow> (int \<times> kern) option" where
  "tc_plain e checked sg nlaps len sz name timeout k = do {
     let tc = tc0\<lparr>do_check_buffer := True, laps := nlaps\<rparr>;
     let (wq, k) = create_singlethread_workqueue e k;
     let tc = tc\<lparr>tc_wq := wq, work_sg := sg, tc_name := take (MAX_NAME_LEN - 1) name\<rparr>;
     let (err, bl, k) = dmatest_buflist_create e k (tc_bl tc) len 64 (tc_name tc)
       [DMA_PREP_INTERRUPT, DMA_CTRL_ACK] timeout None;
     let tc = tc\<lparr>tc_bl := bl, tc_err := (if checked then err else 0)\<rparr>;
     if checked \<and> tc_err tc \<noteq> 0 then Some (tc_err tc, k)
     else tc_plain_body e len sz tc k
   }"

definition tc_1_fixed_buffer :: "kenv \<Rightarrow> kern \<Rightarrow> (int \<times> kern) option" where
  "tc_1_fixed_buffer e = tc_plain e True False 1 1 (Fixed 32) ''tc_1_fixed_buffer'' DEFAULT_TIMEOUT"

definition tc_2_fixed_buffer :: "kenv \<Rightarrow> kern \<Rightarrow> (int \<times> kern) option" where
  "tc_2_fixed_buffer e = tc_plain e True False 100 30 (Fixed 32) ''tc_2_fixed_buffer'' DEFAULT_TIMEOUT"

definition tc_3_fixed_buffer :: "kenv \<Rightarrow> kern \<Rightarrow> (int \<times> kern) option" where
  "tc_3_fixed_buffer e = tc_plain e False False 10 10 (Fixed 1024) ''tc_3_fixed_buffer'' DEFAULT_TIMEOUT"

definition tc_4_fixed_buffer :: "kenv \<Rightarrow> kern \<Rightarrow> (int \<times> kern) option" where
  "tc_4_fixed_buffer e = tc_plain e False False 10 10 (Fixed 8192) ''tc_4_fixed_buffer'' DEFAULT_TIMEOUT"

definition tc_5_random_buffer :: "kenv \<Rightarrow> kern \<Rightarrow> (int \<times> kern) option" where
  "tc_5_random_buffer e = tc_plain e False False 100 40 (Random 1 61440) ''tc_5_random_buffer'' DEFAULT_TIMEOUT"

definition tc_sg_buffer :: "kenv \<Rightarrow> nat \<Rightarrow> int \<Rightarrow> u32 \<Rightarrow> kern \<Rightarrow> (int \<times> kern) option" where
  "tc_sg_buffer e entries nlaps sz =
    tc_plain e True True nlaps entries (Fixed sz) ''tc_sg_buffer'' (10 * DEFAULT_TIMEOUT)"

text \<open>The two nested loops of test 9, left at the first failing pair.\<close>

definition SCATTER_LIST_ENTRIES_MAX :: nat where "SCATTER_LIST_ENTRIES_MAX = 25"

fun tc_9_loop :: "kenv \<Rightarrow> (nat \<times> nat) list \<Rightarrow> int \<Rightarrow> kern \<Rightarrow> (int \<times> kern) option" where
  "tc_9_loop e [] res k = Some (res, k)"
| "tc_9_loop e ((entries, sz) # rest) res k = do {
     (res, k) \<leftarrow> tc_sg_buffer e entries 1 (of_nat sz) k;
     if res \<noteq> 0 then Some (res, k) else tc_9_loop e rest res k
   }"

definition tc_9_sg_buffer :: "kenv \<Rightarrow> kern \<Rightarrow> (int \<times> kern) option" where
  "tc_9_sg_buffer e =
    tc_9_loop e (List.product [1..<SCATTER_LIST_ENTRIES_MAX] [2..<2 * e_page e + 100]) 0"

definition tc_6_sg_buffer :: "kenv \<Rightarrow> kern \<Rightarrow> (int \<times> kern) option" where
  "tc_6_sg_buffer e = tc_sg_buffer e 4 1 32"

definition tc_7_sg_buffer :: "kenv \<Rightarrow> kern \<Rightarrow> (int \<times> kern) option" where
  "tc_7_sg_buffer e = tc_sg_buffer e 200 3 160"

text \<open>Test 14 never leaves its loop, whatever the transfers do.\<close>

fun tc_14_sweep :: "kenv \<Rightarrow> (nat \<times> nat) list \<Rightarrow> kern \<Rightarrow> kern option" where
  "tc_14_sweep e [] k = Some k"
| "tc_14_sweep e ((entries, sz) # rest) k = do {
     (res, k) \<leftarrow> tc_sg_buffer e entries 1 (of_nat sz) k;
     tc_14_sweep e rest k
   }"

partial_function (option) tc_14_sg_buffer_temporary_endless :: "kenv \<Rightarrow> kern \<Rightarrow> (int \<times> kern) option" where
  "tc_14_sg_buffer_temporary_endless e k = do {
     k \<leftarrow> tc_14_sweep e (List.product [1..<SCATTER_LIST_ENTRIES_MAX] [2..<1567]) k;
     tc_14_sg_buffer_temporary_endless e k
   }"

definition tc_8_sg_buffer :: "kenv \<Rightarrow> kern \<Rightarrow> (int \<times> kern) option" where
  "tc_8_sg_buffer e = tc_plain e True True 2 16 (Fixed 32) ''tc_8_sg_buffer'' DEFAULT_TIMEOUT"

definition seq_printf :: "string \<Rightarrow> kern \<Rightarrow> int \<times> kern" where
  "seq_printf s k = (0, k\<lparr>k_seq := k_seq k @ [s]\<rparr>)"

definition dd_setup :: "kenv \<Rightarrow> string \<Rightarrow> u32 \<Rightarrow> bool \<Rightarrow> string \<Rightarrow> kern \<Rightarrow> int \<times> kern" where
  "dd_setup e func elem_size is_sg_chain cmd k =
    (let err = e_sgsize e elem_size is_sg_chain in
     if err \<noteq> 0 then (err, k)
     else seq_printf (''# ['' @ func @ ''()] sg_elem_size '' @ int_to_string (uint elem_size) @ '', sg_chain ''
       @ (if is_sg_chain then ''1'' else ''0'') @ '', run:'' @ [CHR 0x0A] @ cmd @ ''; sync'' @ [CHR 0x0A]) k)"

definition tc_10_sg_size_1024_one :: "kenv \<Rightarrow> kern \<Rightarrow> int \<times> kern" where
  "tc_10_sg_size_1024_one e = dd_setup e ''tc_10_sg_size_1024_one'' 1024 False
    ''dd if=/dev/zero of=/out_zero bs=4096 count=1''"

definition tc_11_sg_size_chain_one :: "kenv \<Rightarrow> kern \<Rightarrow> int \<times> kern" where
  "tc_11_sg_size_chain_one e = dd_setup e ''tc_11_sg_size_chain_one'' 1024 True
    ''dd if=/dev/zero of=/out_zero bs=4096 count=1''"

definition tc_12_sg_size_1024_many :: "kenv \<Rightarrow> kern \<Rightarrow> int \<times> kern" where
  "tc_12_sg_size_1024_many e = dd_setup e ''tc_12_sg_size_1024_many'' 1024 False
    ''dd if=/dev/zero of=/out_zero bs=4096 count=256''"

definition tc_13_sg_size_1024_chain_many :: "kenv \<Rightarrow> kern \<Rightarrow> int \<times> kern" where
  "tc_13_sg_size_1024_chain_many e = dd_setup e ''tc_13_sg_size_1024_chain_many'' 1024 True
    ''dd if=/dev/zero of=/out_zero bs=4096 count=256''"

definition tc_15_static_buffer :: "kenv \<Rightarrow> kern \<Rightarrow> (int \<times> kern) option" where
  "tc_15_static_buffer e = tc_plain e False False 100 40 (Fixed 1) ''tc_15_static_buffer'' DEFAULT_TIMEOUT"

definition tc_16_static_buffer :: "kenv \<Rightarrow> kern \<Rightarrow> (int \<times> kern) option" where
  "tc_16_static_buffer e = tc_plain e False False 100 40 (Fixed 2) ''tc_16_static_buffer'' DEFAULT_TIMEOUT"

definition tc_17_static_buffer :: "kenv \<Rightarrow> kern \<Rightarrow> (int \<times> kern) option" where
  "tc_17_static_buffer e = tc_plain e False False 100 40 (Fixed 3) ''tc_17_static_buffer'' DEFAULT_TIMEOUT"

definition tc_18_static_buffer :: "kenv \<Rightarrow> kern \<Rightarrow> (int \<times> kern) option" where
  "tc_18_static_buffer e = tc_plain e False False 100 40 (Fixed 4) ''tc_18_static_buffer'' DEFAULT_TIMEOUT"

definition tc_19_static_buffer :: "kenv \<Rightarrow> kern \<Rightarrow> (int \<times> kern) option" where
  "tc_19_static_buffer e = tc_plain e False False 100 40 (Fixed 5) ''tc_19_static_buffer'' DEFAULT_TIMEOUT"

definition tc_20_random_buffer :: "kenv \<Rightarrow> kern \<Rightarrow> (int \<times> kern) option" where
  "tc_20_random_buffer e = tc_plain e False False 100 40 (Random 1 4) ''tc_20_random_buffer'' DEFAULT_TIMEOUT"

section \<open>Tests on several channels\<close>

text \<open>The common first loop: initialise until all are there or one fails; the result is the loop
variable \<open>i\<close> after the loop and the array.\<close>

fun par_init :: "(nat \<Rightarrow> kern \<Rightarrow> (int \<times> tc \<times> kern) option) \<Rightarrow> nat \<Rightarrow> nat \<Rightarrow> tc list \<Rightarrow> kern
    \<Rightarrow> (nat \<times> tc list \<times> kern) option" where
  "par_init f 0 i tcs k = Some (i, tcs, k)"
| "par_init f (Suc n) i tcs k = do {
     (err, tc, k) \<leftarrow> f i k;
     let tcs = tcs[i := tc\<lparr>tc_err := err\<rparr>];
     if err \<noteq> 0 then Some (i, tcs, k) else par_init f n (i + 1) tcs k
   }"

definition par_tc :: "int \<Rightarrow> nat \<Rightarrow> string \<Rightarrow> nat \<Rightarrow> tc" where
  "par_tc nlaps len str i = tc0\<lparr>do_check_buffer := True, laps := nlaps, tc_end_padding := 64,
     tc_list_len := len, tc_name := take 31 (str @ ''_'' @ nat_to_string i)\<rparr>"

text \<open>Apply an operation to \<open>tc[i]\<close>.\<close>

definition on_tc :: "(tc \<times> kern \<Rightarrow> (tc \<times> kern) option) \<Rightarrow> nat \<Rightarrow> tc list \<times> kern \<Rightarrow> (tc list \<times> kern) option" where
  "on_tc f i s = do {
     let (tcs, k) = s;
     t \<leftarrow> rd tcs (int i);
     (t, k) \<leftarrow> f (t, k);
     Some (tcs[i := t], k)
   }"

definition run_tc :: "tc \<times> kern \<Rightarrow> (tc \<times> kern) option" where
  "run_tc s = do { t \<leftarrow> tc_test_run (fst s); Some (t, snd s) }"

definition par_err :: "tc list \<Rightarrow> nat \<Rightarrow> int \<Rightarrow> int" where
  "par_err tcs n err = fold (\<lambda>i err. err OR tc_err (tcs ! i)) [0..<n] err"

definition par_free :: "kenv \<Rightarrow> nat \<Rightarrow> tc list \<times> kern \<Rightarrow> (tc list \<times> kern) option" where
  "par_free e n = ofold (on_tc (tc_test_free e)) [0..<n]"

text \<open>Pausing until the channel reports bytes left, at most \<open>n\<close> times.\<close>

fun pause_poll :: "kenv \<Rightarrow> nat \<Rightarrow> int \<Rightarrow> kern \<Rightarrow> bool \<times> int \<times> kern" where
  "pause_poll e 0 bytes_left k = (False, bytes_left, k)"
| "pause_poll e (Suc n) bytes_left k =
    (let b = e_residue e (k_residues k); k = k\<lparr>k_residues := k_residues k + 1\<rparr>
     in if b > 0 then (True, b, k) else pause_poll e n b k)"

partial_function (option) resume_loop :: "kenv \<Rightarrow> int \<Rightarrow> kern \<Rightarrow> (int \<times> int \<times> kern) option" where
  "resume_loop e bytes_left k = (let prev = bytes_left; b = e_residue e (k_residues k);
       k = k\<lparr>k_residues := k_residues k + 1\<rparr>
     in if b \<noteq> 0 \<or> prev \<noteq> b then resume_loop e b k else Some (prev, b, k))"

text \<open>The label \<open>out\<close>: free \<open>max_channels\<close> tests and collect their errors.\<close>

definition pause_out :: "kenv \<Rightarrow> nat \<Rightarrow> int \<Rightarrow> tc list \<times> kern \<Rightarrow> (int \<times> kern) option" where
  "pause_out e n err s = do { (tcs, k) \<leftarrow> par_free e n s; Some (par_err tcs n err, k) }"

definition tc_pause_and_unpause_parallel ::
  "kenv \<Rightarrow> nat \<Rightarrow> string \<Rightarrow> dma_flag list \<Rightarrow> u32 \<Rightarrow> kern \<Rightarrow> (int \<times> kern) option" where
  "tc_pause_and_unpause_parallel e max_channels str dma_flags tx_align k = do {
     (i, tcs, k) \<leftarrow> par_init (\<lambda>i. tc_test_init e (par_tc 1 1 str i) False 61440 True dma_flags tx_align DEFAULT_TIMEOUT)
       max_channels 0 (replicate max_channels tc0) k;
     if i = 0 then pause_out e max_channels (- EINVAL) (tcs, k)
     else do {
       let max_channels = i;
       (tcs, k) \<leftarrow> ofold (on_tc run_tc) [0..<max_channels] (tcs, k);
       let (hit, bytes_left, k) = pause_poll e 1000 0 k;
       (tcs, stuck, k) \<leftarrow> (if \<not> hit then Some (tcs, False, k) else do {
           (prev, bytes_left, k) \<leftarrow> resume_loop e bytes_left k;
           if bytes_left \<noteq> 0 \<and> prev = bytes_left
           then Some (tcs[0 := (tcs ! 0)\<lparr>tc_err := - EINVAL\<rparr>], True, k)
           else Some (tcs, False, k)
         });
       (tcs, k) \<leftarrow> (if stuck then Some (tcs, k)
         else ofold (on_tc (tc_test_wait e)) [0..<max_channels] (tcs, k));
       pause_out e max_channels 0 (tcs, k)
     }
   }"

definition tc_21_stop_and_go :: "kenv \<Rightarrow> kern \<Rightarrow> (int \<times> kern) option" where
  "tc_21_stop_and_go e = tc_pause_and_unpause_parallel e 1 ''tc_21'' [DMA_PREP_INTERRUPT, DMA_CTRL_ACK] 4"

section \<open>Tests 22 to 25: one transfer without and one with an interrupt\<close>

definition tc_22_req :: "kenv \<Rightarrow> kern \<Rightarrow> int \<times> kern" where
  "tc_22_req e k = (let (c, k) = dma_request_channel e k; k = k\<lparr>k_chan22 := c\<rparr>
     in (if c \<noteq> None then 0 else - EINVAL, k))"

definition tc_23_no_irq :: "kenv \<Rightarrow> kern \<Rightarrow> int \<times> kern" where
  "tc_23_no_irq e k = (case k_chan22 k of
      None \<Rightarrow> (- EINVAL, k)
    | Some c \<Rightarrow>
        (let src = replicate 4096 0xAA; dst = e_xfer e c 0 4096 src (replicate 4096 0)
         in (if take 4096 src = take 4096 dst then 0 else - EINVAL, k)))"

text \<open>A signal that arrives before the completion leaves the destination as it was.\<close>

definition tc_24_irq :: "kenv \<Rightarrow> kern \<Rightarrow> int \<times> kern" where
  "tc_24_irq e k = (case k_chan22 k of
      None \<Rightarrow> (- EINVAL, k)
    | Some c \<Rightarrow>
        (let src = replicate 4096 0xAA; dst0 = replicate 4096 0;
             dst = (if e_intr e (k_waits k) = Some 0 then dst0 else e_xfer e c 1 4096 src dst0);
             k = k\<lparr>k_waits := k_waits k + 1\<rparr>
         in (if take 4096 src = take 4096 dst then 0 else - EINVAL, k)))"

definition tc_25_free :: "kern \<Rightarrow> int \<times> kern" where
  "tc_25_free k = (case k_chan22 k of
      None \<Rightarrow> (- EINVAL, k)
    | Some c \<Rightarrow> (0, (dma_release_channel c k)\<lparr>k_chan22 := None\<rparr>))"

definition tc_22_to_25 :: "kenv \<Rightarrow> kern \<Rightarrow> int \<times> kern" where
  "tc_22_to_25 e k =
    (let (err, k) = tc_22_req e k;
         (err, k) = (if err = 0 then tc_23_no_irq e k else (err, k));
         (err, k) = (if err = 0 then tc_24_irq e k else (err, k))
     in if err = 0 then tc_25_free k else (err, k))"

section \<open>Parallel tests\<close>

record tc_parallel =
  tp_str :: string
  tp_max_channels :: nat
  tp_laps :: int
  tp_dma_flags :: "dma_flag list"
  tp_chan_start_index :: nat
  tp_tx_align :: u32
  tp_const_size :: int
  tp_list_len :: nat
  tp_timeout :: int

definition tc_run_parallel :: "kenv \<Rightarrow> tc_parallel \<Rightarrow> kern \<Rightarrow> (int \<times> kern) option" where
  "tc_run_parallel e tcp k = do {
     let use_const_size = (tp_const_size tcp \<noteq> - 1);
     (i, tcs, k) \<leftarrow> par_init (\<lambda>i. tc_test_init e (par_tc (tp_laps tcp) (tp_list_len tcp) (tp_str tcp) i) False
         (word_of_int (tp_const_size tcp)) use_const_size (tp_dma_flags tcp) (tp_tx_align tcp) (tp_timeout tcp))
       (tp_max_channels tcp) 0 (replicate (tp_max_channels tcp) tc0) k;
     if i = 0 then Some (- EINVAL, k)
     else do {
       let max_channels = i;
       (tcs, k) \<leftarrow> ofold (on_tc run_tc) [tp_chan_start_index tcp..<max_channels] (tcs, k);
       (tcs, k) \<leftarrow> ofold (on_tc (tc_test_wait e)) [tp_chan_start_index tcp..<max_channels] (tcs, k);
       (tcs, k) \<leftarrow> par_free e max_channels (tcs, k);
       Some (par_err tcs max_channels 0, k)
     }
   }"

definition parallel_tcp :: "string \<Rightarrow> nat \<Rightarrow> tc_parallel" where
  "parallel_tcp str n = \<lparr>tp_str = str, tp_max_channels = n, tp_laps = 20,
     tp_dma_flags = [DMA_PREP_INTERRUPT, DMA_CTRL_ACK], tp_chan_start_index = 0, tp_tx_align = 1,
     tp_const_size = - 1, tp_list_len = 30, tp_timeout = DEFAULT_TIMEOUT\<rparr>"

definition tc_26_run_3_parallel :: "kenv \<Rightarrow> kern \<Rightarrow> (int \<times> kern) option" where
  "tc_26_run_3_parallel e = tc_run_parallel e (parallel_tcp ''tc_26'' 3)"

definition tc_27_run_4_parallel :: "kenv \<Rightarrow> kern \<Rightarrow> (int \<times> kern) option" where
  "tc_27_run_4_parallel e = tc_run_parallel e (parallel_tcp ''tc_27'' 4)"

definition tc_28_run_5_parallel :: "kenv \<Rightarrow> kern \<Rightarrow> (int \<times> kern) option" where
  "tc_28_run_5_parallel e = tc_run_parallel e (parallel_tcp ''tc_28'' 5)"

definition tc_29_run_6_parallel :: "kenv \<Rightarrow> kern \<Rightarrow> (int \<times> kern) option" where
  "tc_29_run_6_parallel e = tc_run_parallel e (parallel_tcp ''tc_29'' 6)"

definition tc_30_run_7_parallel :: "kenv \<Rightarrow> kern \<Rightarrow> (int \<times> kern) option" where
  "tc_30_run_7_parallel e = tc_run_parallel e (parallel_tcp ''tc_30'' 7)"

definition tc_31_run_128_parallel :: "kenv \<Rightarrow> kern \<Rightarrow> (int \<times> kern) option" where
  "tc_31_run_128_parallel e = tc_run_parallel e (parallel_tcp ''tc_31'' 128)"

definition tc_32_run_1_parallel :: "kenv \<Rightarrow> kern \<Rightarrow> (int \<times> kern) option" where
  "tc_32_run_1_parallel e = tc_run_parallel e (parallel_tcp ''tc_32'' 1)"

definition tc_33_run_2_parallel :: "kenv \<Rightarrow> kern \<Rightarrow> (int \<times> kern) option" where
  "tc_33_run_2_parallel e = tc_run_parallel e (parallel_tcp ''tc_33'' 2)"

definition tc_34_run_pause_and_unpause_parallel :: "kenv \<Rightarrow> kern \<Rightarrow> (int \<times> kern) option" where
  "tc_34_run_pause_and_unpause_parallel e =
    tc_pause_and_unpause_parallel e 4 ''tc_34'' [DMA_PREP_INTERRUPT, DMA_CTRL_ACK] 1"

definition tc_35_run_1_parallel_reuse :: "kenv \<Rightarrow> kern \<Rightarrow> (int \<times> kern) option" where
  "tc_35_run_1_parallel_reuse e = tc_run_parallel e ((parallel_tcp ''tc_35'' 1)
     \<lparr>tp_dma_flags := [DMA_PREP_INTERRUPT], tp_timeout := 100 * DEFAULT_TIMEOUT\<rparr>)"

section \<open>Tests that read registers while transfers run\<close>

text \<open>\<open>enum read_reg_type\<close>: bits 0 to 7 are the channels, bit 8 the global configuration.\<close>

definition DMA_TC_READ_PHY_CHAN :: "nat \<Rightarrow> u32" where "DMA_TC_READ_PHY_CHAN n = push_bit (n - 1) 1"
definition DMA_TC_READ_GLOBAL :: u32 where "DMA_TC_READ_GLOBAL = push_bit 8 1"

text \<open>The reads one call makes: channel numbers, and 8 for the global configuration.\<close>

definition tc_read_reg :: "u32 \<Rightarrow> nat list" where
  "tc_read_reg read_type =
     (if read_type OR DMA_TC_READ_PHY_CHAN 1 \<noteq> 0 then [0] else []) @
     (if read_type OR DMA_TC_READ_PHY_CHAN 2 \<noteq> 0 then [1] else []) @
     (if read_type OR DMA_TC_READ_PHY_CHAN 3 \<noteq> 0 then [2] else []) @
     (if read_type OR DMA_TC_READ_PHY_CHAN 4 \<noteq> 0 then [3] else []) @
     (if read_type OR DMA_TC_READ_PHY_CHAN 5 \<noteq> 0 then [4] else []) @
     (if read_type OR DMA_TC_READ_PHY_CHAN 6 \<noteq> 0 then [5] else []) @
     (if read_type OR DMA_TC_READ_PHY_CHAN 7 \<noteq> 0 then [6] else []) @
     (if read_type OR DMA_TC_READ_PHY_CHAN 8 \<noteq> 0 then [7] else []) @
     (if read_type OR DMA_TC_READ_GLOBAL \<noteq> 0 then [8] else [])"

definition poll_tc :: "kenv \<Rightarrow> tc \<times> kern \<Rightarrow> (tc \<times> kern) option" where
  "poll_tc e s = do { t \<leftarrow> tc_poll e (fst s); Some (t, snd s) }"

text \<open>The register reads between two polls change nothing; \<open>read_type\<close> only chooses them.\<close>

definition tc_run_while_read_reg ::
  "kenv \<Rightarrow> string \<Rightarrow> nat \<Rightarrow> u32 \<Rightarrow> nat \<Rightarrow> int \<Rightarrow> bool \<Rightarrow> bool \<Rightarrow> dma_flag list \<Rightarrow> u32 \<Rightarrow> kern
    \<Rightarrow> (int \<times> kern) option" where
  "tc_run_while_read_reg e str max_channels sz len nlaps is_sg is_const_size dma_flags read_type k = do {
     (i, tcs, k) \<leftarrow> par_init (\<lambda>i. tc_test_init e (par_tc nlaps len str i) is_sg sz is_const_size dma_flags
         TX_ALIGN DEFAULT_TIMEOUT) max_channels 0 (replicate max_channels tc0) k;
     if i = 0 then Some (- EINVAL, k)
     else do {
       let max_channels = i;
       (tcs, k) \<leftarrow> ofold (on_tc run_tc) [0..<max_channels] (tcs, k);
       (tcs, k) \<leftarrow> ofold (on_tc (poll_tc e)) [0..<max_channels] (tcs, k);
       (tcs, k) \<leftarrow> par_free e max_channels (tcs, k);
       Some (par_err tcs max_channels 0, k)
     }
   }"

definition read_all :: u32 where
  "read_all = DMA_TC_READ_PHY_CHAN 1 OR DMA_TC_READ_PHY_CHAN 2 OR DMA_TC_READ_PHY_CHAN 3 OR
     DMA_TC_READ_PHY_CHAN 4 OR DMA_TC_READ_PHY_CHAN 5 OR DMA_TC_READ_PHY_CHAN 6 OR
     DMA_TC_READ_PHY_CHAN 7 OR DMA_TC_READ_GLOBAL"

definition tc_36 :: "kenv \<Rightarrow> kern \<Rightarrow> (int \<times> kern) option" where
  "tc_36 e = tc_run_while_read_reg e ''tc_36'' 1 1024 30 10 True True [DMA_PREP_INTERRUPT] (DMA_TC_READ_PHY_CHAN 1)"

definition tc_37 :: "kenv \<Rightarrow> kern \<Rightarrow> (int \<times> kern) option" where
  "tc_37 e = tc_run_while_read_reg e ''tc_37'' 1 1024 30 10 True True [DMA_PREP_INTERRUPT] (DMA_TC_READ_PHY_CHAN 2)"

definition tc_38 :: "kenv \<Rightarrow> kern \<Rightarrow> (int \<times> kern) option" where
  "tc_38 e = tc_run_while_read_reg e ''tc_38'' 1 1024 30 10 True True [DMA_PREP_INTERRUPT] (DMA_TC_READ_PHY_CHAN 3)"

definition tc_39 :: "kenv \<Rightarrow> kern \<Rightarrow> (int \<times> kern) option" where
  "tc_39 e = tc_run_while_read_reg e ''tc_39'' 1 1024 30 10 True True [DMA_PREP_INTERRUPT] (DMA_TC_READ_PHY_CHAN 4)"

definition tc_40 :: "kenv \<Rightarrow> kern \<Rightarrow> (int \<times> kern) option" where
  "tc_40 e = tc_run_while_read_reg e ''tc_40'' 1 1024 30 10 True True [DMA_PREP_INTERRUPT] (DMA_TC_READ_PHY_CHAN 5)"

definition tc_41 :: "kenv \<Rightarrow> kern \<Rightarrow> (int \<times> kern) option" where
  "tc_41 e = tc_run_while_read_reg e ''tc_41'' 1 1024 30 10 True True [DMA_PREP_INTERRUPT] (DMA_TC_READ_PHY_CHAN 6)"

definition tc_42 :: "kenv \<Rightarrow> kern \<Rightarrow> (int \<times> kern) option" where
  "tc_42 e = tc_run_while_read_reg e ''tc_42'' 1 1024 30 10 True True [DMA_PREP_INTERRUPT] (DMA_TC_READ_PHY_CHAN 7)"

definition tc_43 :: "kenv \<Rightarrow> kern \<Rightarrow> (int \<times> kern) option" where
  "tc_43 e = tc_run_while_read_reg e ''tc_43'' 1 1024 30 10 True True [DMA_PREP_INTERRUPT] DMA_TC_READ_GLOBAL"

definition tc_44 :: "kenv \<Rightarrow> kern \<Rightarrow> (int \<times> kern) option" where
  "tc_44 e = tc_run_while_read_reg e ''tc_44'' 1 1024 30 10 True True [DMA_PREP_INTERRUPT] read_all"

definition tc_45 :: "kenv \<Rightarrow> kern \<Rightarrow> (int \<times> kern) option" where
  "tc_45 e = tc_run_while_read_reg e ''tc_45'' 1 1024 30 10 True False [DMA_PREP_INTERRUPT] read_all"

definition tc_46 :: "kenv \<Rightarrow> kern \<Rightarrow> (int \<times> kern) option" where
  "tc_46 e = tc_run_while_read_reg e ''tc_46'' 1 128 100 10 True True [DMA_PREP_INTERRUPT] read_all"

definition tc_47 :: "kenv \<Rightarrow> kern \<Rightarrow> (int \<times> kern) option" where
  "tc_47 e = tc_run_while_read_reg e ''tc_47'' 1 128 100 10 True False [DMA_PREP_INTERRUPT] read_all"

definition tc_48 :: "kenv \<Rightarrow> kern \<Rightarrow> (int \<times> kern) option" where
  "tc_48 e = tc_run_while_read_reg e ''tc_48'' 1 128 200 1000 True True [DMA_PREP_INTERRUPT] read_all"

definition tc_49 :: "kenv \<Rightarrow> kern \<Rightarrow> (int \<times> kern) option" where
  "tc_49 e = tc_run_while_read_reg e ''tc_49'' 1 128 200 1000 True False [DMA_PREP_INTERRUPT] read_all"

section \<open>Tests 50 to 54\<close>

definition tc_50 :: "kenv \<Rightarrow> kern \<Rightarrow> (int \<times> kern) option" where
  "tc_50 e = tc_run_parallel e ((parallel_tcp ''tc_50'' 5)
     \<lparr>tp_laps := 200, tp_chan_start_index := 3, tp_tx_align := 4\<rparr>)"

definition tc_51 :: "kenv \<Rightarrow> kern \<Rightarrow> (int \<times> kern) option" where
  "tc_51 e = tc_pause_and_unpause_parallel e 2 ''tc_51'' [DMA_PREP_INTERRUPT, DMA_CTRL_ACK] 4"

definition tc_52 :: "kenv \<Rightarrow> kern \<Rightarrow> (int \<times> kern) option" where
  "tc_52 e = tc_pause_and_unpause_parallel e 4 ''tc_52'' [DMA_PREP_INTERRUPT, DMA_CTRL_ACK] 4"

definition tc_53 :: "kenv \<Rightarrow> kern \<Rightarrow> (int \<times> kern) option" where
  "tc_53 e = tc_run_parallel e ((parallel_tcp ''tc_53'' 5) \<lparr>tp_laps := 200, tp_chan_start_index := 3\<rparr>)"

definition tc_54_trigger :: "kenv \<Rightarrow> kern \<Rightarrow> (int \<times> kern) option" where
  "tc_54_trigger e = tc_run_parallel e ((parallel_tcp ''tc_54'' 5)
     \<lparr>tp_laps := 1, tp_const_size := 1024, tp_list_len := 4, tp_timeout := 1000\<rparr>)"

section \<open>Linked jobs on one channel\<close>

record tc_link_cfg =
  lc_tc :: nat
  lc_jobs :: nat
  lc_links :: nat
  lc_buffer_size :: u32
  lc_request_phys :: bool
  lc_start_in_sequence :: bool
  lc_slow_start :: bool
  lc_min_size :: u32
  lc_max_size :: u32

definition link_cfg :: "nat \<Rightarrow> nat \<Rightarrow> nat \<Rightarrow> u32 \<Rightarrow> bool \<Rightarrow> bool \<Rightarrow> tc_link_cfg" where
  "link_cfg tc jobs links sz phys in_seq = \<lparr>lc_tc = tc, lc_jobs = jobs, lc_links = links,
     lc_buffer_size = sz, lc_request_phys = phys, lc_start_in_sequence = in_seq, lc_slow_start = False,
     lc_min_size = 0, lc_max_size = 0\<rparr>"

text \<open>\<open>struct tc_link\<close>: a buffer list, a completion and a prepared descriptor.\<close>

record tc_link =
  lk_bl :: buflist
  lk_done :: nat
  lk_desc :: bool

definition link0 :: tc_link where
  "link0 = \<lparr>lk_bl = buflist0, lk_done = 0, lk_desc = False\<rparr>"

text \<open>Two digits, as \<open>%.2d\<close> prints them.\<close>

definition two_digits :: "nat \<Rightarrow> string" where
  "two_digits n = (if n < 10 then ''0'' else []) @ nat_to_string n"

text \<open>Job \<open>i\<close> of the first loop.  The result of a failed creation is the error alone: the code leaves
the loop and the function at once.  The random sizes go to the list of job 0 (\<open>&tc->buflist\<close>).\<close>

definition link_setup ::
  "kenv \<Rightarrow> tc_link_cfg \<Rightarrow> nat \<Rightarrow> nat option \<Rightarrow> tc_link list \<Rightarrow> kern
    \<Rightarrow> (int \<times> nat option \<times> tc_link list \<times> kern) option" where
  "link_setup e cfg i dma_chan0 tc k = do {
     let name = take (MAX_NAME_LEN - 2)
       (''tc_link_core_tc_'' @ nat_to_string (lc_tc cfg) @ ''_'' @ two_digits i);
     t \<leftarrow> rd tc (int i);
     let (err, bl, k) = dmatest_buflist_create e k (lk_bl t) (lc_links cfg) 0 name
       [DMA_PREP_INTERRUPT, DMA_CTRL_ACK] DEFAULT_TIMEOUT dma_chan0;
     let tc = tc[i := t\<lparr>lk_bl := bl\<rparr>];
     if err \<noteq> 0 then Some (err, dma_chan0, tc, k)
     else do {
       (tc, k) \<leftarrow> (if lc_min_size cfg \<noteq> 0 \<and> lc_max_size cfg \<noteq> 0 then do {
           t0 \<leftarrow> rd tc 0;
           (bl0, k) \<leftarrow> dmatest_sizelist_randomize e (lc_min_size cfg) (lc_max_size cfg) TX_ALIGN (lk_bl t0, k);
           Some (tc[0 := t0\<lparr>lk_bl := bl0\<rparr>], k)
         } else do {
           ti \<leftarrow> rd tc (int i);
           bl \<leftarrow> dmatest_sizelist_set (lc_buffer_size cfg) TX_ALIGN (lk_bl ti);
           Some (tc[i := ti\<lparr>lk_bl := bl\<rparr>], k)
         });
       t \<leftarrow> rd tc (int i);
       bl \<leftarrow> dmatest_buflist_alloc (lk_bl t);
       let n = e_map_sg e (bl_list_len bl);
       let bl = bl\<lparr>sgl_src_len := n, sgl_dst_len := n, bl_maps := bl_maps bl + 2\<rparr>;
       Some (0, dma_chan bl, tc[i := t\<lparr>lk_bl := bl, lk_desc := True, lk_done := 0\<rparr>], k)
     }
   }"

fun link_setup_all ::
  "kenv \<Rightarrow> tc_link_cfg \<Rightarrow> nat list \<Rightarrow> nat option \<Rightarrow> tc_link list \<Rightarrow> kern
    \<Rightarrow> (int \<times> nat option \<times> tc_link list \<times> kern) option" where
  "link_setup_all e cfg [] chan tc k = Some (0, chan, tc, k)"
| "link_setup_all e cfg (i # is) chan tc k = do {
     (err, chan, tc, k) \<leftarrow> link_setup e cfg i chan tc k;
     if err \<noteq> 0 then Some (err, chan, tc, k) else link_setup_all e cfg is chan tc k
   }"

text \<open>Submission: the channel's queues hold job numbers, in order.\<close>

fun link_submit :: "bool \<Rightarrow> tc_link list \<Rightarrow> nat list \<Rightarrow> nat list \<times> nat list \<Rightarrow> (nat list \<times> nat list) option" where
  "link_submit in_seq tc [] q = Some q"
| "link_submit in_seq tc (i # is) (submitted, issued) = do {
     t \<leftarrow> rd tc (int i);
     chk (lk_desc t);
     let submitted = submitted @ [i];
     link_submit in_seq tc is (if in_seq then ([], issued @ submitted) else (submitted, issued))
   }"

definition link_start :: "tc_link_cfg \<Rightarrow> tc_link list \<Rightarrow> nat list option" where
  "link_start cfg tc = do {
     (submitted, issued) \<leftarrow> link_submit (lc_start_in_sequence cfg) tc [0..<lc_jobs cfg] ([], []);
     Some (if lc_start_in_sequence cfg then issued else issued @ submitted)
   }"

text \<open>The engine finishes the oldest job: its scatter list is copied and its callback completes it.
\<open>n\<close> counts the channel's copies.\<close>

definition link_event :: "kenv \<Rightarrow> tc_link list \<times> nat list \<times> nat \<Rightarrow> (tc_link list \<times> nat list \<times> nat) option" where
  "link_event e s = (case s of
      (tc, [], n) \<Rightarrow> None
    | (tc, j # q, n) \<Rightarrow> do {
        t \<leftarrow> rd tc (int j);
        bl \<leftarrow> engine_exec e Sg ((lk_bl t)\<lparr>bl_xfers := n\<rparr>);
        Some (tc[j := t\<lparr>lk_bl := bl, lk_done := lk_done t + 1\<rparr>], q, bl_xfers bl)
      })"

text \<open>\<open>wait_for_completion_interruptible(&tc[i].done)\<close>; at most the jobs still queued finish meanwhile.\<close>

fun link_wait :: "kenv \<Rightarrow> nat \<Rightarrow> nat \<Rightarrow> nat option \<Rightarrow> tc_link list \<times> nat list \<times> nat
    \<Rightarrow> (tc_link list \<times> nat list \<times> nat) option" where
  "link_wait e fuel i sig (tc, q, n) = do {
     t \<leftarrow> rd tc (int i);
     if 0 < lk_done t then Some (tc[i := t\<lparr>lk_done := lk_done t - 1\<rparr>], q, n)
     else if sig = Some 0 then Some (tc, q, n)
     else (case fuel of 0 \<Rightarrow> None | Suc fuel \<Rightarrow> do {
       s \<leftarrow> link_event e (tc, q, n);
       link_wait e fuel i (map_option (\<lambda>n. n - 1) sig) s
     })
   }"

fun link_collect :: "kenv \<Rightarrow> nat list \<Rightarrow> int \<Rightarrow> (tc_link list \<times> nat list \<times> nat) \<times> kern
    \<Rightarrow> (int \<times> (tc_link list \<times> nat list \<times> nat) \<times> kern) option" where
  "link_collect e [] err s = Some (err, s)"
| "link_collect e (i # is) err s = do {
     let (st, k) = s;
     (tc, q, n) \<leftarrow> link_wait e (length (fst (snd st))) i (e_intr e (k_waits k)) st;
     t \<leftarrow> rd tc (int i);
     (r, bl) \<leftarrow> dmatest_buflist_payload_check (lk_bl t);
     link_collect e is (err OR r) ((tc[i := t\<lparr>lk_bl := bl\<rparr>], q, n), k\<lparr>k_waits := k_waits k + 1\<rparr>)
   }"

fun link_destroy :: "nat list \<Rightarrow> nat option \<Rightarrow> tc_link list \<Rightarrow> kern \<Rightarrow> kern option" where
  "link_destroy [] chan tc k = Some k"
| "link_destroy (i # is) chan tc k = do {
     t \<leftarrow> rd tc (int i);
     (bl, k) \<leftarrow> dmatest_buflist_destroy ((lk_bl t)\<lparr>dma_chan := chan\<rparr>, k);
     link_destroy is None tc k
   }"

text \<open>The jobs, which \<open>kmalloc\<close> leaves unset, start as zeros, and pausing the channel has no effect on what the engine
does later: the events are those of the engine between the calls.\<close>

definition tc_link_core :: "kenv \<Rightarrow> tc_link_cfg \<Rightarrow> kern \<Rightarrow> (int \<times> kern) option" where
  "tc_link_core e cfg k = do {
     let ok = e_mem e (k_mallocs k);
     let k = k\<lparr>k_mallocs := k_mallocs k + 1\<rparr>;
     if \<not> ok then Some (0, k)
     else do {
       (err, chan, tc, k) \<leftarrow> link_setup_all e cfg [0..<lc_jobs cfg] None (replicate (lc_jobs cfg) link0) k;
       if err \<noteq> 0 then Some (err, k)
       else do {
         q \<leftarrow> link_start cfg tc;
         (err, (tc, q, n), k) \<leftarrow> link_collect e [0..<lc_jobs cfg] 0 ((tc, q, 0), k);
         k \<leftarrow> link_destroy [0..<lc_jobs cfg] chan tc k;
         Some (err, k)
       }
     }
   }"

definition tc_55 :: "kenv \<Rightarrow> kern \<Rightarrow> (int \<times> kern) option" where
  "tc_55 e = tc_link_core e (link_cfg 55 2 5 4096 True False)"

definition tc_56 :: "kenv \<Rightarrow> kern \<Rightarrow> (int \<times> kern) option" where
  "tc_56 e = tc_link_core e (link_cfg 56 2 5 4096 True True)"

definition tc_57 :: "kenv \<Rightarrow> kern \<Rightarrow> (int \<times> kern) option" where
  "tc_57 e = tc_link_core e (link_cfg 57 2 1 16384 True True)"

definition tc_58 :: "kenv \<Rightarrow> kern \<Rightarrow> (int \<times> kern) option" where
  "tc_58 e = tc_link_core e (link_cfg 58 10 1 16384 True True)"

definition tc_59 :: "kenv \<Rightarrow> kern \<Rightarrow> (int \<times> kern) option" where
  "tc_59 e = tc_link_core e (link_cfg 59 10 10 4096 True True)"

definition tc_60 :: "kenv \<Rightarrow> kern \<Rightarrow> (int \<times> kern) option" where
  "tc_60 e = tc_link_core e (link_cfg 60 2 2 4096 False False)"

definition tc_61 :: "kenv \<Rightarrow> kern \<Rightarrow> (int \<times> kern) option" where
  "tc_61 e = tc_link_core e (link_cfg 61 2 2 4096 False True)"

definition tc_62 :: "kenv \<Rightarrow> kern \<Rightarrow> (int \<times> kern) option" where
  "tc_62 e = tc_link_core e (link_cfg 62 1 90 128 False True)"

definition tc_63 :: "kenv \<Rightarrow> kern \<Rightarrow> (int \<times> kern) option" where
  "tc_63 e = tc_link_core e (link_cfg 63 1 140 128 False True)"

definition tc_64 :: "kenv \<Rightarrow> kern \<Rightarrow> (int \<times> kern) option" where
  "tc_64 e = tc_link_core e (link_cfg 64 4 80 128 False False)"

definition tc_65 :: "kenv \<Rightarrow> kern \<Rightarrow> (int \<times> kern) option" where
  "tc_65 e = tc_link_core e (link_cfg 59 10 10 4096 False True)"

definition tc_66 :: "kenv \<Rightarrow> kern \<Rightarrow> (int \<times> kern) option" where
  "tc_66 e = tc_link_core e (link_cfg 58 10 1 16384 False True)"

definition tc_67 :: "kenv \<Rightarrow> kern \<Rightarrow> (int \<times> kern) option" where
  "tc_67 e = tc_link_core e ((link_cfg 59 10 10 4096 False True)\<lparr>lc_slow_start := True\<rparr>)"

definition tc_68 :: "kenv \<Rightarrow> kern \<Rightarrow> (int \<times> kern) option" where
  "tc_68 e = tc_link_core e ((link_cfg 59 10 10 4096 True True)\<lparr>lc_slow_start := True\<rparr>)"

text \<open>Test 69: six sizes around 64k and 128k, left at the first failure.\<close>

fun tc_69_loop :: "kenv \<Rightarrow> tc_link_cfg list \<Rightarrow> int \<Rightarrow> kern \<Rightarrow> (int \<times> kern) option" where
  "tc_69_loop e [] err k = Some (err, k)"
| "tc_69_loop e (cfg # cfgs) err k = do {
     (err, k) \<leftarrow> tc_link_core e cfg k;
     if err \<noteq> 0 then Some (err, k) else tc_69_loop e cfgs err k
   }"

definition tc_69 :: "kenv \<Rightarrow> kern \<Rightarrow> (int \<times> kern) option" where
  "tc_69 e = tc_69_loop e (map (\<lambda>sz. link_cfg 69 1 10 sz False False)
     [0x10000 - 1, 0x10000, 0x10000 + 1, 2 * 0x10000 - 1, 2 * 0x10000, 2 * 0x10000 + 1]) 0"

section \<open>The dispatcher\<close>

definition tc_nop :: "nat \<Rightarrow> kern \<Rightarrow> int \<times> kern" where
  "tc_nop test_id k = seq_printf (''TEST_'' @ nat_to_string test_id @ '' is removed'' @ [CHR 0x0A]) k"

text \<open>The switch: the error of test \<open>test_id\<close>, with the cases in three groups: reading registers (only with debugging), then the parallel and linked tests
with the \<open>default\<close>, then the rest.\<close>

definition run_reg_test :: "kenv \<Rightarrow> nat \<Rightarrow> kern \<Rightarrow> (int \<times> kern) option" where
  "run_reg_test e test_id k =
    (if \<not> e_debug e then Some (tc_nop test_id k)
     else if test_id = 36 then tc_36 e k
     else if test_id = 37 then tc_37 e k
     else if test_id = 38 then tc_38 e k
     else if test_id = 39 then tc_39 e k
     else if test_id = 40 then tc_40 e k
     else if test_id = 41 then tc_41 e k
     else if test_id = 42 then tc_42 e k
     else if test_id = 43 then tc_43 e k
     else if test_id = 44 then tc_44 e k
     else if test_id = 45 then tc_45 e k
     else if test_id = 46 then tc_46 e k
     else if test_id = 47 then tc_47 e k
     else if test_id = 48 then tc_48 e k
     else tc_49 e k)"

definition run_late_test :: "kenv \<Rightarrow> nat \<Rightarrow> kern \<Rightarrow> (int \<times> kern) option" where
  "run_late_test e test_id k =
    (if test_id = 50 then tc_50 e k
     else if test_id = 51 then tc_51 e k
     else if test_id = 52 then tc_52 e k
     else if test_id = 53 then tc_53 e k
     else if test_id = 54 then tc_54_trigger e k
     else if test_id = 55 then tc_55 e k
     else if test_id = 56 then tc_56 e k
     else if test_id = 57 then tc_57 e k
     else if test_id = 58 then tc_58 e k
     else if test_id = 59 then tc_59 e k
     else if test_id = 60 then tc_60 e k
     else if test_id = 61 then tc_61 e k
     else if test_id = 62 then tc_62 e k
     else if test_id = 63 then tc_63 e k
     else if test_id = 64 then tc_64 e k
     else if test_id = 65 then tc_65 e k
     else if test_id = 66 then tc_66 e k
     else if test_id = 67 then tc_67 e k
     else if test_id = 68 then tc_68 e k
     else if test_id = 69 then tc_69 e k
     else Some (- EINVAL, k))"

definition run_test :: "kenv \<Rightarrow> nat \<Rightarrow> kern \<Rightarrow> (int \<times> kern) option" where
  "run_test e test_id k =
    (if test_id = 1 then tc_1_fixed_buffer e k
     else if test_id = 2 then tc_2_fixed_buffer e k
     else if test_id = 3 then tc_3_fixed_buffer e k
     else if test_id = 4 then tc_4_fixed_buffer e k
     else if test_id = 5 then tc_5_random_buffer e k
     else if test_id = 6 then tc_6_sg_buffer e k
     else if test_id = 7 then tc_7_sg_buffer e k
     else if test_id = 8 then tc_8_sg_buffer e k
     else if test_id = 9 then tc_9_sg_buffer e k
     else if test_id \<in> {10, 11, 12, 13, 14} \<and> \<not> (e_mmc e \<and> e_debug e) then Some (tc_nop test_id k)
     else if test_id = 10 then Some (tc_10_sg_size_1024_one e k)
     else if test_id = 11 then Some (tc_11_sg_size_chain_one e k)
     else if test_id = 12 then Some (tc_12_sg_size_1024_many e k)
     else if test_id = 13 then Some (tc_13_sg_size_1024_chain_many e k)
     else if test_id = 14 then tc_14_sg_buffer_temporary_endless e k
     else if test_id = 15 then tc_15_static_buffer e k
     else if test_id = 16 then tc_16_static_buffer e k
     else if test_id = 17 then tc_17_static_buffer e k
     else if test_id = 18 then tc_18_static_buffer e k
     else if test_id = 19 then tc_19_static_buffer e k
     else if test_id = 20 then tc_20_random_buffer e k
     else if test_id = 21 then tc_21_stop_and_go e k
     else if test_id \<in> {22, 23, 24, 25} then Some (tc_22_to_25 e k)
     else if test_id = 26 then tc_26_run_3_parallel e k
     else if test_id = 27 then tc_27_run_4_parallel e k
     else if test_id = 28 then tc_28_run_5_parallel e k
     else if test_id = 29 then tc_29_run_6_parallel e k
     else if test_id = 30 then tc_30_run_7_parallel e k
     else if test_id = 31 then tc_31_run_128_parallel e k
     else if test_id = 32 then tc_32_run_1_parallel e k
     else if test_id = 33 then tc_33_run_2_parallel e k
     else if test_id = 34 then tc_34_run_pause_and_unpause_parallel e k
     else if test_id = 35 then tc_35_run_1_parallel_reuse e k
     else if 36 \<le> test_id \<and> test_id \<le> 49 then run_reg_test e test_id k
     else run_late_test e test_id k)"

definition run_prefix :: "kenv \<Rightarrow> nat \<Rightarrow> string" where
  "run_prefix e test_id = (if e_mmc e \<and> e_debug e \<and> test_id \<in> {10, 11, 12, 13} then ''echo '' else [])"

definition finish_line :: "string \<Rightarrow> nat \<Rightarrow> int \<Rightarrow> string" where
  "finish_line str test_id err = str @ ''Finished test '' @ nat_to_string test_id @ '': '' @
     (if err = 0 then ''OK'' else ''***FAIL***'') @ [CHR 0x0A]"

text \<open>Reading the file: always 0; the verdict is the line printed.\<close>

definition d40_test_run :: "kenv \<Rightarrow> nat \<Rightarrow> kern \<Rightarrow> (int \<times> kern) option" where
  "d40_test_run e test_id k = do {
     let err = e_lock e (k_locks k);
     let k = k\<lparr>k_locks := k_locks k + 1\<rparr>;
     (err, k) \<leftarrow> (if err \<noteq> 0 then Some (err, k) else run_test e test_id k);
     let (_, k) = seq_printf (finish_line (run_prefix e test_id) test_id err) k;
     Some (0, k\<lparr>k_unlocks := k_unlocks k + 1\<rparr>)
   }"

text \<open>Module initialisation: the files it creates under debugfs, with the private number of each.
\<open>lock\<close>, \<open>dir\<close> and \<open>file i\<close> are the results of the calls (0 or a negative error).\<close>

definition NBR_TESTS :: nat where "NBR_TESTS = 70"

fun create_files :: "(nat \<Rightarrow> int) \<Rightarrow> nat list \<Rightarrow> (string \<times> nat) list \<Rightarrow> int \<times> (string \<times> nat) list" where
  "create_files file [] acc = (0, acc)"
| "create_files file (i # is) acc =
    (if file i < 0 then (file i, acc)
     else create_files file is (acc @ [(take 31 (''test_'' @ nat_to_string i), i)]))"

definition stedma40_test_init :: "int \<Rightarrow> int \<Rightarrow> (nat \<Rightarrow> int) \<Rightarrow> int \<times> (string \<times> nat) list" where
  "stedma40_test_init lock dir file =
    (if lock \<noteq> 0 then (lock, [])
     else if dir < 0 then (dir, [])
     else create_files file [1..<NBR_TESTS] [])"

end
