(* ===== verification/DmaSizes.thy ===== *)
theory DmaSizes
imports DmaSchedule
begin

unbundle bit_operations_syntax

text \<open>The set-up of a buffer list (\<open>dma_test_lib.c\<close>): the sizes a list gets, constant or random, and
that creation, sizing and allocation leave a list in good order.\<close>

section \<open>Random sizes\<close>

lemma ALIGN_1 [simp]: "ALIGN x 1 = x"
  by (simp add: ALIGN_def)

lemma unat_ALIGN_4:
  assumes "unat x \<le> 1000000"
  shows "unat (ALIGN x 4) = (unat x + 3) div 4 * 4"
proof -
  let ?y = "x + 3"
  have y: "unat ?y = unat x + 3"
    using assms by (simp add: unat_word_ariths)
  have m: "?y AND 3 = ?y mod 4"
    using take_bit_eq_mask [of 2 ?y] take_bit_eq_mod [of 2 ?y] by (simp add: mask_eq_exp_minus_1)
  have "(?y AND 3) AND (?y AND NOT 3) = 0" "(?y AND 3) OR (?y AND NOT 3) = ?y"
    by (auto intro!: bit_eqI simp: bit_simps)
  then have "(?y AND 3) + (?y AND NOT 3) = ?y"
    using word_plus_and_or [of "?y AND 3" "?y AND NOT 3"] by simp
  then have e: "?y AND NOT 3 = ?y - ?y mod 4" using m by (simp add: algebra_simps)
  have "?y mod 4 \<le> ?y" by (simp add: word_le_nat_alt unat_mod)
  then have "unat (?y AND NOT 3) = unat ?y - unat ?y mod 4"
    by (subst e) (simp add: unat_sub unat_mod)
  then have "unat (?y AND NOT 3) = (unat x + 3) div 4 * 4"
    by (simp only: y minus_mod_eq_div_mult)
  then show ?thesis by (simp add: ALIGN_def)
qed

text \<open>The quotient of the scaled random number stays below the width of the range when its square
fits 32 bits; otherwise the last partial bucket can fall outside.\<close>

lemma bucket_bound:
  fixes d r M :: nat
  assumes "0 < d" "d * d \<le> M" "r \<le> M"
  shows "r div (M div d) \<le> d"
proof -
  have b: "d \<le> M div d" using assms by (simp add: less_eq_div_iff_mult_less_eq)
  have "M = M div d * d + M mod d" by simp
  also have "\<dots> < M div d * d + M div d" using b assms(1) by (meson add_strict_left_mono le_trans mod_less_divisor not_le)
  finally have "M < M div d * (d + 1)" by (simp add: algebra_simps)
  then have "r < M div d * (d + 1)" using assms(3) by simp
  then have "r div (M div d) < d + 1"
    by (metis less_mult_imp_div_less mult.commute)
  then show ?thesis by simp
qed

lemma random_quotient:
  assumes "unat mn < unat mx" "(unat mx - unat mn) * (unat mx - unat mn) \<le> 4294967295"
  shows "\<exists>q. (do { bucket \<leftarrow> u32_div 0xFFFFFFFF (mx - mn); u32_div r bucket }) = Some q \<and>
    unat mn \<le> unat (q + mn) \<and> unat (q + mn) \<le> unat mx"
proof -
  let ?d = "unat mx - unat mn"
  have d: "unat (mx - mn) = ?d" using assms by (simp add: unat_sub word_le_nat_alt)
  have nz: "mx - mn \<noteq> 0" using assms d by (metis unat_0 zero_less_diff less_numeral_extra(3))
  have m: "unat (0xFFFFFFFF :: u32) = 4294967295" by simp
  have b: "unat (0xFFFFFFFF div (mx - mn)) = 4294967295 div ?d"
    by (simp only: unat_div m d)
  have r: "unat r \<le> 4294967295" using unsigned_less [of r, where ?'a = nat] by simp
  have "?d \<le> 4294967295 div ?d" using assms by (simp add: less_eq_div_iff_mult_less_eq)
  then have bnz: "0xFFFFFFFF div (mx - mn) \<noteq> 0"
    using assms b by (metis unat_0 zero_less_diff le_zero_eq less_numeral_extra(3))
  let ?q = "r div (0xFFFFFFFF div (mx - mn))"
  have q: "unat ?q \<le> ?d"
    using bucket_bound [of ?d 4294967295 "unat r"] assms r by (simp only: unat_div m d)
  then have "unat (?q + mn) = unat ?q + unat mn"
    using assms(1) unsigned_less [of mx, where ?'a = nat] by (intro unat_add_lem [THEN iffD1]) simp
  with q nz bnz assms show ?thesis by (simp add: u32_div_def)
qed

lemma random_size_ok:
  assumes "unat mn < unat mx" "(unat mx - unat mn) * (unat mx - unat mn) \<le> 4294967295"
  shows "\<exists>v. random_size r mn mx 1 = Some v \<and> unat mn \<le> unat v \<and> unat v \<le> unat mx"
proof -
  from random_quotient [OF assms] obtain q where
    "(do { bucket \<leftarrow> u32_div 0xFFFFFFFF (mx - mn); u32_div r bucket }) = Some q"
    "unat mn \<le> unat (q + mn)" "unat (q + mn) \<le> unat mx" by blast
  then show ?thesis
    by (auto simp: random_size_def bind_eq_Some_conv word_le_nat_alt c_simps)
qed

lemma random_size_align4:
  assumes "unat mn < unat mx" "(unat mx - unat mn) * (unat mx - unat mn) \<le> 4294967295" "unat mx \<le> 1000000"
  shows "\<exists>v. random_size r mn mx 4 = Some v \<and> unat v \<le> unat mx + 3"
proof -
  from random_quotient [OF assms(1,2)] obtain q where q:
    "(do { bucket \<leftarrow> u32_div 0xFFFFFFFF (mx - mn); u32_div r bucket }) = Some q"
    "unat (q + mn) \<le> unat mx" by blast
  then have "unat (ALIGN (q + mn) 4) \<le> unat (ALIGN mx 4)" "unat (ALIGN mx 4) \<le> unat mx + 3"
    using assms(3) by (simp_all add: unat_ALIGN_4 div_le_mono)
  with q show ?thesis
    by (auto simp: random_size_def bind_eq_Some_conv word_le_nat_alt c_simps intro: order_trans)
qed

section \<open>A list in good order\<close>

text \<open>A kernel in which nothing goes wrong: every request is granted, blocks have the room the code
uses, no signal arrives, and the engine copies what it is asked to copy.\<close>

definition good_kernel :: "kenv \<Rightarrow> bool" where
  "good_kernel e \<longleftrightarrow> faithful_engine e \<and> (\<forall>n. e_grant e n \<noteq> None) \<and> (\<forall>n. e_intr e n = None) \<and>
     (\<forall>n. e_wq e n) \<and> (\<forall>len. len < int_cells e len) \<and> (\<forall>n. e_mem e n) \<and> (\<forall>n. e_lock e n = 0) \<and>
     (\<exists>N. \<forall>n\<ge>N. e_residue e n = 0) \<and> e_page e \<le> 65536"

definition fresh_bl :: "nat \<Rightarrow> buflist \<Rightarrow> bool" where
  "fresh_bl len bl \<longleftrightarrow> bl_list_len bl = len \<and> len < length (list_size bl) \<and>
     list_buf_src bl = replicate len None \<and> list_buf_dst bl = replicate len None \<and>
     bl_desc bl = replicate len None \<and> dma_chan bl \<noteq> None \<and> bl_submitted bl = [] \<and> bl_issued bl = [] \<and>
     \<not> is_dma_prepared bl"

text \<open>The fields the set-up leaves alone.\<close>

definition same_chan :: "buflist \<Rightarrow> buflist \<Rightarrow> bool" where
  "same_chan bl bl' \<longleftrightarrow> dma_chan bl' = dma_chan bl \<and> bl_flags bl' = bl_flags bl \<and> bl_issued bl' = bl_issued bl \<and>
     is_dma_prepared bl' = is_dma_prepared bl"

definition same_held :: "kern \<Rightarrow> kern \<Rightarrow> bool" where
  "same_held k k' \<longleftrightarrow> k_held k' = k_held k \<and> k_wqs k' = k_wqs k \<and> k_seq k' = k_seq k \<and>
     k_unlocks k' = k_unlocks k"

lemma same_held_refl [simp]: "same_held k k" by (simp add: same_held_def)
lemma same_held_trans: "same_held a b \<Longrightarrow> same_held b c \<Longrightarrow> same_held a c" by (simp add: same_held_def)

lemma create_given:
  assumes "\<forall>len. len < int_cells e len" "bl_submitted bl = []" "bl_issued bl = []"
  shows "\<exists>bl'. dmatest_buflist_create e k bl len pad name flags t (Some c) = (0, bl', k) \<and>
    fresh_bl len bl' \<and> bl_flags bl' = flags \<and> dma_chan bl' = Some c \<and> bl_end_padding bl' = pad"
  using assms by (simp add: dmatest_buflist_create_def Let_def fresh_bl_def)

lemma create_request:
  assumes "\<forall>len. len < int_cells e len" "bl_submitted bl = []" "bl_issued bl = []" "\<forall>n. e_grant e n \<noteq> None"
  shows "\<exists>bl' c k'. dmatest_buflist_create e k bl len pad name flags t None = (0, bl', k') \<and>
    fresh_bl len bl' \<and> bl_flags bl' = flags \<and> dma_chan bl' = Some c \<and> k_held k' = c # k_held k \<and>
    k_wqs k' = k_wqs k \<and> k_seq k' = k_seq k \<and> k_unlocks k' = k_unlocks k \<and> bl_end_padding bl' = pad"
proof -
  obtain c where "e_grant e (k_reqs k) = Some c" using assms(4) by fastforce
  with assms show ?thesis
    by (simp add: dmatest_buflist_create_def dma_request_channel_def Let_def fresh_bl_def)
qed

lemma until_sentinel_fill:
  "- 1 \<notin> set sizes \<Longrightarrow> until_sentinel (map Some sizes @ Some (- 1) # rest) = Some sizes"
  by (induction sizes) auto

text \<open>The size array after the list has been sized.\<close>

definition sized :: "int list \<Rightarrow> buflist \<Rightarrow> buflist \<Rightarrow> bool" where
  "sized sizes bl bl' \<longleftrightarrow> (\<exists>rest. bl' = bl\<lparr>list_size := map Some sizes @ Some (- 1) # rest\<rparr>) \<and>
     length sizes = bl_list_len bl \<and> (\<forall>s \<in> set sizes. 0 \<le> s)"

lemma sizelist_set_sized:
  assumes "bl_list_len bl < length (list_size bl)" "0 \<le> sint (ALIGN v al)"
  shows "\<exists>bl'. dmatest_sizelist_set v al bl = Some bl' \<and>
    sized (replicate (bl_list_len bl) (sint (ALIGN v al))) bl bl'"
proof -
  let ?n = "bl_list_len bl"
  let ?v = "Some (sint (ALIGN v al))"
  have f: "ofold (\<lambda>i ls. wr ls (int i) ?v) [0..<?n] (list_size bl) =
      Some (replicate ?n ?v @ drop ?n (list_size bl))"
    using ofold_wr_fill [of 0 ?n "list_size bl" "\<lambda>_. ?v"] assms(1) by (simp add: map_replicate_const)
  have "wr (replicate ?n ?v @ drop ?n (list_size bl)) (int ?n) (Some (- 1)) =
      Some (map Some (replicate ?n (sint (ALIGN v al))) @ Some (- 1) # drop (Suc ?n) (list_size bl))"
    using assms(1) by (simp add: wr_nat list_update_append Cons_nth_drop_Suc [symmetric])
  with f assms(2) show ?thesis
    by (auto simp: dmatest_sizelist_set_def sized_def)
qed

text \<open>One turn of the loop of \<open>dmatest_sizelist_randomize\<close>, and the loop.\<close>

lemma randomize_step_pair:
  "randomize_step e mn mx al i (bl, k) = do {
     v \<leftarrow> random_size (e_rand e (k_rands k)) mn mx al;
     ls \<leftarrow> wr (list_size bl) (int i) (Some (sint v));
     Some (bl\<lparr>list_size := ls\<rparr>, k\<lparr>k_rands := k_rands k + 1\<rparr>)
   }"
  by (simp add: randomize_step_def)

lemma randomize_loop:
  assumes "\<And>r. \<exists>v. random_size r mn mx al = Some v \<and> 0 \<le> sint v" "n \<le> length (list_size bl)"
  shows "\<exists>vs k'. ofold (randomize_step e mn mx al) [0..<n] (bl, k) = Some (bl\<lparr>list_size := map Some vs @ drop n (list_size bl)\<rparr>, k') \<and>
       length vs = n \<and> (\<forall>s \<in> set vs. 0 \<le> s) \<and> same_held k k'"
  using assms(2)
proof (induction n)
  case 0
  then show ?case by (intro exI [of _ "[]"] exI [of _ k]) simp
next
  case (Suc n)
  then obtain vs k' where IH: "ofold (randomize_step e mn mx al) [0..<n] (bl, k) = Some (bl\<lparr>list_size := map Some vs @ drop n (list_size bl)\<rparr>, k')"
    "length vs = n" "\<forall>s \<in> set vs. 0 \<le> s" "same_held k k'"
    by (auto simp del: upt_Suc)
  obtain v where v: "random_size (e_rand e (k_rands k')) mn mx al = Some v" "0 \<le> sint v"
    using assms(1) by blast
  have "(map Some vs @ drop n (list_size bl))[n := Some (sint v)] =
      map Some (vs @ [sint v]) @ drop (Suc n) (list_size bl)"
    using IH(2) Suc.prems by (simp add: list_update_append Cons_nth_drop_Suc [symmetric])
  with IH v Suc.prems show ?case
    by (intro exI [of _ "vs @ [sint v]"] exI [of _ "k'\<lparr>k_rands := k_rands k' + 1\<rparr>"])
      (auto simp: ofold_append randomize_step_pair wr_nat same_held_def)
qed

lemma sizelist_randomize_sized:
  assumes "\<And>r. \<exists>v. random_size r mn mx al = Some v \<and> 0 \<le> sint v" "bl_list_len bl < length (list_size bl)"
  shows "\<exists>bl' k' sizes. dmatest_sizelist_randomize e mn mx al (bl, k) = Some (bl', k') \<and>
    sized sizes bl bl' \<and> same_held k k'"
proof -
  let ?n = "bl_list_len bl"
  obtain vs k' where l: "ofold (randomize_step e mn mx al) [0..<?n] (bl, k) = Some (bl\<lparr>list_size := map Some vs @ drop ?n (list_size bl)\<rparr>, k')"
    "length vs = ?n" "\<forall>s \<in> set vs. 0 \<le> s" "same_held k k'"
    using randomize_loop [OF assms(1), of ?n bl e k] assms(2) by auto
  have "wr (map Some vs @ drop ?n (list_size bl)) (int ?n) (Some (- 1)) =
      Some (map Some vs @ Some (- 1) # drop (Suc ?n) (list_size bl))"
    using assms(2) l(2) by (simp add: wr_nat list_update_append Cons_nth_drop_Suc [symmetric])
  with l show ?thesis
    by (auto simp: dmatest_sizelist_randomize_def sized_def)
qed

section \<open>Allocation and destruction\<close>

lemma alloc_fold:
  assumes "\<forall>s \<in> set sizes. 0 \<le> s" "length (list_buf_src bl) = length sizes"
    "length (list_buf_dst bl) = length sizes" "n \<le> length sizes"
  shows "\<exists>m. ofold (alloc_step sizes) [0..<n] bl = Some (bl\<lparr>
      list_buf_src := map (\<lambda>i. Some (src_init i (nat (sizes ! i)) (bl_end_padding bl))) [0..<n] @ drop n (list_buf_src bl),
      list_buf_dst := map (\<lambda>i. Some (dst_init (nat (sizes ! i)) (bl_end_padding bl))) [0..<n] @ drop n (list_buf_dst bl),
      bl_maps := m\<rparr>)"
  using assms(4)
proof (induction n)
  case 0
  then show ?case by (intro exI [of _ "bl_maps bl"]) simp
next
  case (Suc n)
  then obtain m where IH: "ofold (alloc_step sizes) [0..<n] bl = Some (bl\<lparr>
      list_buf_src := map (\<lambda>i. Some (src_init i (nat (sizes ! i)) (bl_end_padding bl))) [0..<n] @ drop n (list_buf_src bl),
      list_buf_dst := map (\<lambda>i. Some (dst_init (nat (sizes ! i)) (bl_end_padding bl))) [0..<n] @ drop n (list_buf_dst bl),
      bl_maps := m\<rparr>)" by auto
  let ?src = "map (\<lambda>i. Some (src_init i (nat (sizes ! i)) (bl_end_padding bl))) [0..<n] @ drop n (list_buf_src bl)"
  let ?dst = "map (\<lambda>i. Some (dst_init (nat (sizes ! i)) (bl_end_padding bl))) [0..<n] @ drop n (list_buf_dst bl)"
  have "?src[n := v] = map (\<lambda>i. Some (src_init i (nat (sizes ! i)) (bl_end_padding bl))) [0..<n] @ v # drop (Suc n) (list_buf_src bl)"
    "?dst[n := v] = map (\<lambda>i. Some (dst_init (nat (sizes ! i)) (bl_end_padding bl))) [0..<n] @ v # drop (Suc n) (list_buf_dst bl)"
    "length ?src = length sizes" "length ?dst = length sizes" for v
    using Suc.prems assms by (simp_all add: list_update_append Cons_nth_drop_Suc [symmetric])
  then have "alloc_step sizes n (bl\<lparr>list_buf_src := ?src, list_buf_dst := ?dst, bl_maps := m\<rparr>) = Some (bl\<lparr>
      list_buf_src := map (\<lambda>i. Some (src_init i (nat (sizes ! i)) (bl_end_padding bl))) [0..<Suc n] @ drop (Suc n) (list_buf_src bl),
      list_buf_dst := map (\<lambda>i. Some (dst_init (nat (sizes ! i)) (bl_end_padding bl))) [0..<Suc n] @ drop (Suc n) (list_buf_dst bl),
      bl_maps := m + (if bl_end_padding bl \<noteq> 0 then 2 else 0)\<rparr>)"
    using Suc.prems assms(1) by (simp add: alloc_step_def Let_def chk_bind wr_nat)
  with IH show ?case by (auto simp: ofold_append)
qed

lemma alloc_good:
  assumes "fresh_bl (length sizes) bl" "sized sizes bl bl1"
  shows "\<exists>bl' ss ds. dmatest_buflist_alloc bl1 = Some bl' \<and> bl_good sizes ss ds bl' \<and> same_chan bl bl' \<and>
    bl_list_len bl' = length sizes \<and> (sizes \<noteq> [] \<and> 0 < hd sizes \<longrightarrow> ds \<noteq> ss)"
proof -
  from assms obtain rest where b1: "bl1 = bl\<lparr>list_size := map Some sizes @ Some (- 1) # rest\<rparr>"
    and pos: "\<forall>s \<in> set sizes. 0 \<le> s" by (auto simp: sized_def)
  from pos have "- 1 \<notin> set sizes" by auto
  then have u: "until_sentinel (list_size bl1) = Some sizes" by (simp add: b1 until_sentinel_fill)
  have len: "length (list_buf_src bl1) = length sizes" "length (list_buf_dst bl1) = length sizes"
    using assms(1) by (simp_all add: b1 fresh_bl_def)
  obtain m where f: "ofold (alloc_step sizes) [0..<length sizes] bl1 = Some (bl1\<lparr>
      list_buf_src := map (\<lambda>i. Some (src_init i (nat (sizes ! i)) (bl_end_padding bl1))) [0..<length sizes],
      list_buf_dst := map (\<lambda>i. Some (dst_init (nat (sizes ! i)) (bl_end_padding bl1))) [0..<length sizes],
      bl_maps := m\<rparr>)"
    using alloc_fold [OF pos len order_refl] len by auto
  have a: "dmatest_buflist_alloc bl1 = ofold (alloc_step sizes) [0..<length sizes] bl1"
    by (simp add: dmatest_buflist_alloc_def u)
  have fst_byte: "src_init 0 (nat z) pad \<noteq> dst_init (nat z) pad" if z: "0 < z" for z pad
  proof
    obtain n where n: "nat z = Suc n" using z by (cases "nat z") auto
    assume "src_init 0 (nat z) pad = dst_init (nat z) pad"
    then have "src_init 0 (nat z) pad ! 0 = dst_init (nat z) pad ! 0" by simp
    then show False using n by (simp add: src_init_def dst_init_def upt_conv_Cons del: upt_Suc)
  qed
  have differ: "map (\<lambda>i. dst_init (nat (sizes ! i)) pad) [0..<length sizes] \<noteq>
      map (\<lambda>i. src_init i (nat (sizes ! i)) pad) [0..<length sizes]" if "sizes \<noteq> []" "0 < hd sizes" for pad
    using that fst_byte [of "hd sizes" pad] by (cases sizes) (auto simp: upt_conv_Cons simp del: upt_Suc)
  show ?thesis
    unfolding a f
    using assms pos u differ [of "bl_end_padding bl1"]
    by (intro exI [of _ "map (\<lambda>i. src_init i (nat (sizes ! i)) (bl_end_padding bl1)) [0..<length sizes]"]
        exI [of _ "map (\<lambda>i. dst_init (nat (sizes ! i)) (bl_end_padding bl1)) [0..<length sizes]"] exI conjI refl)
      (auto simp: bl_good_def b1 fresh_bl_def same_chan_def src_init_def dst_init_def)
qed

lemma free_fold:
  "\<forall>i \<in> set xs. i < length (list_buf_src bl) \<and> i < length (list_buf_dst bl) \<Longrightarrow>
    \<exists>bl'. ofold free_step xs bl = Some bl'"
  by (induction xs arbitrary: bl) (auto simp: free_step_def c_simps)

lemma destroy_good:
  assumes "bl_good sizes ss ds bl"
  shows "\<exists>bl'. dmatest_buflist_destroy (bl\<lparr>dma_chan := chan\<rparr>, k) =
    Some (bl', case chan of None \<Rightarrow> k | Some c \<Rightarrow> dma_release_channel c k)"
  using assms free_fold [of "[0..<length sizes]" "bl\<lparr>dma_chan := chan\<rparr>"]
  by (auto simp: dmatest_buflist_destroy_def dmatest_buflist_free_def bl_good_def)

lemma destroy_good_own:
  assumes "bl_good sizes ss ds bl" "dma_chan bl = Some c"
  shows "\<exists>bl'. dmatest_buflist_destroy (bl, k) = Some (bl', dma_release_channel c k)"
proof -
  have "bl\<lparr>dma_chan := Some c\<rparr> = bl" using assms(2) by simp
  then show ?thesis using destroy_good [OF assms(1), of "Some c" k] by simp
qed

end
