(* ===== verification/DmaCorrect.thy ===== *)
theory DmaCorrect
imports DmaTests DmaSizes "HOL-Library.Multiset"
begin

text \<open>In a kernel where nothing goes wrong every test case of \<open>dma_test_module.c\<close> returns 0 and gives
back every channel and workqueue it took.  The proofs follow the code: set-up, laps, tear-down.\<close>

text \<open>\<open>passes f\<close>: the test returns 0 from every state, and holds no more than before.\<close>

definition passes :: "(kern \<Rightarrow> (int \<times> kern) option) \<Rightarrow> bool" where
  "passes f \<longleftrightarrow> (\<forall>k. \<exists>k'. f k = Some (0, k') \<and> same_held k k')"

section \<open>One test\<close>

definition sizing_ok :: "sizing \<Rightarrow> u32 \<Rightarrow> bool" where
  "sizing_ok sz al \<longleftrightarrow> (case sz of
      Fixed v \<Rightarrow> 0 \<le> sint (ALIGN v al)
    | Random mn mx \<Rightarrow> (\<forall>r. \<exists>v. random_size r mn mx al = Some v \<and> 0 \<le> sint v))"

lemma set_sizes_sized:
  assumes "fresh_bl len bl" "sizing_ok sz al"
  shows "\<exists>bl' k' sizes. set_sizes e sz al (bl, k) = Some (bl', k') \<and> sized sizes bl bl' \<and>
    length sizes = len \<and> same_held k k'"
proof (cases sz)
  case (Fixed v)
  with assms sizelist_set_sized [of bl v al] show ?thesis
    by (fastforce simp: set_sizes_def fresh_bl_def sizing_ok_def)
next
  case (Random mn mx)
  with assms sizelist_randomize_sized [of mn mx al bl e k] show ?thesis
    by (fastforce simp: set_sizes_def fresh_bl_def sizing_ok_def sized_def)
qed

text \<open>A test that is set up and not started.\<close>

definition inited :: "nat \<Rightarrow> nat \<Rightarrow> tc \<Rightarrow> bool" where
  "inited L c t \<longleftrightarrow> (\<exists>sizes ss ds. tc_ready sizes ss ds L (t\<lparr>work_queued := True\<rparr>)) \<and>
     \<not> work_queued t \<and> dma_chan (tc_bl t) = Some c"

lemma setup_ready:
  assumes "fresh_bl (length sizes) bl" "sized sizes bl bl1" "dmatest_buflist_alloc bl1 = Some bl2" "sizes \<noteq> []"
    "tc_bl t = bl2" "DMA_PREP_INTERRUPT \<in> set (bl_flags bl)" "dma_chan bl = Some c"
    "tc_wq t = WqLive" "tc_done t = 0" "laps t = int L" "0 < L" "do_check_buffer t" "job_counter t = 0"
    "nbr_returns_per_transfer t = (if work_sg t then 1 else int (length sizes))" "\<not> work_queued t"
  shows "inited L c t"
proof -
  from alloc_good [OF assms(1,2)] assms(3) obtain ss ds where g: "bl_good sizes ss ds bl2" "same_chan bl bl2"
    by auto
  then have "tc_ready sizes ss ds L (t\<lparr>work_queued := True\<rparr>)"
    using assms by (simp add: tc_ready_def tc_fixed_def startable_def same_chan_def fresh_bl_def)
  with assms g show ?thesis by (auto simp: inited_def same_chan_def)
qed

definition test_over :: "nat \<Rightarrow> tc \<Rightarrow> bool" where
  "test_over c t \<longleftrightarrow> (\<exists>sizes ss ds. bl_good sizes ss ds (tc_bl t)) \<and> tc_wq t = WqLive \<and> tc_err t = 0 \<and>
     \<not> work_queued t \<and> dma_chan (tc_bl t) = Some c"

lemma wait_over:
  assumes "faithful_engine e" "inited L c t"
  shows "\<exists>t'. tc_wait e None (t\<lparr>work_queued := True\<rparr>) = Some t' \<and> test_over c t'"
proof -
  from assms(2) obtain sizes ss ds where "tc_ready sizes ss ds L (t\<lparr>work_queued := True\<rparr>)"
    by (auto simp: inited_def)
  from wait_ready [OF assms(1) this] assms(2) show ?thesis
    by (auto simp: tc_finished_def test_over_def inited_def)
qed

lemma free_over:
  assumes "test_over c t"
  shows "\<exists>t'. tc_test_free e (t, k) = Some (t', (dma_release_channel c k)\<lparr>k_wqs := k_wqs k - 1\<rparr>) \<and> tc_err t' = 0"
proof -
  from assms obtain sizes ss ds where g: "bl_good sizes ss ds (tc_bl t)" "dma_chan (tc_bl t) = Some c"
    by (auto simp: test_over_def)
  from destroy_good_own [OF g, of "k\<lparr>k_wqs := k_wqs k - 1\<rparr>"] assms show ?thesis
    by (auto simp: tc_test_free_def destroy_workqueue_def test_over_def c_simps dma_release_channel_def)
qed

lemma tc_plain_body_passes:
  assumes e: "good_kernel e" and "fresh_bl len (tc_bl t)" "0 < len" "sizing_ok sz TX_ALIGN" "0 < nlaps"
    "DMA_PREP_INTERRUPT \<in> set (bl_flags (tc_bl t))" "dma_chan (tc_bl t) = Some c"
    "tc_wq t = WqLive" "tc_done t = 0" "laps t = nlaps" "do_check_buffer t" "\<not> work_queued t"
    "k_held k = c # h" "k_wqs k = Suc w"
  shows "\<exists>k'. tc_plain_body e len sz t k = Some (0, k') \<and> k_held k' = h \<and> k_wqs k' = w \<and>
    k_seq k' = k_seq k \<and> k_unlocks k' = k_unlocks k"
proof -
  obtain bl1 k1 sizes where s: "set_sizes e sz TX_ALIGN (tc_bl t, k) = Some (bl1, k1)"
    "sized sizes (tc_bl t) bl1" "length sizes = len" "same_held k k1"
    using set_sizes_sized [OF assms(2,4)] by blast
  obtain bl2 where a: "dmatest_buflist_alloc bl1 = Some bl2"
    using alloc_good s assms(2) by blast
  let ?t = "t\<lparr>tc_bl := bl2, job_counter := 0, nbr_returns_per_transfer := (if work_sg t then 1 else int len)\<rparr>"
  have "inited (nat nlaps) c ?t"
    using assms s a by (intro setup_ready [of sizes "tc_bl t" bl1 bl2]) auto
  then obtain t' where w: "tc_wait e None (?t\<lparr>work_queued := True\<rparr>) = Some t'" "test_over c t'"
    using wait_over [of e "nat nlaps" c ?t] e by (auto simp: good_kernel_def)
  then obtain sizes' ss ds where g: "bl_good sizes' ss ds (tc_bl t')" "dma_chan (tc_bl t') = Some c"
    by (auto simp: test_over_def)
  let ?k = "k1\<lparr>k_waits := k_waits k1 + 1, k_wqs := k_wqs k1 - 1\<rparr>"
  obtain bl3 where d: "dmatest_buflist_destroy (tc_bl t', ?k) = Some (bl3, dma_release_channel c ?k)"
    using destroy_good_own [OF g, of ?k] by blast
  have "e_intr e n = None" for n using e by (simp add: good_kernel_def)
  with s a w d assms show ?thesis
    by (auto simp: tc_plain_body_def queue_work_def c_simps tc_test_wait_def destroy_workqueue_def
        test_over_def same_held_def dma_release_channel_def)
qed

lemma tc_plain_passes:
  assumes e: "good_kernel e" and "0 < nlaps" "0 < len" "sizing_ok sz TX_ALIGN"
  shows "passes (tc_plain e checked sg nlaps len sz name timeout)"
  unfolding passes_def
proof
  fix k :: kern
  have w: "e_wq e n" for n using e by (simp add: good_kernel_def)
  let ?k1 = "k\<lparr>k_wqreqs := k_wqreqs k + 1, k_wqs := k_wqs k + 1\<rparr>"
  have g: "\<forall>len. len < int_cells e len" "bl_submitted buflist0 = []" "bl_issued buflist0 = []"
    "\<forall>n. e_grant e n \<noteq> None"
    using e by (auto simp: good_kernel_def buflist0_def)
  obtain bl c k2 where c: "dmatest_buflist_create e ?k1 buflist0 len 64 (take (MAX_NAME_LEN - 1) (take (MAX_NAME_LEN - 1) name))
      [DMA_PREP_INTERRUPT, DMA_CTRL_ACK] timeout None = (0, bl, k2)"
    "fresh_bl len bl" "bl_flags bl = [DMA_PREP_INTERRUPT, DMA_CTRL_ACK]" "dma_chan bl = Some c"
    "k_held k2 = c # k_held ?k1" "k_wqs k2 = k_wqs ?k1" "k_seq k2 = k_seq ?k1" "k_unlocks k2 = k_unlocks ?k1"
    using create_request [of e buflist0 ?k1 len 64 _ "[DMA_PREP_INTERRUPT, DMA_CTRL_ACK]" timeout] g by blast
  let ?t = "tc0\<lparr>do_check_buffer := True, laps := nlaps, tc_wq := WqLive, work_sg := sg,
      tc_name := take (MAX_NAME_LEN - 1) name, tc_bl := bl, tc_err := 0\<rparr>"
  have "\<exists>k'. tc_plain_body e len sz ?t k2 = Some (0, k') \<and> k_held k' = k_held k \<and> k_wqs k' = k_wqs k \<and>
      k_seq k' = k_seq k2 \<and> k_unlocks k' = k_unlocks k2"
    using assms c by (intro tc_plain_body_passes [where c = c and nlaps = nlaps]) (auto simp: tc0_def)
  with c w show "\<exists>k'. tc_plain e checked sg nlaps len sz name timeout k = Some (0, k') \<and> same_held k k'"
    by (auto simp: tc_plain_def create_singlethread_workqueue_def Let_def tc0_def same_held_def)
qed

section \<open>Several tests\<close>

lemma tc_test_init_good:
  assumes e: "good_kernel e" and sz: "sizing_ok (if const then Fixed sz else Random 1 61440) al"
    and "0 < nlaps" "0 < len" "DMA_PREP_INTERRUPT \<in> set flags"
  shows "\<exists>t c k'. tc_test_init e (par_tc nlaps len str i) sg sz const flags al timeout k = Some (0, t, k') \<and>
    inited (nat nlaps) c t \<and> tc_err t = 0 \<and> k_held k' = c # k_held k \<and> k_wqs k' = k_wqs k + 1 \<and>
    k_seq k' = k_seq k \<and> k_unlocks k' = k_unlocks k"
proof -
  have w: "e_wq e n" for n using e by (simp add: good_kernel_def)
  let ?k1 = "k\<lparr>k_wqreqs := k_wqreqs k + 1, k_wqs := k_wqs k + 1\<rparr>"
  let ?p = "par_tc nlaps len str i"
  have g: "\<forall>len. len < int_cells e len" "bl_submitted buflist0 = []" "bl_issued buflist0 = []"
    "\<forall>n. e_grant e n \<noteq> None"
    using e by (auto simp: good_kernel_def buflist0_def)
  obtain bl c k2 where c: "dmatest_buflist_create e ?k1 buflist0 len 64 (tc_name ?p) flags timeout None = (0, bl, k2)"
    "fresh_bl len bl" "bl_flags bl = flags" "dma_chan bl = Some c"
    "k_held k2 = c # k_held ?k1" "k_wqs k2 = k_wqs ?k1" "k_seq k2 = k_seq ?k1" "k_unlocks k2 = k_unlocks ?k1"
    using create_request [of e buflist0 ?k1 len 64 _ flags timeout] g by blast
  obtain bl1 k3 sizes where s: "set_sizes e (if const then Fixed sz else Random 1 61440) al (bl, k2) = Some (bl1, k3)"
    "sized sizes bl bl1" "length sizes = len" "same_held k2 k3"
    using set_sizes_sized [OF c(2) sz] by blast
  obtain bl2 where a: "dmatest_buflist_alloc bl1 = Some bl2"
    using alloc_good s c(2) by blast
  let ?t = "?p\<lparr>tc_wq := WqLive, tc_bl := bl2, job_counter := 0, work_sg := sg,
    nbr_returns_per_transfer := (if sg then 1 else int len), tc_done := 0\<rparr>"
  have "inited (nat nlaps) c ?t"
    using assms c s a by (intro setup_ready [of sizes bl bl1 bl2]) (auto simp: par_tc_def tc0_def)
  moreover have "tc_test_init e ?p sg sz const flags al timeout k = Some (0, ?t, k3)"
    using c s a w by (cases const)
      (auto simp: tc_test_init_def create_singlethread_workqueue_def Let_def par_tc_def tc0_def set_sizes_def
        bind_eq_Some_conv)
  ultimately show ?thesis using c s by (auto simp: same_held_def par_tc_def tc0_def)
qed

text \<open>The state after all tests are set up: test \<open>i\<close> holds channel \<open>cs ! i\<close>.\<close>

definition all_inited :: "nat \<Rightarrow> nat list \<Rightarrow> tc list \<Rightarrow> bool" where
  "all_inited L cs tcs \<longleftrightarrow> length tcs = length cs \<and> (\<forall>i < length cs. inited L (cs ! i) (tcs ! i) \<and> tc_err (tcs ! i) = 0)"

lemma par_init_good:
  assumes "\<And>i k. \<exists>t c k'. f i k = Some (0, t, k') \<and> inited L c t \<and> tc_err t = 0 \<and> k_held k' = c # k_held k \<and>
      k_wqs k' = k_wqs k + 1 \<and> k_seq k' = k_seq k \<and> k_unlocks k' = k_unlocks k"
    and "length tcs = j + n" "length cs = j" "\<forall>i < j. inited L (cs ! i) (tcs ! i) \<and> tc_err (tcs ! i) = 0"
  shows "\<exists>tcs' cs' k'. par_init f n j tcs k = Some (j + n, tcs', k') \<and> all_inited L (cs @ cs') tcs' \<and>
    length cs' = n \<and> k_held k' = rev cs' @ k_held k \<and> k_wqs k' = k_wqs k + n \<and> k_seq k' = k_seq k \<and>
    k_unlocks k' = k_unlocks k"
  using assms(2-4)
proof (induction n arbitrary: j tcs cs k)
  case 0
  then show ?case by (auto simp: all_inited_def)
next
  case (Suc n)
  obtain t c k1 where f: "f j k = Some (0, t, k1)" "inited L c t" "tc_err t = 0" "k_held k1 = c # k_held k"
      "k_wqs k1 = k_wqs k + 1" "k_seq k1 = k_seq k" "k_unlocks k1 = k_unlocks k"
    using assms(1) [of j k] by blast
  have t: "t\<lparr>tc_err := 0\<rparr> = t" using f(3) by simp
  have u: "tcs[j := t] ! i = (if i = j then t else tcs ! i)" for i using Suc.prems(1) by simp
  have "\<forall>i < Suc j. inited L ((cs @ [c]) ! i) (tcs[j := t] ! i) \<and> tc_err (tcs[j := t] ! i) = 0"
    using Suc.prems f u by (auto simp: nth_append less_Suc_eq)
  with Suc.IH [of "tcs[j := t]" "Suc j" "cs @ [c]" k1] Suc.prems obtain tcs' cs' k' where
    r: "par_init f n (Suc j) (tcs[j := t]) k1 = Some (Suc j + n, tcs', k')" "all_inited L ((cs @ [c]) @ cs') tcs'"
      "length cs' = n" "k_held k' = rev cs' @ k_held k1" "k_wqs k' = k_wqs k1 + n" "k_seq k' = k_seq k1"
      "k_unlocks k' = k_unlocks k1"
    by auto
  with f show ?case
    by (intro exI [of _ tcs'] exI [of _ "c # cs'"] exI [of _ k']) (simp add: t)
qed

text \<open>An operation on each of the tests \<open>s\<close> to \<open>n\<close> that holds nothing more.\<close>

lemma on_tc_fold:
  assumes "\<And>i t k. P i t \<Longrightarrow> \<exists>t' k'. f (t, k) = Some (t', k') \<and> Q i t' \<and> same_held k k'"
    and "\<forall>i. s \<le> i \<and> i < n \<longrightarrow> P i (tcs ! i)" "n \<le> length tcs"
  shows "\<exists>tcs' k'. ofold (on_tc f) [s..<n] (tcs, k) = Some (tcs', k') \<and> length tcs' = length tcs \<and>
    (\<forall>i. s \<le> i \<and> i < n \<longrightarrow> Q i (tcs' ! i)) \<and> (\<forall>i. \<not> (s \<le> i \<and> i < n) \<longrightarrow> tcs' ! i = tcs ! i) \<and> same_held k k'"
  using assms(2,3)
proof (induction "n - s" arbitrary: s tcs k)
  case 0
  then show ?case by (intro exI [of _ tcs] exI [of _ k]) auto
next
  case (Suc m)
  then have s: "s < n" by simp
  with Suc.prems obtain t' k1 where f: "f (tcs ! s, k) = Some (t', k1)" "Q s t'" "same_held k k1"
    using assms(1) [of s "tcs ! s" k] by auto
  with s Suc.prems have o: "on_tc f s (tcs, k) = Some (tcs[s := t'], k1)"
    by (simp add: on_tc_def rd_nat)
  have "\<exists>tcs' k'. ofold (on_tc f) [Suc s..<n] (tcs[s := t'], k1) = Some (tcs', k') \<and> length tcs' = length (tcs[s := t']) \<and>
    (\<forall>i. Suc s \<le> i \<and> i < n \<longrightarrow> Q i (tcs' ! i)) \<and> (\<forall>i. \<not> (Suc s \<le> i \<and> i < n) \<longrightarrow> tcs' ! i = tcs[s := t'] ! i) \<and> same_held k1 k'"
    using Suc.prems Suc.hyps(2) by (intro Suc.hyps(1)) auto
  then obtain tcs' k' where r: "ofold (on_tc f) [Suc s..<n] (tcs[s := t'], k1) = Some (tcs', k')"
    "length tcs' = length tcs" "\<forall>i. Suc s \<le> i \<and> i < n \<longrightarrow> Q i (tcs' ! i)"
    "\<forall>i. \<not> (Suc s \<le> i \<and> i < n) \<longrightarrow> tcs' ! i = tcs[s := t'] ! i" "same_held k1 k'" by auto
  have "Q s (tcs' ! s)" using r(4) f(2) s Suc.prems by simp
  with r f s o show ?case
    by (intro exI [of _ tcs'] exI [of _ k'])
      (auto simp: upt_conv_Cons dest: same_held_trans le_eq_less_or_eq [THEN iffD1] Suc_leI)
qed

lemma fold_remove1: "mset cs = mset ds \<Longrightarrow> fold remove1 cs (ds @ h) = h"
proof (induction cs arbitrary: ds)
  case (Cons c cs)
  then have "c \<in> set ds" by (metis list.set_intros(1) set_mset_mset)
  with Cons show ?case by (simp add: remove1_append, metis add_mset_remove_trivial mset.simps(2) mset_remove1)
qed simp

lemma par_free_fold:
  assumes "\<forall>i. s \<le> i \<and> i < length cs \<longrightarrow> test_over (cs ! i) (tcs ! i)" "length tcs = length cs"
    "\<forall>i < s. tc_err (tcs ! i) = 0"
  shows "\<exists>tcs' k'. ofold (on_tc (tc_test_free e)) [s..<length cs] (tcs, k) = Some (tcs', k') \<and>
    (\<forall>i < length cs. tc_err (tcs' ! i) = 0) \<and> k_held k' = fold remove1 (drop s cs) (k_held k) \<and>
    k_wqs k' = k_wqs k - (length cs - s) \<and> k_seq k' = k_seq k \<and> k_unlocks k' = k_unlocks k"
  using assms
proof (induction "length cs - s" arbitrary: s tcs k)
  case 0
  then show ?case by (intro exI [of _ tcs] exI [of _ k]) (auto simp: test_over_def)
next
  case (Suc m)
  then have s: "s < length cs" by simp
  with Suc.prems obtain t' where f: "tc_test_free e (tcs ! s, k) =
      Some (t', (dma_release_channel (cs ! s) k)\<lparr>k_wqs := k_wqs k - 1\<rparr>)" "tc_err t' = 0"
    using free_over by blast
  let ?k = "(dma_release_channel (cs ! s) k)\<lparr>k_wqs := k_wqs k - 1\<rparr>"
  have "\<exists>tcs' k'. ofold (on_tc (tc_test_free e)) [Suc s..<length cs] (tcs[s := t'], ?k) = Some (tcs', k') \<and>
    (\<forall>i < length cs. tc_err (tcs' ! i) = 0) \<and> k_held k' = fold remove1 (drop (Suc s) cs) (k_held ?k) \<and>
    k_wqs k' = k_wqs ?k - (length cs - Suc s) \<and> k_seq k' = k_seq ?k \<and> k_unlocks k' = k_unlocks ?k"
    using Suc.prems Suc.hyps(2) f(2) s by (intro Suc.hyps(1)) (auto simp: nth_list_update less_Suc_eq)
  with s f Suc.prems show ?case
    by (auto simp: upt_conv_Cons on_tc_def rd_nat dma_release_channel_def Cons_nth_drop_Suc [symmetric])
qed

lemma par_free_good:
  assumes "\<forall>i < length cs. test_over (cs ! i) (tcs ! i)" "length tcs = length cs" "k_held k = rev cs @ h"
    "k_wqs k = w + length cs"
  shows "\<exists>tcs' k'. par_free e (length cs) (tcs, k) = Some (tcs', k') \<and> (\<forall>i < length cs. tc_err (tcs' ! i) = 0) \<and>
    k_held k' = h \<and> k_wqs k' = w \<and> k_seq k' = k_seq k \<and> k_unlocks k' = k_unlocks k"
proof -
  obtain tcs' k' where r: "ofold (on_tc (tc_test_free e)) [0..<length cs] (tcs, k) = Some (tcs', k')"
    "\<forall>i < length cs. tc_err (tcs' ! i) = 0" "k_held k' = fold remove1 (drop 0 cs) (k_held k)"
    "k_wqs k' = k_wqs k - (length cs - 0)" "k_seq k' = k_seq k" "k_unlocks k' = k_unlocks k"
    using par_free_fold [of 0 cs tcs e k] assms by auto
  with assms show ?thesis
    by (simp add: par_free_def fold_remove1)
qed

lemma par_err_0:
  assumes "\<forall>i < n. tc_err (tcs ! i) = 0" shows "par_err tcs n 0 = 0"
proof -
  have "fold (\<lambda>i err. or err (tc_err (tcs ! i))) [0..<m] 0 = 0" if "m \<le> n" for m
    using that assms by (induction m) auto
  then show ?thesis by (simp add: par_err_def)
qed

lemma inited_over: "inited L c t \<Longrightarrow> tc_err t = 0 \<Longrightarrow> test_over c t"
  by (auto simp: inited_def test_over_def tc_ready_def tc_fixed_def)

text \<open>Run and wait (\<open>wait\<close> is the interruptible wait or the polling loop), then free and collect.\<close>

lemma run_wait_free:
  assumes "all_inited L cs tcs" "k_held k = rev cs @ h" "k_wqs k = w + length cs"
    and wait: "\<forall>c t k. inited L c t \<longrightarrow> (\<exists>t' k'. wait (t\<lparr>work_queued := True\<rparr>, k) = Some (t', k') \<and> test_over c t' \<and> same_held k k')"
  shows "\<exists>tcs1 k1. ofold (on_tc run_tc) [s..<length cs] (tcs, k) = Some (tcs1, k1) \<and> same_held k k1 \<and>
    (\<forall>k1'. same_held k1 k1' \<longrightarrow> (\<exists>tcs2 k2 tcs3 k3. ofold (on_tc wait) [s..<length cs] (tcs1, k1') = Some (tcs2, k2) \<and>
      par_free e (length cs) (tcs2, k2) = Some (tcs3, k3) \<and> par_err tcs3 (length cs) 0 = 0 \<and>
      k_held k3 = h \<and> k_wqs k3 = w \<and> k_seq k3 = k_seq k \<and> k_unlocks k3 = k_unlocks k))"
proof -
  have run: "\<exists>t' k'. run_tc (t, k) = Some (t', k') \<and>
      (\<exists>t0. t' = t0\<lparr>work_queued := True\<rparr> \<and> inited L (cs ! i) t0) \<and> same_held k k'" if "inited L (cs ! i) t" for i t k
  proof -
    have "tc_wq t = WqLive" using that by (auto simp: inited_def tc_ready_def tc_fixed_def)
    then have "run_tc (t, k) = Some (t\<lparr>work_queued := True\<rparr>, k)"
      by (simp add: run_tc_def tc_test_run_def queue_work_def c_simps)
    with that show ?thesis by (metis same_held_refl)
  qed
  obtain tcs1 k1 where r: "ofold (on_tc run_tc) [s..<length cs] (tcs, k) = Some (tcs1, k1)" "length tcs1 = length tcs"
    "\<forall>i. s \<le> i \<and> i < length cs \<longrightarrow> (\<exists>t0. tcs1 ! i = t0\<lparr>work_queued := True\<rparr> \<and> inited L (cs ! i) t0)"
    "\<forall>i. \<not> (s \<le> i \<and> i < length cs) \<longrightarrow> tcs1 ! i = tcs ! i" "same_held k k1"
    using on_tc_fold [of "\<lambda>i t. inited L (cs ! i) t" run_tc
        "\<lambda>i t'. \<exists>t0. t' = t0\<lparr>work_queued := True\<rparr> \<and> inited L (cs ! i) t0" s "length cs" tcs k] run assms(1)
    by (fastforce simp: all_inited_def)
  have "\<exists>tcs2 k2 tcs3 k3. ofold (on_tc wait) [s..<length cs] (tcs1, k1') = Some (tcs2, k2) \<and>
      par_free e (length cs) (tcs2, k2) = Some (tcs3, k3) \<and> par_err tcs3 (length cs) 0 = 0 \<and>
      k_held k3 = h \<and> k_wqs k3 = w \<and> k_seq k3 = k_seq k \<and> k_unlocks k3 = k_unlocks k" if k1': "same_held k1 k1'" for k1'
  proof -
    have w1: "\<exists>t' k'. wait (t, k) = Some (t', k') \<and> test_over (cs ! i) t' \<and> same_held k k'"
      if "\<exists>t0. t = t0\<lparr>work_queued := True\<rparr> \<and> inited L (cs ! i) t0" for i t k
      using that wait by blast
    obtain tcs2 k2 where q: "ofold (on_tc wait) [s..<length cs] (tcs1, k1') = Some (tcs2, k2)" "length tcs2 = length tcs1"
      "\<forall>i. s \<le> i \<and> i < length cs \<longrightarrow> test_over (cs ! i) (tcs2 ! i)"
      "\<forall>i. \<not> (s \<le> i \<and> i < length cs) \<longrightarrow> tcs2 ! i = tcs1 ! i" "same_held k1' k2"
      using on_tc_fold [of "\<lambda>i t. \<exists>t0. t = t0\<lparr>work_queued := True\<rparr> \<and> inited L (cs ! i) t0" wait
          "\<lambda>i t'. test_over (cs ! i) t'" s "length cs" tcs1 k1'] w1 r(2,3) assms(1)
      by (force simp: all_inited_def)
    have "\<forall>i < length cs. test_over (cs ! i) (tcs2 ! i)"
      using q r assms(1) inited_over by (metis all_inited_def)
    moreover have "length tcs2 = length cs" "k_held k2 = rev cs @ h" "k_wqs k2 = w + length cs"
      "k_seq k2 = k_seq k" "k_unlocks k2 = k_unlocks k"
      using q r k1' assms by (simp_all add: all_inited_def same_held_def)
    ultimately show ?thesis
      using q(1) par_free_good [of cs tcs2 k2 h w e] par_err_0 by fastforce
  qed
  with r show ?thesis by blast
qed

end
