(* ===== verification/DmaParallel.thy ===== *)
theory DmaParallel
imports DmaCorrect
begin

text \<open>The tests that run on several channels (tests 21 to 54 of \<open>dma_test_module.c\<close>) in a kernel where
nothing goes wrong.\<close>

section \<open>Set-up, run, wait, free\<close>

lemma good_wait:
  assumes "good_kernel e" "inited L c t"
  shows "\<exists>t' k'. tc_test_wait e (t\<lparr>work_queued := True\<rparr>, k) = Some (t', k') \<and> test_over c t' \<and> same_held k k'"
proof -
  have "faithful_engine e" "e_intr e (k_waits k) = None" using assms(1) by (auto simp: good_kernel_def)
  with wait_over [of e L c t] assms(2) show ?thesis
    by (auto simp: tc_test_wait_def same_held_def)
qed

lemma wait_poll:
  assumes "tc_wait e None tc = Some tc'"
  shows "\<exists>t. tc_poll e tc = Some t \<and> tc' = t\<lparr>tc_done := tc_done t - 1\<rparr>"
proof -
  have "None = (None :: nat option) \<longrightarrow> (\<exists>t. tc_poll e tc = Some t \<and> tc' = t\<lparr>tc_done := tc_done t - 1\<rparr>)"
  proof (rule tc_wait.raw_induct [where P = "\<lambda>e sig tc tc'. sig = None \<longrightarrow>
      (\<exists>t. tc_poll e tc = Some t \<and> tc' = t\<lparr>tc_done := tc_done t - 1\<rparr>)", OF _ assms])
    fix wait e sig tc tc'
    assume IH: "\<And>e sig tc tc'. wait e sig tc = Some tc' \<Longrightarrow> sig = None \<longrightarrow>
        (\<exists>t. tc_poll e tc = Some t \<and> tc' = t\<lparr>tc_done := tc_done t - 1\<rparr>)"
      and body: "(if 0 < tc_done tc then Some (tc\<lparr>tc_done := tc_done tc - 1\<rparr>)
       else if sig = Some 0 then Some tc
       else do { tc' \<leftarrow> tc_step e tc; wait e (map_option (\<lambda>n. n - 1) sig) tc' }) = Some tc'"
    show "sig = None \<longrightarrow> (\<exists>t. tc_poll e tc = Some t \<and> tc' = t\<lparr>tc_done := tc_done t - 1\<rparr>)"
    proof
      assume sig: "sig = None"
      show "\<exists>t. tc_poll e tc = Some t \<and> tc' = t\<lparr>tc_done := tc_done t - 1\<rparr>"
      proof (cases "0 < tc_done tc")
        case True
        with body show ?thesis by (subst tc_poll.simps) (auto simp: tc_test_is_done_def)
      next
        case False
        with body sig obtain t1 where "tc_step e tc = Some t1" "wait e None t1 = Some tc'"
          by (auto simp: bind_eq_Some_conv)
        with IH [of e None t1 tc'] False show ?thesis
          by (subst tc_poll.simps) (simp add: tc_test_is_done_def)
      qed
    qed
  qed
  then show ?thesis by simp
qed

lemma test_over_done: "test_over c (t\<lparr>tc_done := n\<rparr>) = test_over c t"
  by (simp add: test_over_def)

lemma good_poll:
  assumes "good_kernel e" "inited L c t"
  shows "\<exists>t' k'. poll_tc e (t\<lparr>work_queued := True\<rparr>, k) = Some (t', k') \<and> test_over c t' \<and> same_held k k'"
proof -
  have "faithful_engine e" using assms(1) by (auto simp: good_kernel_def)
  with wait_over [of e L c t] assms(2) obtain t' where "tc_wait e None (t\<lparr>work_queued := True\<rparr>) = Some t'" "test_over c t'"
    by blast
  with wait_poll [of e "t\<lparr>work_queued := True\<rparr>" t'] obtain t2 where
    "tc_poll e (t\<lparr>work_queued := True\<rparr>) = Some t2" "test_over c t2" by (auto simp: test_over_done)
  then show ?thesis by (simp add: poll_tc_def)
qed

text \<open>The set-up loop of all four multi-channel runners.\<close>

lemma par_setup:
  assumes e: "good_kernel e" and "sizing_ok (if const then Fixed sz else Random 1 61440) al"
    "0 < nlaps" "0 < len" "DMA_PREP_INTERRUPT \<in> set flags"
  shows "\<exists>tcs cs k'. par_init (\<lambda>i. tc_test_init e (par_tc nlaps len str i) sg sz const flags al timeout)
      n 0 (replicate n tc0) k = Some (n, tcs, k') \<and> all_inited (nat nlaps) cs tcs \<and> length cs = n \<and>
    k_held k' = rev cs @ k_held k \<and> k_wqs k' = k_wqs k + n \<and> k_seq k' = k_seq k \<and> k_unlocks k' = k_unlocks k"
proof -
  have "\<exists>tcs cs k'. par_init (\<lambda>i. tc_test_init e (par_tc nlaps len str i) sg sz const flags al timeout)
      n 0 (replicate n tc0) k = Some (0 + n, tcs, k') \<and> all_inited (nat nlaps) ([] @ cs) tcs \<and> length cs = n \<and>
    k_held k' = rev cs @ k_held k \<and> k_wqs k' = k_wqs k + n \<and> k_seq k' = k_seq k \<and> k_unlocks k' = k_unlocks k"
    using tc_test_init_good [OF assms] by (intro par_init_good) auto
  then show ?thesis by simp
qed

definition parallel_ok :: "tc_parallel \<Rightarrow> bool" where
  "parallel_ok tcp \<longleftrightarrow> 0 < tp_max_channels tcp \<and> 0 < tp_laps tcp \<and> 0 < tp_list_len tcp \<and>
     DMA_PREP_INTERRUPT \<in> set (tp_dma_flags tcp) \<and>
     sizing_ok (if tp_const_size tcp \<noteq> - 1 then Fixed (word_of_int (tp_const_size tcp)) else Random 1 61440)
       (tp_tx_align tcp)"

lemma tc_run_parallel_passes:
  assumes e: "good_kernel e" and p: "parallel_ok tcp"
  shows "passes (tc_run_parallel e tcp)"
  unfolding passes_def
proof
  fix k :: kern
  let ?L = "nat (tp_laps tcp)"
  have ps: "sizing_ok (if tp_const_size tcp \<noteq> - 1 then Fixed (word_of_int (tp_const_size tcp)) else Random 1 61440)
      (tp_tx_align tcp)" "0 < tp_laps tcp" "0 < tp_list_len tcp" "DMA_PREP_INTERRUPT \<in> set (tp_dma_flags tcp)"
    using p by (simp_all only: parallel_ok_def)
  obtain tcs cs k1 where i: "par_init (\<lambda>i. tc_test_init e (par_tc (tp_laps tcp) (tp_list_len tcp) (tp_str tcp) i) False
         (word_of_int (tp_const_size tcp)) (tp_const_size tcp \<noteq> - 1) (tp_dma_flags tcp) (tp_tx_align tcp) (tp_timeout tcp))
       (tp_max_channels tcp) 0 (replicate (tp_max_channels tcp) tc0) k = Some (tp_max_channels tcp, tcs, k1)"
    "all_inited ?L cs tcs" "length cs = tp_max_channels tcp" "k_held k1 = rev cs @ k_held k"
    "k_wqs k1 = k_wqs k + tp_max_channels tcp" "k_seq k1 = k_seq k" "k_unlocks k1 = k_unlocks k"
    using par_setup [of e "tp_const_size tcp \<noteq> - 1" "word_of_int (tp_const_size tcp)" "tp_tx_align tcp" "tp_laps tcp"
        "tp_list_len tcp" "tp_dma_flags tcp" "tp_str tcp" False "tp_timeout tcp" "tp_max_channels tcp" k, OF e ps]
    by - (elim exE conjE, rule that)
  have wq: "k_wqs k1 = k_wqs k + length cs" using i by simp
  have wt: "\<forall>c t k. inited (?L) c t \<longrightarrow> (\<exists>t' k'. tc_test_wait e (t\<lparr>work_queued := True\<rparr>, k) = Some (t', k') \<and> test_over c t' \<and> same_held k k')"
    using good_wait [OF e] by blast
  obtain tcs1 k2 tcs2 k3 tcs3 k4 where
    "ofold (on_tc run_tc) [tp_chan_start_index tcp..<length cs] (tcs, k1) = Some (tcs1, k2)"
    "ofold (on_tc (tc_test_wait e)) [tp_chan_start_index tcp..<length cs] (tcs1, k2) = Some (tcs2, k3)"
    "par_free e (length cs) (tcs2, k3) = Some (tcs3, k4)" "par_err tcs3 (length cs) 0 = 0"
    "k_held k4 = k_held k" "k_wqs k4 = k_wqs k" "k_seq k4 = k_seq k" "k_unlocks k4 = k_unlocks k"
    using run_wait_free [OF i(2) i(4) wq, of "tc_test_wait e" "tp_chan_start_index tcp" e, OF wt] i
    by (metis same_held_refl)
  with i p show "\<exists>k'. tc_run_parallel e tcp k = Some (0, k') \<and> same_held k k'"
    by (auto simp: tc_run_parallel_def Let_def same_held_def parallel_ok_def)
qed

lemma tc_run_while_read_reg_passes:
  assumes e: "good_kernel e" and "sizing_ok (if const then Fixed sz else Random 1 61440) TX_ALIGN"
    "0 < nlaps" "0 < len" "DMA_PREP_INTERRUPT \<in> set flags" "0 < n"
  shows "passes (tc_run_while_read_reg e str n sz len nlaps sg const flags rt)"
  unfolding passes_def
proof
  fix k :: kern
  obtain tcs cs k1 where i: "par_init (\<lambda>i. tc_test_init e (par_tc nlaps len str i) sg sz const flags TX_ALIGN DEFAULT_TIMEOUT)
       n 0 (replicate n tc0) k = Some (n, tcs, k1)"
    "all_inited (nat nlaps) cs tcs" "length cs = n" "k_held k1 = rev cs @ k_held k"
    "k_wqs k1 = k_wqs k + n" "k_seq k1 = k_seq k" "k_unlocks k1 = k_unlocks k"
    using par_setup [OF assms(1-5)] by blast
  have wq: "k_wqs k1 = k_wqs k + length cs" using i by simp
  have wt: "\<forall>c t k. inited (nat nlaps) c t \<longrightarrow> (\<exists>t' k'. poll_tc e (t\<lparr>work_queued := True\<rparr>, k) = Some (t', k') \<and> test_over c t' \<and> same_held k k')"
    using good_poll [OF e] by blast
  obtain tcs1 k2 tcs2 k3 tcs3 k4 where
    "ofold (on_tc run_tc) [0..<length cs] (tcs, k1) = Some (tcs1, k2)"
    "ofold (on_tc (poll_tc e)) [0..<length cs] (tcs1, k2) = Some (tcs2, k3)"
    "par_free e (length cs) (tcs2, k3) = Some (tcs3, k4)" "par_err tcs3 (length cs) 0 = 0"
    "k_held k4 = k_held k" "k_wqs k4 = k_wqs k" "k_seq k4 = k_seq k" "k_unlocks k4 = k_unlocks k"
    using run_wait_free [OF i(2) i(4) wq, of "poll_tc e" 0 e, OF wt] i
    by (metis same_held_refl)
  with i assms(6) show "\<exists>k'. tc_run_while_read_reg e str n sz len nlaps sg const flags rt k = Some (0, k') \<and> same_held k k'"
    by (auto simp: tc_run_while_read_reg_def Let_def same_held_def)
qed

section \<open>Pausing\<close>

lemma pause_poll_held: "\<exists>hit b k'. pause_poll e n b0 k = (hit, b, k') \<and> same_held k k'"
proof (induction n arbitrary: b0 k)
  case (Suc n)
  let ?k = "k\<lparr>k_residues := k_residues k + 1\<rparr>"
  have h: "same_held k ?k" by (simp add: same_held_def)
  show ?case
  proof (cases "e_residue e (k_residues k) > 0")
    case True
    then have "pause_poll e (Suc n) b0 k = (True, e_residue e (k_residues k), ?k)" by simp
    with h show ?thesis by blast
  next
    case False
    obtain hit b k' where "pause_poll e n (e_residue e (k_residues k)) ?k = (hit, b, k')" "same_held ?k k'"
      using Suc.IH by blast
    with False have "pause_poll e (Suc n) b0 k = (hit, b, k')" "same_held k k'"
      using same_held_trans [OF h, of k'] by simp_all
    then show ?thesis by blast
  qed
next
  case 0
  have "pause_poll e 0 b0 k = (False, b0, k)" by simp
  with same_held_refl show ?case by blast
qed

text \<open>The do-while loop ends once the channel has reported 0 twice.\<close>

lemma resume_loop_ends:
  assumes "\<forall>n\<ge>N. e_residue e n = 0"
  shows "\<exists>k'. resume_loop e b k = Some (0, 0, k') \<and> same_held k k'"
proof (induction "N + 1 - k_residues k" arbitrary: b k rule: less_induct)
  case less
  let ?k = "k\<lparr>k_residues := k_residues k + 1\<rparr>"
  let ?b = "e_residue e (k_residues k)"
  have h: "same_held k ?k" by (simp add: same_held_def)
  show ?case
  proof (cases "?b \<noteq> 0 \<or> b \<noteq> ?b")
    case False
    with h show ?thesis by (subst resume_loop.simps) simp
  next
    case True
    then have r: "resume_loop e b k = resume_loop e ?b ?k"
      by (subst resume_loop.simps) (simp add: Let_def)
    show ?thesis
    proof (cases "k_residues k < N + 1")
      case True
      then obtain k' where "resume_loop e ?b ?k = Some (0, 0, k')" "same_held ?k k'"
        using less.hyps [of ?k ?b] by (auto simp: less_Suc_eq_le Suc_diff_le)
      with r same_held_trans [OF h] show ?thesis by simp
    next
      case False
      with assms have "?b = 0" "e_residue e (k_residues ?k) = 0" by simp_all
      then have "resume_loop e ?b ?k = Some (0, 0, ?k\<lparr>k_residues := k_residues ?k + 1\<rparr>)"
        by (subst resume_loop.simps) (simp add: Let_def)
      with r show ?thesis by (auto simp: same_held_def)
    qed
  qed
qed

lemma tc_pause_passes:
  assumes e: "good_kernel e" and "sizing_ok (Fixed 61440) al" "DMA_PREP_INTERRUPT \<in> set flags" "0 < n"
  shows "passes (tc_pause_and_unpause_parallel e n str flags al)"
  unfolding passes_def
proof
  fix k :: kern
  obtain tcs cs k1 where i: "par_init (\<lambda>i. tc_test_init e (par_tc 1 1 str i) False 61440 True flags al DEFAULT_TIMEOUT)
       n 0 (replicate n tc0) k = Some (n, tcs, k1)"
    "all_inited (nat 1) cs tcs" "length cs = n" "k_held k1 = rev cs @ k_held k"
    "k_wqs k1 = k_wqs k + n" "k_seq k1 = k_seq k" "k_unlocks k1 = k_unlocks k"
    using par_setup [of e True 61440 al 1 1 flags str False DEFAULT_TIMEOUT n k] assms by auto
  have wq: "k_wqs k1 = k_wqs k + length cs" using i by simp
  have wt: "\<forall>c t k. inited (nat 1) c t \<longrightarrow> (\<exists>t' k'. tc_test_wait e (t\<lparr>work_queued := True\<rparr>, k) = Some (t', k') \<and> test_over c t' \<and> same_held k k')"
    using good_wait [OF e] by blast
  obtain tcs1 k2 where r: "ofold (on_tc run_tc) [0..<length cs] (tcs, k1) = Some (tcs1, k2)" "same_held k1 k2"
    and rest: "\<forall>k1'. same_held k2 k1' \<longrightarrow> (\<exists>tcs2 k2 tcs3 k3. ofold (on_tc (tc_test_wait e)) [0..<length cs] (tcs1, k1') = Some (tcs2, k2) \<and>
      par_free e (length cs) (tcs2, k2) = Some (tcs3, k3) \<and> par_err tcs3 (length cs) 0 = 0 \<and>
      k_held k3 = k_held k \<and> k_wqs k3 = k_wqs k \<and> k_seq k3 = k_seq k1 \<and> k_unlocks k3 = k_unlocks k1)"
    using run_wait_free [OF i(2) i(4) wq, of "tc_test_wait e" 0 e, OF wt]
    by - (elim exE conjE, rule that)
  obtain hit b k3 where p: "pause_poll e 1000 0 k2 = (hit, b, k3)" "same_held k2 k3"
    using pause_poll_held by blast
  obtain N where N: "\<forall>n\<ge>N. e_residue e n = 0" using e by (auto simp: good_kernel_def)
  have "\<exists>k4. (if \<not> hit then Some (tcs1, False, k3) else do {
           (prev, bytes_left, k) \<leftarrow> resume_loop e b k3;
           if bytes_left \<noteq> 0 \<and> prev = bytes_left
           then Some (tcs1[0 := (tcs1 ! 0)\<lparr>tc_err := - EINVAL\<rparr>], True, k)
           else Some (tcs1, False, k)
         }) = Some (tcs1, False, k4) \<and> same_held k3 k4"
    using resume_loop_ends [OF N, of b k3] by auto
  then obtain k4 where q: "(if \<not> hit then Some (tcs1, False, k3) else do {
           (prev, bytes_left, k) \<leftarrow> resume_loop e b k3;
           if bytes_left \<noteq> 0 \<and> prev = bytes_left
           then Some (tcs1[0 := (tcs1 ! 0)\<lparr>tc_err := - EINVAL\<rparr>], True, k)
           else Some (tcs1, False, k)
         }) = Some (tcs1, False, k4)" "same_held k3 k4" by blast
  from rest p q have "\<exists>tcs2 k5 tcs3 k6. ofold (on_tc (tc_test_wait e)) [0..<length cs] (tcs1, k4) = Some (tcs2, k5) \<and>
      par_free e (length cs) (tcs2, k5) = Some (tcs3, k6) \<and> par_err tcs3 (length cs) 0 = 0 \<and>
      k_held k6 = k_held k \<and> k_wqs k6 = k_wqs k \<and> k_seq k6 = k_seq k1 \<and> k_unlocks k6 = k_unlocks k1"
    using same_held_trans by blast
  then obtain tcs2 k5 tcs3 k6 where w: "ofold (on_tc (tc_test_wait e)) [0..<length cs] (tcs1, k4) = Some (tcs2, k5)"
      "par_free e (length cs) (tcs2, k5) = Some (tcs3, k6)" "par_err tcs3 (length cs) 0 = 0"
      "k_held k6 = k_held k" "k_wqs k6 = k_wqs k" "k_seq k6 = k_seq k1" "k_unlocks k6 = k_unlocks k1" by blast
  show "\<exists>k'. tc_pause_and_unpause_parallel e n str flags al k = Some (0, k') \<and> same_held k k'"
    unfolding tc_pause_and_unpause_parallel_def
    using i r p q(1) w assms(4) by (simp add: Let_def pause_out_def same_held_def split del: if_split)
qed

end
