(* ===== verification/DmaLink.thy ===== *)
theory DmaLink
imports DmaParallel
begin

text \<open>The linked-job tests (\<open>tc_link_core\<close>, tests 55 to 69 of \<open>dma_test_module.c\<close>) in a kernel where
nothing goes wrong: the jobs share the first job's channel, finish in order, and the channel is
released once.\<close>

definition job_ok :: "nat \<Rightarrow> tc_link \<Rightarrow> bool" where
  "job_ok c t \<longleftrightarrow> (\<exists>sizes ss ds. bl_good sizes ss ds (lk_bl t)) \<and> lk_desc t \<and> lk_done t = 0 \<and>
     dma_chan (lk_bl t) = Some c"

lemma bl_good_link [simp]:
  "bl_good sizes ss ds (bl\<lparr>sgl_src_len := n\<rparr>) = bl_good sizes ss ds bl"
  "bl_good sizes ss ds (bl\<lparr>sgl_dst_len := n\<rparr>) = bl_good sizes ss ds bl"
  "bl_good sizes ss ds (bl\<lparr>bl_xfers := n\<rparr>) = bl_good sizes ss ds bl"
  by (simp_all add: bl_good_def)

definition link_ok :: "tc_link_cfg \<Rightarrow> bool" where
  "link_ok cfg \<longleftrightarrow> 0 < lc_jobs cfg \<and> 0 < lc_links cfg \<and> lc_min_size cfg = 0 \<and>
     sizing_ok (Fixed (lc_buffer_size cfg)) TX_ALIGN"

section \<open>Set-up\<close>

text \<open>The work on a job once its list exists.\<close>

lemma link_fill:
  assumes "fresh_bl len bl" "sizing_ok (Fixed v) TX_ALIGN" "dma_chan bl = Some c"
  shows "\<exists>bl1 bl2. dmatest_sizelist_set v TX_ALIGN bl = Some bl1 \<and> dmatest_buflist_alloc bl1 = Some bl2 \<and>
    (\<exists>sizes ss ds. bl_good sizes ss ds bl2) \<and> dma_chan bl2 = Some c"
proof -
  obtain bl1 sizes where s: "dmatest_sizelist_set v TX_ALIGN bl = Some bl1" "sized sizes bl bl1" "length sizes = len"
    using sizelist_set_sized [of bl v TX_ALIGN] assms by (auto simp: fresh_bl_def sizing_ok_def)
  with alloc_good [of sizes bl bl1] assms show ?thesis by (auto simp: same_chan_def)
qed

lemma link_setup_good:
  assumes e: "good_kernel e" and ok: "link_ok cfg" and i: "i < length tc" "tc ! i = link0"
  shows "\<exists>c t k'. link_setup e cfg i chan tc k = Some (0, Some c, tc[i := t], k') \<and> job_ok c t \<and>
    (case chan of None \<Rightarrow> k_held k' = c # k_held k \<and> k_wqs k' = k_wqs k \<and> k_seq k' = k_seq k \<and> k_unlocks k' = k_unlocks k
     | Some c0 \<Rightarrow> c = c0 \<and> k' = k)"
proof -
  let ?name = "take (MAX_NAME_LEN - 2) (''tc_link_core_tc_'' @ nat_to_string (lc_tc cfg) @ ''_'' @ two_digits i)"
  let ?flags = "[DMA_PREP_INTERRUPT, DMA_CTRL_ACK]"
  have g: "\<forall>len. len < int_cells e len" "bl_submitted buflist0 = []" "bl_issued buflist0 = []"
    "\<forall>n. e_grant e n \<noteq> None"
    using e by (auto simp: good_kernel_def buflist0_def)
  obtain bl c k1 where c: "dmatest_buflist_create e k buflist0 (lc_links cfg) 0 ?name ?flags DEFAULT_TIMEOUT chan = (0, bl, k1)"
    "fresh_bl (lc_links cfg) bl" "dma_chan bl = Some c"
    "case chan of None \<Rightarrow> k_held k1 = c # k_held k \<and> k_wqs k1 = k_wqs k \<and> k_seq k1 = k_seq k \<and> k_unlocks k1 = k_unlocks k
     | Some c0 \<Rightarrow> c = c0 \<and> k1 = k"
  proof (cases chan)
    case None
    with that create_request [OF g, of k "lc_links cfg" 0 ?name ?flags DEFAULT_TIMEOUT] show ?thesis by auto
  next
    case (Some c0)
    with that create_given [OF g(1-3), of k "lc_links cfg" 0 ?name ?flags DEFAULT_TIMEOUT c0] show ?thesis by auto
  qed
  obtain bl1 bl2 where f: "dmatest_sizelist_set (lc_buffer_size cfg) TX_ALIGN bl = Some bl1"
    "dmatest_buflist_alloc bl1 = Some bl2" "\<exists>sizes ss ds. bl_good sizes ss ds bl2" "dma_chan bl2 = Some c"
    using link_fill [OF c(2) _ c(3), of "lc_buffer_size cfg"] ok unfolding link_ok_def by blast
  let ?n = "e_map_sg e (bl_list_len bl2)"
  let ?t = "link0\<lparr>lk_bl := bl2\<lparr>sgl_src_len := ?n, sgl_dst_len := ?n, bl_maps := bl_maps bl2 + 2\<rparr>, lk_desc := True, lk_done := 0\<rparr>"
  have "link_setup e cfg i chan tc k = Some (0, Some c, tc[i := ?t], k1)"
    using i c(1) f ok by (simp add: link_setup_def rd_nat Let_def link_ok_def link0_def)
  moreover have "job_ok c ?t" using f by (simp add: job_ok_def)
  ultimately show ?thesis using c(4) by blast
qed

lemma link_setup_rest:
  assumes e: "good_kernel e" and ok: "link_ok cfg"
    and "length tc = j + n" "\<forall>i < j. job_ok c (tc ! i)" "\<forall>i. j \<le> i \<and> i < j + n \<longrightarrow> tc ! i = link0"
  shows "\<exists>tc'. link_setup_all e cfg [j..<j + n] (Some c) tc k = Some (0, Some c, tc', k) \<and> length tc' = j + n \<and>
    (\<forall>i < j + n. job_ok c (tc' ! i))"
  using assms(3-5)
proof (induction n arbitrary: j tc)
  case (Suc n)
  then obtain t where t: "link_setup e cfg j (Some c) tc k = Some (0, Some c, tc[j := t], k)" "job_ok c t"
    using link_setup_good [OF e ok, of j tc "Some c" k] by auto
  have u: "tc[j := t] ! i = (if i = j then t else tc ! i)" for i using Suc.prems(1) by simp
  have "\<exists>tc'. link_setup_all e cfg [Suc j..<Suc j + n] (Some c) (tc[j := t]) k = Some (0, Some c, tc', k) \<and>
      length tc' = Suc j + n \<and> (\<forall>i < Suc j + n. job_ok c (tc' ! i))"
    using Suc.prems t(2) u by (intro Suc.IH) (auto simp: less_Suc_eq)
  then obtain tc' where r: "link_setup_all e cfg [Suc j..<j + Suc n] (Some c) (tc[j := t]) k = Some (0, Some c, tc', k)"
    "length tc' = j + Suc n" "\<forall>i < j + Suc n. job_ok c (tc' ! i)" by auto
  have "[j..<j + Suc n] = j # [Suc j..<j + Suc n]" by (rule upt_conv_Cons) simp
  with t(1) r show ?case by (auto simp del: upt_Suc)
qed auto

lemma link_setup_all_good:
  assumes e: "good_kernel e" and ok: "link_ok cfg"
  shows "\<exists>c tc' k'. link_setup_all e cfg [0..<lc_jobs cfg] None (replicate (lc_jobs cfg) link0) k = Some (0, Some c, tc', k') \<and>
    length tc' = lc_jobs cfg \<and> (\<forall>i < lc_jobs cfg. job_ok c (tc' ! i)) \<and> k_held k' = c # k_held k \<and>
    k_wqs k' = k_wqs k \<and> k_seq k' = k_seq k \<and> k_unlocks k' = k_unlocks k"
proof -
  obtain n where n: "lc_jobs cfg = Suc n" using ok by (cases "lc_jobs cfg") (auto simp: link_ok_def)
  let ?tc = "replicate (lc_jobs cfg) link0"
  obtain c t k1 where t: "link_setup e cfg 0 None ?tc k = Some (0, Some c, ?tc[0 := t], k1)" "job_ok c t"
    "k_held k1 = c # k_held k" "k_wqs k1 = k_wqs k" "k_seq k1 = k_seq k" "k_unlocks k1 = k_unlocks k"
    using link_setup_good [OF e ok, of 0 ?tc None k] n by auto
  have u: "?tc[0 := t] ! i = (if i = 0 then t else link0)" if "i < Suc n" for i
    using that n by (cases i) auto
  have "\<exists>tc'. link_setup_all e cfg [1..<1 + n] (Some c) (?tc[0 := t]) k1 = Some (0, Some c, tc', k1) \<and>
    length tc' = 1 + n \<and> (\<forall>i < 1 + n. job_ok c (tc' ! i))"
    using n t(2) u by (intro link_setup_rest [OF e ok]) auto
  then obtain tc' where r: "link_setup_all e cfg [Suc 0..<Suc n] (Some c) (?tc[0 := t]) k1 = Some (0, Some c, tc', k1)"
    "length tc' = Suc n" "\<forall>i < Suc n. job_ok c (tc' ! i)" by auto
  have "[0..<Suc n] = 0 # [Suc 0..<Suc n]" by (rule upt_conv_Cons) simp
  with t r show ?thesis unfolding n by (auto simp del: upt_Suc replicate_Suc)
qed

section \<open>Submission, completion, collection\<close>

lemma link_submit_seq:
  assumes "\<forall>i < length tc. job_ok c (tc ! i)" "\<forall>i \<in> set is. i < length tc"
  shows "link_submit True tc is ([], q) = Some ([], q @ is)"
  using assms(2) by (induction "is" arbitrary: q) (use assms(1) in \<open>auto simp: rd_nat c_simps job_ok_def\<close>)

lemma link_submit_all:
  assumes "\<forall>i < length tc. job_ok c (tc ! i)" "\<forall>i \<in> set is. i < length tc"
  shows "link_submit False tc is (s, q) = Some (s @ is, q)"
  using assms(2) by (induction "is" arbitrary: s) (use assms(1) in \<open>auto simp: rd_nat c_simps job_ok_def\<close>)

lemma link_start_good:
  assumes "\<forall>i < length tc. job_ok c (tc ! i)" "length tc = lc_jobs cfg"
  shows "link_start cfg tc = Some [0..<lc_jobs cfg]"
  using link_submit_seq [OF assms(1), of "[0..<lc_jobs cfg]"] link_submit_all [OF assms(1), of "[0..<lc_jobs cfg]"] assms(2)
  by (cases "lc_start_in_sequence cfg") (simp_all add: link_start_def)

text \<open>Job \<open>i\<close> after it has been waited for and checked.\<close>

definition job_done :: "tc_link \<Rightarrow> bool" where
  "job_done t \<longleftrightarrow> (\<exists>sizes ss ds. bl_good sizes ss ds (lk_bl t))"

lemma link_wait_next:
  assumes e: "good_kernel e" and t: "job_ok c (tc ! i)" "i < length tc"
  shows "\<exists>t' n'. link_wait e (length (i # q)) i None (tc, i # q, n) = Some (tc[i := t'], q, n') \<and>
    (\<exists>sizes ss. bl_good sizes ss ss (lk_bl t'))"
proof -
  from t obtain sizes ss ds where g: "bl_good sizes ss ds ((lk_bl (tc ! i))\<lparr>bl_xfers := n\<rparr>)" by (auto simp: job_ok_def)
  have f: "faithful_engine e" using e by (simp add: good_kernel_def)
  obtain bl' where b: "engine_exec e Sg ((lk_bl (tc ! i))\<lparr>bl_xfers := n\<rparr>) = Some bl'" "bl_good sizes ss ss bl'"
    using engine_exec_sg [OF f g] by blast
  let ?t = "(tc ! i)\<lparr>lk_bl := bl', lk_done := 1\<rparr>"
  have ev: "link_event e (tc, i # q, n) = Some (tc[i := ?t], q, bl_xfers bl')"
    using t b by (simp add: link_event_def rd_nat job_ok_def)
  have "link_wait e (length (i # q)) i None (tc, i # q, n) = Some ((tc[i := ?t])[i := ?t\<lparr>lk_done := 0\<rparr>], q, bl_xfers bl')"
    using t ev by (simp add: rd_nat job_ok_def)
  then show ?thesis using b(2) by (intro exI [of _ "?t\<lparr>lk_done := 0\<rparr>"]) auto
qed

lemma link_collect_good:
  assumes e: "good_kernel e"
  shows "j + m = length tc \<Longrightarrow> \<forall>i. j \<le> i \<and> i < length tc \<longrightarrow> job_ok c (tc ! i) \<Longrightarrow> \<forall>i < j. job_done (tc ! i) \<Longrightarrow>
    \<exists>tc' n' k'. link_collect e [j..<length tc] 0 ((tc, [j..<length tc], n), k) = Some (0, (tc', [], n'), k') \<and>
      length tc' = length tc \<and> (\<forall>i < length tc. job_done (tc' ! i)) \<and> same_held k k'"
proof (induction m arbitrary: j tc n k)
  case 0
  then show ?case by (intro exI [of _ tc] exI [of _ n] exI [of _ k]) auto
next
  case (Suc m)
  then have j: "j < length tc" "job_ok c (tc ! j)" by auto
  have intr: "e_intr e (k_waits k) = None" using e by (simp add: good_kernel_def)
  obtain t' n' sizes ss where w: "link_wait e (length (j # [Suc j..<length tc])) j None (tc, j # [Suc j..<length tc], n) =
      Some (tc[j := t'], [Suc j..<length tc], n')" "bl_good sizes ss ss (lk_bl t')"
    using link_wait_next [OF e j(2,1)] by blast
  obtain mm where p: "dmatest_buflist_payload_check (lk_bl t') = Some (0, (lk_bl t')\<lparr>bl_maps := mm\<rparr>)"
    using payload_check_good [OF w(2)] by auto
  let ?t = "t'\<lparr>lk_bl := (lk_bl t')\<lparr>bl_maps := mm\<rparr>\<rparr>"
  let ?k = "k\<lparr>k_waits := k_waits k + 1\<rparr>"
  have d: "job_done ?t" using w(2) by (auto simp: job_done_def)
  have u: "tc[j := ?t] ! i = (if i = j then ?t else tc ! i)" for i using j by simp
  have step: "link_collect e [j..<length tc] 0 ((tc, [j..<length tc], n), k) =
      link_collect e [Suc j..<length tc] 0 ((tc[j := ?t], [Suc j..<length tc], n'), ?k)"
    using j w(1) p intr by (simp add: upt_conv_Cons rd_nat del: link_wait.simps)
  have "\<exists>tc' n'' k'. link_collect e [Suc j..<length (tc[j := ?t])] 0 ((tc[j := ?t], [Suc j..<length (tc[j := ?t])], n'), ?k) =
      Some (0, (tc', [], n''), k') \<and> length tc' = length (tc[j := ?t]) \<and>
      (\<forall>i < length (tc[j := ?t]). job_done (tc' ! i)) \<and> same_held ?k k'"
    using Suc.prems d u by (intro Suc.IH) (auto simp: less_Suc_eq)
  then obtain tc' n'' k' where r: "link_collect e [Suc j..<length tc] 0 ((tc[j := ?t], [Suc j..<length tc], n'), ?k) =
      Some (0, (tc', [], n''), k')" "length tc' = length tc" "\<forall>i < length tc. job_done (tc' ! i)" "same_held ?k k'"
    by auto
  have "same_held k k'" using r(4) by (simp add: same_held_def)
  with r step show ?case by auto
qed

section \<open>Tear-down\<close>

lemma link_destroy_rest:
  assumes "\<forall>i \<in> set is. i < length tc \<and> job_done (tc ! i)"
  shows "link_destroy is None tc k = Some k"
  using assms
proof (induction "is")
  case (Cons i "is")
  then obtain sizes ss ds where "bl_good sizes ss ds (lk_bl (tc ! i))" by (auto simp: job_done_def)
  from destroy_good [OF this, of None k] Cons show ?case by (auto simp: rd_nat)
qed simp

lemma link_destroy_good:
  assumes "\<forall>i < length tc. job_done (tc ! i)" "tc \<noteq> []"
  shows "link_destroy [0..<length tc] (Some c) tc k = Some (dma_release_channel c k)"
proof -
  obtain sizes ss ds where "bl_good sizes ss ds (lk_bl (tc ! 0))" using assms by (auto simp: job_done_def)
  from destroy_good [OF this, of "Some c" k] obtain bl' where
    "dmatest_buflist_destroy ((lk_bl (tc ! 0))\<lparr>dma_chan := Some c\<rparr>, k) = Some (bl', dma_release_channel c k)" by auto
  with assms link_destroy_rest [of "[1..<length tc]" tc "dma_release_channel c k"] show ?thesis
    using rd_nat [of tc 0] by (simp add: upt_conv_Cons)
qed

lemma tc_link_core_passes:
  assumes e: "good_kernel e" and ok: "link_ok cfg"
  shows "passes (tc_link_core e cfg)"
  unfolding passes_def
proof
  fix k :: kern
  let ?k = "k\<lparr>k_mallocs := k_mallocs k + 1\<rparr>"
  have mem: "e_mem e (k_mallocs k)" using e by (simp add: good_kernel_def)
  obtain c tc k1 where s: "link_setup_all e cfg [0..<lc_jobs cfg] None (replicate (lc_jobs cfg) link0) ?k = Some (0, Some c, tc, k1)"
    "length tc = lc_jobs cfg" "\<forall>i < lc_jobs cfg. job_ok c (tc ! i)" "k_held k1 = c # k_held ?k"
    "k_wqs k1 = k_wqs ?k" "k_seq k1 = k_seq ?k" "k_unlocks k1 = k_unlocks ?k"
    using link_setup_all_good [OF assms, of ?k] by blast
  have q: "link_start cfg tc = Some [0..<lc_jobs cfg]" using s by (intro link_start_good) auto
  obtain tc' n k2 where l: "link_collect e [0..<length tc] 0 ((tc, [0..<length tc], 0), k1) = Some (0, (tc', [], n), k2)"
    "length tc' = length tc" "\<forall>i < length tc. job_done (tc' ! i)" "same_held k1 k2"
    using link_collect_good [OF e, of 0 "length tc" tc c 0 k1] s by auto
  have d: "link_destroy [0..<length tc'] (Some c) tc' k2 = Some (dma_release_channel c k2)"
    using l s ok by (intro link_destroy_good) (auto simp: link_ok_def)
  show "\<exists>k'. tc_link_core e cfg k = Some (0, k') \<and> same_held k k'"
    using mem s q l d by (simp add: tc_link_core_def Let_def same_held_def dma_release_channel_def)
qed

end
