(* ===== verification/DmaRun.thy ===== *)
theory DmaRun
imports DmaLink
begin

unbundle bit_operations_syntax

text \<open>The dispatcher \<open>d40_test_run\<close> of \<open>dma_test_module.c\<close> over all 69 tests, in a kernel where
nothing goes wrong.\<close>

section \<open>The sizes the tests use\<close>

lemma sint_small:
  assumes "unat (v :: u32) \<le> 1000000" shows "0 \<le> sint v"
proof -
  have "uint v = int (unat v)" by simp
  then have "uint v < 2147483648" using assms by linarith
  then have "\<not> bit (uint v) 31" by (simp add: bit_iff_odd)
  then show ?thesis by (simp add: sint_uint signed_take_bit_eq_if_positive)
qed

lemma sizing_ok_random: "sizing_ok (Random 1 61440) 1" "sizing_ok (Random 1 4) 1" "sizing_ok (Random 1 61440) 4"
proof -
  show "sizing_ok (Random 1 61440) 1"
    using random_size_ok [of 1 61440] by (force simp: sizing_ok_def intro: sint_small)
  show "sizing_ok (Random 1 4) 1"
    using random_size_ok [of 1 4] by (force simp: sizing_ok_def intro: sint_small)
  show "sizing_ok (Random 1 61440) 4"
    using random_size_align4 [of 1 61440] by (force simp: sizing_ok_def intro: sint_small)
qed

lemma sizing_ok_fixed [simp]: "unat v \<le> 1000000 \<Longrightarrow> sizing_ok (Fixed v) TX_ALIGN"
  by (simp add: sizing_ok_def TX_ALIGN_def sint_small)

lemma sizing_ok_fixed_align [simp]: "sizing_ok (Fixed 61440) 4" "sizing_ok (Fixed 61440) 1" "sizing_ok (Fixed 1024) 1"
  "sizing_ok (Fixed 1024) 4"
  by (simp_all add: sizing_ok_def ALIGN_def)

lemma TX_ALIGN_random [simp]: "sizing_ok (Random 1 61440) TX_ALIGN" "sizing_ok (Random 1 4) TX_ALIGN"
  by (simp_all add: TX_ALIGN_def sizing_ok_random)

section \<open>Each test\<close>

lemma tc_sg_buffer_passes:
  "good_kernel e \<Longrightarrow> 0 < nlaps \<Longrightarrow> 0 < n \<Longrightarrow> unat v \<le> 1000000 \<Longrightarrow> passes (tc_sg_buffer e n nlaps v)"
  unfolding tc_sg_buffer_def by (intro tc_plain_passes) auto

lemma passes_step: "passes f \<Longrightarrow> \<exists>k'. f k = Some (0, k') \<and> same_held k k'"
  by (simp add: passes_def)

lemma tc_9_loop_passes:
  assumes e: "good_kernel e" and "\<forall>(n, sz) \<in> set ps. 0 < n \<and> sz \<le> 1000000"
  shows "passes (tc_9_loop e ps 0)"
  using assms(2)
proof (induction ps)
  case Nil
  then show ?case by (simp add: passes_def)
next
  case (Cons p ps)
  obtain n sz where p: "p = (n, sz)" by force
  have sz: "unat (of_nat sz :: u32) \<le> 1000000" using Cons.prems p by (simp add: unat_of_nat)
  show ?case
    unfolding passes_def
  proof
    fix k :: kern
    obtain k1 where k1: "tc_sg_buffer e n 1 (of_nat sz) k = Some (0, k1)" "same_held k k1"
      using passes_step [OF tc_sg_buffer_passes [OF e, of 1 n "of_nat sz"]] Cons.prems p sz by auto
    obtain k2 where k2: "tc_9_loop e ps 0 k1 = Some (0, k2)" "same_held k1 k2"
      using Cons passes_step by force
    from k1 k2 show "\<exists>k'. tc_9_loop e (p # ps) 0 k = Some (0, k') \<and> same_held k k'"
      by (auto simp: p intro: same_held_trans)
  qed
qed

lemma tc_69_loop_passes:
  assumes e: "good_kernel e" and "\<forall>cfg \<in> set cfgs. link_ok cfg"
  shows "passes (tc_69_loop e cfgs 0)"
  using assms(2)
proof (induction cfgs)
  case Nil
  then show ?case by (simp add: passes_def)
next
  case (Cons cfg cfgs)
  show ?case
    unfolding passes_def
  proof
    fix k :: kern
    obtain k1 where k1: "tc_link_core e cfg k = Some (0, k1)" "same_held k k1"
      using passes_step [OF tc_link_core_passes [OF e, of cfg]] Cons.prems by auto
    obtain k2 where k2: "tc_69_loop e cfgs 0 k1 = Some (0, k2)" "same_held k1 k2"
      using Cons passes_step by force
    from k1 k2 show "\<exists>k'. tc_69_loop e (cfg # cfgs) 0 k = Some (0, k') \<and> same_held k k'"
      by (auto intro: same_held_trans)
  qed
qed

lemma good_xfer:
  "good_kernel e \<Longrightarrow> e_xfer e c n 4096 (replicate 4096 v) (replicate 4096 w) = replicate 4096 v"
  by (simp add: good_kernel_def faithful_engine_def)

lemma tc_22_to_25_passes:
  assumes "good_kernel e" shows "passes (\<lambda>k. Some (tc_22_to_25 e k))"
  unfolding passes_def
proof
  fix k :: kern
  obtain c where "e_grant e (k_reqs k) = Some c" using assms by (fastforce simp: good_kernel_def)
  moreover have "e_intr e n = None" for n using assms by (simp add: good_kernel_def)
  ultimately show "\<exists>k'. Some (tc_22_to_25 e k) = Some (0, k') \<and> same_held k k'"
    by (simp add: tc_22_to_25_def tc_22_req_def tc_23_no_irq_def tc_24_irq_def tc_25_free_def Let_def
        dma_request_channel_def dma_release_channel_def good_xfer [OF assms] same_held_def)
qed

lemmas tc_defs = tc_1_fixed_buffer_def tc_2_fixed_buffer_def tc_3_fixed_buffer_def tc_4_fixed_buffer_def
  tc_5_random_buffer_def tc_6_sg_buffer_def tc_7_sg_buffer_def tc_8_sg_buffer_def tc_15_static_buffer_def
  tc_16_static_buffer_def tc_17_static_buffer_def tc_18_static_buffer_def tc_19_static_buffer_def
  tc_20_random_buffer_def

lemma plain_tests_pass:
  assumes "good_kernel e"
  shows "passes (tc_1_fixed_buffer e)" "passes (tc_2_fixed_buffer e)" "passes (tc_3_fixed_buffer e)"
    "passes (tc_4_fixed_buffer e)" "passes (tc_5_random_buffer e)" "passes (tc_6_sg_buffer e)"
    "passes (tc_7_sg_buffer e)" "passes (tc_8_sg_buffer e)" "passes (tc_15_static_buffer e)"
    "passes (tc_16_static_buffer e)" "passes (tc_17_static_buffer e)" "passes (tc_18_static_buffer e)"
    "passes (tc_19_static_buffer e)" "passes (tc_20_random_buffer e)"
  unfolding tc_defs by (auto intro!: tc_plain_passes tc_sg_buffer_passes assms)

lemma tc_9_passes:
  assumes "good_kernel e" shows "passes (tc_9_sg_buffer e)"
  using assms unfolding tc_9_sg_buffer_def
  by (intro tc_9_loop_passes) (auto simp: good_kernel_def)

lemmas par_defs = tc_26_run_3_parallel_def tc_27_run_4_parallel_def tc_28_run_5_parallel_def
  tc_29_run_6_parallel_def tc_30_run_7_parallel_def tc_31_run_128_parallel_def tc_32_run_1_parallel_def
  tc_33_run_2_parallel_def tc_35_run_1_parallel_reuse_def tc_50_def tc_53_def tc_54_trigger_def

lemma parallel_tests_pass:
  assumes "good_kernel e"
  shows "passes (tc_26_run_3_parallel e)" "passes (tc_27_run_4_parallel e)" "passes (tc_28_run_5_parallel e)"
    "passes (tc_29_run_6_parallel e)" "passes (tc_30_run_7_parallel e)" "passes (tc_31_run_128_parallel e)"
    "passes (tc_32_run_1_parallel e)" "passes (tc_33_run_2_parallel e)" "passes (tc_35_run_1_parallel_reuse e)"
    "passes (tc_50 e)" "passes (tc_53 e)" "passes (tc_54_trigger e)"
  unfolding par_defs
  by (intro tc_run_parallel_passes assms; simp add: parallel_ok_def parallel_tcp_def sizing_ok_random)+

lemmas pause_defs = tc_21_stop_and_go_def tc_34_run_pause_and_unpause_parallel_def tc_51_def tc_52_def

lemma pause_tests_pass:
  assumes "good_kernel e"
  shows "passes (tc_21_stop_and_go e)" "passes (tc_34_run_pause_and_unpause_parallel e)"
    "passes (tc_51 e)" "passes (tc_52 e)"
  unfolding pause_defs by (auto intro!: tc_pause_passes assms)

lemmas reg_defs = tc_36_def tc_37_def tc_38_def tc_39_def tc_40_def tc_41_def tc_42_def tc_43_def tc_44_def
  tc_45_def tc_46_def tc_47_def tc_48_def tc_49_def

lemma reg_tests_pass:
  assumes "good_kernel e"
  shows "passes (tc_36 e)" "passes (tc_37 e)" "passes (tc_38 e)" "passes (tc_39 e)" "passes (tc_40 e)"
    "passes (tc_41 e)" "passes (tc_42 e)" "passes (tc_43 e)" "passes (tc_44 e)" "passes (tc_45 e)"
    "passes (tc_46 e)" "passes (tc_47 e)" "passes (tc_48 e)" "passes (tc_49 e)"
  unfolding reg_defs by (auto intro!: tc_run_while_read_reg_passes assms)

lemmas link_defs = tc_55_def tc_56_def tc_57_def tc_58_def tc_59_def tc_60_def tc_61_def tc_62_def tc_63_def
  tc_64_def tc_65_def tc_66_def tc_67_def tc_68_def

lemma link_tests_pass:
  assumes "good_kernel e"
  shows "passes (tc_55 e)" "passes (tc_56 e)" "passes (tc_57 e)" "passes (tc_58 e)" "passes (tc_59 e)"
    "passes (tc_60 e)" "passes (tc_61 e)" "passes (tc_62 e)" "passes (tc_63 e)" "passes (tc_64 e)"
    "passes (tc_65 e)" "passes (tc_66 e)" "passes (tc_67 e)" "passes (tc_68 e)"
  unfolding link_defs by (intro tc_link_core_passes assms; simp add: link_ok_def link_cfg_def)+

lemma tc_69_passes:
  assumes "good_kernel e" shows "passes (tc_69 e)"
  unfolding tc_69_def by (intro tc_69_loop_passes assms) (simp add: link_ok_def link_cfg_def)

section \<open>The dispatcher\<close>

lemma run_test_simps:
  "run_test e 1 = tc_1_fixed_buffer e"
  "run_test e 2 = tc_2_fixed_buffer e"
  "run_test e 3 = tc_3_fixed_buffer e"
  "run_test e 4 = tc_4_fixed_buffer e"
  "run_test e 5 = tc_5_random_buffer e"
  "run_test e 6 = tc_6_sg_buffer e"
  "run_test e 7 = tc_7_sg_buffer e"
  "run_test e 8 = tc_8_sg_buffer e"
  "run_test e 9 = tc_9_sg_buffer e"
  "run_test e 15 = tc_15_static_buffer e"
  "run_test e 16 = tc_16_static_buffer e"
  "run_test e 17 = tc_17_static_buffer e"
  "run_test e 18 = tc_18_static_buffer e"
  "run_test e 19 = tc_19_static_buffer e"
  "run_test e 20 = tc_20_random_buffer e"
  "run_test e 21 = tc_21_stop_and_go e"
  "run_test e 26 = tc_26_run_3_parallel e"
  "run_test e 27 = tc_27_run_4_parallel e"
  "run_test e 28 = tc_28_run_5_parallel e"
  "run_test e 29 = tc_29_run_6_parallel e"
  "run_test e 30 = tc_30_run_7_parallel e"
  "run_test e 31 = tc_31_run_128_parallel e"
  "run_test e 32 = tc_32_run_1_parallel e"
  "run_test e 33 = tc_33_run_2_parallel e"
  "run_test e 34 = tc_34_run_pause_and_unpause_parallel e"
  "run_test e 35 = tc_35_run_1_parallel_reuse e"
  "run_test e 50 = tc_50 e"
  "run_test e 51 = tc_51 e"
  "run_test e 52 = tc_52 e"
  "run_test e 53 = tc_53 e"
  "run_test e 54 = tc_54_trigger e"
  "run_test e 55 = tc_55 e"
  "run_test e 56 = tc_56 e"
  "run_test e 57 = tc_57 e"
  "run_test e 58 = tc_58 e"
  "run_test e 59 = tc_59 e"
  "run_test e 60 = tc_60 e"
  "run_test e 61 = tc_61 e"
  "run_test e 62 = tc_62 e"
  "run_test e 63 = tc_63 e"
  "run_test e 64 = tc_64 e"
  "run_test e 65 = tc_65 e"
  "run_test e 66 = tc_66 e"
  "run_test e 67 = tc_67 e"
  "run_test e 68 = tc_68 e"
  "run_test e 69 = tc_69 e"
  "run_test e 22 = (\<lambda>k. Some (tc_22_to_25 e k))"
  "run_test e 23 = (\<lambda>k. Some (tc_22_to_25 e k))"
  "run_test e 24 = (\<lambda>k. Some (tc_22_to_25 e k))"
  "run_test e 25 = (\<lambda>k. Some (tc_22_to_25 e k))"
  by (simp_all add: run_test_def run_reg_test_def run_late_test_def fun_eq_iff)

lemma run_test_debug_simps:
  assumes "e_debug e"
  shows
  "run_test e 36 = tc_36 e"
  "run_test e 37 = tc_37 e"
  "run_test e 38 = tc_38 e"
  "run_test e 39 = tc_39 e"
  "run_test e 40 = tc_40 e"
  "run_test e 41 = tc_41 e"
  "run_test e 42 = tc_42 e"
  "run_test e 43 = tc_43 e"
  "run_test e 44 = tc_44 e"
  "run_test e 45 = tc_45 e"
  "run_test e 46 = tc_46 e"
  "run_test e 47 = tc_47 e"
  "run_test e 48 = tc_48 e"
  "run_test e 49 = tc_49 e"
  using assms by (simp_all add: run_test_def run_reg_test_def run_late_test_def fun_eq_iff)

text \<open>The tests compiled out: their file only says so.\<close>

definition removed :: "kenv \<Rightarrow> nat \<Rightarrow> bool" where
  "removed e test_id \<longleftrightarrow> (test_id \<in> {10, 11, 12, 13, 14} \<and> \<not> (e_mmc e \<and> e_debug e)) \<or>
     (36 \<le> test_id \<and> test_id \<le> 49 \<and> \<not> e_debug e)"

lemma run_test_removed: "removed e test_id \<Longrightarrow> run_test e test_id k = Some (tc_nop test_id k)"
  unfolding removed_def
proof (elim disjE conjE)
  assume "test_id \<in> {10, 11, 12, 13, 14}" "\<not> (e_mmc e \<and> e_debug e)"
  then show ?thesis by (elim insertE emptyE) (simp_all add: run_test_def run_reg_test_def run_late_test_def)
next
  assume "36 \<le> test_id" "test_id \<le> 49" "\<not> e_debug e"
  then show ?thesis by (simp add: run_test_def run_reg_test_def run_late_test_def)
qed

lemma run_test_passes:
  assumes e: "good_kernel e" and id: "test_id \<in> set [1..<70]" "test_id \<notin> {10, 11, 12, 13, 14}" "\<not> removed e test_id"
  shows "passes (run_test e test_id)"
proof (cases "36 \<le> test_id \<and> test_id \<le> 49")
  case True
  then have d: "e_debug e" using id by (auto simp: removed_def)
  from True have "test_id = 36 \<or> test_id = 37 \<or> test_id = 38 \<or> test_id = 39 \<or> test_id = 40 \<or> test_id = 41 \<or>
      test_id = 42 \<or> test_id = 43 \<or> test_id = 44 \<or> test_id = 45 \<or> test_id = 46 \<or> test_id = 47 \<or>
      test_id = 48 \<or> test_id = 49" by presburger
  then show ?thesis
    by (elim disjE) (simp_all add: run_test_debug_simps [OF d] reg_tests_pass [OF e])
next
  case False
  have "test_id \<in> set (1 # [2..<10] @ [15..<36] @ [50..<70])" 
    unfolding list.set set_append set_upt insert_iff Un_iff atLeastLessThan_iff using id(1,2) False
    by (simp only: set_upt atLeastLessThan_iff insert_iff empty_iff) presburger
  then have "test_id \<in> {1, 2, 3, 4, 5, 6, 7, 8, 9, 15, 16, 17, 18, 19, 20, 21, 22, 23, 24, 25, 26, 27, 28, 29, 30, 31, 32, 33, 34, 35, 50, 51, 52, 53, 54, 55, 56, 57, 58, 59, 60, 61, 62, 63, 64, 65, 66, 67, 68, 69}"
    by (simp del: set_upt)
  then show ?thesis
    by (elim insertE emptyE) (simp_all add: run_test_simps plain_tests_pass [OF e] tc_9_passes [OF e]
      pause_tests_pass [OF e] tc_22_to_25_passes [OF e] parallel_tests_pass [OF e] link_tests_pass [OF e]
      tc_69_passes [OF e] del: One_nat_def)
qed

lemma d40_test_run_passes:
  assumes e: "good_kernel e" and p: "passes (run_test e test_id)"
  shows "\<exists>k'. d40_test_run e test_id k = Some (0, k') \<and> k_held k' = k_held k \<and> k_wqs k' = k_wqs k \<and>
    k_unlocks k' = k_unlocks k + 1 \<and> k_seq k' = k_seq k @ [finish_line (run_prefix e test_id) test_id 0]"
proof -
  have "e_lock e (k_locks k) = 0" using e by (simp add: good_kernel_def)
  moreover obtain k1 where "run_test e test_id (k\<lparr>k_locks := k_locks k + 1\<rparr>) = Some (0, k1)"
    "same_held (k\<lparr>k_locks := k_locks k + 1\<rparr>) k1"
    using passes_step [OF p] by blast
  ultimately show ?thesis
    by (simp add: d40_test_run_def Let_def seq_printf_def same_held_def)
qed

text \<open>The lines before the last one: a note for a test that is compiled out, a script for the tests 10 to 13.\<close>

definition dd_script :: "nat \<Rightarrow> string" where
  "dd_script n = ''# ['' @ [''tc_10_sg_size_1024_one'', ''tc_11_sg_size_chain_one'', ''tc_12_sg_size_1024_many'',
       ''tc_13_sg_size_1024_chain_many''] ! (n - 10) @ ''()] sg_elem_size 1024, sg_chain '' @ (if odd n then ''1'' else ''0'') @
     '', run:'' @ [CHR 0x0A] @ ''dd if=/dev/zero of=/out_zero bs=4096 count='' @ (if n < 12 then ''1'' else ''256'') @
     ''; sync'' @ [CHR 0x0A]"

definition test_lines :: "kenv \<Rightarrow> nat \<Rightarrow> string list" where
  "test_lines e n = (if removed e n then [''TEST_'' @ nat_to_string n @ '' is removed'' @ [CHR 0x0A]]
     else if n \<in> {10, 11, 12, 13} then [dd_script n] else [])"

text \<open>The tests that end: all but test 14, where it is built in.\<close>

definition ends :: "kenv \<Rightarrow> nat \<Rightarrow> bool" where
  "ends e n \<longleftrightarrow> n \<in> set [1..<70] \<and> (n = 14 \<longrightarrow> removed e 14)"

lemma run_dd:
  assumes "e_mmc e" "e_debug e" "\<forall>sz chain. e_sgsize e sz chain = 0" "n \<in> {10, 11, 12, 13}"
  shows "run_test e n k = Some (0, k\<lparr>k_seq := k_seq k @ [dd_script n]\<rparr>)"
proof -
  have "int_to_string (uint (1024 :: u32)) = ''1024''" by code_simp
  with assms show ?thesis
    by (elim insertE emptyE) (simp_all add: run_test_def tc_10_sg_size_1024_one_def tc_11_sg_size_chain_one_def
      tc_12_sg_size_1024_many_def tc_13_sg_size_1024_chain_many_def dd_setup_def Let_def seq_printf_def dd_script_def)
qed

lemma d40_test_run_lines:
  assumes e: "good_kernel e" "ends e n" "\<forall>sz chain. e_sgsize e sz chain = 0"
  shows "\<exists>k'. d40_test_run e n k = Some (0, k') \<and> k_held k' = k_held k \<and> k_wqs k' = k_wqs k \<and>
    k_unlocks k' = k_unlocks k + 1 \<and> k_seq k' = k_seq k @ test_lines e n @ [finish_line (run_prefix e n) n 0]"
proof -
  have l: "e_lock e (k_locks k) = 0" using e(1) by (simp add: good_kernel_def)
  consider (off) "removed e n" | (dd) "\<not> removed e n" "n \<in> {10, 11, 12, 13}" | (dma) "\<not> removed e n" "n \<notin> {10, 11, 12, 13, 14}"
    using e(2) by (auto simp: ends_def)
  then show ?thesis
  proof cases
    case off
    with l show ?thesis using run_test_removed [OF off, of "k\<lparr>k_locks := k_locks k + 1\<rparr>"]
      by (simp add: d40_test_run_def Let_def seq_printf_def tc_nop_def test_lines_def)
  next
    case dd
    then have "e_mmc e" "e_debug e" by (auto simp: removed_def)
    with l dd run_dd [OF this e(3) dd(2), of "k\<lparr>k_locks := k_locks k + 1\<rparr>"] show ?thesis
      by (simp add: d40_test_run_def Let_def seq_printf_def test_lines_def)
  next
    case dma
    have n: "n \<in> set [1..<70]" using e(2) by (simp add: ends_def)
    have "test_lines e n = []" using dma by (simp add: test_lines_def)
    with d40_test_run_passes [OF e(1) run_test_passes [OF e(1) n dma(2,1)], of k] show ?thesis by simp
  qed
qed

text \<open>A concrete kernel: kmalloc rounds up to 8 bytes and more, channels are numbered as requested.\<close>

definition ideal_kernel :: kenv where
  "ideal_kernel = \<lparr>e_ptr = 4, e_ksize = (\<lambda>n. n + 7), e_grant = Some, e_rand = (\<lambda>n. of_nat (n * 1000003)),
     e_xfer = (\<lambda>c n k s d. take k s @ drop k d), e_intr = (\<lambda>n. None), e_wq = (\<lambda>n. True), e_lock = (\<lambda>n. 0),
     e_residue = (\<lambda>n. if n < 3 then 512 else 0), e_map_sg = id, e_mem = (\<lambda>n. True), e_page = 4096,
     e_mmc = False, e_debug = False, e_sgsize = (\<lambda>_ _. 0)\<rparr>"

lemma ideal_kernel_good: "good_kernel ideal_kernel"
  unfolding good_kernel_def
proof (intro conjI)
  show "\<exists>N. \<forall>n\<ge>N. e_residue ideal_kernel n = 0"
    by (rule exI [of _ 3]) (simp add: ideal_kernel_def)
  show "\<forall>len. len < int_cells ideal_kernel len"
    by (auto simp: ideal_kernel_def int_cells_def)
qed (simp_all add: ideal_kernel_def faithful_engine_def)

definition kern0 :: kern where
  "kern0 = \<lparr>k_reqs = 0, k_held = [], k_wqreqs = 0, k_wqs = 0, k_rands = 0, k_waits = 0, k_locks = 0,
     k_residues = 0, k_mallocs = 0, k_chan22 = None, k_unlocks = 0, k_seq = []\<rparr>"

end
