(* ===== verification/DmaFaulty.thy ===== *)
theory DmaFaulty
imports DmaRun DmaSchedule
begin

text \<open>A test on an engine that may copy anything.  The contract is only that a transfer writes nothing
outside the bytes it was asked to write; an invariant \<open>Q\<close> of the destination buffers says what else is known
of the engine.  On such an engine a test still ends, and its verdict is right.\<close>

locale confined_engine =
  fixes e :: kenv and sizes :: "int list" and ss :: "byte list list" and Q :: "byte list list \<Rightarrow> bool"
  assumes confined: "k \<le> length s \<Longrightarrow> k \<le> length d \<Longrightarrow> length (e_xfer e c n k s d) = length d \<and> drop k (e_xfer e c n k s d) = drop k d"
    and keeps: "Q ds \<Longrightarrow> i < length sizes \<Longrightarrow> length ds = length sizes \<Longrightarrow>
      Q (ds[i := e_xfer e c n (nat (sizes ! i)) (ss ! i) (ds ! i)])"
begin

definition good_now :: "buflist \<Rightarrow> bool" where
  "good_now bl \<longleftrightarrow> (\<exists>ds. bl_good sizes ss ds bl \<and> Q ds)"

definition run_now :: "nat \<Rightarrow> nat \<Rightarrow> tc \<Rightarrow> bool" where
  "run_now L j tc \<longleftrightarrow> (\<exists>ds. tc_fixed sizes ss ds L tc \<and> Q ds) \<and>
     bl_issued (tc_bl tc) = (if work_sg tc then [Sg] else drop j (all_descs sizes)) \<and>
     \<not> work_queued tc \<and> job_counter tc = int j \<and> bl_callback (tc_bl tc) \<and>
     (if work_sg tc then j = 0 else j < length sizes)"

definition over_now :: "nat \<Rightarrow> tc \<Rightarrow> bool" where
  "over_now L tc \<longleftrightarrow> (\<exists>ds. Q ds \<and> tc_err tc = (if ds = ss then 0 else - 1) \<and>
    (if L = 1 then tc_done tc = 1 \<and> laps tc = 0 \<and> bl_good sizes ss ds (tc_bl tc) \<and> tc_wq tc = WqLive \<and>
        bl_issued (tc_bl tc) = [] \<and> \<not> work_queued tc
     else tc_ready sizes ss ds (L - 1) tc))"

lemma copy_buf_confined:
  assumes "bl_good sizes ss ds bl" "Q ds" "i < length sizes"
  shows "\<exists>ds'. copy_buf e i (nat (sizes ! i)) bl = Some (bl\<lparr>list_buf_dst := map Some ds', bl_xfers := bl_xfers bl + 1\<rparr>) \<and>
    bl_good sizes ss ds' (bl\<lparr>list_buf_dst := map Some ds', bl_xfers := bl_xfers bl + 1\<rparr>) \<and> Q ds'"
proof -
  obtain c where c: "dma_chan bl = Some c" using assms(1) by (auto simp: bl_good_def)
  let ?x = "e_xfer e c (bl_xfers bl) (nat (sizes ! i)) (ss ! i) (ds ! i)"
  have l: "length ss = length sizes" "length ds = length sizes" "nat (sizes ! i) \<le> length (ds ! i)" "nat (sizes ! i) \<le> length (ss ! i)"
    using assms by (auto simp: bl_good_def)
  have "copy_buf e i (nat (sizes ! i)) bl =
      Some (bl\<lparr>list_buf_dst := map Some (ds[i := ?x]), bl_xfers := bl_xfers bl + 1\<rparr>)"
    using assms(1,3) c l by (simp add: copy_buf_def bl_good_def c_simps map_update)
  moreover have "bl_good sizes ss (ds[i := ?x]) (bl\<lparr>list_buf_dst := map Some (ds[i := ?x]), bl_xfers := bl_xfers bl + 1\<rparr>)"
    using assms(1,3) confined [OF l(4,3)] by (auto simp: bl_good_def nth_list_update)
  ultimately show ?thesis using keeps [OF assms(2,3) l(2)] by blast
qed

lemma copy_all_confined:
  assumes "bl_good sizes ss ds bl" "Q ds" "n \<le> length sizes"
  shows "\<exists>ds' x. ofold (\<lambda>i. copy_buf e i (nat (sizes ! i))) [0..<n] bl = Some (bl\<lparr>list_buf_dst := map Some ds', bl_xfers := x\<rparr>) \<and>
    bl_good sizes ss ds' (bl\<lparr>list_buf_dst := map Some ds', bl_xfers := x\<rparr>) \<and> Q ds'"
  using assms(3)
proof (induction n)
  case 0
  have "bl\<lparr>list_buf_dst := map Some ds, bl_xfers := bl_xfers bl\<rparr> = bl"
    using assms(1) by (simp add: bl_good_def)
  with assms show ?case by (intro exI [of _ ds] exI [of _ "bl_xfers bl"]) simp
next
  case (Suc n)
  then obtain ds' x where a: "ofold (\<lambda>i. copy_buf e i (nat (sizes ! i))) [0..<n] bl = Some (bl\<lparr>list_buf_dst := map Some ds', bl_xfers := x\<rparr>)"
    "bl_good sizes ss ds' (bl\<lparr>list_buf_dst := map Some ds', bl_xfers := x\<rparr>)" "Q ds'" by auto
  let ?bl = "bl\<lparr>list_buf_dst := map Some ds', bl_xfers := x\<rparr>"
  obtain ds2 where b: "copy_buf e n (nat (sizes ! n)) ?bl = Some (bl\<lparr>list_buf_dst := map Some ds2, bl_xfers := Suc x\<rparr>)"
    "bl_good sizes ss ds2 (bl\<lparr>list_buf_dst := map Some ds2, bl_xfers := Suc x\<rparr>)" "Q ds2"
    using copy_buf_confined [OF a(2,3), of n] Suc.prems by auto
  show ?case
    using a(1) b by (intro exI [of _ ds2] exI [of _ "Suc x"]) (simp add: ofold_append)
qed

lemma exec_confined:
  assumes "bl_good sizes ss ds bl" "Q ds" "d = Sg \<or> (\<exists>i < length sizes. d = Memcpy i (nat (sizes ! i)))"
  shows "\<exists>ds' x. engine_exec e d bl = Some (bl\<lparr>list_buf_dst := map Some ds', bl_xfers := x\<rparr>) \<and>
    bl_good sizes ss ds' (bl\<lparr>list_buf_dst := map Some ds', bl_xfers := x\<rparr>) \<and> Q ds'"
proof -
  have "until_sentinel (list_size bl) = Some sizes" using assms(1) by (simp add: bl_good_def)
  with copy_all_confined [OF assms(1,2), of "length sizes"] copy_buf_confined [OF assms(1,2)] assms(3)
  show ?thesis by (fastforce simp: engine_exec_def)
qed

text \<open>The next completion while a lap runs.\<close>

lemma run_exec:
  assumes "run_now L j tc"
  shows "\<exists>bl ds. tc_step e tc = tc_worker (tc\<lparr>tc_bl := transmit_cb bl\<rparr>) \<and>
    tc_fixed sizes ss ds L (tc\<lparr>tc_bl := transmit_cb bl\<rparr>) \<and> Q ds \<and>
    bl_issued bl = (if work_sg tc then [] else drop (Suc j) (all_descs sizes)) \<and> bl_callback bl \<and>
    dma_chan bl = dma_chan (tc_bl tc)"
proof -
  obtain ds where f: "tc_fixed sizes ss ds L tc" "Q ds" using assms by (auto simp: run_now_def)
  let ?rest = "if work_sg tc then [] else drop (Suc j) (all_descs sizes)"
  let ?d = "if work_sg tc then Sg else Memcpy j (nat (sizes ! j))"
  let ?bl = "(tc_bl tc)\<lparr>bl_issued := ?rest\<rparr>"
  have iss: "bl_issued (tc_bl tc) = ?d # ?rest"
    using assms Cons_nth_drop_Suc [of j "all_descs sizes"] by (auto simp: run_now_def)
  have g: "bl_good sizes ss ds ?bl" using f by (simp add: tc_fixed_def)
  have d: "?d = Sg \<or> (\<exists>i < length sizes. ?d = Memcpy i (nat (sizes ! i)))"
    using assms by (auto simp: run_now_def)
  obtain ds' x where b: "engine_exec e ?d ?bl = Some (?bl\<lparr>list_buf_dst := map Some ds', bl_xfers := x\<rparr>)"
    "bl_good sizes ss ds' (?bl\<lparr>list_buf_dst := map Some ds', bl_xfers := x\<rparr>)" "Q ds'"
    using exec_confined [OF g f(2) d] by blast
  let ?b' = "?bl\<lparr>list_buf_dst := map Some ds', bl_xfers := x\<rparr>"
  have "tc_step e tc = tc_worker (tc\<lparr>tc_bl := transmit_cb ?b'\<rparr>)"
    by (rule tc_step_callback [OF _ iss b(1)]) (use assms f in \<open>auto simp: run_now_def tc_fixed_def\<close>)
  moreover have "tc_fixed sizes ss ds' L (tc\<lparr>tc_bl := transmit_cb ?b'\<rparr>)"
    using f b(2) by (simp add: tc_fixed_def transmit_cb_def)
  ultimately show ?thesis using b(3) assms
    by (intro exI [of _ ?b'] exI [of _ ds']) (simp add: run_now_def)
qed

lemma run_step:
  assumes "run_now L j tc"
  shows "\<exists>tc'. tc_step e tc = Some tc' \<and> dma_chan (tc_bl tc') = dma_chan (tc_bl tc) \<and>
    (if work_sg tc \<or> Suc j = length sizes then over_now L tc' else run_now L (Suc j) tc')"
proof -
  obtain bl ds where b: "tc_step e tc = tc_worker (tc\<lparr>tc_bl := transmit_cb bl\<rparr>)"
    "tc_fixed sizes ss ds L (tc\<lparr>tc_bl := transmit_cb bl\<rparr>)" "Q ds"
    "bl_issued bl = (if work_sg tc then [] else drop (Suc j) (all_descs sizes))" "bl_callback bl"
    "dma_chan bl = dma_chan (tc_bl tc)"
    using run_exec [OF assms] by blast
  show ?thesis
  proof (cases "work_sg tc \<or> Suc j = length sizes")
    case True
    have n: "job_counter tc + 1 = nbr_returns_per_transfer tc" "\<not> work_queued tc"
      using True assms b(2) by (auto simp: run_now_def tc_fixed_def)
    have i: "bl_issued bl = []" using True b(4) by auto
    obtain tc' where t: "tc_worker (tc\<lparr>tc_bl := transmit_cb bl\<rparr>) = Some tc'" "tc_err tc' = (if ds = ss then 0 else - 1)"
      "dma_chan (tc_bl tc') = dma_chan bl"
      "if L = 1 then tc_done tc' = 1 \<and> laps tc' = 0 \<and> bl_good sizes ss ds (tc_bl tc') \<and> tc_wq tc' = WqLive \<and>
          bl_issued (tc_bl tc') = [] \<and> \<not> work_queued tc'
       else tc_ready sizes ss ds (L - 1) tc'"
      using tc_worker_lap [OF b(2)] n i by (auto simp: transmit_cb_def)
    then have "over_now L tc'" unfolding over_now_def using b(3) by blast
    with True t b show ?thesis by auto
  next
    case False
    have n: "job_counter tc + 1 \<noteq> nbr_returns_per_transfer tc"
      using False assms b(2) by (auto simp: run_now_def tc_fixed_def)
    let ?t = "tc\<lparr>tc_bl := transmit_cb bl, job_counter := job_counter tc + 1\<rparr>"
    have "tc_fixed sizes ss ds L ?t" using b(2) by (simp add: tc_fixed_def)
    with b False assms have "run_now L (Suc j) ?t" by (auto simp: run_now_def transmit_cb_def)
    moreover have "tc_worker (tc\<lparr>tc_bl := transmit_cb bl\<rparr>) = Some ?t"
      using n tc_worker_mid [of "tc\<lparr>tc_bl := transmit_cb bl\<rparr>"] by simp
    ultimately show ?thesis using b(1,6) False by (simp add: transmit_cb_def)
  qed
qed

lemma run_lap:
  assumes "run_now L j tc"
  shows "\<exists>tc'. tc_wait e None tc = tc_wait e None tc' \<and> over_now L tc' \<and> dma_chan (tc_bl tc') = dma_chan (tc_bl tc)"
  using assms
proof (induction "length sizes - j" arbitrary: j tc rule: less_induct)
  case less
  have d: "tc_done tc = 0" using less.prems by (auto simp: run_now_def tc_fixed_def)
  obtain tc' where t: "tc_step e tc = Some tc'" "dma_chan (tc_bl tc') = dma_chan (tc_bl tc)"
    "if work_sg tc \<or> Suc j = length sizes then over_now L tc' else run_now L (Suc j) tc'"
    using run_step [OF less.prems] by blast
  show ?case
  proof (cases "work_sg tc \<or> Suc j = length sizes")
    case True
    with t tc_wait_event [OF d t(1)] show ?thesis by auto
  next
    case False
    with less.prems have "length sizes - Suc j < length sizes - j" by (auto simp: run_now_def)
    from less.hyps [OF this] t False tc_wait_event [OF d t(1)] show ?thesis by (metis (no_types))
  qed
qed

lemma wait_verdict:
  assumes "tc_ready sizes ss ds L tc" "Q ds"
  shows "\<exists>tc' ds'. tc_wait e None tc = Some tc' \<and> bl_good sizes ss ds' (tc_bl tc') \<and> Q ds' \<and>
    tc_err tc' = (if ds' = ss then 0 else - 1) \<and> tc_wq tc' = WqLive \<and> \<not> work_queued tc' \<and>
    dma_chan (tc_bl tc') = dma_chan (tc_bl tc)"
  using assms
proof (induction L arbitrary: ds tc rule: less_induct)
  case (less L)
  then have d: "tc_done tc = 0" "0 < L" by (simp_all add: tc_ready_def tc_fixed_def)
  from ready_step [OF less.prems(1)] obtain tc1 where tc1: "tc_step e tc = Some tc1"
    "tc_running sizes ss ds L 0 tc1" "dma_chan (tc_bl tc1) = dma_chan (tc_bl tc)" by blast
  have "run_now L 0 tc1" using tc1(2) less.prems(2) by (auto simp: tc_running_def run_now_def)
  from run_lap [OF this] obtain tc2 where tc2: "tc_wait e None tc1 = tc_wait e None tc2"
    "over_now L tc2" "dma_chan (tc_bl tc2) = dma_chan (tc_bl tc1)" by blast
  have w: "tc_wait e None tc = tc_wait e None tc2" using tc_wait_event [OF d(1) tc1(1)] tc2 by simp
  obtain ds2 where o: "Q ds2" "tc_err tc2 = (if ds2 = ss then 0 else - 1)"
    "if L = 1 then tc_done tc2 = 1 \<and> laps tc2 = 0 \<and> bl_good sizes ss ds2 (tc_bl tc2) \<and> tc_wq tc2 = WqLive \<and>
        bl_issued (tc_bl tc2) = [] \<and> \<not> work_queued tc2
     else tc_ready sizes ss ds2 (L - 1) tc2"
    using tc2(2) by (auto simp: over_now_def)
  show ?case
  proof (cases "L = 1")
    case True
    with o have "tc_wait e None tc2 = Some (tc2\<lparr>tc_done := 0\<rparr>)" by (subst tc_wait.simps) simp
    with w True o tc1 tc2 show ?thesis by (intro exI [of _ "tc2\<lparr>tc_done := 0\<rparr>"] exI [of _ ds2]) simp
  next
    case False
    with o have "tc_ready sizes ss ds2 (L - 1) tc2" by simp
    with less.IH [of "L - 1" ds2 tc2] o(1) d False w tc1 tc2 show ?thesis by auto
  qed
qed

end

section \<open>Two engines\<close>

text \<open>The engine of the concrete kernel, and one that completes every transfer without copying.\<close>

interpretation ideal_engine: confined_engine ideal_kernel sizes ss "\<lambda>_. True" for sizes ss
  by unfold_locales (auto simp: ideal_kernel_def)

definition dead_engine :: "kenv \<Rightarrow> kenv" where
  "dead_engine e = e\<lparr>e_xfer := \<lambda>c n k s d. d\<rparr>"

interpretation dead: confined_engine "dead_engine e" sizes ss "\<lambda>ds. ds = ds0" for e sizes ss ds0
  by unfold_locales (auto simp: dead_engine_def)

text \<open>C2: on any engine that writes only the bytes it is asked to write, a test that is ready to run ends
after its laps, and its error is 0 exactly when every destination buffer holds its source, -1 otherwise.\<close>

theorem engine_verdict:
  assumes "\<forall>c n k s d. k \<le> length s \<longrightarrow> k \<le> length d \<longrightarrow>
      length (e_xfer e c n k s d) = length d \<and> drop k (e_xfer e c n k s d) = drop k d"
    and "tc_ready sizes ss ds L tc"
  shows "\<exists>tc' ds'. tc_wait e None tc = Some tc' \<and> bl_good sizes ss ds' (tc_bl tc') \<and>
    tc_err tc' = (if ds' = ss then 0 else - 1)"
proof -
  have "confined_engine e sizes ss (\<lambda>_. True)" by unfold_locales (use assms(1) in auto)
  from confined_engine.wait_verdict [OF this assms(2)] show ?thesis by blast
qed

definition one_byte_test :: tc where
  "one_byte_test = tc0\<lparr>tc_bl := buflist0\<lparr>list_size := [Some 1, Some (- 1)], bl_list_len := 1, list_buf_src := [Some [7]],
     list_buf_dst := [Some [0xAA]], bl_desc := [None], dma_chan := Some 0, bl_flags := [DMA_PREP_INTERRUPT, DMA_CTRL_ACK]\<rparr>,
     tc_wq := WqLive, laps := 2, nbr_returns_per_transfer := 1, do_check_buffer := True, work_queued := True\<rparr>"

lemma one_byte_ready: "tc_ready [1] [[7]] [[0xAA]] 2 one_byte_test"
  by (simp add: one_byte_test_def tc_ready_def tc_fixed_def bl_good_def startable_def tc0_def buflist0_def until_sentinel.simps)

lemma engine_verdict_witness:
  "\<exists>tc' ds'. tc_wait (dead_engine ideal_kernel) None one_byte_test = Some tc' \<and> bl_good [1] [[7]] ds' (tc_bl tc') \<and>
    tc_err tc' = (if ds' = [[7]] then 0 else - 1)"
  by (rule engine_verdict [OF _ one_byte_ready]) (simp add: dead_engine_def)

section \<open>A test case on a dead engine\<close>

lemma tc_plain_body_dead:
  assumes e: "good_kernel e" and f: "fresh_bl len (tc_bl t)" "0 < len" "0 < sint (ALIGN v TX_ALIGN)" "0 < nlaps"
    "DMA_PREP_INTERRUPT \<in> set (bl_flags (tc_bl t))" "dma_chan (tc_bl t) = Some c"
    "tc_wq t = WqLive" "tc_done t = 0" "laps t = nlaps" "do_check_buffer t" "\<not> work_queued t"
    "k_held k = c # h" "k_wqs k = Suc w"
  shows "\<exists>k'. tc_plain_body (dead_engine e) len (Fixed v) t k = Some (- 1, k') \<and> k_held k' = h \<and> k_wqs k' = w \<and>
    k_seq k' = k_seq k \<and> k_unlocks k' = k_unlocks k"
proof -
  let ?e = "dead_engine e"
  let ?sizes = "replicate len (sint (ALIGN v TX_ALIGN))"
  have n: "bl_list_len (tc_bl t) = len" using f(1) by (simp add: fresh_bl_def)
  obtain bl1 where s: "dmatest_sizelist_set v TX_ALIGN (tc_bl t) = Some bl1" "sized ?sizes (tc_bl t) bl1"
    using sizelist_set_sized [of "tc_bl t" v TX_ALIGN] f(1,3) n by (auto simp: fresh_bl_def)
  have s': "set_sizes ?e (Fixed v) TX_ALIGN (tc_bl t, k) = Some (bl1, k)" using s(1) by (simp add: set_sizes_def)
  have fr: "fresh_bl (length ?sizes) (tc_bl t)" using f(1) by simp
  obtain bl2 ss ds where a: "dmatest_buflist_alloc bl1 = Some bl2" "bl_good ?sizes ss ds bl2" "same_chan (tc_bl t) bl2"
    "bl_list_len bl2 = len" "ds \<noteq> ss"
    using alloc_good [OF fr s(2)] f(2,3) by auto
  let ?t = "t\<lparr>tc_bl := bl2, job_counter := 0, nbr_returns_per_transfer := (if work_sg t then 1 else int len)\<rparr>"
  have r: "tc_ready ?sizes ss ds (nat nlaps) (?t\<lparr>work_queued := True\<rparr>)"
    using f a by (simp add: tc_ready_def tc_fixed_def startable_def same_chan_def fresh_bl_def)
  obtain t' where w: "tc_wait ?e None (?t\<lparr>work_queued := True\<rparr>) = Some t'" "bl_good ?sizes ss ds (tc_bl t')"
    "tc_err t' = - 1" "tc_wq t' = WqLive" "\<not> work_queued t'" "dma_chan (tc_bl t') = Some c"
    using dead.wait_verdict [OF r refl, of e] a(3,5) f(6) by (auto simp: same_chan_def)
  let ?k = "k\<lparr>k_waits := k_waits k + 1, k_wqs := k_wqs k - 1\<rparr>"
  obtain bl3 where d: "dmatest_buflist_destroy (tc_bl t', ?k) = Some (bl3, dma_release_channel c ?k)"
    using destroy_good_own [OF w(2,6), of ?k] by blast
  have "e_intr ?e n = None" for n using e by (simp add: good_kernel_def dead_engine_def)
  with s' a w d f show ?thesis
    by (auto simp: tc_plain_body_def queue_work_def c_simps tc_test_wait_def destroy_workqueue_def
        dma_release_channel_def)
qed

lemma dead_engine_fields [simp]:
  "e_wq (dead_engine e) = e_wq e" "e_grant (dead_engine e) = e_grant e" "int_cells (dead_engine e) = int_cells e"
  by (auto simp: dead_engine_def int_cells_def fun_eq_iff)

text \<open>\<open>fails f\<close>: the test returns -1 from every state, and holds no more than before.\<close>

definition fails :: "(kern \<Rightarrow> (int \<times> kern) option) \<Rightarrow> bool" where
  "fails f \<longleftrightarrow> (\<forall>k. \<exists>k'. f k = Some (- 1, k') \<and> same_held k k')"

lemma tc_plain_dead:
  assumes e: "good_kernel e" and l: "0 < nlaps" "0 < len" "0 < sint (ALIGN v TX_ALIGN)"
  shows "fails (tc_plain (dead_engine e) checked sg nlaps len (Fixed v) name timeout)"
  unfolding fails_def
proof
  fix k :: kern
  let ?e = "dead_engine e"
  have w: "e_wq ?e n" for n using e by (simp add: good_kernel_def)
  let ?k1 = "k\<lparr>k_wqreqs := k_wqreqs k + 1, k_wqs := k_wqs k + 1\<rparr>"
  have g: "\<forall>len. len < int_cells ?e len" "bl_submitted buflist0 = []" "bl_issued buflist0 = []"
    "\<forall>n. e_grant ?e n \<noteq> None"
    using e by (auto simp: good_kernel_def buflist0_def)
  obtain bl c k2 where c: "dmatest_buflist_create ?e ?k1 buflist0 len 64 (take (MAX_NAME_LEN - 1) (take (MAX_NAME_LEN - 1) name))
      [DMA_PREP_INTERRUPT, DMA_CTRL_ACK] timeout None = (0, bl, k2)"
    "fresh_bl len bl" "bl_flags bl = [DMA_PREP_INTERRUPT, DMA_CTRL_ACK]" "dma_chan bl = Some c"
    "k_held k2 = c # k_held ?k1" "k_wqs k2 = k_wqs ?k1" "k_seq k2 = k_seq ?k1" "k_unlocks k2 = k_unlocks ?k1"
    using create_request [of ?e buflist0 ?k1 len 64 _ "[DMA_PREP_INTERRUPT, DMA_CTRL_ACK]" timeout] g by blast
  let ?t = "tc0\<lparr>do_check_buffer := True, laps := nlaps, tc_wq := WqLive, work_sg := sg,
      tc_name := take (MAX_NAME_LEN - 1) name, tc_bl := bl, tc_err := 0\<rparr>"
  have "\<exists>k'. tc_plain_body ?e len (Fixed v) ?t k2 = Some (- 1, k') \<and> k_held k' = k_held k \<and> k_wqs k' = k_wqs k \<and>
      k_seq k' = k_seq k2 \<and> k_unlocks k' = k_unlocks k2"
    using l c by (intro tc_plain_body_dead [OF e, where c = c and nlaps = nlaps]) (auto simp: tc0_def)
  with c w show "\<exists>k'. tc_plain ?e checked sg nlaps len (Fixed v) name timeout k = Some (- 1, k') \<and> same_held k k'"
    by (auto simp: tc_plain_def create_singlethread_workqueue_def Let_def tc0_def same_held_def)
qed

lemma plain_tests_dead:
  assumes "good_kernel e"
  shows "fails (tc_1_fixed_buffer (dead_engine e))" "fails (tc_2_fixed_buffer (dead_engine e))"
    "fails (tc_3_fixed_buffer (dead_engine e))" "fails (tc_4_fixed_buffer (dead_engine e))"
    "fails (tc_6_sg_buffer (dead_engine e))" "fails (tc_7_sg_buffer (dead_engine e))"
    "fails (tc_8_sg_buffer (dead_engine e))" "fails (tc_15_static_buffer (dead_engine e))"
    "fails (tc_16_static_buffer (dead_engine e))" "fails (tc_17_static_buffer (dead_engine e))"
    "fails (tc_18_static_buffer (dead_engine e))" "fails (tc_19_static_buffer (dead_engine e))"
  unfolding tc_defs tc_sg_buffer_def by (rule tc_plain_dead [OF assms]; simp add: TX_ALIGN_def ALIGN_def)+

text \<open>Test 9 stops at its first pair, one entry of two bytes.\<close>

lemma tc_9_dead:
  assumes "good_kernel e"
  shows "fails (tc_9_sg_buffer (dead_engine e))"
proof -
  have u: "[1..<SCATTER_LIST_ENTRIES_MAX] = 1 # [2..<25]" "[2..<2 * e_page (dead_engine e) + 100] = 2 # [3..<2 * e_page (dead_engine e) + 100]"
    by (simp_all add: SCATTER_LIST_ENTRIES_MAX_def upt_conv_Cons)
  have "fails (tc_sg_buffer (dead_engine e) 1 1 2)"
    unfolding tc_sg_buffer_def by (rule tc_plain_dead [OF assms]) (simp_all add: TX_ALIGN_def ALIGN_def)
  then have f: "\<exists>k'. tc_sg_buffer (dead_engine e) 1 1 2 k = Some (- 1, k') \<and> same_held k k'" for k
    by (simp add: fails_def)
  have "fails (tc_9_loop (dead_engine e) ((1, 2) # ps) 0)" for ps
    unfolding fails_def
  proof
    fix k :: kern
    obtain k' where "tc_sg_buffer (dead_engine e) 1 1 2 k = Some (- 1, k')" "same_held k k'" using f by blast
    then show "\<exists>k'. tc_9_loop (dead_engine e) ((1, 2) # ps) 0 k = Some (- 1, k') \<and> same_held k k'" by simp
  qed
  then show ?thesis unfolding tc_9_sg_buffer_def u List.product.simps list.map append_Cons .
qed

text \<open>C3: on a kernel where nothing fails but the transfer engine, which reports every transfer complete and copies nothing,
the tests of one list of buffers of a fixed size, 1 to 4, 15 to 19 (single transfers) and 6 to 9 (scatter-gather), are found out by
the payload check: reading the file of such a test prints \<open>Finished test <id>: ***FAIL***\<close>, and nothing else, gives back the
channel and the work queue, and unlocks the mutex once.\<close>

theorem dead_engine_found:
  assumes "good_kernel e" "test_id \<in> {1, 2, 3, 4, 6, 7, 8, 9, 15, 16, 17, 18, 19}"
  shows "\<exists>k'. d40_test_run (dead_engine e) test_id k = Some (0, k') \<and> k_held k' = k_held k \<and> k_wqs k' = k_wqs k \<and>
    k_unlocks k' = k_unlocks k + 1 \<and>
    k_seq k' = k_seq k @ [''Finished test '' @ nat_to_string test_id @ '': ***FAIL***'' @ [CHR 0x0A]]"
proof -
  have "fails (run_test (dead_engine e) test_id)"
    using assms(2) by (elim insertE emptyE)
      (simp_all add: run_test_simps plain_tests_dead [OF assms(1)] tc_9_dead [OF assms(1)] del: One_nat_def)
  then obtain k1 where "run_test (dead_engine e) test_id (k\<lparr>k_locks := k_locks k + 1\<rparr>) = Some (- 1, k1)"
    "same_held (k\<lparr>k_locks := k_locks k + 1\<rparr>) k1"
    unfolding fails_def by blast
  moreover have "e_lock (dead_engine e) (k_locks k) = 0" using assms(1) by (simp add: good_kernel_def dead_engine_def)
  moreover have "run_prefix (dead_engine e) test_id = []" using assms(2) by (auto simp: run_prefix_def)
  ultimately show ?thesis
    by (simp add: d40_test_run_def Let_def seq_printf_def same_held_def finish_line_def)
qed

lemma dead_engine_found_witness:
  "\<exists>k'. d40_test_run (dead_engine ideal_kernel) 7 kern0 = Some (0, k') \<and> k_held k' = [] \<and>
     k_seq k' = [''Finished test 7: ***FAIL***'' @ [CHR 0x0A]]"
proof -
  have "nat_to_string 7 = ''7''" by code_simp
  then show ?thesis using dead_engine_found [OF ideal_kernel_good, of 7 kern0] by (auto simp: kern0_def)
qed

end
