(* ===== verification/DmaShared.thy ===== *)
theory DmaShared
imports DmaFaulty
begin

text \<open>Tests that run in parallel on one transfer engine, as \<open>tc_run_parallel\<close> of \<open>dma_test_module.c\<close> starts them: how
many events are left to each test (the work item of a lap and the completions of its transfers), whatever the others do, and
what its verdict is when none is left.\<close>

text \<open>An engine that writes nothing outside the bytes it was asked to write.\<close>

definition confined :: "kenv \<Rightarrow> bool" where
  "confined e \<longleftrightarrow> (\<forall>c n k s d. k \<le> length s \<longrightarrow> k \<le> length d \<longrightarrow>
     length (e_xfer e c n k s d) = length d \<and> drop k (e_xfer e c n k s d) = drop k d)"

lemma confined_any: "confined e \<Longrightarrow> confined_engine e sizes ss (\<lambda>_. True)"
  by unfold_locales (auto simp: confined_def)

text \<open>The completions of one lap.\<close>

definition returns :: "int list \<Rightarrow> tc \<Rightarrow> nat" where
  "returns sizes t = (if work_sg t then 1 else length sizes)"

definition test_ended :: "int list \<Rightarrow> byte list list \<Rightarrow> tc \<Rightarrow> bool" where
  "test_ended sizes ss t \<longleftrightarrow> tc_done t = 1 \<and> laps t = 0 \<and> bl_issued (tc_bl t) = [] \<and> \<not> work_queued t \<and>
     (\<exists>ds. bl_good sizes ss ds (tc_bl t) \<and> tc_err t = (if ds = ss then 0 else - 1))"

text \<open>\<open>n\<close> events are left.\<close>

definition left_over :: "int list \<Rightarrow> byte list list \<Rightarrow> nat \<Rightarrow> tc \<Rightarrow> bool" where
  "left_over sizes ss n t \<longleftrightarrow>
     (\<exists>L ds. tc_ready sizes ss ds L t \<and> n = L * (returns sizes t + 1)) \<or>
     (\<exists>L j. confined_engine.run_now sizes ss (\<lambda>_. True) L j t \<and>
        n = (returns sizes t - j) + (L - 1) * (returns sizes t + 1)) \<or>
     (test_ended sizes ss t \<and> n = 0)"

lemma tc_step_work_sg:
  assumes "tc_step e t = Some t'" shows "work_sg t' = work_sg t"
  using assms
  by (auto simp: tc_step_def run_work_def tc_worker_start_sg_def tc_worker_start_single_def tc_worker_def Let_def
      queue_work_def bind_eq_Some_conv split: if_splits list.splits)

lemma left_over_now:
  "confined_engine.run_now sizes ss (\<lambda>_. True) L j t \<Longrightarrow>
    left_over sizes ss ((returns sizes t - j) + (L - 1) * (returns sizes t + 1)) t"
  unfolding left_over_def by blast

lemma left_over_ready: "tc_ready sizes ss ds L t \<Longrightarrow> left_over sizes ss (L * (returns sizes t + 1)) t"
  unfolding left_over_def by blast

lemma test_ended_stuck: "test_ended sizes ss t \<Longrightarrow> tc_step e t = None"
  by (simp add: test_ended_def tc_step_def)

lemma over_left:
  assumes "confined_engine.over_now sizes ss (\<lambda>_. True) L t" "confined e" "0 < L"
  shows "left_over sizes ss ((L - 1) * (returns sizes t + 1)) t"
  using assms(1,3) confined_engine.over_now_def [OF confined_any [OF assms(2)], of sizes ss L t]
  by (cases "L = 1") (auto simp: left_over_def test_ended_def)

lemma left_over_step:
  assumes e: "confined e" and l: "left_over sizes ss n t"
  shows "if n = 0 then tc_step e t = None else \<exists>t'. tc_step e t = Some t' \<and> left_over sizes ss (n - 1) t'"
proof -
  note c = confined_any [OF e, of sizes ss]
  consider (ready) L ds where "tc_ready sizes ss ds L t" "n = L * (returns sizes t + 1)"
    | (now) L j where "confined_engine.run_now sizes ss (\<lambda>_. True) L j t"
        "n = (returns sizes t - j) + (L - 1) * (returns sizes t + 1)"
    | (over) "test_ended sizes ss t" "n = 0"
    using l by (auto simp: left_over_def)
  then show ?thesis
  proof cases
    case ready
    have L: "0 < L" using ready(1) by (simp add: tc_ready_def tc_fixed_def)
    obtain t' where t': "tc_step e t = Some t'" "tc_running sizes ss ds L 0 t'" using ready_step [OF ready(1)] by blast
    have "confined_engine.run_now sizes ss (\<lambda>_. True) L 0 t'"
      using t'(2) by (auto simp: confined_engine.run_now_def [OF c] tc_running_def)
    moreover have "returns sizes t' = returns sizes t" using tc_step_work_sg [OF t'(1)] by (simp add: returns_def)
    moreover have "n - 1 = (returns sizes t - 0) + (L - 1) * (returns sizes t + 1)" "n \<noteq> 0"
      using ready(2) L by (cases L; simp)+
    ultimately show ?thesis using t'(1) left_over_now [of sizes ss L 0 t'] by simp
  next
    case now
    have j: "j < returns sizes t" "0 < L"
      using now(1) by (auto simp: confined_engine.run_now_def [OF c] tc_fixed_def returns_def split: if_splits)
    obtain t' where t': "tc_step e t = Some t'"
      "if work_sg t \<or> Suc j = length sizes then confined_engine.over_now sizes ss (\<lambda>_. True) L t'
       else confined_engine.run_now sizes ss (\<lambda>_. True) L (Suc j) t'"
      using confined_engine.run_step [OF c now(1)] by blast
    have r: "returns sizes t' = returns sizes t" using tc_step_work_sg [OF t'(1)] by (simp add: returns_def)
    have "left_over sizes ss (n - 1) t'"
    proof (cases "work_sg t \<or> Suc j = length sizes")
      case True
      then have "returns sizes t - j = 1" using j(1) now(1)
        by (auto simp: returns_def confined_engine.run_now_def [OF c])
      moreover have "left_over sizes ss ((L - 1) * (returns sizes t' + 1)) t'"
        by (rule over_left [OF _ e j(2)]) (use True t'(2) in simp)
      ultimately show ?thesis using r now(2) by simp
    next
      case False
      moreover have "n - 1 = (returns sizes t - Suc j) + (L - 1) * (returns sizes t + 1)" using j(1) now(2) by simp
      ultimately show ?thesis using t'(2) r left_over_now [of sizes ss L "Suc j" t'] by simp
    qed
    with t'(1) j now(2) show ?thesis by auto
  next
    case over
    with test_ended_stuck show ?thesis by simp
  qed
qed

lemma psteps_left_over:
  assumes "(pstep E ^^ k) ts ts'" "\<forall>e \<in> E. confined e" "\<forall>i < length ts. left_over (zs i) (ss i) (n i) (ts ! i)"
  shows "\<exists>m. length ts' = length ts \<and> (\<forall>i < length ts. left_over (zs i) (ss i) (m i) (ts' ! i)) \<and>
    (\<Sum>i<length ts. m i) + k = (\<Sum>i<length ts. n i)"
  using assms(1)
proof (induction k arbitrary: ts')
  case 0
  with assms(3) show ?case by auto
next
  case (Suc k)
  from Suc.prems obtain ts1 where s: "(pstep E ^^ k) ts ts1" "pstep E ts1 ts'" by (rule relpowp_Suc_E)
  obtain m where m: "length ts1 = length ts" "\<forall>i < length ts. left_over (zs i) (ss i) (m i) (ts1 ! i)"
    "(\<Sum>i<length ts. m i) + k = (\<Sum>i<length ts. n i)" using Suc.IH [OF s(1)] by blast
  from s(2) obtain e i t' where i: "e \<in> E" "i < length ts" "tc_step e (ts1 ! i) = Some t'" "ts' = ts1[i := t']"
    using m(1) by auto
  have l: "0 < m i" "left_over (zs i) (ss i) (m i - 1) t'"
    using left_over_step [of e "zs i" "ss i" "m i" "ts1 ! i"] assms(2) m(2) i by (auto split: if_splits)
  have "(\<Sum>j<length ts. m j) = (\<Sum>j<length ts. (m(i := m i - 1)) j) + 1"
  proof -
    have "(\<Sum>j \<in> {..<length ts} - {i}. (m(i := m i - 1)) j) = (\<Sum>j \<in> {..<length ts} - {i}. m j)"
      by (rule sum.cong) auto
    with l(1) i(2) show ?thesis by (simp add: sum.remove [of "{..<length ts}" i])
  qed
  with m i l show ?case by (intro exI [of _ "m(i := m i - 1)"]) (auto simp: nth_list_update)
qed

lemma left_over_0:
  assumes "left_over sizes ss 0 t" shows "test_ended sizes ss t"
  using assms confined_engine.run_now_def [OF confined_any [of ideal_kernel], of sizes ss]
  by (auto simp: left_over_def tc_ready_def tc_fixed_def returns_def confined_def ideal_kernel_def split: if_splits)

text \<open>C4: tests that run in parallel on one transfer engine.  Each has a \<open>tc_struct\<close> of its own; what they share is the engine,
which may be any that writes only the bytes it is asked to write, and may behave differently at every event (\<open>E\<close>), so that what
a transfer of one test leaves in its destination may depend on all that the others have done.  In every
interleaving of their events, every lap of a test takes one work item and one completion for each of its transfers (one for a
scatter list).  So every interleaving ends, after that number of events exactly, never sooner and never later; each test has then
completed once, with no lap left, and with its own verdict: 0 if its destination buffers hold its sources, -1 otherwise.\<close>

theorem parallel_schedules:
  assumes "\<forall>e \<in> E. confined e" "E \<noteq> {}" "\<forall>i < length ts. tc_ready (zs i) (ss i) (ds i) (L i) (ts ! i)"
    and run: "(pstep E ^^ k) ts ts'"
    and N: "N = (\<Sum>i<length ts. L i * ((if work_sg (ts ! i) then 1 else length (zs i)) + 1))"
  shows "k \<le> N \<and> (k < N \<longleftrightarrow> (\<exists>ts''. pstep E ts' ts'')) \<and> length ts' = length ts \<and>
    (k = N \<longrightarrow> (\<forall>i < length ts. tc_done (ts' ! i) = 1 \<and> laps (ts' ! i) = 0 \<and>
       (\<exists>ds'. bl_good (zs i) (ss i) ds' (tc_bl (ts' ! i)) \<and> tc_err (ts' ! i) = (if ds' = ss i then 0 else - 1))))"
proof -
  have "\<forall>i < length ts. left_over (zs i) (ss i) (L i * (returns (zs i) (ts ! i) + 1)) (ts ! i)"
    using assms(3) left_over_ready by blast
  from psteps_left_over [OF run assms(1) this] obtain m where m: "length ts' = length ts"
    "\<forall>i < length ts. left_over (zs i) (ss i) (m i) (ts' ! i)" "(\<Sum>i<length ts. m i) + k = N"
    by (auto simp: N returns_def cong: sum.cong)
  obtain e where e: "e \<in> E" "confined e" using assms(1,2) by blast
  have more: "\<exists>ts''. pstep E ts' ts''" if "k < N"
  proof -
    have "(\<Sum>i<length ts. m i) \<noteq> 0" using m(3) that by linarith
    then obtain i where i: "i < length ts" "m i \<noteq> 0" by (auto simp: sum_eq_0_iff)
    then obtain t' where "tc_step e (ts' ! i) = Some t'"
      using left_over_step [OF e(2), of "zs i" "ss i" "m i" "ts' ! i"] m(2) by auto
    with e(1) i m(1) show ?thesis by (metis pstep)
  qed
  have ended: "test_ended (zs i) (ss i) (ts' ! i)" if "k = N" "i < length ts" for i
    using that m left_over_0 [of "zs i" "ss i" "ts' ! i"] by (simp add: sum_eq_0_iff)
  then have stop: "\<not> pstep E ts' ts''" if "k = N" for ts''
    using that m(1) test_ended_stuck by (metis option.distinct(1) pstep.cases)
  have "k \<le> N" using m(3) by simp
  moreover have "k < N \<longleftrightarrow> (\<exists>ts''. pstep E ts' ts'')" using more stop \<open>k \<le> N\<close> by (meson le_neq_implies_less)
  ultimately show ?thesis using m(1) ended by (simp add: test_ended_def)
qed

lemma parallel_schedules_witness:
  "\<exists>ts'. (pstep {ideal_kernel, dead_engine ideal_kernel} ^^ 8) [one_byte_test, one_byte_test] ts' \<and>
    \<not> (\<exists>ts''. pstep {ideal_kernel, dead_engine ideal_kernel} ts' ts'') \<and>
    tc_done (ts' ! 0) = 1 \<and> tc_done (ts' ! 1) = 1 \<and> tc_err (ts' ! 1) \<in> {0, - 1}"
proof -
  let ?E = "{ideal_kernel, dead_engine ideal_kernel}" and ?ts = "[one_byte_test, one_byte_test]"
  have E: "\<forall>e \<in> ?E. confined e" "?E \<noteq> {}" by (auto simp: confined_def ideal_kernel_def dead_engine_def)
  have r: "\<forall>i < length ?ts. tc_ready [1] [[7]] [[0xAA]] 2 (?ts ! i)" using one_byte_ready by (simp add: less_Suc_eq)
  have N: "8 = (\<Sum>i<length ?ts. 2 * ((if work_sg (?ts ! i) then 1 else length [1 :: int]) + 1))"
    by (simp add: one_byte_test_def tc0_def eval_nat_numeral)
  note p = parallel_schedules [OF E r _ N]
  have "\<exists>ts'. (pstep ?E ^^ k) ?ts ts'" if "k \<le> 8" for k
    using that
  proof (induction k)
    case (Suc k)
    then obtain ts1 where "(pstep ?E ^^ k) ?ts ts1" by auto
    with p [OF this] Suc.prems show ?case by (meson Suc_le_eq relpowp_Suc_I)
  qed simp
  then obtain ts' where t: "(pstep ?E ^^ 8) ?ts ts'" by blast
  have "\<forall>i < length ?ts. tc_done (ts' ! i) = 1 \<and> tc_err (ts' ! i) \<in> {0, - 1}" using p [OF t] by (auto split: if_splits)
  with t p [OF t] show ?thesis by (intro exI [of _ ts']) (auto simp: less_Suc_eq)
qed

end
