(* ===== verification/DmaProps.thy ===== *)
theory DmaProps
imports DmaShared
begin

unbundle bit_operations_syntax

text \<open>What the DMA test module promises, stated over its entry points, and where it breaks: the verdicts of
the dispatcher, the random sizes, the memory of the size list, and the error
paths of the set-up.\<close>

section \<open>The dispatcher\<close>

text \<open>C1: in a kernel where nothing fails (nor does setting the size of the scatter list elements for the MMC, which the tests 10 to
13 ask for), reading the file of any of the 69 tests but the endless test 14 (which, not built in, is no exception) ends
with the result 0: \<open>d40_test_run\<close> has given back every DMA channel and work queue and has unlocked the mutex once, and it has
printed exactly what the test prints (\<open>test_lines\<close>: a note when the test is not built in, the script of the tests 10 to 13, nothing
for all others) and \<open>Finished test <id>: OK\<close>, for a script as an \<open>echo\<close> command.\<close>

theorem d40_test_run_ok:
  assumes "good_kernel e" "\<forall>sz chain. e_sgsize e sz chain = 0" "test_id \<in> set [1..<70]" "test_id = 14 \<longrightarrow> removed e 14"
  shows "\<exists>k'. d40_test_run e test_id k = Some (0, k') \<and> k_held k' = k_held k \<and> k_wqs k' = k_wqs k \<and>
    k_unlocks k' = k_unlocks k + 1 \<and>
    k_seq k' = k_seq k @ test_lines e test_id @
      [(if test_id \<in> {10, 11, 12, 13} \<and> \<not> removed e test_id then ''echo '' else []) @
       ''Finished test '' @ nat_to_string test_id @ '': OK'' @ [CHR 0x0A]]"
proof -
  have "run_prefix e test_id = (if test_id \<in> {10, 11, 12, 13} \<and> \<not> removed e test_id then ''echo '' else [])"
    by (auto simp: run_prefix_def removed_def)
  moreover have "ends e test_id" using assms(3,4) by (simp add: ends_def)
  ultimately show ?thesis using d40_test_run_lines [OF assms(1) _ assms(2), of test_id k] by (simp add: finish_line_def)
qed

lemma d40_test_run_ok_witness:
  "(\<exists>k'. d40_test_run ideal_kernel 69 kern0 = Some (0, k') \<and> k_held k' = [] \<and> k_wqs k' = 0 \<and> k_unlocks k' = 1) \<and>
   (\<exists>k'. d40_test_run (ideal_kernel\<lparr>e_mmc := True, e_debug := True\<rparr>) 10 kern0 = Some (0, k') \<and>
      k_seq k' = [dd_script 10, ''echo Finished test 10: OK'' @ [CHR 0x0A]])"
proof
  have s: "\<forall>sz chain. e_sgsize ideal_kernel sz chain = 0" by (simp add: ideal_kernel_def)
  show "\<exists>k'. d40_test_run ideal_kernel 69 kern0 = Some (0, k') \<and> k_held k' = [] \<and> k_wqs k' = 0 \<and> k_unlocks k' = 1"
    using d40_test_run_ok [OF ideal_kernel_good s, of 69 kern0] by (auto simp: kern0_def)
  let ?e = "ideal_kernel\<lparr>e_mmc := True, e_debug := True\<rparr>"
  have g: "good_kernel ?e" using ideal_kernel_good
    by (simp add: good_kernel_def faithful_engine_def int_cells_def cong: conj_cong)
  have n: "nat_to_string 10 = ''10''" by code_simp
  show "\<exists>k'. d40_test_run ?e 10 kern0 = Some (0, k') \<and> k_seq k' = [dd_script 10, ''echo Finished test 10: OK'' @ [CHR 0x0A]]"
    using d40_test_run_ok [OF g, of 10 kern0] s n by (auto simp: test_lines_def removed_def kern0_def ideal_kernel_def)
qed

lemma tc_14_never_returns: "tc_14_sg_buffer_temporary_endless e k \<noteq> Some r"
proof
  assume "tc_14_sg_buffer_temporary_endless e k = Some r"
  then show False
    by (rule tc_14_sg_buffer_temporary_endless.raw_induct [where P = "\<lambda>e k r. False", rotated])
      (auto simp: bind_eq_Some_conv)
qed

text \<open>Where test 14 is built in (CONFIG_MMC and CONFIG_STE_DMA40_DEBUG), reading its file never returns: once
it has the mutex, no run of \<open>d40_test_run\<close> for it ends, on any kernel.\<close>

theorem d40_test_14_hangs:
  assumes "e_lock e (k_locks k) = 0" "e_mmc e" "e_debug e"
  shows "d40_test_run e 14 k = None"
proof -
  have "run_test e 14 k' = None" for k'
  proof -
    have "tc_14_sg_buffer_temporary_endless e k' = None"
      using tc_14_never_returns [of e k'] not_None_eq by blast
    then show ?thesis using assms(2,3) by (simp add: run_test_def del: One_nat_def)
  qed
  then show ?thesis using assms by (simp add: d40_test_run_def Let_def)
qed

lemma d40_test_14_hangs_witness: "d40_test_run (ideal_kernel\<lparr>e_mmc := True, e_debug := True\<rparr>) 14 kern0 = None"
  by (rule d40_test_14_hangs) (simp_all add: ideal_kernel_def)

text \<open>When taking the mutex is interrupted, no test runs and the result is FAIL, but the mutex, which is not
held, is unlocked all the same.\<close>

theorem d40_test_run_unlocks_unlocked:
  assumes "e_lock e (k_locks k) \<noteq> 0"
  shows "\<exists>k'. d40_test_run e test_id k = Some (0, k') \<and> k_unlocks k' = k_unlocks k + 1 \<and> k_held k' = k_held k \<and>
    k_seq k' = k_seq k @ [run_prefix e test_id @ ''Finished test '' @ nat_to_string test_id @ '': ***FAIL***'' @ [CHR 0x0A]]"
  using assms by (simp add: d40_test_run_def Let_def seq_printf_def finish_line_def)

lemma d40_test_run_unlocks_unlocked_witness:
  "\<exists>k'. d40_test_run (ideal_kernel\<lparr>e_lock := \<lambda>n. - 4\<rparr>) 1 kern0 = Some (0, k') \<and> k_unlocks k' = 1"
  using d40_test_run_unlocks_unlocked [of "ideal_kernel\<lparr>e_lock := \<lambda>n. - 4\<rparr>" kern0 1] by (auto simp: kern0_def)

section \<open>Random sizes\<close>

text \<open>\<open>random_size\<close> at alignment 1 gives, for every value of the generator, a size between the bounds, as
long as the square of their distance fits in 32 bits (no division by zero and no overshoot).\<close>

theorem random_size_bounds:
  assumes "unat mn < unat mx" "(unat mx - unat mn) * (unat mx - unat mn) \<le> 4294967295"
  shows "\<exists>v. random_size r mn mx 1 = Some v \<and> unat mn \<le> unat v \<and> unat v \<le> unat mx"
  by (rule random_size_ok [OF assms])

lemma random_size_bounds_witness:
  "\<exists>v. random_size 0xFFFFFFFF 1 61440 1 = Some v \<and> 1 \<le> unat v \<and> unat v \<le> 61440"
  using random_size_bounds [of 1 61440 "0xFFFFFFFF"] by simp

section \<open>The size list\<close>

lemma sizelist_set_none:
  assumes "\<not> bl_list_len bl < length (list_size bl)"
  shows "dmatest_sizelist_set v al bl = None"
proof -
  let ?f = "\<lambda>i ls. wr ls (int i) (Some (sint (ALIGN v al)))"
  have l: "length ls = length (list_size bl)" if "ofold ?f [0..<bl_list_len bl] (list_size bl) = Some ls" for ls
    by (rule ofold_invariant [OF that]) (auto dest: wr_length)
  show ?thesis using assms l by (auto simp: dmatest_sizelist_set_def c_simps split: Option.bind_splits)
qed

text \<open>Setting the sizes of a list of buffers, and the end mark after them, stays inside the allocation
exactly when it has room for one integer more than there are buffers.\<close>

theorem sizelist_needs_sentinel:
  "(\<exists>bl'. dmatest_sizelist_set v al bl = Some bl') \<longleftrightarrow> bl_list_len bl < length (list_size bl)"
proof -
  let ?n = "bl_list_len bl"
  have "\<exists>bl'. dmatest_sizelist_set v al bl = Some bl'" if n: "?n < length (list_size bl)"
    using n ofold_wr_fill [of 0 ?n "list_size bl" "\<lambda>_. Some (sint (ALIGN v al))"]
    by (simp add: dmatest_sizelist_set_def c_simps)
  with sizelist_set_none show ?thesis by fastforce
qed

text \<open>On a 32-bit kernel whose allocator gives no more than it is asked for, the first DMA test writes the
end mark of the size list outside the allocation; with 8-byte pointers it never does.\<close>

theorem sentinel_overflow_32bit:
  assumes "e_ksize e = (\<lambda>n. n)" "e_wq e (k_wqreqs k)" "e_grant e (k_reqs k) = Some c"
  shows "(e_ptr e = 4 \<longrightarrow> tc_1_fixed_buffer e k = None) \<and> (e_ptr e = 8 \<longrightarrow> (\<forall>len > 0. len < int_cells e len))"
proof (intro conjI impI allI)
  assume p: "e_ptr e = 4"
  have "int_cells e 1 = 1" using p assms(1) by (simp add: int_cells_def)
  then show "tc_1_fixed_buffer e k = None"
    using assms(2,3)
    by (simp add: tc_1_fixed_buffer_def tc_plain_def create_singlethread_workqueue_def dmatest_buflist_create_def
        dma_request_channel_def Let_def tc_plain_body_def set_sizes_def sizelist_set_none)
next
  fix len :: nat assume "e_ptr e = 8" "0 < len"
  then show "len < int_cells e len" using assms(1) by (simp add: int_cells_def)
qed

lemma sentinel_overflow_32bit_witness:
  "tc_1_fixed_buffer (ideal_kernel\<lparr>e_ksize := \<lambda>n. n\<rparr>) kern0 = None"
  using sentinel_overflow_32bit [of "ideal_kernel\<lparr>e_ksize := \<lambda>n. n\<rparr>" kern0 0] by (simp add: ideal_kernel_def kern0_def)

section \<open>No channel, no patience\<close>

text \<open>C38: when no DMA channel is free, the first test fails with \<open>-EINVAL\<close> but keeps its work queue; test 3,
which ignores the failed creation, follows the NULL channel list and oopses; and the stop-and-go test 21 frees
the test it has already freed.\<close>

theorem no_channel_paths:
  assumes "e_grant e (k_reqs k) = None" "e_wq e (k_wqreqs k)"
  shows "(\<exists>k'. tc_1_fixed_buffer e k = Some (- EINVAL, k') \<and> k_wqs k' = k_wqs k + 1 \<and> k_held k' = k_held k) \<and>
    tc_3_fixed_buffer e k = None \<and> tc_21_stop_and_go e k = None"
proof (intro conjI)
  show "\<exists>k'. tc_1_fixed_buffer e k = Some (- EINVAL, k') \<and> k_wqs k' = k_wqs k + 1 \<and> k_held k' = k_held k"
    using assms by (simp add: tc_1_fixed_buffer_def tc_plain_def create_singlethread_workqueue_def
        dmatest_buflist_create_def dma_request_channel_def Let_def EINVAL_def)
  show "tc_3_fixed_buffer e k = None"
    using assms by (simp add: tc_3_fixed_buffer_def tc_plain_def create_singlethread_workqueue_def
        dmatest_buflist_create_def dma_request_channel_def Let_def tc_plain_body_def set_sizes_def
        dmatest_sizelist_set_def tc0_def buflist0_def c_simps rd_def wr_def)
  show "tc_21_stop_and_go e k = None"
    using assms by (simp add: tc_21_stop_and_go_def tc_pause_and_unpause_parallel_def tc_test_init_def
        create_singlethread_workqueue_def dmatest_buflist_create_def dma_request_channel_def Let_def EINVAL_def
        destroy_workqueue_def par_tc_def tc0_def c_simps pause_out_def par_free_def on_tc_def rd_def tc_test_free_def
        numeral_eq_Suc)
qed

lemma no_channel_paths_witness:
  "tc_3_fixed_buffer (ideal_kernel\<lparr>e_grant := \<lambda>n. None\<rparr>) kern0 = None \<and>
   tc_21_stop_and_go (ideal_kernel\<lparr>e_grant := \<lambda>n. None\<rparr>) kern0 = None"
  using no_channel_paths [of "ideal_kernel\<lparr>e_grant := \<lambda>n. None\<rparr>" kern0] by (simp add: ideal_kernel_def)

text \<open>A signal that arrives before the first event ends the wait of a test, and the return value of the
wait is ignored: whatever the transfer engine does, even nothing, the test is reported as passed.\<close>

theorem interrupted_test_passes:
  assumes "good_kernel (e\<lparr>e_intr := \<lambda>n. None, e_xfer := \<lambda>c n k s d. take k s @ drop k d\<rparr>)" "\<forall>n. e_intr e n = Some 0"
  shows "\<exists>k'. tc_1_fixed_buffer e k = Some (0, k')"
proof -
  have g: "\<And>n. e_wq e n" "\<And>n. e_grant e n \<noteq> None" "\<And>len. len < int_cells e len"
    using assms(1) by (auto simp: good_kernel_def int_cells_def)
  let ?k1 = "k\<lparr>k_wqreqs := k_wqreqs k + 1, k_wqs := k_wqs k + 1\<rparr>"
  let ?nm = "take (MAX_NAME_LEN - 1) (take (MAX_NAME_LEN - 1) ''tc_1_fixed_buffer'')"
  have b0: "bl_submitted buflist0 = []" "bl_issued buflist0 = []" by (simp_all add: buflist0_def)
  obtain bl c k2 where c: "dmatest_buflist_create e ?k1 buflist0 1 64 ?nm
      [DMA_PREP_INTERRUPT, DMA_CTRL_ACK] DEFAULT_TIMEOUT None = (0, bl, k2)"
    "fresh_bl 1 bl" "bl_flags bl = [DMA_PREP_INTERRUPT, DMA_CTRL_ACK]" "dma_chan bl = Some c"
    using create_request [of e buflist0 ?k1 1 64 ?nm "[DMA_PREP_INTERRUPT, DMA_CTRL_ACK]" DEFAULT_TIMEOUT] g b0 by blast
  let ?sizes = "replicate 1 (sint (ALIGN 32 TX_ALIGN))"
  have al: "0 \<le> sint (ALIGN 32 TX_ALIGN)" by (simp add: TX_ALIGN_def ALIGN_def)
  obtain bl1 where s: "dmatest_sizelist_set 32 TX_ALIGN bl = Some bl1" "sized ?sizes bl bl1"
    using sizelist_set_sized [of bl 32 TX_ALIGN] c(2) al by (auto simp: fresh_bl_def)
  have fr: "fresh_bl (length ?sizes) bl" using c(2) by simp
  obtain bl2 ss ds where a: "dmatest_buflist_alloc bl1 = Some bl2" "bl_good ?sizes ss ds bl2" "same_chan bl bl2"
    using alloc_good [OF fr s(2)] by auto
  have st: "startable False ?sizes bl2" "bl_issued bl2 = []"
    using a(3) c(2,3) by (auto simp: startable_def same_chan_def fresh_bl_def)
  obtain bl3 where r: "dmatest_buflist_start_single bl2 = Some bl3" "bl_good ?sizes ss ds bl3" "dma_chan bl3 = dma_chan bl2"
    using start_single_good [OF a(2) st] by (auto simp: started_def)
  have ch: "dma_chan bl3 = Some c" using r(3) a(3) c(4) by (simp add: same_chan_def)
  have d: "\<exists>bl4 k'. dmatest_buflist_destroy (bl3, k) = Some (bl4, k')" for k
    using destroy_good_own [OF r(2) ch] by blast
  obtain bl4 k' where d': "dmatest_buflist_destroy (bl3, k2\<lparr>k_waits := k_waits k2 + 1, k_wqs := k_wqs k2 - 1\<rparr>) = Some (bl4, k')"
    using d by blast
  have w: "tc_wait e (Some 0) t = Some t" if "tc_done t = 0" for t
    using that by (subst tc_wait.simps) simp
  show ?thesis
    using g(1) c(1) s(1) a(1) r(1) d' assms(2)
    by (simp add: tc_1_fixed_buffer_def tc_plain_def create_singlethread_workqueue_def Let_def tc_plain_body_def
        set_sizes_def queue_work_def c_simps tc_test_wait_def w destroy_workqueue_def run_work_def
        tc_worker_start_single_def tc0_def)
qed

lemma interrupted_test_passes_witness:
  "\<exists>k'. tc_1_fixed_buffer (dead_engine (ideal_kernel\<lparr>e_intr := \<lambda>n. Some 0\<rparr>)) kern0 = Some (0, k')"
proof (rule interrupted_test_passes)
  have "(dead_engine (ideal_kernel\<lparr>e_intr := \<lambda>n. Some 0\<rparr>))\<lparr>e_intr := \<lambda>n. None, e_xfer := \<lambda>c n k s d. take k s @ drop k d\<rparr> = ideal_kernel"
    by (simp add: dead_engine_def ideal_kernel_def)
  then show "good_kernel ((dead_engine (ideal_kernel\<lparr>e_intr := \<lambda>n. Some 0\<rparr>))\<lparr>e_intr := \<lambda>n. None, e_xfer := \<lambda>c n k s d. take k s @ drop k d\<rparr>)"
    using ideal_kernel_good by simp
qed (simp add: dead_engine_def)

section \<open>Laps\<close>

text \<open>An engine that loses the first transfer and copies all others.\<close>

definition late_engine :: "kenv \<Rightarrow> kenv" where
  "late_engine e = e\<lparr>e_xfer := \<lambda>c n k s d. if n = 0 then d else take k s @ drop k d\<rparr>"

text \<open>Only the last lap counts: each lap overwrites the error of the one before, so a two-lap test on an
engine that loses its first transfer ends with error 0, while one lap of it fails.\<close>

theorem only_last_lap_counts:
  "(\<exists>t. tc_wait (late_engine e) None one_byte_test = Some t \<and> tc_err t = 0) \<and>
   (\<exists>t. tc_wait (late_engine e) None (one_byte_test\<lparr>laps := 1\<rparr>) = Some t \<and> tc_err t = - 1)"
proof -
  have w: "tc_wait x None t = (if 0 < tc_done t then Some (t\<lparr>tc_done := tc_done t - 1\<rparr>) else tc_step x t \<bind> tc_wait x None)" for x t
    by (subst tc_wait.simps) simp
  note defs = one_byte_test_def tc0_def buflist0_def tc_step_def run_work_def tc_worker_start_single_def
    dmatest_buflist_start_single_def prep_single_def submit_def dma_async_issue_pending_def engine_exec_def
    copy_buf_def late_engine_def transmit_cb_def tc_worker_def dmatest_buflist_payload_check_def
    payload_check_step_def payload_differs_def queue_work_def dmatest_buflist_reset_nbr_finished_def
    rd_def wr_def rd_block_def Let_def c_simps
  show ?thesis
  proof
    show "\<exists>t. tc_wait (late_engine e) None one_byte_test = Some t \<and> tc_err t = 0"
      by (subst w, simp add: defs, subst w, simp add: defs, subst w, simp add: defs, subst w, simp add: defs, subst w, simp)
    show "\<exists>t. tc_wait (late_engine e) None (one_byte_test\<lparr>laps := 1\<rparr>) = Some t \<and> tc_err t = - 1"
      by (subst w, simp add: defs, subst w, simp add: defs, subst w, simp)
  qed
qed

section \<open>Reading registers\<close>

text \<open>\<open>tc_read_reg\<close> tests its mask with \<open>|\<close> instead of \<open>&\<close>: whatever the test asks for, it reads the registers
of all eight physical channels and the global ones.\<close>

theorem tc_read_reg_all: "tc_read_reg read_type = [0..<9]"
proof -
  have nz: "x OR y \<noteq> 0" if "y \<noteq> 0" for x y :: u32
    using that by (simp add: or_eq_0_iff)
  have c: "DMA_TC_READ_PHY_CHAN (Suc 0) \<noteq> 0" "DMA_TC_READ_PHY_CHAN 2 \<noteq> 0" "DMA_TC_READ_PHY_CHAN 3 \<noteq> 0"
    "DMA_TC_READ_PHY_CHAN 4 \<noteq> 0" "DMA_TC_READ_PHY_CHAN 5 \<noteq> 0" "DMA_TC_READ_PHY_CHAN 6 \<noteq> 0"
    "DMA_TC_READ_PHY_CHAN 7 \<noteq> 0" "DMA_TC_READ_PHY_CHAN 8 \<noteq> 0" "DMA_TC_READ_GLOBAL \<noteq> 0"
    by (simp_all add: DMA_TC_READ_PHY_CHAN_def DMA_TC_READ_GLOBAL_def push_bit_eq_mult)
  have u: "[0..<9] = [0, 1, 2, 3, 4, 5, 6, 7, 8 :: nat]" by (simp add: upt_conv_Cons)
  show ?thesis unfolding u by (simp add: tc_read_reg_def nz c)
qed

end
