(* ===== verification/DmaFs.thy ===== *)
theory DmaFs
imports DmaTests
begin

text \<open>The test module in the file system: what loading and unloading \<open>dma_test_module.c\<close> makes and removes under debugfs,
and what opening and reading one of the files does.  The results of the kernel calls in between are the record \<open>dmod\<close>.\<close>

section \<open>The code\<close>

record dmod =
  m_lock :: int
  m_dir :: int
  m_file :: "nat \<Rightarrow> int"
  m_open :: int

record dfs =
  f_loaded :: bool
  f_files :: "(string \<times> nat) list"
  f_kern :: kern

definition debugfs_dir :: string where "debugfs_dir = ''/sys/kernel/debug/ste_dma40_test/''"

text \<open>\<open>single_open\<close>: the file's private number, which \<open>d40_test_run\<close> is going to see.\<close>

definition d40_debugfs_open :: "dmod \<Rightarrow> nat \<Rightarrow> int + nat" where
  "d40_debugfs_open g i = (if m_open g \<noteq> 0 then Inl (m_open g) else Inr i)"

definition stedma40_test_exit :: "dfs \<Rightarrow> dfs" where
  "stedma40_test_exit w = w\<lparr>f_files := []\<rparr>"

text \<open>What \<open>open\<close> and one \<open>read\<close> of a path give: the operations of \<open>d40_debugfs_ops\<close>, or \<open>ENOENT\<close>.\<close>

record dfile =
  d_fd :: int
  d_read :: "string option"
  d_errno :: int

type_synonym 'w debugfs = "string \<Rightarrow> 'w \<Rightarrow> (dfile \<times> 'w) option"

definition d40_debugfs_ops :: "kenv \<Rightarrow> dmod \<Rightarrow> dfs debugfs" where
  "d40_debugfs_ops e g path w =
    (case map_of (map (\<lambda>(n, i). (debugfs_dir @ n, i)) (f_files w)) path of
       None \<Rightarrow> Some (\<lparr>d_fd = - 1, d_read = None, d_errno = 2\<rparr>, w)
     | Some i \<Rightarrow> (case d40_debugfs_open g i of
         Inl err \<Rightarrow> Some (\<lparr>d_fd = - 1, d_read = None, d_errno = - err\<rparr>, w)
       | Inr test_id \<Rightarrow> do {
           (_, k) \<leftarrow> d40_test_run e test_id ((f_kern w)\<lparr>k_seq := []\<rparr>);
           Some (\<lparr>d_fd = 3, d_read = Some (concat (k_seq k)), d_errno = 0\<rparr>, w\<lparr>f_kern := k\<rparr>)
         }))"

text \<open>\<open>modprobe\<close> and \<open>modprobe -r\<close>, which do nothing when the module is loaded already or not at all.\<close>

definition modprobe :: "dmod \<Rightarrow> dfs \<Rightarrow> dfs" where
  "modprobe g w = (if f_loaded w then w else
     let (err, files) = stedma40_test_init (m_lock g) (m_dir g) (m_file g) in
     w\<lparr>f_loaded := err = 0, f_files := f_files w @ files\<rparr>)"

definition modprobe_remove :: "dfs \<Rightarrow> dfs" where
  "modprobe_remove w = (if f_loaded w then (stedma40_test_exit w)\<lparr>f_loaded := False\<rparr> else w)"

section \<open>The files of a loaded module\<close>

lemma create_files_all:
  "\<forall>i \<in> set xs. 0 \<le> file i \<Longrightarrow> create_files file xs acc = (0, acc @ map (\<lambda>i. (take 31 (''test_'' @ nat_to_string i), i)) xs)"
  by (induction xs arbitrary: acc) auto

lemma create_files_stop:
  "\<forall>i \<in> set xs. 0 \<le> file i \<Longrightarrow> file j < 0 \<Longrightarrow>
    create_files file (xs @ j # ys) acc = (file j, acc @ map (\<lambda>i. (take 31 (''test_'' @ nat_to_string i), i)) xs)"
  by (induction xs arbitrary: acc) auto

text \<open>Loading the module creates one file for each of the tests 1 to 69, in order, and returns 0, unless a
file cannot be created: then it stops there with that error, leaving the files before it.\<close>

theorem module_files:
  assumes "\<forall>i \<in> set [1..<n]. 0 \<le> file i" "n = NBR_TESTS \<or> 1 \<le> n \<and> n < NBR_TESTS \<and> file n < 0" "0 \<le> dir"
  shows "stedma40_test_init 0 dir file = (if n = NBR_TESTS then 0 else file n,
    map (\<lambda>i. (take 31 (''test_'' @ nat_to_string i), i)) [1..<n])"
proof (cases "n = NBR_TESTS")
  case True
  with assms show ?thesis by (simp add: stedma40_test_init_def create_files_all del: upt_Suc One_nat_def)
next
  case False
  with assms(2) have n: "1 \<le> n" "n < NBR_TESTS" "file n < 0" by auto
  then have "[1..<NBR_TESTS] = [1..<n] @ n # [Suc n..<NBR_TESTS]"
    by (metis le_add_diff_inverse less_imp_le_nat upt_add_eq_append upt_conv_Cons)
  with create_files_stop [where xs = "[1..<n]" and j = n and ys = "[Suc n..<NBR_TESTS]" and acc = "[]"] assms(1,3) n False show ?thesis
    by (simp add: stedma40_test_init_def del: upt_Suc One_nat_def)
qed

lemma module_files_witness:
  "stedma40_test_init 0 0 (\<lambda>i. if i = 3 then - 12 else 0) = (- 12, [(''test_1'', 1), (''test_2'', 2)])"
  using module_files [of 3 "\<lambda>i. if i = 3 then - 12 else 0" 0]
  by (simp add: NBR_TESTS_def upt_conv_Cons nat_to_string.simps [of 1] nat_to_string.simps [of 2] char_of_eq_iff del: upt_Suc One_nat_def)

text \<open>When that happens the files stay, although the module is not loaded: nothing on the error path removes the directory.\<close>

lemma failed_load_leaves_files:
  "modprobe \<lparr>m_lock = 0, m_dir = 0, m_file = (\<lambda>i. if i = 2 then - 12 else 0), m_open = 0\<rparr> \<lparr>f_loaded = False, f_files = [], f_kern = k\<rparr> =
    \<lparr>f_loaded = False, f_files = [(''test_1'', 1)], f_kern = k\<rparr>"
  by (simp add: modprobe_def stedma40_test_init_def NBR_TESTS_def upt_conv_Cons nat_to_string.simps [of 1] char_of_eq_iff
      del: upt_Suc One_nat_def)

section \<open>Reading a file\<close>

definition served :: "dfs \<Rightarrow> bool" where
  "served w \<longleftrightarrow> f_loaded w \<and> f_files w = map (\<lambda>i. (''test_'' @ nat_to_string i, i)) [1..<NBR_TESTS]"

text \<open>The module finds its calls successful.\<close>

definition loads :: "dmod \<Rightarrow> bool" where
  "loads g \<longleftrightarrow> m_lock g = 0 \<and> 0 \<le> m_dir g \<and> (\<forall>i. 0 \<le> m_file g i) \<and> m_open g = 0"

lemma nat_to_string_short: "n < 100 \<Longrightarrow> length (nat_to_string n) \<le> 2"
  by (subst nat_to_string.simps) (auto simp: nat_to_string.simps [of "n div 10"])

lemma modprobe_serves:
  assumes "loads g" "\<not> f_loaded w" "f_files w = []"
  shows "served (modprobe g w)" "f_kern (modprobe g w) = f_kern w"
proof -
  have "take 31 (''test_'' @ nat_to_string i) = ''test_'' @ nat_to_string i" if "i \<in> set [1..<NBR_TESTS]" for i
    using nat_to_string_short [of i] that by (simp add: NBR_TESTS_def)
  then have "map (\<lambda>i. (take 31 (''test_'' @ nat_to_string i), i)) [1..<NBR_TESTS] = map (\<lambda>i. (''test_'' @ nat_to_string i, i)) [1..<NBR_TESTS]"
    by (intro map_cong) (simp_all del: take_append)
  moreover have "stedma40_test_init (m_lock g) (m_dir g) (m_file g) =
      (0, map (\<lambda>i. (take 31 (''test_'' @ nat_to_string i), i)) [1..<NBR_TESTS])"
    using module_files [of NBR_TESTS "m_file g" "m_dir g"] assms(1) by (simp add: loads_def del: upt_Suc)
  ultimately show "served (modprobe g w)" "f_kern (modprobe g w) = f_kern w"
    using assms(2,3) by (simp_all add: modprobe_def served_def del: take_append upt_Suc)
qed

lemma nat_to_string_inj: "nat_to_string m = nat_to_string n \<Longrightarrow> m = n"
proof (induction m arbitrary: n rule: nat_to_string.induct)
  case (1 m)
  have last: "last (nat_to_string k) = char_of (48 + k mod 10)" "butlast (nat_to_string k) = (if k < 10 then [] else nat_to_string (k div 10))" for k
    by (subst nat_to_string.simps, simp)+
  have ne: "nat_to_string k \<noteq> []" for k by (subst nat_to_string.simps) simp
  have "take_bit 8 (48 + k mod 10) = 48 + k mod 10" for k :: nat
    using mod_less_divisor [of 10 k] by (intro take_bit_nat_eq_self) simp
  then have d: "m mod 10 = n mod 10" using last(1) [of m] last(1) [of n] "1.prems" by (simp add: char_of_eq_iff)
  have b: "(if m < 10 then [] else nat_to_string (m div 10)) = (if n < 10 then [] else nat_to_string (n div 10))"
    using last(2) [of m] last(2) [of n] "1.prems" by simp
  show ?case
  proof (cases "m < 10")
    case True
    then show ?thesis using b d ne not_sym [OF ne] by (auto split: if_splits)
  next
    case False
    then have "m div 10 = n div 10" using b ne not_sym [OF ne] "1.IH" [of "n div 10"] by (auto split: if_splits)
    with d show ?thesis by (metis div_mult_mod_eq)
  qed
qed

lemma served_lookup:
  assumes "served w" "1 \<le> i" "i < NBR_TESTS"
  shows "map_of (map (\<lambda>(n, i). (debugfs_dir @ n, i)) (f_files w)) (debugfs_dir @ ''test_'' @ nat_to_string i) = Some i"
proof -
  let ?f = "\<lambda>i. debugfs_dir @ ''test_'' @ nat_to_string i"
  have "map (\<lambda>(n, i). (debugfs_dir @ n, i)) (f_files w) = map (\<lambda>i. (?f i, i)) [1..<NBR_TESTS]"
    using assms(1) by (simp add: served_def del: upt_Suc)
  moreover have "distinct (map fst (map (\<lambda>i. (?f i, i)) [1..<NBR_TESTS]))"
    by (auto simp: distinct_map inj_on_def dest: nat_to_string_inj simp del: upt_Suc)
  moreover have "(?f i, i) \<in> set (map (\<lambda>i. (?f i, i)) [1..<NBR_TESTS])" using assms(2,3) by auto
  ultimately show ?thesis by (simp only: map_of_is_SomeI)
qed

text \<open>Reading the file of test \<open>i\<close> runs exactly this test and gives what it prints.\<close>

lemma served_read:
  assumes "served w" "loads g" "1 \<le> i" "i < NBR_TESTS" "d40_test_run e i ((f_kern w)\<lparr>k_seq := []\<rparr>) = Some (r, k)"
  shows "d40_debugfs_ops e g (debugfs_dir @ ''test_'' @ nat_to_string i) w =
    Some (\<lparr>d_fd = 3, d_read = Some (concat (k_seq k)), d_errno = 0\<rparr>, w\<lparr>f_kern := k\<rparr>)"
  using assms(2,5) served_lookup [OF assms(1,3,4)] by (simp add: d40_debugfs_ops_def d40_debugfs_open_def loads_def)

text \<open>Without the module there are no files.\<close>

lemma unloaded_read:
  "f_files w = [] \<Longrightarrow> d40_debugfs_ops e g path w = Some (\<lparr>d_fd = - 1, d_read = None, d_errno = 2\<rparr>, w)"
  by (simp add: d40_debugfs_ops_def)

end
