(* ===== verification/TstRes.thy ===== *)
theory TstRes
imports Prelude
begin

unbundle bit_operations_syntax

text \<open>\<open>ltp_framework/lib/tst_res.c\<close>: result reporting.  The state is the file's static variables plus
what has been written to \<open>T_out\<close>; the environment gives \<open>$TOUTPUT\<close> and the files \<open>tst_res\<close> may be
asked to append.  A printed line is kept as its fields (the \<open>fprintf\<close> arguments), not as bytes.
\<open>exit\<close> is recorded in \<open>t_exit\<close>; no operation is applied to a state that has exited.\<close>

section \<open>Types and state\<close>

abbreviation (input) TPASS :: int where "TPASS \<equiv> 0"
abbreviation (input) TFAIL :: int where "TFAIL \<equiv> 1"
abbreviation (input) TBROK :: int where "TBROK \<equiv> 2"
abbreviation (input) TWARN :: int where "TWARN \<equiv> 4"
abbreviation (input) TRETR :: int where "TRETR \<equiv> 8"
abbreviation (input) TINFO :: int where "TINFO \<equiv> 16"
abbreviation (input) TCONF :: int where "TCONF \<equiv> 32"
abbreviation (input) TERRNO :: int where "TERRNO \<equiv> 256"
abbreviation (input) TTERRNO :: int where "TTERRNO \<equiv> 512"

definition TTYPE_RESULT :: "int \<Rightarrow> int" where "TTYPE_RESULT ttype = ttype AND 63"

datatype tmode = VERBOSE | NOPASS | DISCARD

datatype out =
    Result_line bool string int string string "(string \<times> int) option" "(string \<times> int) option"
  | File_text string

record tst =
  tcid :: string
  t_out :: bool
  t_file :: "string option"
  t_exitval :: int
  t_mode :: tmode
  t_first :: bool
  t_last :: "(string \<times> int \<times> int \<times> string) option"
  tst_count :: int
  brk_entered :: int
  t_lines :: "out list"
  t_errno :: int
  t_test_errno :: int
  t_exit :: "int option"

definition tst_init :: "string \<Rightarrow> tst" where
  "tst_init name = \<lparr>tcid = name, t_out = False, t_file = None, t_exitval = 0, t_mode = VERBOSE, t_first = True,
     t_last = None, tst_count = 0, brk_entered = 0, t_lines = [], t_errno = 0, t_test_errno = 0, t_exit = None\<rparr>"

text \<open>A file: the \<open>errno\<close> of a failed fopen, the text copied from it, a short fwrite (bytes written, bytes
asked for), the \<open>errno\<close> when the loop ends before the end of the file, and that of a failed fclose.\<close>

record tfile =
  f_open :: "int option"
  f_text :: string
  f_short :: "(int \<times> int) option"
  f_rderr :: "int option"
  f_closeerr :: "int option"

record tenv =
  env_toutput :: "string option"
  env_files :: "string \<Rightarrow> tfile option"
  env_strerror :: "int \<Rightarrow> string"

section \<open>Names\<close>

definition pair_lookup :: "string option list \<Rightarrow> int \<Rightarrow> string" where
  "pair_lookup pair idx = (if idx < 0 \<or> idx \<ge> int (length pair) \<or> pair ! nat idx = None then ''???''
     else the (pair ! nat idx))"

definition strttype :: "int \<Rightarrow> string" where
  "strttype ttype = pair_lookup
     ((replicate 33 None)[0 := Some ''TPASS'', 1 := Some ''TFAIL'', 2 := Some ''TBROK'', 8 := Some ''TRETR'',
       32 := Some ''TCONF'', 4 := Some ''TWARN'', 16 := Some ''TINFO'']) (TTYPE_RESULT ttype)"

definition strerrnodef :: "int \<Rightarrow> string" where
  "strerrnodef err = pair_lookup
     ([None] @ map Some [''EPERM'', ''ENOENT'', ''ESRCH'', ''EINTR'', ''EIO'', ''ENXIO'', ''E2BIG'', ''ENOEXEC'',
       ''EBADF'', ''ECHILD'', ''EAGAIN'', ''ENOMEM'', ''EACCES'', ''EFAULT'', ''ENOTBLK'', ''EBUSY'', ''EEXIST'',
       ''EXDEV'', ''ENODEV'', ''ENOTDIR'', ''EISDIR'', ''EINVAL'', ''ENFILE'', ''EMFILE'', ''ENOTTY'', ''ETXTBSY'',
       ''EFBIG'', ''ENOSPC'', ''ESPIPE'', ''EROFS'', ''EMLINK'', ''EPIPE'', ''EDOM'', ''ERANGE''] @
       [None, Some ''ENAMETOOLONG'']) err"

section \<open>Printing\<close>

text \<open>The early return of \<open>tst_print\<close>.\<close>

definition suppressed :: "tmode \<Rightarrow> int \<Rightarrow> bool" where
  "suppressed mode r \<longleftrightarrow> mode = DISCARD \<or> (mode = NOPASS \<and> r \<noteq> TFAIL \<and> r \<noteq> TBROK \<and> r \<noteq> TWARN)"

definition result_line :: "string \<Rightarrow> int \<Rightarrow> int \<Rightarrow> string \<Rightarrow> tst \<Rightarrow> out" where
  "result_line tc tnum ttype tmesg s = Result_line (t_mode s = VERBOSE) tc tnum (strttype ttype) tmesg
     (if ttype AND TERRNO \<noteq> 0 then Some (strerrnodef (t_errno s), t_errno s) else None)
     (if ttype AND TTERRNO \<noteq> 0 then Some (strerrnodef (t_test_errno s), t_test_errno s) else None)"

text \<open>\<open>cat_file\<close>: the text it copies and its four warnings (fopen, fwrite, fread, fclose), written into
\<open>Warn_mesg\<close>.  After a failed fopen it returns at once.\<close>

definition MAXMESG :: nat where "MAXMESG = 80"

definition err_text :: "tenv \<Rightarrow> int \<Rightarrow> string" where
  "err_text e err = ''failed, errno = '' @ int_to_string err @ '': '' @ env_strerror e err"

definition cat_file :: "tenv \<Rightarrow> string \<Rightarrow> string option \<times> string option \<times> string option \<times> string option \<times> string option" where
  "cat_file e f =
    (let trying = ''tst_res(): While trying to cat \"'' @ f @ ''\", '';
         open_err = (\<lambda>err. ''tst_res(): fopen('' @ f @ '', \"r\") failed; errno = '' @ int_to_string err @ '': '' @ env_strerror e err)
     in case env_files e f of
      None \<Rightarrow> (None, Some (open_err 2), None, None, None)
    | Some tf \<Rightarrow> (case f_open tf of
        Some err \<Rightarrow> (None, Some (open_err err), None, None, None)
      | None \<Rightarrow> (Some (f_text tf), None,
          map_option (\<lambda>(written, asked). trying @ ''fwrite() wrote only '' @ int_to_string written @ '' of '' @
            int_to_string asked @ '' bytes'') (f_short tf),
          map_option (\<lambda>err. trying @ ''fread() '' @ err_text e err) (f_rderr tf),
          map_option (\<lambda>err. trying @ ''fclose() '' @ err_text e err) (f_closeerr tf))))"

text \<open>\<open>tst_print\<close> with \<open>cat_file\<close> called on \<open>File\<close>, which is reset only afterwards; every warning of
\<open>cat_file\<close> is reported by \<open>tst_print\<close> itself.  \<open>None\<close>: printing to a NULL stream, a warning longer than
\<open>Warn_mesg\<close>, or not returning.\<close>

partial_function (option) tst_print :: "tenv \<Rightarrow> string \<Rightarrow> int \<Rightarrow> int \<Rightarrow> string \<Rightarrow> tst \<Rightarrow> tst option" where
  "tst_print e tc tnum ttype tmesg s0 =
    (let s = s0\<lparr>t_exitval := t_exitval s0 OR TTYPE_RESULT ttype\<rparr>
     in if suppressed (t_mode s) (TTYPE_RESULT ttype) then Some s
        else if \<not> t_out s then None
        else let s = s\<lparr>t_lines := t_lines s @ [result_line tc tnum ttype tmesg s]\<rparr>
        in case t_file s of
            None \<Rightarrow> Some s
          | Some f \<Rightarrow> (case cat_file e f of (copied, no_open, no_write, no_read, no_close) \<Rightarrow> do {
              s \<leftarrow> (case no_open of None \<Rightarrow> Some s
                | Some w \<Rightarrow> if length w < MAXMESG then tst_print e (tcid s) 0 TWARN w s else None);
              let s = (case copied of None \<Rightarrow> s | Some txt \<Rightarrow> s\<lparr>t_lines := t_lines s @ [File_text txt]\<rparr>);
              s \<leftarrow> (case no_write of None \<Rightarrow> Some s
                | Some w \<Rightarrow> if length w < MAXMESG then tst_print e (tcid s) 0 TWARN w s else None);
              s \<leftarrow> (case no_read of None \<Rightarrow> Some s
                | Some w \<Rightarrow> if length w < MAXMESG then tst_print e (tcid s) 0 TWARN w s else None);
              s \<leftarrow> (case no_close of None \<Rightarrow> Some s
                | Some w \<Rightarrow> if length w < MAXMESG then tst_print e (tcid s) 0 TWARN w s else None);
              Some (s\<lparr>t_file := None\<rparr>)
            }))"

section \<open>Condensing, flushing, the environment\<close>

definition tst_condense :: "tenv \<Rightarrow> int \<Rightarrow> int \<Rightarrow> string \<Rightarrow> tst \<Rightarrow> tst option" where
  "tst_condense e tnum ttype tmesg s =
    (let r = TTYPE_RESULT ttype in
     if t_last s \<noteq> None \<and> (case the (t_last s) of (ltc, lnum, ltype, lmesg) \<Rightarrow>
          ltc = tcid s \<and> ltype = r \<and> lmesg = tmesg \<and> t_file s = None)
     then Some s
     else do {
       s \<leftarrow> (case t_last s of
           None \<Rightarrow> Some s
         | Some (ltc, lnum, ltype, lmesg) \<Rightarrow> do {
             let file = t_file s;
             s \<leftarrow> tst_print e ltc lnum ltype lmesg (s\<lparr>t_file := None\<rparr>);
             Some (s\<lparr>t_file := file\<rparr>)
           });
       if t_file s \<noteq> None then do {
         s \<leftarrow> tst_print e (tcid s) tnum ttype tmesg s;
         Some (s\<lparr>t_last := None\<rparr>)
       } else Some (s\<lparr>t_last := Some (tcid s, tnum, r, tmesg)\<rparr>)
     })"

definition tst_flush :: "tenv \<Rightarrow> tst \<Rightarrow> tst option" where
  "tst_flush e s = (case t_last s of
      Some (ltc, lnum, ltype, lmesg) \<Rightarrow>
        if t_mode s = NOPASS then do {
          s \<leftarrow> tst_print e ltc lnum ltype lmesg s;
          Some (s\<lparr>t_last := None\<rparr>)
        } else Some s
    | None \<Rightarrow> Some s)"

definition check_env :: "tenv \<Rightarrow> tst \<Rightarrow> tst" where
  "check_env e s = (if \<not> t_first s then s
     else s\<lparr>t_first := False, t_mode := (case env_toutput e of
         None \<Rightarrow> VERBOSE
       | Some value \<Rightarrow> if value = ''NOPASS'' then NOPASS
           else if value = ''DISCARD'' then DISCARD else VERBOSE)\<rparr>)"

section \<open>The reporting functions\<close>

text \<open>\<open>EXPAND_VAR_ARGS\<close>: \<open>vsnprintf\<close> keeps what fits the buffer, and the \<open>assert\<close> aborts on an empty message.  A function that
calls another one of these functions expands the message again, which changes nothing.\<close>

definition USERMESG :: nat where "USERMESG = 2048"

definition shown :: "string \<Rightarrow> string" where "shown m = take (USERMESG - 1) m"

definition EXPAND_VAR_ARGS :: "string \<Rightarrow> string option" where
  "EXPAND_VAR_ARGS m = do { chk (shown m \<noteq> []); Some (shown m) }"

lemma shown_simps [simp]: "shown m = [] \<longleftrightarrow> m = []" "shown (shown m) = shown m"
  by (simp_all add: shown_def USERMESG_def)

lemma EXPAND_simps: "EXPAND_VAR_ARGS m = (if m = [] then None else Some (shown m))" "EXPAND_VAR_ARGS (shown m) = EXPAND_VAR_ARGS m"
  by (simp_all add: EXPAND_VAR_ARGS_def c_simps)

definition tst_res :: "tenv \<Rightarrow> int \<Rightarrow> string option \<Rightarrow> string \<Rightarrow> tst \<Rightarrow> tst option" where
  "tst_res e ttype fname tmesg s = do {
     let r = TTYPE_RESULT ttype;
     tmesg \<leftarrow> EXPAND_VAR_ARGS tmesg;
     let s = s\<lparr>t_exitval := t_exitval s OR r\<rparr>;
     let s = s\<lparr>t_out := True\<rparr>;
     let s = check_env e s;
     let s = (case fname of None \<Rightarrow> s | Some f \<Rightarrow> if env_files e f \<noteq> None then s\<lparr>t_file := Some f\<rparr> else s);
     if r = TWARN \<or> r = TINFO then tst_print e (tcid s) 0 ttype tmesg s
     else do {
       s \<leftarrow> (if tst_count s < 0
             then tst_print e (tcid s) 0 TWARN ''tst_res(): Tst_count < 0 is not valid'' s else Some s);
       s \<leftarrow> (case t_mode s of
           DISCARD \<Rightarrow> Some s
         | NOPASS \<Rightarrow> tst_condense e (tst_count s + 1) ttype tmesg s
         | VERBOSE \<Rightarrow> tst_print e (tcid s) (tst_count s + 1) ttype tmesg s);
       Some (s\<lparr>tst_count := tst_count s + 1\<rparr>)
     }
   }"

definition tst_resm :: "tenv \<Rightarrow> int \<Rightarrow> string \<Rightarrow> tst \<Rightarrow> tst option" where
  "tst_resm e ttype tmesg s = do { tmesg \<leftarrow> EXPAND_VAR_ARGS tmesg; tst_res e ttype None tmesg s }"

definition tst_exit :: "tenv \<Rightarrow> tst \<Rightarrow> tst option" where
  "tst_exit e s = do {
     s \<leftarrow> tst_flush e s;
     Some (s\<lparr>t_exit := Some (t_exitval s AND NOT (TRETR OR TINFO OR TCONF))\<rparr>)
   }"

text \<open>\<open>func\<close>: the cleanup function, which may report and break in turn, or exit.\<close>

definition tst_brk :: "tenv \<Rightarrow> int \<Rightarrow> string option \<Rightarrow> (tst \<Rightarrow> tst option) option \<Rightarrow> string \<Rightarrow> tst \<Rightarrow> tst option" where
  "tst_brk e ttype0 fname func tmesg s = do {
     let r = TTYPE_RESULT ttype0;
     tmesg \<leftarrow> EXPAND_VAR_ARGS tmesg;
     let invalid = (r \<noteq> TFAIL \<and> r \<noteq> TBROK \<and> r \<noteq> TCONF \<and> r \<noteq> TRETR);
     s \<leftarrow> (if invalid then tst_print e (tcid s) 0 TWARN
             (''tst_brk: Invalid Type: '' @ int_to_string r @ ''. Using TBROK'') s else Some s);
     let ttype = (if invalid then (ttype0 AND NOT r) OR TBROK else ttype0);
     s \<leftarrow> tst_res e ttype fname tmesg s;
     s \<leftarrow> (if brk_entered s = 0 then
         (if r = TCONF then tst_res e ttype None ''Remaining cases not appropriate for configuration'' s
          else if r = TRETR then tst_res e ttype None ''Remaining cases retired'' s
          else if r = TBROK then tst_res e TBROK None ''Remaining cases broken'' s
          else Some s)
        else Some s);
     s \<leftarrow> (case func of
         None \<Rightarrow> Some s
       | Some f \<Rightarrow> do {
           s \<leftarrow> f (s\<lparr>brk_entered := brk_entered s + 1\<rparr>);
           Some (if t_exit s = None then s\<lparr>brk_entered := brk_entered s - 1\<rparr> else s)
         });
     if t_exit s = None \<and> brk_entered s = 0 then tst_exit e s else Some s
   }"

definition tst_brkm :: "tenv \<Rightarrow> int \<Rightarrow> (tst \<Rightarrow> tst option) option \<Rightarrow> string \<Rightarrow> tst \<Rightarrow> tst option" where
  "tst_brkm e ttype func tmesg s = do { tmesg \<leftarrow> EXPAND_VAR_ARGS tmesg; tst_brk e ttype None func tmesg s }"

definition tst_require_root :: "tenv \<Rightarrow> int \<Rightarrow> (tst \<Rightarrow> tst option) option \<Rightarrow> tst \<Rightarrow> tst option" where
  "tst_require_root e euid func s =
    (if euid \<noteq> 0 then tst_brkm e TCONF func ''Test needs to be run as root'' s else Some s)"

definition tst_environ :: "bool \<Rightarrow> tst \<Rightarrow> int \<times> tst" where
  "tst_environ fdopen_ok s = (if fdopen_ok then 0 else - 1, s\<lparr>t_out := fdopen_ok\<rparr>)"

section \<open>Printing without a file\<close>

lemma tst_print_plain:
  assumes "t_file s = None" "t_out s"
  shows "tst_print e tc tnum ttype tmesg s = Some (s\<lparr>t_exitval := t_exitval s OR TTYPE_RESULT ttype,
    t_lines := t_lines s @ (if suppressed (t_mode s) (TTYPE_RESULT ttype) then []
      else [result_line tc tnum ttype tmesg s])\<rparr>)"
  using assms by (subst tst_print.simps) (simp add: Let_def result_line_def)

lemma TTYPE_RESULT_idem [simp]: "TTYPE_RESULT (TTYPE_RESULT t) = TTYPE_RESULT t"
  by (simp add: TTYPE_RESULT_def ac_simps)

text \<open>Between calls: no file is pending, and the result kept back is already in the exit value.\<close>

definition tst_inv :: "tst \<Rightarrow> bool" where
  "tst_inv s \<longleftrightarrow> t_file s = None \<and> 0 \<le> tst_count s \<and>
     (case t_last s of None \<Rightarrow> True
      | Some (tc, n, ty, m) \<Rightarrow> t_out s \<and> TTYPE_RESULT ty = ty \<and> t_exitval s OR ty = t_exitval s)"

lemma check_env_fields [simp]:
  "t_file (check_env e s) = t_file s" "t_exitval (check_env e s) = t_exitval s" "t_last (check_env e s) = t_last s"
  "t_out (check_env e s) = t_out s" "tst_count (check_env e s) = tst_count s" "tcid (check_env e s) = tcid s"
  "t_lines (check_env e s) = t_lines s" "t_exit (check_env e s) = t_exit s" "brk_entered (check_env e s) = brk_entered s"
  by (simp_all add: check_env_def)

lemma or_absorb_mono: "(a :: int) OR b = a \<Longrightarrow> (a OR c) OR b = a OR c"
  by (metis or.assoc or.commute)

text \<open>What printing keeps.\<close>

definition kept :: "tst \<Rightarrow> tst \<Rightarrow> bool" where
  "kept s s' \<longleftrightarrow> tst_inv s' \<and> t_exitval s' = t_exitval s \<and> t_out s' = t_out s \<and> tst_count s' = tst_count s \<and>
     t_exit s' = t_exit s \<and> brk_entered s' = brk_entered s \<and> t_mode s' = t_mode s \<and> t_first s' = t_first s \<and>
     tcid s' = tcid s"

lemma tst_condense_plain:
  assumes "tst_inv s" "t_out s" "t_exitval s OR TTYPE_RESULT ttype = t_exitval s"
  shows "\<exists>s'. tst_condense e tnum ttype tmesg s = Some s' \<and> kept s s'"
proof (cases "t_last s")
  case None
  with assms show ?thesis by (simp add: tst_condense_def Let_def tst_inv_def kept_def)
next
  case (Some l)
  obtain tc n ty m where l: "l = (tc, n, ty, m)" by (cases l) auto
  with Some assms(1) have f: "t_file s = None" "TTYPE_RESULT ty = ty" "t_exitval s OR ty = t_exitval s"
    by (auto simp: tst_inv_def)
  have p: "tst_print e tc n ty m (s\<lparr>t_file := None\<rparr>) = Some (s\<lparr>t_file := None, t_exitval := t_exitval s OR ty,
     t_lines := t_lines s @ (if suppressed (t_mode s) ty then [] else [result_line tc n ty m (s\<lparr>t_file := None\<rparr>)])\<rparr>)"
    using tst_print_plain [of "s\<lparr>t_file := None\<rparr>" e tc n ty m] assms(2) f(2) by simp
  show ?thesis
    using Some l f assms p by (auto simp: tst_condense_def Let_def tst_inv_def kept_def)
qed

lemma tst_print_plain_inv:
  assumes "tst_inv s" "t_out s" "t_exitval s OR TTYPE_RESULT ttype = t_exitval s"
  shows "\<exists>s'. tst_print e tc tnum ttype tmesg s = Some s' \<and> kept s s'"
proof -
  have "t_file s = None" using assms(1) by (simp add: tst_inv_def)
  from tst_print_plain [OF this assms(2), of e tc tnum ttype tmesg] show ?thesis
    using assms by (cases "t_last s") (simp_all add: tst_inv_def kept_def split: prod.splits)
qed

text \<open>A report: the state after it, in every mode.\<close>

definition reported :: "int \<Rightarrow> tst \<Rightarrow> tst \<Rightarrow> bool" where
  "reported ttype s s' \<longleftrightarrow> tst_inv s' \<and> t_exitval s' = t_exitval s OR TTYPE_RESULT ttype \<and>
    t_exit s' = t_exit s \<and> brk_entered s' = brk_entered s \<and> t_out s' \<and> \<not> t_first s' \<and> tcid s' = tcid s \<and>
    tst_count s' = tst_count s + (if TTYPE_RESULT ttype = TWARN \<or> TTYPE_RESULT ttype = TINFO then 0 else 1)"

definition entered :: "tenv \<Rightarrow> int \<Rightarrow> tst \<Rightarrow> tst" where
  "entered e ttype s = check_env e (s\<lparr>t_exitval := t_exitval s OR TTYPE_RESULT ttype, t_out := True\<rparr>)"

lemma entered_fields:
  assumes "tst_inv s"
  shows "tst_inv (entered e ttype s)" "t_exitval (entered e ttype s) OR TTYPE_RESULT ttype = t_exitval (entered e ttype s)"
    "t_out (entered e ttype s)" "0 \<le> tst_count (entered e ttype s)"
  using assms by (auto simp: entered_def tst_inv_def or_absorb_mono split: option.splits)

lemma kept_entered:
  assumes "kept (entered e ttype s) s'"
  shows "TTYPE_RESULT ttype = TWARN \<or> TTYPE_RESULT ttype = TINFO \<Longrightarrow> reported ttype s s'"
    "\<not> (TTYPE_RESULT ttype = TWARN \<or> TTYPE_RESULT ttype = TINFO) \<Longrightarrow> reported ttype s (s'\<lparr>tst_count := tst_count s' + 1\<rparr>)"
proof -
  have "\<not> t_first (entered e ttype s)" by (simp add: entered_def check_env_def)
  then show "TTYPE_RESULT ttype = TWARN \<or> TTYPE_RESULT ttype = TINFO \<Longrightarrow> reported ttype s s'"
    "\<not> (TTYPE_RESULT ttype = TWARN \<or> TTYPE_RESULT ttype = TINFO) \<Longrightarrow> reported ttype s (s'\<lparr>tst_count := tst_count s' + 1\<rparr>)"
    using assms by (auto simp: kept_def reported_def entered_def tst_inv_def split: option.splits)
qed

lemma tst_res_resm: "tst_res e ttype None m s = tst_resm e ttype m s"
  by (simp add: tst_resm_def tst_res_def EXPAND_simps)

lemma tst_resm_shown [simp]: "tst_resm e ttype (shown m) s = tst_resm e ttype m s"
  by (simp add: tst_resm_def EXPAND_simps)

lemma tst_brkm_brk: "tst_brkm e ttype func m s = tst_brk e ttype None func m s"
  by (simp add: tst_brkm_def tst_brk_def EXPAND_simps)

lemma tst_resm_eq:
  assumes "tst_inv s" "tmesg \<noteq> []"
  shows "tst_resm e ttype tmesg s = (let s = entered e ttype s in
      if TTYPE_RESULT ttype = TWARN \<or> TTYPE_RESULT ttype = TINFO then tst_print e (tcid s) 0 ttype (shown tmesg) s
      else do { s \<leftarrow> (case t_mode s of DISCARD \<Rightarrow> Some s
           | NOPASS \<Rightarrow> tst_condense e (tst_count s + 1) ttype (shown tmesg) s
           | VERBOSE \<Rightarrow> tst_print e (tcid s) (tst_count s + 1) ttype (shown tmesg) s);
         Some (s\<lparr>tst_count := tst_count s + 1\<rparr>) })"
  using assms by (simp add: tst_res_resm [symmetric] tst_res_def EXPAND_simps Let_def entered_def tst_inv_def c_simps)

lemma tst_resm_plain:
  assumes "tst_inv s" "tmesg \<noteq> []"
  shows "\<exists>s'. tst_resm e ttype tmesg s = Some s' \<and> reported ttype s s'"
proof -
  let ?s = "entered e ttype s"
  note f = entered_fields [OF assms(1), of e ttype]
  have k: "kept ?s ?s" using f(1) by (simp add: kept_def)
  obtain s0 where s0: "tst_print e (tcid ?s) 0 ttype (shown tmesg) ?s = Some s0" "kept ?s s0"
    using tst_print_plain_inv [OF f(1) f(3) f(2)] by blast
  obtain s1 where s1: "tst_print e (tcid ?s) (tst_count ?s + 1) ttype (shown tmesg) ?s = Some s1" "kept ?s s1"
    using tst_print_plain_inv [OF f(1) f(3) f(2)] by blast
  obtain s2 where s2: "tst_condense e (tst_count ?s + 1) ttype (shown tmesg) ?s = Some s2" "kept ?s s2"
    using tst_condense_plain [OF f(1) f(3) f(2)] by blast
  show ?thesis
  proof (cases "TTYPE_RESULT ttype = TWARN \<or> TTYPE_RESULT ttype = TINFO")
    case True
    with tst_resm_eq [OF assms, of e ttype] s0 kept_entered(1) [OF s0(2)] show ?thesis by (auto simp: Let_def)
  next
    case False
    then have "reported ttype s (s1\<lparr>tst_count := tst_count s1 + 1\<rparr>)" "reported ttype s (s2\<lparr>tst_count := tst_count s2 + 1\<rparr>)"
      "reported ttype s (?s\<lparr>tst_count := tst_count ?s + 1\<rparr>)"
      using s1(2) s2(2) k kept_entered(2) by blast+
    with False tst_resm_eq [OF assms, of e ttype] s1(1) s2(1) show ?thesis
      by (cases "t_mode ?s") (auto simp: Let_def)
  qed
qed

section \<open>Exiting\<close>

lemma tst_exit_plain:
  assumes "tst_inv s"
  shows "\<exists>s'. tst_exit e s = Some s' \<and> t_exit s' = Some (t_exitval s AND NOT (TRETR OR TINFO OR TCONF))"
proof (cases "t_last s")
  case None
  then show ?thesis by (simp add: tst_exit_def tst_flush_def)
next
  case (Some l)
  obtain tc n ty m where l: "l = (tc, n, ty, m)" by (cases l) auto
  with Some assms have f: "t_file s = None" "t_out s" "TTYPE_RESULT ty = ty" "t_exitval s OR ty = t_exitval s"
    by (auto simp: tst_inv_def)
  show ?thesis
    using Some l f tst_print_plain [OF f(1,2), of e tc n ty m] by (simp add: tst_exit_def tst_flush_def)
qed

text \<open>A program that reports the results \<open>rs\<close> one after the other.\<close>

definition reports :: "tenv \<Rightarrow> (int \<times> string) list \<Rightarrow> tst \<Rightarrow> tst option" where
  "reports e rs s = ofold (\<lambda>(ty, m). tst_resm e ty m) rs s"

lemma reports_plain:
  assumes "tst_inv s" "\<forall>(ty, m) \<in> set rs. m \<noteq> []"
  shows "\<exists>s'. reports e rs s = Some s' \<and> tst_inv s' \<and>
    t_exitval s' = fold (\<lambda>(ty, m) v. v OR TTYPE_RESULT ty) rs (t_exitval s) \<and> brk_entered s' = brk_entered s \<and>
    t_exit s' = t_exit s"
  using assms
proof (induction rs arbitrary: s)
  case (Cons x rs)
  obtain ty m where x: "x = (ty, m)" by (cases x) auto
  with Cons.prems have m: "m \<noteq> []" by auto
  obtain s1 where s1: "tst_resm e ty m s = Some s1" "reported ty s s1"
    using tst_resm_plain [OF Cons.prems(1) m] by blast
  from s1(2) have "tst_inv s1" by (simp add: reported_def)
  from Cons.IH [OF this] Cons.prems(2) x s1 show ?case
    by (auto simp: reports_def reported_def)
qed (simp add: reports_def)

lemma tst_init_inv [simp]: "tst_inv (tst_init tc)"
  by (simp add: tst_init_def tst_inv_def)

lemma TTYPE_RESULT_cases:
  "t \<in> {TPASS, TFAIL, TBROK, TWARN, TRETR, TINFO, TCONF} \<Longrightarrow>
   t AND NOT (TRETR OR TINFO OR TCONF) = 0 \<longleftrightarrow> t \<notin> {TFAIL, TBROK, TWARN}"
  by auto

lemma fold_or_mask:
  "fold (\<lambda>(ty, m) v. v OR TTYPE_RESULT ty) rs (v :: int) AND msk = 0 \<longleftrightarrow>
   v AND msk = 0 \<and> (\<forall>(ty, m) \<in> set rs. TTYPE_RESULT ty AND msk = 0)"
proof (induction rs arbitrary: v)
  case (Cons x rs)
  have "(a OR b) AND msk = 0 \<longleftrightarrow> a AND msk = 0 \<and> b AND msk = 0" for a b :: int
    by (simp add: bit.conj_disj_distrib2 or_eq_0_iff)
  with Cons show ?case by (cases x) auto
qed simp

end
