(* ===== verification/TstReport.thy ===== *)
theory TstReport
imports TstRes
begin

unbundle bit_operations_syntax

text \<open>What \<open>tst_res.c\<close> promises its callers: the exit status of a test, the condensed output of the
NOPASS mode against a specification on the whole list of results, the end of a broken test with and
without a cleanup function, and the two ways in which reporting itself goes wrong.\<close>

section \<open>The exit status\<close>

definition plain_env :: tenv where
  "plain_env = \<lparr>env_toutput = None, env_files = \<lambda>_. None, env_strerror = \<lambda>_. ''error''\<rparr>"

text \<open>C6: in every output mode and environment, a test that reports any sequence of results and exits
leaves with status 0 exactly when none of them was a FAIL, a BROK or a WARN (whatever ERRNO flags were
added to the types).\<close>

theorem tst_exit_status:
  assumes "\<forall>(ty, m) \<in> set rs. m \<noteq> [] \<and> TTYPE_RESULT ty \<in> {TPASS, TFAIL, TBROK, TWARN, TRETR, TINFO, TCONF}"
  shows "\<exists>s. (reports e rs (tst_init tc) \<bind> tst_exit e) = Some s \<and>
    (t_exit s = Some 0 \<longleftrightarrow> (\<forall>(ty, m) \<in> set rs. TTYPE_RESULT ty \<notin> {TFAIL, TBROK, TWARN}))"
proof -
  have m: "\<forall>(ty, m) \<in> set rs. m \<noteq> []" using assms by auto
  obtain s where s: "reports e rs (tst_init tc) = Some s" "tst_inv s"
    "t_exitval s = fold (\<lambda>(ty, m) v. v OR TTYPE_RESULT ty) rs 0"
    using reports_plain [OF tst_init_inv m, of e tc] by (auto simp: tst_init_def)
  obtain s' where s': "tst_exit e s = Some s'" "t_exit s' = Some (t_exitval s AND NOT (TRETR OR TINFO OR TCONF))"
    using tst_exit_plain [OF s(2)] by blast
  have "t_exitval s AND NOT (TRETR OR TINFO OR TCONF) = 0 \<longleftrightarrow>
      (\<forall>(ty, m) \<in> set rs. TTYPE_RESULT ty AND NOT (TRETR OR TINFO OR TCONF) = 0)"
    by (simp only: s(3) fold_or_mask and_zero_eq zero_and_eq simp_thms)
  also have "\<dots> \<longleftrightarrow> (\<forall>(ty, m) \<in> set rs. TTYPE_RESULT ty \<notin> {TFAIL, TBROK, TWARN})"
    by (intro ball_cong refl) (use assms TTYPE_RESULT_cases in \<open>force split: prod.splits\<close>)
  finally show ?thesis using s s' by auto
qed

lemma tst_exit_status_witness:
  "\<exists>s. (reports plain_env [(TPASS, ''open''), (TCONF, ''skip''), (TFAIL + TERRNO, ''read'')]
      (tst_init ''dma'') \<bind> tst_exit plain_env) = Some s \<and> t_exit s \<noteq> Some 0"
  using tst_exit_status [of "[(TPASS, ''open''), (TCONF, ''skip''), (TFAIL + TERRNO, ''read'')]"
      "plain_env" "''dma''"]
  by (simp add: TTYPE_RESULT_def)

section \<open>Condensed output\<close>

text \<open>The specification, on the list of all reports.  A WARN is printed where it is reported, with number 0; an INFO is not
printed.  All others are numbered results.  A result opens a run, which lasts as long as no other result is reported (a WARN
or INFO does not end it); the run is printed when it is over, as its first result, and only if that is a FAIL or a BROK.  Of
each message as much is printed as is shown.\<close>

definition result_of :: "int \<times> string \<Rightarrow> int \<times> string" where
  "result_of x = (TTYPE_RESULT (fst x), shown (snd x))"

definition aside :: "int \<times> string \<Rightarrow> bool" where
  "aside x \<longleftrightarrow> fst (result_of x) \<in> {TWARN, TINFO}"

definition in_run :: "int \<times> string \<Rightarrow> int \<times> string \<Rightarrow> bool" where
  "in_run r x \<longleftrightarrow> aside x \<or> result_of x = r"

text \<open>The errno fields of a line: with a flag in the type, the errno of the test, which is 0 here.\<close>

definition warnings :: "string \<Rightarrow> (int \<times> string) list \<Rightarrow> out list" where
  "warnings tc xs = map (\<lambda>x. Result_line False tc 0 ''TWARN'' (shown (snd x))
       (if fst x AND TERRNO \<noteq> 0 then Some (''???'', 0) else None) (if fst x AND TTERRNO \<noteq> 0 then Some (''???'', 0) else None))
     (filter (\<lambda>x. fst (result_of x) = TWARN) xs)"

definition rendered :: "string \<Rightarrow> (int \<times> int \<times> string) list \<Rightarrow> out list" where
  "rendered tc xs = map (\<lambda>(n, r, m). Result_line False tc n (strttype r) m None None)
     (filter (\<lambda>(n, r, m). r = TFAIL \<or> r = TBROK) xs)"

function nopass_lines :: "string \<Rightarrow> int \<Rightarrow> (int \<times> string) list \<Rightarrow> out list" where
  "nopass_lines tc k [] = []"
| "nopass_lines tc k (x # xs) =
    (if aside x then warnings tc [x] @ nopass_lines tc k xs
     else let run = takeWhile (in_run (result_of x)) xs; rest = dropWhile (in_run (result_of x)) xs
       in warnings tc run @ rendered tc [(k + 1, result_of x)] @
          nopass_lines tc (k + 1 + int (length (filter (\<lambda>y. \<not> aside y) run))) rest)"
  by pat_completeness auto
termination nopass_lines
  by (relation "measure (\<lambda>(tc, k, xs). length xs)") (auto simp: le_imp_less_Suc length_dropWhile_le)

text \<open>The lines still to be printed while the result \<open>p\<close> is kept back.\<close>

definition lines_after :: "string \<Rightarrow> (int \<times> int \<times> string) list \<Rightarrow> int \<Rightarrow> (int \<times> string) list \<Rightarrow> out list" where
  "lines_after tc ps k xs = (case ps of [] \<Rightarrow> nopass_lines tc k xs
     | p # _ \<Rightarrow> warnings tc (takeWhile (in_run (snd p)) xs) @ rendered tc [p] @
         nopass_lines tc (k + int (length (filter (\<lambda>y. \<not> aside y) (takeWhile (in_run (snd p)) xs)))) (dropWhile (in_run (snd p)) xs))"

lemma lines_after_aside: "aside x \<Longrightarrow> lines_after tc ps k (x # xs) = warnings tc [x] @ lines_after tc ps k xs"
  by (cases ps) (auto simp: lines_after_def in_run_def warnings_def)

lemma warnings_result: "\<not> aside x \<Longrightarrow> warnings tc (x # xs) = warnings tc xs"
  by (simp add: warnings_def aside_def)

lemma lines_after_result:
  assumes "\<not> aside x" "length ps \<le> 1"
  shows "lines_after tc ps k (x # xs) = (if map snd ps = [result_of x] then lines_after tc ps (k + 1) xs
    else rendered tc (take 1 ps) @ lines_after tc [(k + 1, result_of x)] (k + 1) xs)"
proof (cases ps)
  case Nil
  with assms show ?thesis by (simp add: lines_after_def rendered_def Let_def)
next
  case (Cons p ps')
  obtain r where r: "result_of x = r" by simp
  show ?thesis
  proof (cases "snd p = r")
    case True
    with assms r show ?thesis
      by (simp add: Cons lines_after_def in_run_def warnings_result ac_simps del: nopass_lines.simps)
  next
    case False
    then have "\<not> in_run (snd p) x" using assms r by (simp add: in_run_def)
    with assms r False show ?thesis
      by (simp add: Cons lines_after_def Let_def) (simp add: warnings_def)
  qed
qed

text \<open>The result kept back, and the states in which a condensing test is.\<close>

definition pending :: "tst \<Rightarrow> (int \<times> int \<times> string) list" where
  "pending s = (case t_last s of None \<Rightarrow> [] | Some (tc, n, r, m) \<Rightarrow> [(n, r, m)])"

definition condensing :: "tst \<Rightarrow> bool" where
  "condensing s \<longleftrightarrow> t_mode s = NOPASS \<and> \<not> t_first s \<and> t_file s = None \<and> t_out s \<and> 0 \<le> tst_count s \<and>
     t_errno s = 0 \<and> t_test_errno s = 0 \<and>
     (case t_last s of None \<Rightarrow> True | Some (tc, n, r, m) \<Rightarrow> tc = tcid s \<and> TTYPE_RESULT r = r \<and> r \<notin> {TWARN, TINFO})"

lemma no_errno:
  assumes "TTYPE_RESULT r = r"
  shows "r AND TERRNO = 0" "r AND TTERRNO = 0"
proof -
  have m: "(63 :: int) AND 256 = 0" "(63 :: int) AND 512 = 0" by simp_all
  have "r AND x = r AND (63 AND x)" for x
    using assms by (metis TTYPE_RESULT_def and.assoc)
  from this [of TERRNO] this [of TTERRNO] show "r AND TERRNO = 0" "r AND TTERRNO = 0"
    by (simp_all only: m bit.conj_zero_right)
qed

lemma print_pending:
  assumes "condensing s" "t_last s = Some (tc, n, r, m)"
  shows "\<exists>v. tst_print e tc n r m s =
    Some (s\<lparr>t_exitval := v, t_lines := t_lines s @ rendered (tcid s) (pending s)\<rparr>)"
proof -
  have c: "t_file s = None" "t_out s" "t_mode s = NOPASS" "tc = tcid s" "TTYPE_RESULT r = r" "r \<noteq> TWARN"
    using assms by (auto simp: condensing_def)
  show ?thesis
    using tst_print_plain [OF c(1,2), of e tc n r m] no_errno [OF c(5)] c assms(2)
    by (auto simp: suppressed_def rendered_def pending_def result_line_def simp del: One_nat_def)
qed

lemma condense_step:
  assumes "condensing s" "m \<noteq> []" "TTYPE_RESULT ty \<notin> {TWARN, TINFO}"
  shows "\<exists>s'. tst_resm e ty m s = Some s' \<and> condensing s' \<and> tcid s' = tcid s \<and> tst_count s' = tst_count s + 1 \<and>
    (if map snd (pending s) = [(TTYPE_RESULT ty, shown m)] then t_lines s' = t_lines s \<and> pending s' = pending s
     else t_lines s' = t_lines s @ rendered (tcid s) (pending s) \<and> pending s' = [(tst_count s + 1, TTYPE_RESULT ty, shown m)])"
proof -
  let ?s = "s\<lparr>t_exitval := t_exitval s OR TTYPE_RESULT ty\<rparr>"
  have c: "condensing ?s" using assms(1) by (cases "t_last s") (auto simp: condensing_def)
  have f: "t_file s = None" "t_out s" "t_mode s = NOPASS" "\<not> t_first s" "0 \<le> tst_count s"
    using assms(1) by (simp_all add: condensing_def)
  have u: "s\<lparr>t_exitval := v, t_out := True\<rparr> = s\<lparr>t_exitval := v\<rparr>" for v using f(2) by (cases s) simp
  have e: "tst_resm e ty m s = (tst_condense e (tst_count ?s + 1) ty (shown m) ?s \<bind> (\<lambda>s. Some (s\<lparr>tst_count := tst_count s + 1\<rparr>)))"
    using assms(2,3) f by (auto simp: u tst_res_resm [symmetric] tst_res_def EXPAND_simps Let_def c_simps check_env_def)
  show ?thesis
  proof (cases "t_last s")
    case None
    then show ?thesis using e f assms(3) c
      by (auto simp: tst_condense_def Let_def pending_def rendered_def condensing_def)
  next
    case (Some l)
    obtain tc n r m' where l: "l = (tc, n, r, m')" by (cases l) auto
    with Some assms(1) have tc: "tc = tcid s" by (auto simp: condensing_def)
    have "s\<lparr>t_exitval := t_exitval s OR TTYPE_RESULT ty, t_file := None\<rparr> = ?s" using f(1) by simp
    with print_pending [OF c, of tc n r m' e] Some l
    obtain v where p: "tst_print e tc n r m' (?s\<lparr>t_file := None\<rparr>) =
        Some (?s\<lparr>t_exitval := v, t_lines := t_lines s @ rendered (tcid s) (pending ?s)\<rparr>)" by auto
    have "pending ?s = pending s" by (simp add: pending_def)
    with p e f Some l tc assms(3) c show ?thesis
      by (auto simp: tst_condense_def Let_def pending_def condensing_def)
  qed
qed

lemma condense_aside:
  assumes "condensing s" "m \<noteq> []" "TTYPE_RESULT ty \<in> {TWARN, TINFO}"
  shows "\<exists>s'. tst_resm e ty m s = Some s' \<and> condensing s' \<and> tcid s' = tcid s \<and> tst_count s' = tst_count s \<and>
    t_lines s' = t_lines s @ warnings (tcid s) [(ty, m)] \<and> pending s' = pending s"
proof -
  let ?s = "s\<lparr>t_exitval := t_exitval s OR TTYPE_RESULT ty\<rparr>"
  have f: "t_file ?s = None" "t_out ?s" "t_mode s = NOPASS" "\<not> t_first s" "t_errno s = 0" "t_test_errno s = 0"
    using assms(1) by (simp_all add: condensing_def)
  have u: "s\<lparr>t_exitval := v, t_out := True\<rparr> = s\<lparr>t_exitval := v\<rparr>" for v using f(2) by (cases s) simp
  have e: "tst_resm e ty m s = tst_print e (tcid s) 0 ty (shown m) ?s"
    using assms(2,3) f(4) by (auto simp: u tst_res_resm [symmetric] tst_res_def EXPAND_simps Let_def c_simps check_env_def)
  have w: "strttype ty = ''TWARN''" if "TTYPE_RESULT ty = TWARN"
    by (simp add: strttype_def that pair_lookup_def)
  have z: "strerrnodef 0 = ''???''" by (simp add: strerrnodef_def pair_lookup_def)
  show ?thesis
    unfolding e tst_print_plain [OF f(1,2)] using assms(1,3) f(3,5,6) w z
    by (auto simp: condensing_def pending_def warnings_def result_of_def suppressed_def result_line_def split: option.splits)
qed

lemma condense_run:
  assumes "condensing s" "\<forall>(ty, m) \<in> set rs. m \<noteq> []"
  shows "\<exists>s'. reports e rs s = Some s' \<and> condensing s' \<and> tcid s' = tcid s \<and>
    t_lines s' @ rendered (tcid s) (pending s') = t_lines s @ lines_after (tcid s) (pending s) (tst_count s) rs"
  using assms
proof (induction rs arbitrary: s)
  case Nil
  then show ?case by (cases "t_last s") (auto simp: reports_def pending_def lines_after_def rendered_def warnings_def)
next
  case (Cons x rs)
  obtain ty m where x: "x = (ty, m)" by (cases x) auto
  with Cons.prems have m: "m \<noteq> []" by auto
  have one: "pending s = [] \<or> (\<exists>p. pending s = [p])" by (auto simp: pending_def split: option.split)
  have "\<exists>s1. tst_resm e ty m s = Some s1 \<and> condensing s1 \<and> tcid s1 = tcid s \<and>
      t_lines s1 @ lines_after (tcid s) (pending s1) (tst_count s1) rs =
      t_lines s @ lines_after (tcid s) (pending s) (tst_count s) (x # rs)"
  proof (cases "aside x")
    case True
    then have "TTYPE_RESULT ty \<in> {TWARN, TINFO}" by (simp add: x aside_def result_of_def)
    with condense_aside [OF Cons.prems(1) m this, of e] True x show ?thesis by (auto simp: lines_after_aside)
  next
    case False
    then have "TTYPE_RESULT ty \<notin> {TWARN, TINFO}" by (simp add: x aside_def result_of_def)
    from condense_step [OF Cons.prems(1) m this, of e] obtain s1 where s1: "tst_resm e ty m s = Some s1" "condensing s1"
      "tcid s1 = tcid s" "tst_count s1 = tst_count s + 1"
      "if map snd (pending s) = [result_of x] then t_lines s1 = t_lines s \<and> pending s1 = pending s
       else t_lines s1 = t_lines s @ rendered (tcid s) (pending s) \<and> pending s1 = [(tst_count s + 1, result_of x)]"
      by (auto simp: x result_of_def)
    from one have "length (pending s) \<le> 1" "take 1 (pending s) = pending s" by auto
    with s1 show ?thesis by (auto simp: lines_after_result [OF False] split: if_splits)
  qed
  then obtain s1 where s1: "tst_resm e ty m s = Some s1" "condensing s1" "tcid s1 = tcid s"
    "t_lines s1 @ lines_after (tcid s) (pending s1) (tst_count s1) rs =
     t_lines s @ lines_after (tcid s) (pending s) (tst_count s) (x # rs)" by blast
  from Cons.IH [OF s1(2)] Cons.prems(2) s1 x show ?case by (auto simp: reports_def)
qed

text \<open>C5: under \<open>TOUTPUT=NOPASS\<close>, what a test prints in all, whatever it reports (the flush at exit included), is the
output of the specification \<open>nopass_lines\<close>: every WARN at once, and of the numbered results the first of each run of equal ones
when the run is over, if it is a FAIL or a BROK.\<close>

theorem tst_nopass_output:
  assumes "env_toutput e = Some ''NOPASS''" "\<forall>(ty, m) \<in> set rs. m \<noteq> []"
  shows "\<exists>s. (reports e rs (tst_init tc) \<bind> tst_exit e) = Some s \<and> t_lines s = nopass_lines tc 0 rs"
proof (cases rs)
  case Nil
  then show ?thesis by (simp add: reports_def tst_init_def tst_exit_def tst_flush_def)
next
  case (Cons x rs')
  let ?s = "(tst_init tc)\<lparr>t_out := True, t_first := False, t_mode := NOPASS\<rparr>"
  obtain ty m where x: "x = (ty, m)" by (cases x) auto
  have "m \<noteq> []" using assms(2) Cons x by auto
  then have "tst_resm e ty m (tst_init tc) = tst_resm e ty m ?s"
    using assms(1) by (simp add: tst_res_resm [symmetric] tst_res_def EXPAND_simps Let_def tst_init_def check_env_def)
  then have r: "reports e rs (tst_init tc) = reports e rs ?s" using Cons x by (simp add: reports_def)
  have "condensing ?s" by (simp add: condensing_def tst_init_def)
  from condense_run [OF this assms(2), of e] obtain s where s: "reports e rs ?s = Some s" "condensing s" "tcid s = tc"
    "t_lines s @ rendered tc (pending s) = nopass_lines tc 0 rs"
    by (auto simp: tst_init_def pending_def lines_after_def)
  show ?thesis
  proof (cases "t_last s")
    case None
    with r s show ?thesis by (auto simp: tst_exit_def tst_flush_def pending_def rendered_def)
  next
    case (Some l)
    obtain tc' n r' m' where l: "l = (tc', n, r', m')" by (cases l) auto
    from print_pending [OF s(2), of tc' n r' m' e] Some l s(3,4) r s(1,2) show ?thesis
      by (auto simp: tst_exit_def tst_flush_def condensing_def)
  qed
qed

lemma tst_nopass_output_witness:
  "\<exists>s. (reports (plain_env\<lparr>env_toutput := Some ''NOPASS''\<rparr>)
      [(TPASS, ''ok''), (TFAIL, ''read''), (TWARN, ''slow''), (TFAIL, ''read''), (TINFO, ''x''), (TFAIL, ''write'')] (tst_init ''dma'')
      \<bind> tst_exit (plain_env\<lparr>env_toutput := Some ''NOPASS''\<rparr>)) = Some s \<and>
    t_lines s = [Result_line False ''dma'' 0 ''TWARN'' ''slow'' None None, Result_line False ''dma'' 2 ''TFAIL'' ''read'' None None,
      Result_line False ''dma'' 4 ''TFAIL'' ''write'' None None]"
proof -
  let ?rs = "[(TPASS, ''ok''), (TFAIL, ''read''), (TWARN, ''slow''), (TFAIL, ''read''), (TINFO, ''x''), (TFAIL, ''write'')]"
  have "nopass_lines ''dma'' 0 ?rs = [Result_line False ''dma'' 0 ''TWARN'' ''slow'' None None,
      Result_line False ''dma'' 2 ''TFAIL'' ''read'' None None, Result_line False ''dma'' 4 ''TFAIL'' ''write'' None None]"
    by code_simp
  with tst_nopass_output [of "plain_env\<lparr>env_toutput := Some ''NOPASS''\<rparr>" ?rs "''dma''"] show ?thesis by simp
qed

section \<open>A file that cannot be opened\<close>

lemma tst_print_unreadable:
  assumes "tst_print e tc n ty m s = Some s'"
  shows "fst (snd (cat_file e f)) \<noteq> None \<longrightarrow> t_file s = Some f \<longrightarrow> t_mode s \<noteq> DISCARD \<longrightarrow>
    suppressed (t_mode s) (TTYPE_RESULT ty)"
proof (rule tst_print.raw_induct [where P = "\<lambda>e tc n ty m s s'. fst (snd (cat_file e f)) \<noteq> None \<longrightarrow> t_file s = Some f \<longrightarrow>
    t_mode s \<noteq> DISCARD \<longrightarrow> suppressed (t_mode s) (TTYPE_RESULT ty)", OF _ assms])
  fix tst_print :: "tenv \<Rightarrow> string \<Rightarrow> int \<Rightarrow> int \<Rightarrow> string \<Rightarrow> tst \<Rightarrow> tst option" and e tc n ty m s s'
  assume IH: "\<And>e tc n ty m s s'. tst_print e tc n ty m s = Some s' \<Longrightarrow> fst (snd (cat_file e f)) \<noteq> None \<longrightarrow> t_file s = Some f \<longrightarrow>
      t_mode s \<noteq> DISCARD \<longrightarrow> suppressed (t_mode s) (TTYPE_RESULT ty)"
  let ?s = "s\<lparr>t_exitval := t_exitval s OR TTYPE_RESULT ty, t_lines := t_lines s @ [result_line tc n ty m (s\<lparr>t_exitval := t_exitval s OR TTYPE_RESULT ty\<rparr>)]\<rparr>"
  assume step: "(let s = s\<lparr>t_exitval := t_exitval s OR TTYPE_RESULT ty\<rparr>
     in if suppressed (t_mode s) (TTYPE_RESULT ty) then Some s
        else if \<not> t_out s then None
        else let s = s\<lparr>t_lines := t_lines s @ [result_line tc n ty m s]\<rparr>
        in case t_file s of
            None \<Rightarrow> Some s
          | Some f \<Rightarrow> (case cat_file e f of (copied, no_open, no_write, no_read, no_close) \<Rightarrow> do {
              s \<leftarrow> (case no_open of None \<Rightarrow> Some s
                | Some w \<Rightarrow> if length w < MAXMESG then tst_print e (tcid s) 0 TWARN w s else None);
              let s = (case copied of None \<Rightarrow> s | Some txt \<Rightarrow> s\<lparr>t_lines := t_lines s @ [File_text txt]\<rparr>);
              s \<leftarrow> (case no_write of None \<Rightarrow> Some s
                | Some w \<Rightarrow> if length w < MAXMESG then tst_print e (tcid s) 0 TWARN w s else None);
              s \<leftarrow> (case no_read of None \<Rightarrow> Some s
                | Some w \<Rightarrow> if length w < MAXMESG then tst_print e (tcid s) 0 TWARN w s else None);
              s \<leftarrow> (case no_close of None \<Rightarrow> Some s
                | Some w \<Rightarrow> if length w < MAXMESG then tst_print e (tcid s) 0 TWARN w s else None);
              Some (s\<lparr>t_file := None\<rparr>)
            })) = Some s'"
  show "fst (snd (cat_file e f)) \<noteq> None \<longrightarrow> t_file s = Some f \<longrightarrow> t_mode s \<noteq> DISCARD \<longrightarrow> suppressed (t_mode s) (TTYPE_RESULT ty)"
  proof (intro impI, rule ccontr)
    assume a: "fst (snd (cat_file e f)) \<noteq> None" "t_file s = Some f" "t_mode s \<noteq> DISCARD" "\<not> suppressed (t_mode s) (TTYPE_RESULT ty)"
    obtain tx wo w r c where cf: "cat_file e f = (tx, Some wo, w, r, c)"
      using a(1) by (cases "cat_file e f") auto
    have "\<exists>t. tst_print e (tcid ?s) 0 TWARN wo ?s = Some t"
      using step a(2,4) cf by (auto simp: Let_def bind_eq_Some_conv split: if_splits)
    then obtain t where "tst_print e (tcid ?s) 0 TWARN wo ?s = Some t" by blast
    from IH [OF this] a have "suppressed (t_mode s) (TTYPE_RESULT TWARN)" by simp
    then show False using a(3) by (simp add: suppressed_def TTYPE_RESULT_def)
  qed
qed

text \<open>A result reported with an existing file that cannot be opened is never finished: \<open>cat_file\<close>
reports the failed fopen through \<open>tst_print\<close>, which calls \<open>cat_file\<close> on the same file again, because \<open>File\<close> is
cleared only after it returns.\<close>

theorem tst_res_unreadable:
  assumes "env_files e f = Some tf" "f_open tf \<noteq> None" "env_toutput e = None"
  shows "tst_res e ttype (Some f) tmesg (tst_init tc) = None"
proof (rule ccontr)
  assume n: "tst_res e ttype (Some f) tmesg (tst_init tc) \<noteq> None"
  let ?s = "(tst_init tc)\<lparr>t_exitval := 0 OR TTYPE_RESULT ttype, t_out := True, t_first := False, t_mode := VERBOSE, t_file := Some f\<rparr>"
  have "\<exists>k t. tst_print e (tcid ?s) k ttype (shown tmesg) ?s = Some t"
    using n assms by (auto simp: tst_res_def EXPAND_simps Let_def c_simps check_env_def tst_init_def split: if_splits Option.bind_splits)
  then obtain k t where "tst_print e (tcid ?s) k ttype (shown tmesg) ?s = Some t" by blast
  from tst_print_unreadable [OF this, of f] assms(1,2) show False
    by (auto simp: cat_file_def suppressed_def Let_def)
qed

lemma tst_res_unreadable_witness:
  "tst_res (plain_env\<lparr>env_files := (\<lambda>_. None)(''log'' \<mapsto> \<lparr>f_open = Some 13, f_text = [], f_short = None, f_rderr = None, f_closeerr = None\<rparr>)\<rparr>)
     TFAIL (Some ''log'') ''failed'' (tst_init ''dma'') = None"
  by (rule tst_res_unreadable [where tf = "\<lparr>f_open = Some 13, f_text = [], f_short = None, f_rderr = None, f_closeerr = None\<rparr>"])
    (simp_all add: plain_env_def)

text \<open>\<open>tst_brk\<close> with a type other than FAIL, BROK, CONF and RETR as the first report of a test writes its
warning to \<open>T_out\<close>, which only \<open>tst_res\<close> sets: a write to a NULL stream.\<close>

theorem tst_brk_invalid_first:
  "tst_brk e TINFO fname func tmesg (tst_init tc) = None"
  by (simp add: tst_brk_def EXPAND_simps Let_def c_simps TTYPE_RESULT_def tst_print.simps suppressed_def tst_init_def)

section \<open>Breaking a test\<close>

text \<open>What \<open>tst_brk\<close> relies on in a cleanup function: called after a report (so that \<open>T_out\<close> is set), it may report and
break in turn, but it returns, leaves the nesting count as it found it, and adds \<open>v\<close> to the exit value.\<close>

locale cleanup =
  fixes f :: "tst \<Rightarrow> tst option" and v :: int
  assumes returns: "tst_inv s \<Longrightarrow> t_out s \<Longrightarrow> 0 < brk_entered s \<Longrightarrow> t_exit s = None \<Longrightarrow>
    \<exists>s'. f s = Some s' \<and> tst_inv s' \<and> brk_entered s' = brk_entered s \<and> t_exit s' = None \<and> t_exitval s' = t_exitval s OR v"

text \<open>The reports of \<open>tst_brk\<close> itself, before the cleanup.\<close>

definition brk_types :: "int list" where "brk_types = [TFAIL, TBROK, TCONF, TRETR]"

lemma tst_inv_brk [simp]: "tst_inv (s\<lparr>brk_entered := n\<rparr>) = tst_inv s"
  by (cases "t_last s") (auto simp: tst_inv_def)

definition brk_reports :: "tenv \<Rightarrow> int \<Rightarrow> string \<Rightarrow> tst \<Rightarrow> tst option" where
  "brk_reports e ttype tmesg s = do {
     s \<leftarrow> tst_resm e ttype tmesg s;
     if brk_entered s = 0 then
         (if TTYPE_RESULT ttype = TCONF then tst_resm e ttype ''Remaining cases not appropriate for configuration'' s
          else if TTYPE_RESULT ttype = TRETR then tst_resm e ttype ''Remaining cases retired'' s
          else if TTYPE_RESULT ttype = TBROK then tst_resm e TBROK ''Remaining cases broken'' s
          else Some s)
     else Some s }"

lemma brk_reports_ok:
  assumes "tst_inv s" "m \<noteq> []"
  shows "\<exists>s'. brk_reports e ttype m s = Some s' \<and> tst_inv s' \<and> t_out s' \<and> brk_entered s' = brk_entered s \<and>
    t_exit s' = t_exit s \<and> t_exitval s' = t_exitval s OR TTYPE_RESULT ttype"
proof -
  obtain s1 where s1: "tst_resm e ttype m s = Some s1" "reported ttype s s1"
    using tst_resm_plain [OF assms] by blast
  have i: "tst_inv s1" using s1(2) by (simp add: reported_def)
  have again: "\<exists>s2. tst_resm e t msg s1 = Some s2 \<and> reported t s1 s2" if "msg \<noteq> []" for t msg
    using tst_resm_plain [OF i that] by blast
  obtain c where c: "tst_resm e ttype ''Remaining cases not appropriate for configuration'' s1 = Some c" "reported ttype s1 c"
    using again [of "''Remaining cases not appropriate for configuration''"] by auto
  obtain r where r: "tst_resm e ttype ''Remaining cases retired'' s1 = Some r" "reported ttype s1 r"
    using again [of "''Remaining cases retired''"] by auto
  obtain b where b: "tst_resm e TBROK ''Remaining cases broken'' s1 = Some b" "reported TBROK s1 b"
    using again [of "''Remaining cases broken''"] by auto
  have t: "TTYPE_RESULT TBROK = TBROK" by (simp add: TTYPE_RESULT_def)
  show ?thesis using s1 c r b t
    by (simp add: brk_reports_def reported_def or.assoc)
qed

lemma tst_brkm_eq:
  assumes "tmesg \<noteq> []" "TTYPE_RESULT ttype \<in> set brk_types"
  shows "tst_brkm e ttype func tmesg s = brk_reports e ttype tmesg s \<bind> (\<lambda>s. (case func of
         None \<Rightarrow> Some s
       | Some f \<Rightarrow> do {
           s \<leftarrow> f (s\<lparr>brk_entered := brk_entered s + 1\<rparr>);
           Some (if t_exit s = None then s\<lparr>brk_entered := brk_entered s - 1\<rparr> else s)
         }) \<bind> (\<lambda>s. if t_exit s = None \<and> brk_entered s = 0 then tst_exit e s else Some s))"
  using assms by (auto simp: tst_brkm_brk tst_brk_def brk_reports_def tst_res_resm EXPAND_simps Let_def c_simps brk_types_def cong: if_cong)

text \<open>What follows a call that may have ended the process.\<close>

definition if_running :: "(tst \<Rightarrow> tst option) \<Rightarrow> tst \<Rightarrow> tst option" where
  "if_running f s = (if t_exit s = None then f s else Some s)"

lemma tst_brkm_nested:
  assumes "tst_inv s" "0 < brk_entered s" "t_exit s = None" "m \<noteq> []" "TTYPE_RESULT ttype \<in> set brk_types"
  shows "\<exists>s'. tst_brkm e ttype None m s = Some s' \<and> tst_inv s' \<and> brk_entered s' = brk_entered s \<and>
      t_exit s' = None \<and> t_exitval s' = t_exitval s OR TTYPE_RESULT ttype \<and> t_out s'"
  using tst_brkm_eq [OF assms(4,5), of e None s] brk_reports_ok [OF assms(1,4), of e ttype] assms(2,3) by auto

lemma brk_types_self: "TTYPE_RESULT TBROK \<in> set brk_types" "TTYPE_RESULT TBROK = TBROK"
  by (simp_all add: brk_types_def TTYPE_RESULT_def)

context cleanup
begin

text \<open>The end of a test that is broken: its reports, then the cleanup function, called once, then the exit.\<close>

lemma tst_brkm_runs:
  assumes "tst_inv s" "brk_entered s = 0" "t_exit s = None" "m \<noteq> []" "TTYPE_RESULT ttype \<in> set brk_types"
  shows "\<exists>s1 s2 s'. tst_brkm e ttype (Some f) m s = Some s' \<and> brk_reports e ttype m s = Some s1 \<and>
    f (s1\<lparr>brk_entered := 1\<rparr>) = Some s2 \<and> tst_exit e (s2\<lparr>brk_entered := 0\<rparr>) = Some s' \<and>
    tst_inv s1 \<and> t_out s1 \<and> t_exit s1 = None \<and> t_exitval s1 = t_exitval s OR TTYPE_RESULT ttype \<and>
    t_exit s' = Some ((t_exitval s OR TTYPE_RESULT ttype OR v) AND NOT (TRETR OR TINFO OR TCONF))"
proof -
  obtain s1 where s1: "brk_reports e ttype m s = Some s1" "tst_inv s1" "t_out s1" "brk_entered s1 = 0" "t_exit s1 = None"
    "t_exitval s1 = t_exitval s OR TTYPE_RESULT ttype"
    using brk_reports_ok [OF assms(1,4), of e ttype] assms(2,3) by auto
  obtain s2 where s2: "f (s1\<lparr>brk_entered := 1\<rparr>) = Some s2" "tst_inv s2" "brk_entered s2 = 1"
    "t_exit s2 = None" "t_exitval s2 = t_exitval s1 OR v"
    using returns [of "s1\<lparr>brk_entered := 1\<rparr>"] s1(2-5) by auto
  have "tst_inv (s2\<lparr>brk_entered := 0\<rparr>)" using s2(2) by simp
  from tst_exit_plain [OF this, of e] show ?thesis
    using tst_brkm_eq [OF assms(4,5), of e "Some f" s] s1 s2 by (auto simp: or.assoc)
qed

lemma tst_brkm_exits:
  assumes "tst_inv s" "brk_entered s = 0" "t_exit s = None" "m \<noteq> []" "TTYPE_RESULT ttype \<in> set brk_types"
  shows "\<exists>s'. tst_brkm e ttype (Some f) m s = Some s' \<and>
    t_exit s' = Some ((t_exitval s OR TTYPE_RESULT ttype OR v) AND NOT (TRETR OR TINFO OR TCONF))"
  using tst_brkm_runs [OF assms] by blast

text \<open>The cleanup function may begin with a \<open>tst_brkm\<close> of its own, which returns.\<close>

lemma after_break:
  "cleanup (\<lambda>s. tst_brkm e TBROK None (c # m) s \<bind> if_running f) (TBROK OR v)"
proof
  fix s
  assume s: "tst_inv s" "t_out s" "0 < brk_entered s" "t_exit s = None"
  obtain s1 where s1: "tst_brkm e TBROK None (c # m) s = Some s1" "tst_inv s1" "brk_entered s1 = brk_entered s"
    "t_exit s1 = None" "t_exitval s1 = t_exitval s OR TBROK" "t_out s1"
    using tst_brkm_nested [OF s(1,3,4) _ brk_types_self(1), of "c # m" e] brk_types_self(2) by auto
  from returns [OF s1(2,6)] s1 s(3) show "\<exists>s'. (tst_brkm e TBROK None (c # m) s \<bind> if_running f) = Some s' \<and> tst_inv s' \<and>
      brk_entered s' = brk_entered s \<and> t_exit s' = None \<and> t_exitval s' = t_exitval s OR (TBROK OR v)"
    by (auto simp: if_running_def or.assoc)
qed

end

text \<open>A cleanup that reports and one that breaks in turn: a nested \<open>tst_brkm\<close> without a cleanup of its own
returns to its caller.\<close>

interpretation reporting: cleanup "tst_resm e ttype (c # m)" "TTYPE_RESULT ttype" for e ttype c m
proof
  fix s :: tst
  assume "tst_inv s" "t_exit s = None"
  then show "\<exists>s'. tst_resm e ttype (c # m) s = Some s' \<and> tst_inv s' \<and> brk_entered s' = brk_entered s \<and>
      t_exit s' = None \<and> t_exitval s' = t_exitval s OR TTYPE_RESULT ttype"
    using tst_resm_plain [of s "c # m" e ttype] by (auto simp: reported_def)
qed

interpretation breaking: cleanup "tst_brkm e TBROK None (c # m)" TBROK for e c m
  by unfold_locales (use tst_brkm_nested [OF _ _ _ _ brk_types_self(1)] brk_types_self(2) in fastforce)

text \<open>C29: a test is broken with a FAIL, BROK, CONF or RETR, and its cleanup function itself fails and calls \<open>tst_brkm\<close> (as
the SAFE macros do) before the rest \<open>f\<close> of it.  The inner \<open>tst_brkm\<close> returns: \<open>f\<close> runs, once, in the still running process;
the process exits after it, at the outer \<open>tst_brkm\<close>, with the status of everything reported so far, the outer type, the BROK of the
cleanup and what \<open>f\<close> reports, without the RETR, INFO and CONF bits.\<close>

theorem tst_brkm_in_cleanup:
  assumes "cleanup f v" "tst_inv s" "brk_entered s = 0" "t_exit s = None" "TTYPE_RESULT ttype \<in> {TFAIL, TBROK, TCONF, TRETR}"
  shows "\<exists>s1 s2 s'. tst_brkm e ttype (Some (\<lambda>s. tst_brkm e TBROK None (c # m) s \<bind> if_running f)) (c' # m') s = Some s' \<and>
    t_exit s1 = None \<and> t_exitval s1 = t_exitval s OR TTYPE_RESULT ttype OR TBROK \<and>
    f s1 = Some s2 \<and> t_exit s2 = None \<and> tst_exit e (s2\<lparr>brk_entered := 0\<rparr>) = Some s' \<and>
    t_exit s' = Some ((t_exitval s OR TTYPE_RESULT ttype OR TBROK OR v) AND NOT (TRETR OR TINFO OR TCONF))"
proof -
  have t: "TTYPE_RESULT ttype \<in> set brk_types" using assms(5) by (simp add: brk_types_def)
  note cl = cleanup.after_break [OF assms(1), of e c m]
  obtain s0 s2 s' where r: "tst_brkm e ttype (Some (\<lambda>s. tst_brkm e TBROK None (c # m) s \<bind> if_running f)) (c' # m') s = Some s'"
    "tst_brkm e TBROK None (c # m) (s0\<lparr>brk_entered := 1\<rparr>) \<bind> if_running f = Some s2"
    "tst_exit e (s2\<lparr>brk_entered := 0\<rparr>) = Some s'" "tst_inv s0" "t_exit s0 = None"
    "t_exitval s0 = t_exitval s OR TTYPE_RESULT ttype"
    "t_exit s' = Some ((t_exitval s OR TTYPE_RESULT ttype OR (TBROK OR v)) AND NOT (TRETR OR TINFO OR TCONF))"
    using cleanup.tst_brkm_runs [OF cl assms(2-4) _ t, of "c' # m'" e] by auto
  obtain s1 where s1: "tst_brkm e TBROK None (c # m) (s0\<lparr>brk_entered := 1\<rparr>) = Some s1" "tst_inv s1" "brk_entered s1 = 1"
    "t_exit s1 = None" "t_exitval s1 = t_exitval s0 OR TBROK" "t_out s1"
    using tst_brkm_nested [of "s0\<lparr>brk_entered := 1\<rparr>" "c # m" TBROK e] r(4,5) brk_types_self by auto
  have f: "f s1 = Some s2" using r(2) s1(1,4) by (simp add: if_running_def)
  then have "t_exit s2 = None" using cleanup.returns [OF assms(1) s1(2,6) _ s1(4)] s1(3) by auto
  with r s1 f show ?thesis by (auto simp: or.assoc)
qed

lemma tst_brkm_in_cleanup_witness:
  "\<exists>s'. tst_brkm plain_env TCONF
      (Some (\<lambda>s. tst_brkm plain_env TBROK None ''close'' s \<bind> if_running (tst_resm plain_env TFAIL ''left''))) ''no device''
      (tst_init ''dma'') = Some s' \<and> t_exit s' = Some 3"
proof -
  have "cleanup (tst_resm plain_env TFAIL ''left'') (TTYPE_RESULT TFAIL)" by (rule reporting.cleanup_axioms)
  from tst_brkm_in_cleanup [OF this tst_init_inv, of "''dma''" TCONF plain_env "CHR ''c''" "''lose''" "CHR ''n''" "''o device''"]
  show ?thesis by (auto simp: TTYPE_RESULT_def tst_init_def)
qed

end
