(* ===== verification/CString.thy ===== *)
theory CString
imports Prelude
begin

text \<open>The C library functions on text that the sources use: \<open>atoi\<close>, \<open>sscanf\<close> with \<open>%i\<close> and \<open>%d\<close>, \<open>strchr\<close>
and \<open>getopt\<close> (the GNU one: arguments that are no options are skipped).\<close>

section \<open>Numbers\<close>

definition isspace :: "char \<Rightarrow> bool" where
  "isspace c \<longleftrightarrow> c = CHR '' '' \<or> (9 \<le> (of_char c :: nat) \<and> (of_char c :: nat) \<le> 13)"

definition digit_of :: "char \<Rightarrow> int option" where
  "digit_of c = (let n = int (of_char c :: nat) in
     if 48 \<le> n \<and> n \<le> 57 then Some (n - 48)
     else if 97 \<le> n \<and> n \<le> 122 then Some (n - 87)
     else if 65 \<le> n \<and> n \<le> 90 then Some (n - 55) else None)"

text \<open>The longest prefix of digits in a base: its value so far, its length, and what follows.\<close>

fun read_digits :: "int \<Rightarrow> int \<Rightarrow> nat \<Rightarrow> string \<Rightarrow> int \<times> nat \<times> string" where
  "read_digits base acc n [] = (acc, n, [])"
| "read_digits base acc n (c # cs) = (case digit_of c of
      None \<Rightarrow> (acc, n, c # cs)
    | Some d \<Rightarrow> if d < base then read_digits base (acc * base + d) (n + 1) cs else (acc, n, c # cs))"

definition read_sign :: "string \<Rightarrow> bool \<times> string" where
  "read_sign s = (case s of [] \<Rightarrow> (False, [])
     | c # cs \<Rightarrow> if c = CHR ''-'' then (True, cs) else if c = CHR ''+'' then (False, cs) else (False, s))"

text \<open>The base that \<open>strtol\<close> with base 0 and \<open>%i\<close> find.\<close>

definition read_base :: "string \<Rightarrow> int \<times> string" where
  "read_base s = (case s of
      c # x # cs \<Rightarrow> if c = CHR ''0'' \<and> (x = CHR ''x'' \<or> x = CHR ''X'') then (16, cs)
        else if c = CHR ''0'' then (8, s) else (10, s)
    | _ \<Rightarrow> (10, s))"

text \<open>\<open>scan_int\<close>: \<open>None\<close> when there is no number; otherwise its value and the rest.\<close>

definition scan_int :: "int option \<Rightarrow> string \<Rightarrow> (int \<times> string) option" where
  "scan_int base s =
    (let (neg, s1) = read_sign (dropWhile isspace s);
         (b, s2) = (case base of Some b \<Rightarrow> (b, s1) | None \<Rightarrow> read_base s1);
         (v, n, rest) = read_digits b 0 0 s2
     in if n = 0 then None else Some (if neg then - v else v, rest))"

definition sscanf_i :: "string \<Rightarrow> int option" where "sscanf_i s = map_option fst (scan_int None s)"
definition sscanf_d :: "string \<Rightarrow> int option" where "sscanf_d s = map_option fst (scan_int (Some 10) s)"

definition atoi :: "string \<Rightarrow> int" where
  "atoi s = (case scan_int (Some 10) s of None \<Rightarrow> 0 | Some (v, _) \<Rightarrow> v)"

text \<open>Printing and reading back.\<close>

lemma digit_of_digit [simp]: "n < 10 \<Longrightarrow> digit_of (char_of (48 + n)) = Some (int n)"
  by (simp add: digit_of_def)

lemma read_nat_to_string:
  "\<exists>k. k > 0 \<and> (\<forall>a m ys. read_digits 10 a m (nat_to_string n @ ys) = read_digits 10 (a * 10 ^ k + int n) (m + k) ys)"
proof (induction n rule: nat_to_string.induct)
  case (1 n)
  show ?case
  proof (cases "n < 10")
    case True
    then have s: "nat_to_string n = [char_of (48 + n)]" by (simp add: nat_to_string.simps [of n])
    show ?thesis using True by (intro exI [of _ 1]) (simp add: s)
  next
    case False
    have s: "nat_to_string n = nat_to_string (n div 10) @ [char_of (48 + n mod 10)]"
      using False by (simp add: nat_to_string.simps [of n])
    obtain k where k: "k > 0" "\<And>a m ys. read_digits 10 a m (nat_to_string (n div 10) @ ys) =
        read_digits 10 (a * 10 ^ k + int (n div 10)) (m + k) ys"
      using "1.IH" False by auto
    have v: "(a * 10 ^ k + int (n div 10)) * 10 + int (n mod 10) = a * 10 ^ Suc k + int n" for a
    proof -
      have "int (n div 10) * 10 + int (n mod 10) = int n" by (metis of_nat_add of_nat_mult of_nat_numeral div_mult_mod_eq)
      then show ?thesis by (simp add: algebra_simps)
    qed
    have d: "digit_of (char_of (48 + n mod 10)) = Some (int (n mod 10))" by (rule digit_of_digit) simp
    show ?thesis
      by (intro exI [of _ "Suc k"] conjI allI) (simp_all only: s append_assoc append.simps k(2) read_digits.simps d v option.simps, simp_all)
  qed
qed

lemma nat_to_string_head:
  "\<exists>(d :: nat) cs. nat_to_string n = char_of (48 + d) # cs \<and> d < 10"
proof (induction n rule: nat_to_string.induct)
  case (1 n)
  show ?case
  proof (cases "n < 10")
    case True
    then show ?thesis by (intro exI [of _ n]) (simp add: nat_to_string.simps [of n])
  next
    case False
    then obtain d :: nat and cs where "nat_to_string (n div 10) = char_of (48 + d) # cs" "d < 10" using 1 by blast
    with False show ?thesis by (intro exI [of _ d]) (simp add: nat_to_string.simps [of n])
  qed
qed

text \<open>\<open>atoi\<close> and \<open>%d\<close> read back what \<open>%d\<close> printed.\<close>

lemma scan_int_prefix:
  assumes "case ys of [] \<Rightarrow> True | c # _ \<Rightarrow> digit_of c = None"
  shows "scan_int (Some 10) (int_to_string i @ ys) = Some (i, ys)"
proof -
  obtain d :: nat and cs where h: "nat_to_string (nat \<bar>i\<bar>) = char_of (48 + d) # cs" "d < 10"
    using nat_to_string_head by blast
  have ns: "\<not> isspace (char_of (48 + d))" "char_of (48 + d) \<noteq> CHR ''-''" "char_of (48 + d) \<noteq> CHR ''+''"
    using h(2) by (auto simp: isspace_def char_of_eq_iff take_bit_eq_mod)
  have stop: "read_digits 10 a m ys = (a, m, ys)" for a m using assms by (cases ys) simp_all
  obtain k where k: "k > 0" "read_digits 10 0 0 (nat_to_string (nat \<bar>i\<bar>) @ ys) = (int (nat \<bar>i\<bar>), k, ys)"
    using read_nat_to_string [of "nat \<bar>i\<bar>"] stop by (metis add.left_neutral mult_zero_left)
  show ?thesis
  proof (cases "i < 0")
    case True
    then have "int_to_string i = CHR ''-'' # nat_to_string (nat \<bar>i\<bar>)" by (simp add: int_to_string_def)
    moreover have "\<not> isspace (CHR ''-'')" by (simp add: isspace_def)
    ultimately show ?thesis using k True by (simp add: scan_int_def read_sign_def)
  next
    case False
    then have e: "int_to_string i = nat_to_string (nat \<bar>i\<bar>)" by (simp add: int_to_string_def)
    have "read_sign (dropWhile isspace (nat_to_string (nat \<bar>i\<bar>) @ ys)) = (False, nat_to_string (nat \<bar>i\<bar>) @ ys)"
      using ns h by (simp add: read_sign_def)
    then show ?thesis using k False e by (simp add: scan_int_def)
  qed
qed

lemma scan_int_to_string: "scan_int (Some 10) (int_to_string i) = Some (i, [])"
  using scan_int_prefix [of "[]" i] by simp

lemma atoi_to_string [simp]: "atoi (int_to_string i) = i"
  by (simp add: atoi_def scan_int_to_string)

lemma sscanf_d_to_string [simp]: "sscanf_d (int_to_string i) = Some i"
  by (simp add: sscanf_d_def scan_int_to_string)

section \<open>getopt\<close>

definition strchr :: "string \<Rightarrow> char \<Rightarrow> nat option" where
  "strchr s c = (let n = length (takeWhile (\<lambda>x. x \<noteq> c) s) in if n < length s then Some n else None)"

text \<open>The results of the calls of \<open>getopt\<close> on the arguments after \<open>argv[0]\<close>: the option character and
\<open>optarg\<close>; \<open>?\<close> for an unknown option or a missing argument.  \<open>cs\<close> is the rest of the word being read.\<close>

definition takes_arg :: "string \<Rightarrow> nat \<Rightarrow> bool" where
  "takes_arg os i \<longleftrightarrow> i + 1 < length os \<and> os ! (i + 1) = CHR '':''"

function getopt :: "string \<Rightarrow> string \<Rightarrow> string list \<Rightarrow> (char \<times> string option) list" where
  "getopt os (c # cs) as = (case (if c = CHR '':'' then None else strchr os c) of
      None \<Rightarrow> (CHR ''?'', None) # getopt os cs as
    | Some i \<Rightarrow> if takes_arg os i then
          (if cs \<noteq> [] then (c, Some cs) # getopt os [] as
           else case as of [] \<Rightarrow> [(CHR ''?'', None)] | x # xs \<Rightarrow> (c, Some x) # getopt os [] xs)
        else (c, None) # getopt os cs as)"
| "getopt os [] (a # as) = (if a = ''--'' then []
     else if 2 \<le> length a \<and> hd a = CHR ''-'' then getopt os (tl a) as else getopt os [] as)"
| "getopt os [] [] = []"
  by pat_completeness auto
termination
  by (relation "measures [\<lambda>(os, cs, as). length as, \<lambda>(os, cs, as). length cs]") auto

text \<open>Decimal texts carry no base prefix, so that \<open>%i\<close> reads them as well.\<close>

lemma nat_to_string_first:
  "0 < n \<Longrightarrow> \<exists>(d :: nat) cs. nat_to_string n = char_of (48 + d) # cs \<and> 0 < d \<and> d < 10"
proof (induction n rule: nat_to_string.induct)
  case (1 n)
  show ?case
  proof (cases "n < 10")
    case True
    with 1 show ?thesis by (intro exI [of _ n]) (simp add: nat_to_string.simps [of n])
  next
    case False
    then obtain d :: nat and cs where "nat_to_string (n div 10) = char_of (48 + d) # cs" "0 < d" "d < 10"
      using 1 False div_greater_zero_iff [of n 10] by auto
    with False show ?thesis by (intro exI [of _ d]) (simp add: nat_to_string.simps [of n])
  qed
qed

lemma read_base_nat: "read_base (nat_to_string n) = (10, nat_to_string n) \<or> n = 0"
proof (cases "n = 0")
  case False
  then obtain d :: nat and cs where h: "nat_to_string n = char_of (48 + d) # cs" "0 < d" "d < 10"
    using nat_to_string_first [of n] by auto
  then have "char_of (48 + d) \<noteq> CHR ''0''" by (simp add: char_of_eq_iff take_bit_eq_mod)
  with h show ?thesis by (cases cs) (simp_all add: read_base_def)
qed simp

lemma scan_i_to_string: "scan_int None (int_to_string i) = Some (i, [])"
proof -
  obtain d :: nat and cs where h: "nat_to_string (nat \<bar>i\<bar>) = char_of (48 + d) # cs" "d < 10"
    using nat_to_string_head by blast
  have ns: "\<not> isspace (char_of (48 + d))" "char_of (48 + d) \<noteq> CHR ''-''" "char_of (48 + d) \<noteq> CHR ''+''"
    using h(2) by (auto simp: isspace_def char_of_eq_iff take_bit_eq_mod)
  have m: "\<not> isspace (CHR ''-'')" by (simp add: isspace_def)
  have b: "read_base (nat_to_string (nat \<bar>i\<bar>)) = (10, nat_to_string (nat \<bar>i\<bar>))"
    using read_base_nat [of "nat \<bar>i\<bar>"] by (auto simp: nat_to_string.simps [of 0] read_base_def)
  show ?thesis
    using scan_int_to_string [of i] ns h b m
    by (cases "i < 0") (auto simp: scan_int_def read_sign_def int_to_string_def split: prod.splits)
qed

lemma sscanf_i_to_string [simp]: "sscanf_i (int_to_string i) = Some i"
  by (simp add: sscanf_i_def scan_i_to_string)

text \<open>The characters of a printed number.\<close>

lemma nat_to_string_chars: "c \<in> set (nat_to_string n) \<Longrightarrow> \<exists>d < 10. c = char_of (48 + d :: nat)"
proof (induction n arbitrary: c rule: nat_to_string.induct)
  case (1 n)
  then show ?case
    by (subst (asm) (2) nat_to_string.simps) (auto split: if_splits intro: exI [of _ n] exI [of _ "n mod 10"])
qed

lemma int_to_string_chars:
  "c \<in> set (int_to_string i) \<Longrightarrow> c = CHR ''-'' \<or> (48 \<le> (of_char c :: nat) \<and> (of_char c :: nat) \<le> 57)"
  by (auto simp: int_to_string_def split: if_splits dest!: nat_to_string_chars)

lemma int_to_string_plain:
  "CHR '','' \<notin> set (int_to_string i)" "CHR '':'' \<notin> set (int_to_string i)" "int_to_string i \<noteq> []"
proof -
  show "CHR '','' \<notin> set (int_to_string i)" "CHR '':'' \<notin> set (int_to_string i)"
    using int_to_string_chars [of "CHR '',''" i] int_to_string_chars [of "CHR '':''" i] by auto
  show "int_to_string i \<noteq> []"
    using nat_to_string_head [of "nat \<bar>i\<bar>"] by (auto simp: int_to_string_def)
qed

section \<open>Cutting strings\<close>

text \<open>The pieces between the separators; the calls of \<open>strtok\<close> deliver those that are not empty.\<close>

fun split_on :: "(char \<Rightarrow> bool) \<Rightarrow> string \<Rightarrow> string list" where
  "split_on P [] = [[]]"
| "split_on P (c # cs) = (if P c then [] # split_on P cs else (case split_on P cs of
      [] \<Rightarrow> [[c]] | y # ys \<Rightarrow> (c # y) # ys))"

definition strtok_all :: "(char \<Rightarrow> bool) \<Rightarrow> string \<Rightarrow> string list" where
  "strtok_all P s = filter (\<lambda>t. t \<noteq> []) (split_on P s)"

lemma split_on_nonempty [simp]: "split_on P s \<noteq> []"
  by (induction s) (auto split: list.splits)

lemma split_on_append:
  "\<forall>c \<in> set xs. \<not> P c \<Longrightarrow> P c \<Longrightarrow> split_on P (xs @ c # ys) = xs # split_on P ys"
  by (induction xs) auto

lemma split_on_plain: "\<forall>c \<in> set xs. \<not> P c \<Longrightarrow> split_on P xs = [xs]"
  by (induction xs) auto

lemma split_on_char: "c \<notin> set xs \<Longrightarrow> split_on (\<lambda>x. x = c) (xs @ c # ys) = xs # split_on (\<lambda>x. x = c) ys"
  by (rule split_on_append) auto

lemma split_on_plain_char: "c \<notin> set xs \<Longrightarrow> split_on (\<lambda>x. x = c) xs = [xs]"
  by (rule split_on_plain) auto

lemma split_on_takeWhile:
  "split_on P xs = takeWhile (\<lambda>c. \<not> P c) xs # (case dropWhile (\<lambda>c. \<not> P c) xs of [] \<Rightarrow> [] | c # ys \<Rightarrow> split_on P ys)"
  by (induction xs) (auto split: list.splits)

lemma length_split_on: "length (split_on P s) = Suc (length (filter P s))"
  by (induction s) (auto split: list.splits)

text \<open>At most one token more than there are separators.\<close>

lemma length_strtok_all: "length (strtok_all P s) \<le> Suc (length (filter P s))"
  by (metis strtok_all_def length_filter_le length_split_on)

text \<open>\<open>if ((cp = strchr(s, c)) != NULL) { *cp = 0; rest = cp + 1; }\<close>.\<close>

definition cut :: "char \<Rightarrow> string \<Rightarrow> string \<times> string option" where
  "cut c s = (let n = takeWhile (\<lambda>x. x \<noteq> c) s in
     (n, if length n < length s then Some (drop (length n + 1) s) else None))"

lemma cut_append: "c \<notin> set xs \<Longrightarrow> cut c (xs @ c # ys) = (xs, Some ys)"
  by (auto simp: cut_def takeWhile_append)

lemma cut_plain: "c \<notin> set xs \<Longrightarrow> cut c xs = (xs, None)"
proof -
  assume "c \<notin> set xs"
  then have t: "takeWhile (\<lambda>x. x \<noteq> c) xs = xs" by (auto simp: takeWhile_eq_all_conv)
  show ?thesis by (simp only: cut_def Let_def t) simp
qed

section \<open>Lists with commas\<close>

fun comma_list :: "string list \<Rightarrow> string" where
  "comma_list [] = []"
| "comma_list [x] = x"
| "comma_list (x # y # ys) = x @ CHR '','' # comma_list (y # ys)"

lemma comma_list_snoc: "comma_list (xs @ [x]) = (if xs = [] then x else comma_list xs @ CHR '','' # x)"
  by (induction xs rule: comma_list.induct) auto

lemma dropWhile_shorter: "dropWhile P xs = y # ys \<Longrightarrow> length ys < length xs"
  using length_dropWhile_le [of P xs] by simp

lemma until_comma:
  assumes "CHR '','' \<notin> set x"
  shows "takeWhile (\<lambda>c. c \<noteq> CHR '','') x = x" "takeWhile (\<lambda>c. c \<noteq> CHR '','') (x @ CHR '','' # ys) = x"
    "dropWhile (\<lambda>c. c \<noteq> CHR '','') x = []" "dropWhile (\<lambda>c. c \<noteq> CHR '','') (x @ CHR '','' # ys) = CHR '','' # ys"
  using assms by (induction x) auto

end
