(* ===== verification/ParseOpts.thy ===== *)
theory ParseOpts
imports CString
begin

text \<open>\<open>ltp_framework/lib/parse_opts.c\<close> and the macros of \<open>usctest.h\<close>: the standard options of a test, their
environment variables, and the loop that repeats a test.

A \<open>float\<close> is what the code observes of it: whether it is 0, whether it is not negative, and how many
microseconds \<open>(int)((float)USECS_PER_SEC * x)\<close> is; \<open>atof\<close> and \<open>sscanf\<close> with \<open>%f\<close> are parameters.  \<open>STD_argind\<close> and
the debug output (\<open>USC_DEBUG\<close>) are not modelled.  The hooks of \<open>TEST_PAUSE\<close> are in \<open>Hooks\<close>.\<close>

section \<open>State and environment\<close>

record cfloat =
  f_zero :: bool
  f_nonneg :: bool
  f_usecs :: int

definition float0 :: cfloat where "float0 = \<lparr>f_zero = True, f_nonneg = True, f_usecs = 0\<rparr>"

record user_option =
  uo_option :: string
  uo_flag :: bool
  uo_arg :: bool

text \<open>The globals.  \<open>u_flags\<close> and \<open>u_args\<close> are the caller's variables that its options point to.\<close>

record std =
  STD_FUNCTIONAL_TEST :: bool
  STD_TIMING_ON :: bool
  STD_PAUSE :: bool
  STD_INFINITE :: bool
  STD_LOOP_COUNT :: int
  STD_COPIES :: int
  STD_ERRNO_LOG :: bool
  STD_LOOP_DURATION :: cfloat
  STD_LOOP_DELAY :: cfloat
  STD_TP_barrier :: int
  STD_LP_barrier :: int
  STD_TP_shmem_sz :: int
  STD_LD_shmem :: int
  STD_LP_shmem :: int
  STD_LD_recfun :: int
  STD_LP_recfun :: int
  STD_TP_sbrk :: int
  STD_LP_sbrk :: int
  STD_bigstack :: bool
  u_flags :: "bool list"
  u_args :: "string option list"

definition std0 :: "nat \<Rightarrow> std" where
  "std0 n = \<lparr>STD_FUNCTIONAL_TEST = True, STD_TIMING_ON = False, STD_PAUSE = False, STD_INFINITE = False,
     STD_LOOP_COUNT = 1, STD_COPIES = 1, STD_ERRNO_LOG = False, STD_LOOP_DURATION = float0, STD_LOOP_DELAY = float0,
     STD_TP_barrier = 0, STD_LP_barrier = 0, STD_TP_shmem_sz = 0, STD_LD_shmem = 0, STD_LP_shmem = 0,
     STD_LD_recfun = 0, STD_LP_recfun = 0, STD_TP_sbrk = 0, STD_LP_sbrk = 0, STD_bigstack = False,
     u_flags = replicate n False, u_args = replicate n None\<rparr>"

record penv =
  getenv :: "string \<Rightarrow> string option"
  atof :: "string \<Rightarrow> cfloat"
  sscanf_f :: "string \<Rightarrow> cfloat option"
  malloc_ok :: bool

section \<open>The option string\<close>

text \<open>Each option with its line of help.\<close>

definition std_options :: "(string \<times> string) list" where
  "std_options =
    [(''c:'', ''  -c n    Run n copies concurrently'' @ [CHR 0x0A]),
     (''e'', ''  -e      Turn on errno logging'' @ [CHR 0x0A]),
     (''f'', ''  -f      Turn off functional testing'' @ [CHR 0x0A]),
     (''h'', ''  -h      Show this help screen'' @ [CHR 0x0A]),
     (''i:'', ''  -i n    Execute test n times'' @ [CHR 0x0A]),
     (''I:'', ''  -I x    Execute test for x seconds'' @ [CHR 0x0A]),
     (''p'', ''  -p      Pause for SIGUSR1 before starting'' @ [CHR 0x0A]),
     (''P:'', ''  -P x    Pause for x seconds between iterations'' @ [CHR 0x0A]),
     (''t'', ''  -t      Turn on syscall timing'' @ [CHR 0x0A])]"

text \<open>What they print; \<open>user_help\<close> is the text of the caller's function, if it has one.\<close>

definition STD_opts_help :: string where
  "STD_opts_help = concat (map snd std_options)"

definition print_help :: "string option \<Rightarrow> string" where
  "print_help user_help = STD_opts_help @ (case user_help of None \<Rightarrow> [] | Some t \<Rightarrow> t)"

text \<open>\<open>strchr\<close> also finds the terminating NUL: an empty user option is not added.\<close>

fun add_options :: "string \<Rightarrow> string list \<Rightarrow> string" where
  "add_options os [] = os"
| "add_options os (o1 # rest) =
    add_options (if o1 \<noteq> [] \<and> hd o1 \<notin> set os then os @ o1 else os) rest"

definition optionstr :: "user_option list option \<Rightarrow> string" where
  "optionstr user = add_options (concat (map fst std_options)) (case user of None \<Rightarrow> [] | Some us \<Rightarrow> map uo_option us)"

section \<open>The option loop\<close>

datatype given = OPT_iteration | OPT_nofunccheck | OPT_duration | OPT_delay | OPT_copies

datatype presult = Parsed | Message string | Exit0

text \<open>The \<open>default\<close> case: the first user option with this letter.\<close>

fun user_case :: "user_option list \<Rightarrow> nat \<Rightarrow> char \<Rightarrow> string option \<Rightarrow> std \<Rightarrow> (bool \<times> std) option" where
  "user_case [] i opt arg s = Some (False, s)"
| "user_case (u # us) i opt arg s =
    (if uo_option u \<noteq> [] \<and> hd (uo_option u) = opt then do {
       let s = (if uo_flag u then s\<lparr>u_flags := (u_flags s)[i := True]\<rparr> else s);
       if last (uo_option u) = CHR '':'' then do {
         chk (uo_arg u);
         Some (True, s\<lparr>u_args := (u_args s)[i := arg]\<rparr>)
       } else Some (True, s)
     } else user_case us (i + 1) opt arg s)"

definition int_arg :: "string option \<Rightarrow> int option" where
  "int_arg arg = do { a \<leftarrow> arg; chk (fits_int (atoi a)); Some (atoi a) }"

definition opt_case :: "penv \<Rightarrow> user_option list option \<Rightarrow> char \<Rightarrow> string option \<Rightarrow> given set \<times> std
    \<Rightarrow> (presult option \<times> given set \<times> std) option" where
  "opt_case e user opt optarg gs = (let (g, s) = gs in
     if opt = CHR ''?'' then Some (Some (Message ''Unknown option''), g, s)
     else if opt = CHR '':'' then Some (Some (Message ''Missing argument''), g, s)
     else if opt = CHR ''i'' then do {
       n \<leftarrow> int_arg optarg;
       let s = s\<lparr>STD_LOOP_COUNT := n\<rparr>;
       Some (None, insert OPT_iteration g, if n = 0 then s\<lparr>STD_INFINITE := True\<rparr> else s)
     }
     else if opt = CHR ''P'' then do {
       a \<leftarrow> optarg;
       Some (None, insert OPT_delay g, s\<lparr>STD_LOOP_DELAY := atof e a\<rparr>)
     }
     else if opt = CHR ''I'' then do {
       a \<leftarrow> optarg;
       let s = s\<lparr>STD_LOOP_DURATION := atof e a\<rparr>;
       Some (None, insert OPT_duration g, if f_zero (atof e a) then s\<lparr>STD_INFINITE := True\<rparr> else s)
     }
     else if opt = CHR ''c'' then do {
       n \<leftarrow> int_arg optarg;
       Some (None, insert OPT_copies g, s\<lparr>STD_COPIES := n\<rparr>)
     }
     else if opt = CHR ''f'' then Some (None, g, s\<lparr>STD_FUNCTIONAL_TEST := False\<rparr>)
     else if opt = CHR ''p'' then Some (None, g, s\<lparr>STD_PAUSE := True\<rparr>)
     else if opt = CHR ''t'' then Some (None, g, s\<lparr>STD_TIMING_ON := True\<rparr>)
     else if opt = CHR ''e'' then Some (None, g, s\<lparr>STD_ERRNO_LOG := True\<rparr>)
     else if opt = CHR ''h'' then Some (Some Exit0, g, s)
     else do {
       us \<leftarrow> user;
       (found, s) \<leftarrow> user_case us 0 opt optarg s;
       if found then Some (None, g, s)
       else Some (Some (Message (''parse_opts: ERROR - option:\"'' @ [opt] @ ''\" NOT FOUND... INTERNAL ERROR'')), g, s)
     })"

fun opt_loop :: "penv \<Rightarrow> user_option list option \<Rightarrow> (char \<times> string option) list \<Rightarrow> given set \<times> std
    \<Rightarrow> (presult \<times> given set \<times> std) option" where
  "opt_loop e user [] (g, s) = Some (Parsed, g, s)"
| "opt_loop e user ((opt, optarg) # rest) gs = do {
     (stop, g, s) \<leftarrow> opt_case e user opt optarg gs;
     case stop of Some r \<Rightarrow> Some (r, g, s) | None \<Rightarrow> opt_loop e user rest (g, s)
   }"

section \<open>The environment\<close>

text \<open>\<open>sscanf(ptr, "%i", &k) == 1\<close>; a number that does not fit has no defined value.\<close>

definition env_i :: "penv \<Rightarrow> string \<Rightarrow> int option option" where
  "env_i e name = (case getenv e name of None \<Rightarrow> Some None
     | Some v \<Rightarrow> (case sscanf_i v of None \<Rightarrow> Some None | Some k \<Rightarrow> do { chk (fits_int k); Some (Some k) }))"

definition env_nonneg :: "penv \<Rightarrow> string \<Rightarrow> (int \<Rightarrow> std \<Rightarrow> std) \<Rightarrow> std \<Rightarrow> std option" where
  "env_nonneg e name put s = do {
     k \<leftarrow> env_i e name;
     Some (case k of Some k \<Rightarrow> if k \<ge> 0 then put k s else s | None \<Rightarrow> s)
   }"

definition env_barrier :: "penv \<Rightarrow> string \<Rightarrow> (int \<Rightarrow> std \<Rightarrow> std) \<Rightarrow> std \<Rightarrow> std option" where
  "env_barrier e name put s = (if getenv e name = None then Some s else do {
     k \<leftarrow> env_i e name;
     Some (case k of Some k \<Rightarrow> if k \<ge> 0 then put k s else put 1 s | None \<Rightarrow> put 1 s)
   })"

definition env_iterations :: "penv \<Rightarrow> given set \<Rightarrow> std \<Rightarrow> std option" where
  "env_iterations e g s = (if OPT_iteration \<in> g then Some s else do {
     k \<leftarrow> env_i e ''USC_ITERATIONS'';
     Some (case k of None \<Rightarrow> s
       | Some k \<Rightarrow> if k = 0 then s\<lparr>STD_INFINITE := True\<rparr> else s\<lparr>STD_LOOP_COUNT := k\<rparr>)
   })"

definition env_duration :: "penv \<Rightarrow> string \<Rightarrow> given set \<Rightarrow> std \<Rightarrow> std" where
  "env_duration e name g s = (if OPT_duration \<in> g then s else case getenv e name of None \<Rightarrow> s
     | Some v \<Rightarrow> (case sscanf_f e v of None \<Rightarrow> s
        | Some f \<Rightarrow> if f_nonneg f then
            (let s = s\<lparr>STD_LOOP_DURATION := f\<rparr> in if f_zero f then s\<lparr>STD_INFINITE := True\<rparr> else s)
          else s))"

definition env_delay :: "penv \<Rightarrow> given set \<Rightarrow> std \<Rightarrow> std" where
  "env_delay e g s = (if OPT_delay \<in> g then s else case getenv e ''USC_LOOP_DELAY'' of None \<Rightarrow> s
     | Some v \<Rightarrow> (case sscanf_f e v of None \<Rightarrow> s
        | Some f \<Rightarrow> if f_nonneg f then s\<lparr>STD_LOOP_DELAY := f\<rparr> else s))"

text \<open>\<open>sscanf\<close> stores into \<open>STD_COPIES\<close> before the sign is looked at.\<close>

definition env_copies :: "penv \<Rightarrow> given set \<Rightarrow> std \<Rightarrow> std option" where
  "env_copies e g s = (if OPT_copies \<in> g then Some s else case getenv e ''USC_COPIES'' of None \<Rightarrow> Some s
     | Some v \<Rightarrow> (case sscanf_d v of None \<Rightarrow> Some s
        | Some k \<Rightarrow> do { chk (fits_int k); Some (s\<lparr>STD_COPIES := k\<rparr>) }))"

text \<open>\<open>if (STD_bigstack != NULL) STD_bigstack = malloc(...)\<close>.\<close>

definition set_bigstack :: "penv \<Rightarrow> std \<Rightarrow> std" where
  "set_bigstack e s = (if STD_bigstack s then s\<lparr>STD_bigstack := malloc_ok e\<rparr> else s)"

text \<open>The special system testing variables, which turn on hooks in the code.\<close>

definition env_hooks :: "penv \<Rightarrow> std \<Rightarrow> std option" where
  "env_hooks e s = do {
     s \<leftarrow> env_barrier e ''USC_TP_BARRIER'' (\<lambda>k s. s\<lparr>STD_TP_barrier := k\<rparr>) s;
     s \<leftarrow> env_barrier e ''USC_LP_BARRIER'' (\<lambda>k s. s\<lparr>STD_LP_barrier := k\<rparr>) s;
     s \<leftarrow> env_nonneg e ''USC_TP_SHMEM'' (\<lambda>k s. s\<lparr>STD_TP_shmem_sz := k\<rparr>) s;
     s \<leftarrow> env_nonneg e ''USC_LP_SHMEM'' (\<lambda>k s. s\<lparr>STD_LP_shmem := k\<rparr>) s;
     s \<leftarrow> env_nonneg e ''USC_LD_SHMEM'' (\<lambda>k s. s\<lparr>STD_LD_shmem := k\<rparr>) s;
     s \<leftarrow> env_nonneg e ''USC_TP_SBRK'' (\<lambda>k s. s\<lparr>STD_TP_sbrk := k\<rparr>) s;
     s \<leftarrow> env_nonneg e ''USC_LP_SBRK'' (\<lambda>k s. s\<lparr>STD_LP_sbrk := k\<rparr>) s;
     s \<leftarrow> env_nonneg e ''USC_LP_RECFUN'' (\<lambda>k s. set_bigstack e (s\<lparr>STD_LP_recfun := k\<rparr>)) s;
     env_nonneg e ''USC_LD_RECFUN'' (\<lambda>k s. set_bigstack e (s\<lparr>STD_LD_recfun := k\<rparr>)) s
   }"

definition parse_env :: "penv \<Rightarrow> given set \<Rightarrow> std \<Rightarrow> std option" where
  "parse_env e g s = do {
     s \<leftarrow> env_iterations e g s;
     let s = (if OPT_nofunccheck \<notin> g \<and> getenv e ''USC_NO_FUNC_CHECK'' \<noteq> None
        then s\<lparr>STD_FUNCTIONAL_TEST := False\<rparr> else s);
     let s = env_duration e ''USC_LOOP_WALLTIME'' g s;
     let s = env_duration e ''USC_DURATION'' g s;
     let s = env_delay e g s;
     s \<leftarrow> env_copies e g s;
     env_hooks e s
   }"

section \<open>parse_opts\<close>

text \<open>\<open>av\<close>: the arguments after \<open>argv[0]\<close>.\<close>

definition parse_opts :: "penv \<Rightarrow> string list \<Rightarrow> user_option list option \<Rightarrow> std \<Rightarrow> (presult \<times> std) option" where
  "parse_opts e av user s =
    (if user \<noteq> None \<and> (\<exists>u \<in> set (the user). length (uo_option u) > 2)
     then Some (Message ''parse_opts: ERROR - Only short options are allowed'', s)
     else if \<not> malloc_ok e then Some (Message ''parse_opts: ERROR - Could not allocate memory for optionstr'', s)
     else do {
       (r, g, s) \<leftarrow> opt_loop e user (getopt (optionstr user) [] av) ({}, s);
       if r \<noteq> Parsed then Some (r, s)
       else do { s \<leftarrow> parse_env e g s; Some (Parsed, s) }
     })"

section \<open>Copies\<close>

text \<open>The loop of \<open>usc_global_setup_hook\<close> in one process: the calls of \<open>fork\<close> it makes; after a fork that returned
0 (it is the child) \<open>cnt = STD_COPIES\<close> ends the loop.\<close>

function fork_loop :: "(int \<Rightarrow> int) \<Rightarrow> int \<Rightarrow> int \<Rightarrow> int list" where
  "fork_loop fork copies cnt =
    (if cnt < copies then cnt # fork_loop fork copies ((if fork cnt = 0 then copies else cnt) + 1) else [])"
  by pat_completeness auto
termination by (relation "measure (\<lambda>(fork, copies, cnt). nat (copies - cnt))") auto

declare fork_loop.simps [simp del]

section \<open>Looping\<close>

text \<open>The static variables of \<open>usc_test_looping\<close>, the number of clock reads, and the increments it has given to
\<open>sbrk\<close>, the first one first (nothing looks at what \<open>sbrk\<close> returns).\<close>

record looping =
  first_time :: bool
  stop_time :: int
  delay_usecs :: int
  clock_reads :: nat
  lp_sbrks :: "int list"

definition looping0 :: looping where
  "looping0 = \<lparr>first_time = True, stop_time = 0, delay_usecs = 0, clock_reads = 0, lp_sbrks = []\<rparr>"

text \<open>\<open>get_current_time\<close>: microseconds since 1970 cut to an int; \<open>clock n\<close> is what the n-th call finds.\<close>

definition get_current_time :: "(nat \<Rightarrow> int) \<Rightarrow> looping \<Rightarrow> int \<times> looping" where
  "get_current_time clock l = (sint (word_of_int (clock (clock_reads l)) :: 32 word), l\<lparr>clock_reads := clock_reads l + 1\<rparr>)"

text \<open>\<open>usc_recressive_func(0, n, *STD_bigstack)\<close>: reads \<open>*STD_bigstack\<close>.\<close>

fun usc_recressive_func :: "nat \<Rightarrow> unit" where
  "usc_recressive_func 0 = ()"
| "usc_recressive_func (Suc n) = usc_recressive_func n"

definition call_recfun :: "int \<Rightarrow> std \<Rightarrow> unit option" where
  "call_recfun n s = (if n = 0 then Some () else do { chk (STD_bigstack s); Some (usc_recressive_func (nat n)) })"

partial_function (option) delay_loop :: "(nat \<Rightarrow> int) \<Rightarrow> std \<Rightarrow> int \<Rightarrow> int \<Rightarrow> looping \<Rightarrow> looping option" where
  "delay_loop clock s end_time ct l = (if ct < end_time then do {
     u \<leftarrow> call_recfun (STD_LD_recfun s) s;
     let (ct, l) = get_current_time clock l;
     delay_loop clock s end_time ct l
   } else Some l)"

definition loop_start :: "(nat \<Rightarrow> int) \<Rightarrow> std \<Rightarrow> looping \<Rightarrow> looping option" where
  "loop_start clock s l = do {
     let l = l\<lparr>first_time := False\<rparr>;
     l \<leftarrow> (if \<not> f_zero (STD_LOOP_DURATION s) then do {
         let (ct, l) = get_current_time clock l;
         chk (fits_int (f_usecs (STD_LOOP_DURATION s)) \<and> fits_int (f_usecs (STD_LOOP_DURATION s) + ct));
         Some (l\<lparr>stop_time := f_usecs (STD_LOOP_DURATION s) + ct\<rparr>)
       } else Some l);
     if \<not> f_zero (STD_LOOP_DELAY s) then do {
       chk (fits_int (f_usecs (STD_LOOP_DELAY s)));
       Some (l\<lparr>delay_usecs := f_usecs (STD_LOOP_DELAY s)\<rparr>)
     } else Some l
   }"

definition usc_test_looping :: "(nat \<Rightarrow> int) \<Rightarrow> std \<Rightarrow> int \<Rightarrow> looping \<Rightarrow> (bool \<times> looping) option" where
  "usc_test_looping clock s counter l = do {
     l \<leftarrow> (if first_time l then loop_start clock s l
       else if \<not> f_zero (STD_LOOP_DELAY s) then do {
         let (ct, l) = get_current_time clock l;
         chk (fits_int (ct + delay_usecs l));
         delay_loop clock s (ct + delay_usecs l) ct l
       } else Some l);
     let k1 = STD_INFINITE s;
     let k2 = (STD_LOOP_COUNT s \<noteq> 0 \<and> counter < STD_LOOP_COUNT s);
     let (k3, l) = (if f_zero (STD_LOOP_DURATION s) then (False, l)
        else let (ct, l) = get_current_time clock l in (ct < stop_time l, l));
     if \<not> (k1 \<or> k2 \<or> k3) then Some (False, l)
     else do {
       u \<leftarrow> call_recfun (STD_LP_recfun s) s;
       Some (True, if STD_LP_sbrk s \<noteq> 0 then l\<lparr>lp_sbrks := lp_sbrks l @ [STD_LP_sbrk s]\<rparr> else l)
     }
   }"

text \<open>The loop of every test: \<open>for (lc = 0; TEST_LOOPING(lc); lc++) body\<close>.  It returns the state of the looping
as well as that of the test.\<close>

partial_function (option) test_loop :: "(nat \<Rightarrow> int) \<Rightarrow> std \<Rightarrow> ('b \<Rightarrow> 'b option) \<Rightarrow> int \<Rightarrow> looping \<Rightarrow> 'b \<Rightarrow>
    (looping \<times> 'b) option" where
  "test_loop clock s body lc l b = do {
     (more, l) \<leftarrow> usc_test_looping clock s lc l;
     if more then do { b \<leftarrow> body b; test_loop clock s body (lc + 1) l b } else Some (l, b)
   }"

section \<open>The errno log\<close>

definition USC_MAX_ERRNO :: int where "USC_MAX_ERRNO = 2000"

definition TEST_ERROR_LOG :: "int \<Rightarrow> std \<Rightarrow> int list \<Rightarrow> int list option" where
  "TEST_ERROR_LOG eno s counts =
    (if STD_ERRNO_LOG s \<and> eno < USC_MAX_ERRNO then do { n \<leftarrow> rd counts eno; wr counts eno (n + 1) } else Some counts)"

definition TEST_CLEANUP :: "std \<Rightarrow> int list \<Rightarrow> bool list \<Rightarrow> (nat \<times> int \<times> bool) list" where
  "TEST_CLEANUP s counts valid = (if \<not> STD_ERRNO_LOG s then []
     else map (\<lambda>i. (i, counts ! i, valid ! i)) (filter (\<lambda>i. counts ! i \<noteq> 0) [0..<nat USC_MAX_ERRNO]))"

fun TEST_EXP_ENOS :: "int list \<Rightarrow> bool list \<Rightarrow> bool list option" where
  "TEST_EXP_ENOS [] valid = None"
| "TEST_EXP_ENOS (a # as) valid = (if a = 0 then Some valid
     else if a < USC_MAX_ERRNO then do { v \<leftarrow> wr valid a True; TEST_EXP_ENOS as v }
     else TEST_EXP_ENOS as valid)"

end
