(* ===== verification/ParseProps.thy ===== *)
theory ParseProps
imports ParseOpts
begin

text \<open>From the command line to the number of times a test runs, the copies it makes, and the two hooks
that cannot work.\<close>

section \<open>An empty environment\<close>

definition no_env :: "penv \<Rightarrow> bool" where
  "no_env e \<longleftrightarrow> getenv e = (\<lambda>_. None) \<and> malloc_ok e"

lemma parse_env_empty: "no_env e \<Longrightarrow> parse_env e g s = Some s"
  by (simp add: parse_env_def env_hooks_def no_env_def env_iterations_def env_i_def env_duration_def env_delay_def env_copies_def
      env_barrier_def env_nonneg_def Let_def)

lemma std_optionstr [simp]: "optionstr None = ''c:efhi:I:pP:t''"
  by (simp add: optionstr_def std_options_def)

text \<open>One option with its argument in the next word.\<close>

lemma getopt_arg:
  assumes "c \<noteq> CHR '':''" "c \<noteq> CHR ''-''" "strchr os c = Some i" "takes_arg os i"
  shows "getopt os [] [[CHR ''-'', c], a] = [(c, Some a)]"
  using assms by simp

lemma parse_i:
  assumes "no_env e" "fits_int n"
  shows "parse_opts e [''-i'', int_to_string n] None s =
    Some (Parsed, if n = 0 then s\<lparr>STD_LOOP_COUNT := n, STD_INFINITE := True\<rparr> else s\<lparr>STD_LOOP_COUNT := n\<rparr>)"
proof -
  have "getopt ''c:efhi:I:pP:t'' [] [''-i'', int_to_string n] = [(CHR ''i'', Some (int_to_string n))]"
    by (simp add: strchr_def takes_arg_def)
  moreover have "malloc_ok e" using assms(1) by (simp add: no_env_def)
  ultimately show ?thesis
    using assms by (simp add: parse_opts_def opt_case_def int_arg_def c_simps parse_env_empty)
qed

section \<open>How often a test runs\<close>

text \<open>A test that neither runs for a time nor for ever, and has no delay and no hooks.\<close>

definition counted :: "std \<Rightarrow> bool" where
  "counted s \<longleftrightarrow> \<not> STD_INFINITE s \<and> f_zero (STD_LOOP_DURATION s) \<and> f_zero (STD_LOOP_DELAY s) \<and> STD_LP_recfun s = 0"

text \<open>Where the looping stands after \<open>n\<close> more iterations of such a test: each has asked \<open>sbrk\<close> for its increment.\<close>

definition looped :: "std \<Rightarrow> nat \<Rightarrow> looping \<Rightarrow> looping" where
  "looped s n l = l\<lparr>first_time := False,
     lp_sbrks := lp_sbrks l @ (if STD_LP_sbrk s \<noteq> 0 then replicate n (STD_LP_sbrk s) else [])\<rparr>"

lemma looped_simps [simp]:
  "looped s 0 l = l\<lparr>first_time := False\<rparr>"
  "looped s n (looped s (Suc 0) l) = looped s (Suc n) l"
  by (simp_all add: looped_def)

lemma looping_counted:
  assumes "counted s"
  shows "usc_test_looping clock s lc l = Some (if STD_LOOP_COUNT s \<noteq> 0 \<and> lc < STD_LOOP_COUNT s
    then (True, looped s 1 l) else (False, looped s 0 l))"
  using assms by (cases l) (auto simp: counted_def usc_test_looping_def loop_start_def looped_def Let_def call_recfun_def)

lemma ofold_const_length: "length xs = length ys \<Longrightarrow> ofold (\<lambda>_. body) xs = ofold (\<lambda>_. body) ys"
  by (induction xs ys rule: list_induct2) (auto intro!: ext)

lemma ofold_const_Suc: "ofold (\<lambda>_. body) [0..<Suc n] b = body b \<bind> ofold (\<lambda>_. body) [0..<n]"
  using ofold_const_length [of "[0..<Suc n]" "0 # [0..<n]" body] by simp

lemma test_loop_counted:
  assumes "counted s" "0 \<le> lc"
  shows "test_loop clock s body lc l b =
    map_option (Pair (looped s (nat (STD_LOOP_COUNT s - lc)) l)) (ofold (\<lambda>_. body) [0..<nat (STD_LOOP_COUNT s - lc)] b)"
  using assms(2)
proof (induction "nat (STD_LOOP_COUNT s - lc)" arbitrary: lc l b)
  case 0
  then show ?case by (subst test_loop.simps) (simp add: looping_counted [OF assms(1)])
next
  case (Suc n)
  have lt: "lc < STD_LOOP_COUNT s" and n: "nat (STD_LOOP_COUNT s - (lc + 1)) = n"
    and n': "nat (STD_LOOP_COUNT s - lc) = Suc n" using Suc.hyps(2) by simp_all
  have "test_loop clock s body (lc + 1) l' = (\<lambda>b'. map_option (Pair (looped s n l')) (ofold (\<lambda>_. body) [0..<n] b'))" for l'
    using Suc.hyps(1) [of "lc + 1" l'] Suc.prems n by (intro ext) simp
  then show ?case using lt Suc.prems unfolding n' ofold_const_Suc
    by (subst test_loop.simps) (simp add: looping_counted [OF assms(1)] map_option_bind comp_def del: upt_Suc)
qed

definition quiet_env :: penv where
  "quiet_env = \<lparr>getenv = \<lambda>_. None, atof = \<lambda>_. float0, sscanf_f = \<lambda>_. None, malloc_ok = True\<rparr>"

lemma quiet_env [simp]: "no_env quiet_env"
  by (simp add: no_env_def quiet_env_def)

section \<open>Copies\<close>

lemma fork_loop_parent:
  assumes "\<forall>k. fork k \<noteq> 0"
  shows "fork_loop fork copies cnt = [cnt..copies - 1]"
proof (induction "nat (copies - cnt)" arbitrary: cnt)
  case 0
  then show ?case by (subst fork_loop.simps) simp
next
  case (Suc n)
  then have "cnt < copies" "n = nat (copies - (cnt + 1))" by simp_all
  with Suc.hyps(1) [of "cnt + 1"] assms show ?case
    by (subst fork_loop.simps) (simp add: upto_rec1)
qed

text \<open>With \<open>-c n\<close> a test becomes \<open>n\<close> processes and no more: the parent forks once for each number from 1 to
\<open>n - 1\<close> (a failed fork is skipped), and a child forks nothing after the fork that made it.\<close>

theorem copies_made:
  assumes "\<forall>k. fork k \<noteq> 0"
  shows "fork_loop fork copies 1 = [1..copies - 1] \<and>
    (1 \<le> k \<and> k < copies \<longrightarrow> fork_loop (fork(k := 0)) copies k = [k])"
proof (intro conjI impI)
  show "fork_loop fork copies 1 = [1..copies - 1]" by (rule fork_loop_parent [OF assms])
  assume "1 \<le> k \<and> k < copies"
  then show "fork_loop (fork(k := 0)) copies k = [k]"
    by (subst fork_loop.simps, subst fork_loop.simps) simp
qed

lemma copies_made_witness:
  "fork_loop (\<lambda>_. 100) 4 1 = [1, 2, 3] \<and> fork_loop ((\<lambda>_. 100)(2 := 0)) 4 2 = [2]"
  using copies_made [of "\<lambda>_. 100" 4 2] by (simp add: upto_rec1)

section \<open>The recursion hook\<close>

text \<open>What parsing keeps: the big stack stays unallocated, and the last word on the recursion hook is the
environment's.\<close>

lemma user_case_bigstack: "user_case us i opt arg s = Some (b, s') \<Longrightarrow> STD_bigstack s' = STD_bigstack s"
  by (induction us i opt arg s rule: user_case.induct) (auto simp: c_simps Let_def split: if_splits)

lemma opt_case_bigstack:
  assumes "opt_case e user opt arg (g, s) = Some (r, g', s')"
  shows "STD_bigstack s' = STD_bigstack s"
  using assms by (auto simp: opt_case_def Let_def bind_eq_Some_conv split: if_splits dest: user_case_bigstack)

lemma opt_loop_bigstack: "opt_loop e user os (g, s) = Some (r, g', s') \<Longrightarrow> STD_bigstack s' = STD_bigstack s"
proof (induction os arbitrary: g s)
  case (Cons o1 os)
  obtain c a where o1: "o1 = (c, a)" by (cases o1)
  with Cons.prems obtain st g1 s1 where s1: "opt_case e user c a (g, s) = Some (st, g1, s1)"
    "(case st of Some r \<Rightarrow> Some (r, g1, s1) | None \<Rightarrow> opt_loop e user os (g1, s1)) = Some (r, g', s')"
    by (auto simp: bind_eq_Some_conv)
  with Cons.IH opt_case_bigstack [OF s1(1)] show ?case by (auto split: option.splits)
qed simp

lemma env_nonneg_cases:
  assumes "env_nonneg e name put s = Some s'"
  obtains "s' = s" | k where "s' = put k s" "0 \<le> k"
  using assms by (auto simp: env_nonneg_def bind_eq_Some_conv split: option.splits if_splits)

lemma env_steps_bigstack:
  "env_iterations e g s = Some s' \<Longrightarrow> STD_bigstack s' = STD_bigstack s"
  "STD_bigstack (env_duration e name g s) = STD_bigstack s"
  "STD_bigstack (env_delay e g s) = STD_bigstack s"
  "env_copies e g s = Some s' \<Longrightarrow> STD_bigstack s' = STD_bigstack s"
  by (auto simp: env_iterations_def env_duration_def env_delay_def env_copies_def Let_def bind_eq_Some_conv
      split: option.splits if_splits)

lemma env_put_bigstack:
  assumes "\<And>k s. STD_bigstack (put k s) = STD_bigstack s"
  shows "env_nonneg e name put s = Some s' \<Longrightarrow> STD_bigstack s' = STD_bigstack s"
    "env_barrier e name put s = Some s' \<Longrightarrow> STD_bigstack s' = STD_bigstack s"
  using assms by (auto simp: env_nonneg_def env_barrier_def bind_eq_Some_conv split: option.splits if_splits)

lemma parse_env_recfun:
  assumes "parse_env e g s = Some s'" "\<not> STD_bigstack s" "getenv e ''USC_LP_RECFUN'' = Some v" "sscanf_i v = Some k" "0 \<le> k"
  shows "\<not> STD_bigstack s' \<and> STD_LP_recfun s' = k"
proof -
  obtain a b c d e1 f h s1 s2 where
    a: "env_iterations e g s = Some a"
    and b: "env_copies e g (env_delay e g (env_duration e ''USC_DURATION'' g (env_duration e ''USC_LOOP_WALLTIME'' g
      (if OPT_nofunccheck \<notin> g \<and> getenv e ''USC_NO_FUNC_CHECK'' \<noteq> None then a\<lparr>STD_FUNCTIONAL_TEST := False\<rparr> else a)))) = Some b"
    and c: "env_barrier e ''USC_TP_BARRIER'' (\<lambda>k s. s\<lparr>STD_TP_barrier := k\<rparr>) b = Some c"
    and d: "env_barrier e ''USC_LP_BARRIER'' (\<lambda>k s. s\<lparr>STD_LP_barrier := k\<rparr>) c = Some d"
    and e1: "env_nonneg e ''USC_TP_SHMEM'' (\<lambda>k s. s\<lparr>STD_TP_shmem_sz := k\<rparr>) d = Some e1"
    and f: "env_nonneg e ''USC_LP_SHMEM'' (\<lambda>k s. s\<lparr>STD_LP_shmem := k\<rparr>) e1 = Some f"
    and h: "env_nonneg e ''USC_LD_SHMEM'' (\<lambda>k s. s\<lparr>STD_LD_shmem := k\<rparr>) f = Some h"
    and s1: "env_nonneg e ''USC_TP_SBRK'' (\<lambda>k s. s\<lparr>STD_TP_sbrk := k\<rparr>) h = Some s1"
    and s2: "env_nonneg e ''USC_LP_SBRK'' (\<lambda>k s. s\<lparr>STD_LP_sbrk := k\<rparr>) s1 = Some s2"
    and r: "(env_nonneg e ''USC_LP_RECFUN'' (\<lambda>k s. set_bigstack e (s\<lparr>STD_LP_recfun := k\<rparr>)) s2 \<bind>
      env_nonneg e ''USC_LD_RECFUN'' (\<lambda>k s. set_bigstack e (s\<lparr>STD_LD_recfun := k\<rparr>))) = Some s'"
    using assms(1) by (auto simp: parse_env_def env_hooks_def Let_def bind_eq_Some_conv)
  have "\<not> STD_bigstack s2"
    using assms(2) env_steps_bigstack(1) [OF a] env_steps_bigstack(4) [OF b]
      env_put_bigstack(2) [OF _ c] env_put_bigstack(2) [OF _ d] env_put_bigstack(1) [OF _ e1] env_put_bigstack(1) [OF _ f]
      env_put_bigstack(1) [OF _ h] env_put_bigstack(1) [OF _ s1] env_put_bigstack(1) [OF _ s2]
    by (simp add: env_steps_bigstack(2,3) split: if_splits)
  moreover have "env_nonneg e ''USC_LP_RECFUN'' (\<lambda>k s. set_bigstack e (s\<lparr>STD_LP_recfun := k\<rparr>)) s2 =
      Some (set_bigstack e (s2\<lparr>STD_LP_recfun := k\<rparr>))"
    using r assms(3-5) by (auto simp: env_nonneg_def env_i_def c_simps bind_eq_Some_conv split: if_splits)
  ultimately have nb: "\<not> STD_bigstack s2"
    "env_nonneg e ''USC_LD_RECFUN'' (\<lambda>k s. set_bigstack e (s\<lparr>STD_LD_recfun := k\<rparr>)) (s2\<lparr>STD_LP_recfun := k\<rparr>) = Some s'"
    using r by (simp_all add: set_bigstack_def)
  from nb(2) show ?thesis
    by (rule env_nonneg_cases) (use nb(1) in \<open>auto simp: set_bigstack_def\<close>)
qed

text \<open>A test run with \<open>USC_LP_RECFUN\<close> set to a positive number never reaches an iteration: the check for the
big stack is the wrong way round, so that it is never allocated and the hook copies \<open>*NULL\<close>.\<close>

theorem recfun_hook_crashes:
  assumes "parse_opts e av user (std0 n) = Some (Parsed, s)"
    "getenv e ''USC_LP_RECFUN'' = Some v" "sscanf_i v = Some k" "0 < k"
  shows "usc_test_looping clock s lc l \<noteq> Some (True, l')"
proof -
  obtain g s1 where o: "opt_loop e user (getopt (optionstr user) [] av) ({}, std0 n) = Some (Parsed, g, s1)"
    "parse_env e g s1 = Some s"
    using assms(1) by (auto simp: parse_opts_def bind_eq_Some_conv split: if_splits)
  have "\<not> STD_bigstack s1" using opt_loop_bigstack [OF o(1)] by (simp add: std0_def)
  with parse_env_recfun [OF o(2)] assms have "\<not> STD_bigstack s" "STD_LP_recfun s = k" by auto
  with assms(4) show ?thesis
    by (auto simp: usc_test_looping_def call_recfun_def Let_def c_simps bind_eq_Some_conv split: if_splits prod.splits)
qed

lemma recfun_hook_crashes_witness:
  "\<exists>s. parse_opts (quiet_env\<lparr>getenv := [''USC_LP_RECFUN'' \<mapsto> ''5'']\<rparr>) [] None (std0 0) = Some (Parsed, s) \<and>
    usc_test_looping (\<lambda>_. 0) s 0 looping0 \<noteq> Some (True, looping0\<lparr>first_time := False\<rparr>)"
proof -
  let ?e = "quiet_env\<lparr>getenv := [''USC_LP_RECFUN'' \<mapsto> ''5'']\<rparr>"
  have k: "sscanf_i ''5'' = Some 5"
    by (simp add: sscanf_i_def scan_int_def isspace_def read_sign_def read_base_def digit_of_def)
  then have p: "parse_opts ?e [] None (std0 0) = Some (Parsed, (std0 0)\<lparr>STD_LP_recfun := 5\<rparr>)"
    by (simp add: parse_opts_def parse_env_def env_hooks_def env_iterations_def env_i_def env_duration_def env_delay_def env_copies_def
        env_barrier_def env_nonneg_def Let_def quiet_env_def c_simps fits_int_def INT_MIN_def INT_MAX_def set_bigstack_def
        std0_def)
  from recfun_hook_crashes [OF p _ k, of "\<lambda>_. 0" 0 looping0 "looping0\<lparr>first_time := False\<rparr>"] p show ?thesis by (simp add: quiet_env_def)
qed

end
