(* ===== verification/DmaUser.thy ===== *)
theory DmaUser
imports DmaRun DmaFs TstReport ParseProps
begin

text \<open>\<open>kernel/testcases/dma/user-space/dma.c\<close>: the user-space program that reads one debugfs file per test and
reports through \<open>tst_res.c\<close>.  debugfs is a parameter: for a path and the world it gives the
descriptor of \<open>open\<close>, the bytes of \<open>read\<close> (\<open>None\<close>: -1), \<open>errno\<close> and the new world, or no result when the read
never returns; the calls of \<open>modprobe\<close> are two functions on the world.  The command line, the environment and the clock go
through \<open>parse_opts\<close> and \<open>usc_test_looping\<close>.  The theorems put the module itself behind the files.\<close>

section \<open>One test\<close>

definition test_cases :: "int list" where
  "test_cases = [
     22, 23, 24, 25, 1, 2, 3, 4, 6, 7, 8,
     21, 15, 16, 17, 18, 19, 20, 21, 55, 56,
     57, 58, 59, 60, 61, 62, 63, 64, 65, 66,
     67, 68,
     26, 7, 32, 33, 5, 34, 27, 28, 29]"

text \<open>\<open>sizeof(test_cases)\<close> counts bytes.\<close>

definition TST_TOTAL :: int where "TST_TOTAL = int (4 * length test_cases)"

definition fname :: "int \<Rightarrow> string" where
  "fname tid = ''/sys/kernel/debug/ste_dma40_test/test_'' @ int_to_string tid"

definition answer :: "int \<Rightarrow> string" where
  "answer tid = ''Finished test '' @ int_to_string tid @ '': OK'' @ [CHR 0x0A]"

definition dma_test :: "'w debugfs \<Rightarrow> int \<Rightarrow> 'w \<Rightarrow> ((int \<times> int) \<times> 'w) option" where
  "dma_test dbg tid w = do {
     (f, w) \<leftarrow> dbg (fname tid) w;
     let err = (if d_fd f < 0 then - 1
       else case d_read f of
           None \<Rightarrow> - 2
         | Some data \<Rightarrow> let buff = take 255 data in
             if buff = [] then - 2
             else if length buff \<noteq> length (answer tid) then - 3
             else if \<not> strneq (length (answer tid)) buff (answer tid) then - 4 else 0);
     Some ((err, d_errno f), w)
   }"

section \<open>The loop over the tests\<close>

record 'w user =
  u_tst :: tst
  u_world :: 'w

definition fail_mesg :: "string \<Rightarrow> (int \<Rightarrow> string) \<Rightarrow> int \<Rightarrow> int \<Rightarrow> int \<Rightarrow> string" where
  "fail_mesg file strerror ret num err = ''Return value: '' @ int_to_string ret @ ''. TCID: dma ('' @ int_to_string num @
     '') File: '' @ file @ '' Line: 149. errno='' @ int_to_string err @ '' : '' @ strerror err @ '' '' @ [CHR 0x0A]"

definition ok_mesg :: "int \<Rightarrow> string" where
  "ok_mesg num = ''Functional test '' @ int_to_string num @ '' OK'' @ [CHR 0x0A]"

lemma mesg_nonempty [simp]: "ok_mesg num \<noteq> []" "fail_mesg file strerror ret num err \<noteq> []"
  by (simp_all add: ok_mesg_def fail_mesg_def)

definition dma_step :: "'w debugfs \<Rightarrow> tenv \<Rightarrow> string \<Rightarrow> (int \<Rightarrow> string) \<Rightarrow> int option \<Rightarrow> 'w user \<Rightarrow> 'w user option" where
  "dma_step dbg te file strerror testnum u = do {
     num \<leftarrow> (case testnum of Some n \<Rightarrow> Some n | None \<Rightarrow> rd test_cases (tst_count (u_tst u)));
     ((ret, err), w) \<leftarrow> dma_test dbg num (u_world u);
     let t = (u_tst u)\<lparr>tst_count := num - 1, t_errno := err, t_test_errno := err\<rparr>;
     t \<leftarrow> (if ret = 0 then tst_resm te TPASS (ok_mesg num) t
           else tst_resm te TFAIL (fail_mesg file strerror ret num err) t);
     Some \<lparr>u_tst = t, u_world = w\<rparr>
   }"

text \<open>\<open>for (count = 0; count < TST_TOTAL; count++)\<close>, inside the loop over \<open>TEST_LOOPING\<close>.\<close>

fun dma_loop :: "nat \<Rightarrow> ('w user \<Rightarrow> 'w user option) \<Rightarrow> 'w user \<Rightarrow> 'w user option" where
  "dma_loop 0 step u = Some u"
| "dma_loop (Suc n) step u = step u \<bind> dma_loop n step"

definition dma_body :: "'w debugfs \<Rightarrow> tenv \<Rightarrow> string \<Rightarrow> (int \<Rightarrow> string) \<Rightarrow> bool \<Rightarrow> int option \<Rightarrow> 'w user \<Rightarrow> 'w user option" where
  "dma_body dbg te file strerror functional testnum u =
    (if functional then
       dma_loop (nat (case testnum of None \<Rightarrow> TST_TOTAL | Some n \<Rightarrow> 1)) (dma_step dbg te file strerror testnum) u
     else Some u)"

section \<open>main\<close>

definition options :: "user_option list" where
  "options = [\<lparr>uo_option = ''n:'', uo_flag = True, uo_arg = True\<rparr>]"

definition n_opt :: "std \<Rightarrow> bool" where "n_opt s = u_flags s ! 0"
definition n_copt :: "std \<Rightarrow> string option" where "n_copt s = u_args s ! 0"

text \<open>\<open>testnum\<close> when \<open>-n\<close> was given.\<close>

definition opt_testnum :: "std \<Rightarrow> int option option" where
  "opt_testnum s = (if n_opt s then do { n \<leftarrow> int_arg (n_copt s); Some (Some n) } else Some None)"

definition dma_main :: "'w debugfs \<Rightarrow> ('w \<Rightarrow> 'w) \<Rightarrow> ('w \<Rightarrow> 'w) \<Rightarrow> tenv \<Rightarrow> penv \<Rightarrow> (nat \<Rightarrow> int) \<Rightarrow> string \<Rightarrow> (int \<Rightarrow> string) \<Rightarrow>
    string list \<Rightarrow> 'w \<Rightarrow> 'w user option" where
  "dma_main dbg load unload te pe clock file strerror av w = do {
     (r, s) \<leftarrow> parse_opts pe av (Some options) (std0 1);
     case r of
       Message msg \<Rightarrow> do {
         t \<leftarrow> tst_brkm te TBROK None (''OPTION PARSING ERROR - '' @ msg) (tst_init ''dma'');
         t \<leftarrow> (if t_exit t = None then tst_exit te t else Some t);
         Some \<lparr>u_tst = t, u_world = w\<rparr>
       }
     | Exit0 \<Rightarrow> Some \<lparr>u_tst = (tst_init ''dma'')\<lparr>t_exit := Some 0\<rparr>, u_world = w\<rparr>
     | Parsed \<Rightarrow> do {
         testnum \<leftarrow> opt_testnum s;
         (l, u) \<leftarrow> test_loop clock s (dma_body dbg te file strerror (STD_FUNCTIONAL_TEST s) testnum) 0 looping0
                \<lparr>u_tst = tst_init ''dma'', u_world = load w\<rparr>;
         t \<leftarrow> tst_exit te (u_tst u);
         Some \<lparr>u_tst = t, u_world = unload (u_world u)\<rparr>
       }
   }"

section \<open>The verdict the user sees\<close>

lemma answer_nat: "answer (int n) = finish_line [] n 0"
  by (simp add: answer_def finish_line_def int_to_string_def)

lemma answer_short: "n < 100 \<Longrightarrow> length (finish_line [] n 0) \<le> 255"
  using nat_to_string_short [of n] by (simp add: finish_line_def)

text \<open>The tests that are built in and report to the user program.\<close>

definition runnable :: "kenv \<Rightarrow> nat \<Rightarrow> bool" where
  "runnable e n \<longleftrightarrow> n \<in> set [1..<70] \<and> n \<notin> {10, 11, 12, 13, 14} \<and> \<not> removed e n"

lemma runnable_lines: "ends e n \<Longrightarrow> runnable e n \<longleftrightarrow> test_lines e n = []"
  by (auto simp: ends_def runnable_def test_lines_def removed_def dd_script_def)

lemma fname_nat: "fname (int n) = debugfs_dir @ ''test_'' @ nat_to_string n"
  by (simp add: fname_def debugfs_dir_def int_to_string_def)

lemma test_lines_nonempty: "l \<in> set (test_lines e n) \<Longrightarrow> l \<noteq> []"
  by (auto simp: test_lines_def dd_script_def split: if_splits)

text \<open>What the user program makes of the file of a test, in a kernel where nothing fails: success for a test that is built in, and
a wrong length (-3) where the module prints a line of its own before the last one, which is so for a test that is compiled out
and for the scripts 10 to 13, although the module reports OK.\<close>

lemma dma_test_verdict:
  assumes "good_kernel e" "ends e n" "\<forall>sz chain. e_sgsize e sz chain = 0" "served w" "loads g"
  shows "\<exists>k'. dma_test (d40_debugfs_ops e g) (int n) w = Some ((if runnable e n then 0 else - 3, 0), w\<lparr>f_kern := k'\<rparr>) \<and>
    k_held k' = k_held (f_kern w) \<and> k_wqs k' = k_wqs (f_kern w)"
proof -
  have n: "1 \<le> n" "n < NBR_TESTS" "n < 100" using assms(2) by (auto simp: ends_def NBR_TESTS_def)
  let ?l = "finish_line (run_prefix e n) n 0" and ?a = "finish_line [] n 0"
  obtain k' where k': "d40_test_run e n ((f_kern w)\<lparr>k_seq := []\<rparr>) = Some (0, k')" "k_held k' = k_held (f_kern w)"
    "k_wqs k' = k_wqs (f_kern w)" "k_seq k' = test_lines e n @ [?l]"
    using d40_test_run_lines [OF assms(1-3), of "(f_kern w)\<lparr>k_seq := []\<rparr>"] by auto
  have a: "length ?a \<le> 200" "?a \<noteq> []" "length ?a \<le> length ?l" "?l \<noteq> []"
    using nat_to_string_short [OF n(3)] by (auto simp: finish_line_def)
  note r = served_read [OF assms(4,5) n(1,2) k'(1)]
  show ?thesis
  proof (cases "runnable e n")
    case True
    then have "test_lines e n = []" "run_prefix e n = []" using runnable_lines [OF assms(2)]
      by (auto simp: runnable_def run_prefix_def)
    with True a k' r show ?thesis
      by (intro exI [of _ k']) (simp add: dma_test_def fname_nat answer_nat Let_def strneq_def)
  next
    case False
    then obtain x xs where x: "test_lines e n = x # xs" using runnable_lines [OF assms(2)] by (cases "test_lines e n") auto
    then have "0 < length x" using test_lines_nonempty [of x e n] by simp
    moreover have "length (concat (k_seq k')) = length x + (length (concat xs) + length ?l)" by (simp add: k'(4) x)
    ultimately have "length ?a < length (concat (k_seq k'))" using a(3) by linarith
    then have b: "concat (k_seq k') \<noteq> []" by (metis less_zeroE list.size(3))
    have t: "take 255 (concat (k_seq k')) \<noteq> []" using b by (simp only: take_eq_Nil) simp
    have "length (take 255 (concat (k_seq k'))) = min (length (concat (k_seq k'))) 255" by simp
    then have "length (take 255 (concat (k_seq k'))) \<noteq> length ?a"
      using \<open>length ?a < length (concat (k_seq k'))\<close> a(1) by linarith
    with t False k' r show ?thesis
      by (intro exI [of _ k']) (simp add: dma_test_def fname_nat answer_nat Let_def del: take_eq_Nil take_eq_Nil2)
  qed
qed

text \<open>A kernel in which the module loads, and the file system before that.\<close>

definition dmod0 :: dmod where "dmod0 = \<lparr>m_lock = 0, m_dir = 0, m_file = \<lambda>i. 0, m_open = 0\<rparr>"
definition dfs0 :: dfs where "dfs0 = \<lparr>f_loaded = False, f_files = [], f_kern = kern0\<rparr>"

lemma dmod0_loads [simp]: "loads dmod0"
  by (simp add: loads_def dmod0_def)

lemma dfs0_simps [simp]: "\<not> f_loaded dfs0" "f_files dfs0 = []" "f_kern dfs0 = kern0"
  by (simp_all add: dfs0_def)

lemma dma_test_removed_witness:
  "\<exists>w'. dma_test (d40_debugfs_ops ideal_kernel dmod0) 36 (modprobe dmod0 dfs0) = Some ((- 3, 0), w')"
proof -
  have "ends ideal_kernel 36" "\<not> runnable ideal_kernel 36" "\<forall>sz chain. e_sgsize ideal_kernel sz chain = 0"
    by (simp_all add: ends_def runnable_def removed_def ideal_kernel_def)
  with dma_test_verdict [OF ideal_kernel_good, of 36 "modprobe dmod0 dfs0" dmod0] modprobe_serves(1) [of dmod0 dfs0]
  show ?thesis by auto
qed

section \<open>The whole program\<close>

lemma options_optionstr [simp]: "optionstr (Some options) = ''c:efhi:I:pP:tn:''"
  by (simp add: optionstr_def std_options_def options_def)

text \<open>The two ways to start the program: with \<open>-n\<close> and with nothing.\<close>

lemma parse_n:
  assumes "no_env pe"
  shows "parse_opts pe [''-n'', a] (Some options) (std0 1) = Some (Parsed, (std0 1)\<lparr>u_flags := [True], u_args := [Some a]\<rparr>)"
proof -
  have "getopt ''c:efhi:I:pP:tn:'' [] [''-n'', a] = [(CHR ''n'', Some a)]" by (simp add: strchr_def takes_arg_def)
  moreover have "malloc_ok pe" using assms by (simp add: no_env_def)
  ultimately show ?thesis
    using assms by (simp add: parse_opts_def opt_case_def, simp add: options_def c_simps parse_env_empty std0_def)
qed


lemma once:
  assumes "counted s" "STD_LOOP_COUNT s = 1"
  shows "test_loop clock s body 0 looping0 b = map_option (Pair (looped s 1 looping0)) (body b)"
  using test_loop_counted [OF assms(1), of 0 clock body looping0 b] assms(2) by (cases "body b") simp_all

lemma opt_testnum_n:
  assumes "n \<in> set [1..<70]"
  shows "opt_testnum ((std0 1)\<lparr>u_flags := [True], u_args := [Some (int_to_string (int n))]\<rparr>) = Some (Some (int n))"
  using assms by (simp add: opt_testnum_def n_opt_def n_copt_def int_arg_def c_simps fits_int_def INT_MIN_def INT_MAX_def)

text \<open>The report of the only result, and the exit, in the mode that \<open>TOUTPUT\<close> unset stands for.\<close>

lemma report_once:
  assumes "0 \<le> c" "m \<noteq> []" "env_toutput te = None" "ty \<in> {TPASS, TFAIL}"
  shows "\<exists>t. (tst_resm te ty m ((tst_init ''dma'')\<lparr>tst_count := c, t_errno := 0, t_test_errno := 0\<rparr>) \<bind> tst_exit te) = Some t \<and>
    t_exit t = Some ty \<and> t_lines t = [Result_line True ''dma'' (c + 1) (if ty = TPASS then ''TPASS'' else ''TFAIL'') (shown m) None None]"
proof -
  have r: "TTYPE_RESULT TPASS = 0" "TTYPE_RESULT TFAIL = 1" by (simp_all add: TTYPE_RESULT_def)
  have t: "strttype TPASS = ''TPASS''" "strttype TFAIL = ''TFAIL''" by code_simp+
  let ?s = "(tst_init ''dma'')\<lparr>tst_count := c, t_errno := 0, t_test_errno := 0\<rparr>"
  have i: "tst_inv ?s" using assms(1) by (simp add: tst_inv_def tst_init_def)
  let ?e = "entered te ty ?s"
  have e: "t_file ?e = None" "t_out ?e" "t_mode ?e = VERBOSE" "tst_count ?e = c" "tcid ?e = ''dma''" "t_lines ?e = []" "t_last ?e = None"
    "t_exitval ?e = ty"
    using assms(3,4) r by (auto simp: entered_def check_env_def tst_init_def)
  show ?thesis
    using assms(4) tst_resm_eq [OF i assms(2), of te ty] tst_print_plain [OF e(1,2), of te "''dma''" "c + 1" ty "shown m"] e r t
    by (auto simp: Let_def suppressed_def result_line_def tst_exit_def tst_flush_def)
qed

text \<open>C8: with \<open>-n\<close> and the number of any test but the endless test 14, in an empty environment and on a kernel where nothing
fails, the program loads the module, reports this test, with one line, removes the module with its files and exits: with PASS
and status 0 for a test that is built in and no script, and with FAIL and status 1 for one that is not built in and for the
scripts 10 to 13, whose output it does not understand.  Option parsing, the loop, the files, the module's test and the report fit
together.\<close>

theorem dma_main_single:
  assumes "good_kernel e" "\<forall>sz chain. e_sgsize e sz chain = 0" "no_env pe" "env_toutput te = None"
    "n \<in> set [1..<70]" "n = 14 \<longrightarrow> removed e 14" "loads g" "\<not> f_loaded w" "f_files w = []"
  shows "\<exists>t k'. dma_main (d40_debugfs_ops e g) (modprobe g) modprobe_remove te pe clock file strerror
      [''-n'', int_to_string (int n)] w = Some \<lparr>u_tst = t, u_world = w\<lparr>f_kern := k'\<rparr>\<rparr> \<and>
    t_exit t = Some (if runnable e n then 0 else 1) \<and>
    t_lines t = [if runnable e n then Result_line True ''dma'' (int n) ''TPASS'' (shown (ok_mesg (int n))) None None
       else Result_line True ''dma'' (int n) ''TFAIL'' (shown (fail_mesg file strerror (- 3) (int n) 0)) None None] \<and>
    k_held k' = k_held (f_kern w)"
proof -
  have en: "ends e n" using assms(5,6) by (simp add: ends_def)
  note m = modprobe_serves [OF assms(7-9)]
  obtain k' where k': "dma_test (d40_debugfs_ops e g) (int n) (modprobe g w) =
      Some ((if runnable e n then 0 else - 3, 0), (modprobe g w)\<lparr>f_kern := k'\<rparr>)"
    "k_held k' = k_held (f_kern w)"
    using dma_test_verdict [OF assms(1) en assms(2) m(1) assms(7)] m(2) by auto
  have u: "modprobe_remove ((modprobe g w)\<lparr>f_kern := k'\<rparr>) = w\<lparr>f_kern := k'\<rparr>"
    using m(1) assms(8,9) by (cases w) (simp add: modprobe_remove_def stedma40_test_exit_def served_def modprobe_def split: prod.splits)
  let ?ty = "if runnable e n then TPASS else TFAIL"
  let ?m = "if runnable e n then ok_mesg (int n) else fail_mesg file strerror (- 3) (int n) 0"
  have c: "0 \<le> int n - 1" "?m \<noteq> []" "?ty \<in> {TPASS, TFAIL}" using assms(5) by auto
  obtain t where t: "(tst_resm te ?ty ?m ((tst_init ''dma'')\<lparr>tst_count := int n - 1, t_errno := 0, t_test_errno := 0\<rparr>) \<bind> tst_exit te) = Some t"
    "t_exit t = Some ?ty" "t_lines t = [Result_line True ''dma'' (int n) (if ?ty = TPASS then ''TPASS'' else ''TFAIL'') (shown ?m) None None]"
    using report_once [OF c(1,2) assms(4) c(3)] by auto
  let ?s = "(std0 1)\<lparr>u_flags := [True], u_args := [Some (int_to_string (int n))]\<rparr>"
  have s: "counted ?s" "STD_LOOP_COUNT ?s = 1" "STD_FUNCTIONAL_TEST ?s" by (simp_all add: counted_def std0_def float0_def)
  note o = opt_testnum_n [OF assms(5)]
  show ?thesis
  proof (cases "runnable e n")
    case True
    with k' t u show ?thesis
      by (auto simp: dma_main_def parse_n [OF assms(3)] o s(3) once [OF s(1,2)] dma_body_def dma_step_def bind_eq_Some_conv
        simp del: One_nat_def)
  next
    case False
    with k' t u show ?thesis
      by (auto simp: dma_main_def parse_n [OF assms(3)] o s(3) once [OF s(1,2)] dma_body_def dma_step_def bind_eq_Some_conv
        simp del: One_nat_def)
  qed
qed

lemma dma_main_single_witness:
  "(\<exists>t k'. dma_main (d40_debugfs_ops ideal_kernel dmod0) (modprobe dmod0) modprobe_remove plain_env quiet_env (\<lambda>_. 0) ''dma.c'' (\<lambda>_. [])
      [''-n'', int_to_string 55] dfs0 = Some \<lparr>u_tst = t, u_world = dfs0\<lparr>f_kern := k'\<rparr>\<rparr> \<and> t_exit t = Some 0) \<and>
   (\<exists>t k'. dma_main (d40_debugfs_ops ideal_kernel dmod0) (modprobe dmod0) modprobe_remove plain_env quiet_env (\<lambda>_. 0) ''dma.c'' (\<lambda>_. [])
      [''-n'', int_to_string 36] dfs0 = Some \<lparr>u_tst = t, u_world = dfs0\<lparr>f_kern := k'\<rparr>\<rparr> \<and> t_exit t = Some 1)"
proof -
  have z: "\<forall>sz chain. e_sgsize ideal_kernel sz chain = 0" "env_toutput plain_env = None" by (simp_all add: ideal_kernel_def plain_env_def)
  have r: "runnable ideal_kernel 55" "\<not> runnable ideal_kernel 36" by (simp_all add: runnable_def removed_def ideal_kernel_def)
  note d = dma_main_single [OF ideal_kernel_good z(1) quiet_env z(2), where g = dmod0 and w = dfs0 and clock = "\<lambda>_. 0" and
    strerror = "\<lambda>_. []"]
  show ?thesis using d [of 55 "''dma.c''"] d [of 36 "''dma.c''"] r by auto
qed




end
