(* ===== verification/Pattern.thy ===== *)
theory Pattern
imports Prelude
begin

text \<open>\<open>ltp_framework/lib/pattern.c\<close>: filling a data buffer with a shifted, repeated pattern, and
checking it.  Both copy (compare) the first pattern-length bytes in at most two pieces and then
double the filled prefix until the buffer is full.\<close>

section \<open>The code\<close>

partial_function (option) fill_loop ::
  "int \<Rightarrow> byte list \<Rightarrow> int \<Rightarrow> int \<Rightarrow> int \<Rightarrow> byte list option" where
  "fill_loop buflen buf cp ncopied nleft =
    (if ncopied < buflen then do {
       let trans = (if ncopied < nleft then ncopied else nleft);
       src \<leftarrow> rd_block buf 0 trans;
       chk (trans \<le> cp);
       buf' \<leftarrow> wr_block buf cp src;
       fill_loop buflen buf' (cp + trans) (ncopied + trans) (nleft - trans)
     } else Some buf)"

definition norm_shift :: "int \<Rightarrow> int \<Rightarrow> int option" where
  "norm_shift patlen patshift = (if patlen \<noteq> 0 then c_mod patshift patlen else Some patshift)"

text \<open>Result: the return value and the buffer.\<close>

definition pattern_fill ::
  "byte list \<Rightarrow> int \<Rightarrow> byte list \<Rightarrow> int \<Rightarrow> int \<Rightarrow> (int \<times> byte list) option" where
  "pattern_fill buf buflen pat patlen patshift0 = do {
     patshift \<leftarrow> norm_shift patlen patshift0;
     let cp = 0; let nleft = buflen;
     let trans = patlen - patshift;
     if nleft < trans then do {
       src \<leftarrow> rd_block pat patshift nleft;
       buf1 \<leftarrow> wr_block buf cp src;
       Some (0, buf1)
     } else do {
       src \<leftarrow> rd_block pat patshift trans;
       buf1 \<leftarrow> wr_block buf cp src;
       let nleft1 = nleft - trans; let cp1 = cp + trans;
       if patshift > 0 then do {
         let trans1 = patshift;
         if nleft1 < trans1 then do {
           src1 \<leftarrow> rd_block pat 0 nleft1;
           buf2 \<leftarrow> wr_block buf1 cp1 src1;
           Some (0, buf2)
         } else do {
           src1 \<leftarrow> rd_block pat 0 trans1;
           buf2 \<leftarrow> wr_block buf1 cp1 src1;
           buf3 \<leftarrow> fill_loop buflen buf2 (cp1 + trans1) (cp1 + trans1) (nleft1 - trans1);
           Some (0, buf3)
         }
       } else do {
         buf3 \<leftarrow> fill_loop buflen buf1 cp1 cp1 nleft1;
         Some (0, buf3)
       }
     }
   }"

text \<open>\<open>memcmp(...)\<close> as a truth value: the two blocks differ.\<close>

definition memcmp :: "byte list \<Rightarrow> int \<Rightarrow> byte list \<Rightarrow> int \<Rightarrow> int \<Rightarrow> bool option" where
  "memcmp a i b j n = do {
     x \<leftarrow> rd_block a i n;
     y \<leftarrow> rd_block b j n;
     Some (x \<noteq> y)
   }"

partial_function (option) check_loop ::
  "int \<Rightarrow> byte list \<Rightarrow> int \<Rightarrow> int \<Rightarrow> int \<Rightarrow> int option" where
  "check_loop buflen buf cp ncmp nleft =
    (if ncmp < buflen then do {
       let nb = (if ncmp < nleft then ncmp else nleft);
       d \<leftarrow> memcmp buf 0 buf cp nb;
       if d then Some (- 1)
       else check_loop buflen buf (cp + nb) (ncmp + nb) (nleft - nb)
     } else Some 0)"

definition pattern_check ::
  "byte list \<Rightarrow> int \<Rightarrow> byte list \<Rightarrow> int \<Rightarrow> int \<Rightarrow> int option" where
  "pattern_check buf buflen pat patlen patshift0 = do {
     patshift \<leftarrow> norm_shift patlen patshift0;
     let cp = 0; let nleft = buflen;
     let nb = patlen - patshift;
     if nleft < nb then do {
       d \<leftarrow> memcmp buf cp pat patshift nleft;
       Some (if d then - 1 else 0)
     } else do {
       d \<leftarrow> memcmp buf cp pat patshift nb;
       if d then Some (- 1) else do {
         let nleft1 = nleft - nb; let cp1 = cp + nb;
         if patshift > 0 then do {
           let nb1 = patshift;
           if nleft1 < nb1 then do {
             d1 \<leftarrow> memcmp buf cp1 pat 0 nleft1;
             Some (if d1 then - 1 else 0)
           } else do {
             d1 \<leftarrow> memcmp buf cp1 pat 0 nb1;
             if d1 then Some (- 1)
             else check_loop buflen buf (cp1 + nb1) (cp1 + nb1) (nleft1 - nb1)
           }
         } else check_loop buflen buf cp1 cp1 nleft1
       }
     }
   }"

section \<open>What the code means\<close>

text \<open>Byte \<open>i\<close> of the reference is byte \<open>(i + shift) mod patlen\<close> of the pattern.\<close>

definition pat_ref :: "byte list \<Rightarrow> nat \<Rightarrow> nat \<Rightarrow> byte list" where
  "pat_ref pat shift n = map (\<lambda>i. pat ! ((i + shift) mod length pat)) [0..<n]"

lemma pat_ref_length [simp]: "length (pat_ref pat shift n) = n"
  by (simp add: pat_ref_def)

lemma pat_ref_nth [simp]: "i < n \<Longrightarrow> pat_ref pat shift n ! i = pat ! ((i + shift) mod length pat)"
  by (simp add: pat_ref_def)

lemma pat_ref_take [simp]: "take t (pat_ref pat shift n) = pat_ref pat shift (min t n)"
  by (rule nth_equalityI) auto

lemma pat_ref_add:
  assumes "c mod length pat = 0"
  shows "pat_ref pat shift (c + t) = pat_ref pat shift c @ pat_ref pat shift t"
proof -
  have "(c + i + shift) mod length pat = (i + shift) mod length pat" for i
    using assms by (metis add.assoc add_0 mod_add_left_eq)
  then have per: "(c + (i + shift)) mod length pat = (i + shift) mod length pat" for i
    by (simp add: add.assoc)
  have "pat ! ((i + shift) mod length pat) = pat ! ((i - c + shift) mod length pat)" if "\<not> i < c" for i
    using per [of "i - c"] that by (simp add: add.commute)
  then show ?thesis
    by (intro nth_equalityI) (auto simp: nth_append)
qed

text \<open>The two pieces of the first pattern length.\<close>

lemma pat_ref_head:
  assumes "s < length pat" "n \<le> length pat - s"
  shows "pat_ref pat s n = take n (drop s pat)"
  using assms by (intro nth_equalityI) (auto simp: add.commute)

lemma pat_ref_second:
  assumes "s < length pat" "n \<le> s"
  shows "pat_ref pat s (length pat - s + n) = drop s pat @ take n pat"
proof (intro nth_equalityI)
  fix i assume "i < length (pat_ref pat s (length pat - s + n))"
  then have i: "i < length pat - s + n" by simp
  show "pat_ref pat s (length pat - s + n) ! i = (drop s pat @ take n pat) ! i"
  proof (cases "i < length pat - s")
    case True with assms show ?thesis by (simp add: nth_append add.commute)
  next
    case False
    then have "(i + s) mod length pat = i + s - length pat"
      using False i assms by (subst mod_if) auto
    with False i assms show ?thesis by (simp add: nth_append)
  qed
qed (use assms in simp)

section \<open>The loops\<close>

lemma fill_loop_ref:
  assumes "0 < c" "c mod length pat = 0" "c \<le> bl" "bl \<le> c + length rest"
  shows "fill_loop (int bl) (pat_ref pat s c @ rest) (int c) (int c) (int (bl - c))
     = Some (pat_ref pat s bl @ drop (bl - c) rest)"
  using assms
proof (induction "bl - c" arbitrary: c rest rule: less_induct)
  case less
  show ?case
  proof (cases "c < bl")
    case False
    with less.prems show ?thesis by (simp add: fill_loop.simps)
  next
    case True
    define t where "t = min c (bl - c)"
    have t: "0 < t" "t \<le> c" "t \<le> bl - c" "t \<le> length rest"
      using less.prems True by (auto simp: t_def)
    have tr: "(if int c < int (bl - c) then int c else int (bl - c)) = int t"
      by (auto simp: t_def)
    let ?rest = "drop t rest"
    have step: "fill_loop (int bl) (pat_ref pat s c @ rest) (int c) (int c) (int (bl - c))
      = fill_loop (int bl) (pat_ref pat s (c + t) @ ?rest) (int (c + t)) (int (c + t)) (int (bl - (c + t)))"
      using True t less.prems tr
      by (subst fill_loop.simps)
        (simp add: Let_def c_simps pat_ref_add min_absorb1 del: of_nat_diff split del: if_split,
         simp add: of_nat_diff algebra_simps)
    show ?thesis
    proof (cases "c + t < bl")
      case False
      with t have "c + t = bl" "bl - c = t" by simp_all
      with step show ?thesis by (simp add: fill_loop.simps [of _ _ _ "int bl"])
    next
      case True
      then have "t = c" by (auto simp: t_def)
      then have "(c + t) mod length pat = 0" using less.prems(2) by (simp add: mod_add_eq [symmetric])
      with less.hyps [of "c + t" ?rest] True t less.prems step show ?thesis
        by (simp add: add.commute)
    qed
  qed
qed

lemma take_append_drop_eq:
  "c + t \<le> length buf \<Longrightarrow> take (c + t) buf = take c buf @ take t (drop c buf)"
  by (simp add: take_add)

lemma check_loop_ref:
  assumes "0 < c" "c mod length pat = 0" "c \<le> bl" "bl \<le> length buf"
    and "take c buf = pat_ref pat s c"
  shows "check_loop (int bl) buf (int c) (int c) (int (bl - c))
     = Some (if take bl buf = pat_ref pat s bl then 0 else - 1)"
  using assms
proof (induction "bl - c" arbitrary: c rule: less_induct)
  case less
  show ?case
  proof (cases "c < bl")
    case False
    with less.prems show ?thesis by (simp add: check_loop.simps)
  next
    case True
    define t where "t = min c (bl - c)"
    have t: "0 < t" "t \<le> c" "t \<le> bl - c"
      using less.prems True by (auto simp: t_def)
    have tr: "(if int c < int (bl - c) then int c else int (bl - c)) = int t"
      by (auto simp: t_def)
    have tt: "take t buf = pat_ref pat s t"
      using less.prems(5) t(2) by (metis min.absorb1 pat_ref_take take_take)
    have eq: "take t (drop c buf) = take t buf \<longleftrightarrow> take (c + t) buf = pat_ref pat s (c + t)"
      using less.prems by (simp add: take_add tt pat_ref_add)
    have rd0: "rd_block buf 0 (int t) = Some (take t buf)"
      using rd_block_nat [of buf 0 t] t less.prems by simp
    have rdc: "rd_block buf (int c) (int t) = Some (take t (drop c buf))"
      using t less.prems True by (simp add: rd_block_nat)
    have step: "check_loop (int bl) buf (int c) (int c) (int (bl - c)) =
      (if take (c + t) buf = pat_ref pat s (c + t)
       then check_loop (int bl) buf (int (c + t)) (int (c + t)) (int (bl - (c + t))) else Some (- 1))"
      using True t tr
      by (subst check_loop.simps)
        (simp add: Let_def memcmp_def rd0 rdc del: of_nat_diff split del: if_split,
         simp add: of_nat_diff algebra_simps eq [symmetric] eq_commute)
    show ?thesis
    proof (cases "take (c + t) buf = pat_ref pat s (c + t)")
      case False
      then have "take bl buf \<noteq> pat_ref pat s bl"
        using t by (metis le_add_diff_inverse min.absorb1 add_le_cancel_left less_or_eq_imp_le
            less.prems(3) pat_ref_take take_take)
      with False step show ?thesis by simp
    next
      case same: True
      show ?thesis
      proof (cases "c + t < bl")
        case False
        with t have "c + t = bl" by simp
        with same step show ?thesis by (simp add: check_loop.simps)
      next
        case True
        then have "t = c" by (auto simp: t_def)
        then have "(c + t) mod length pat = 0" using less.prems(2) by (simp add: mod_add_eq [symmetric])
        with less.hyps [of "c + t"] True t less.prems step same show ?thesis
          by (simp add: add.commute)
      qed
    qed
  qed
qed

section \<open>The functions\<close>

lemma norm_shift_nat [c_simps]:
  "0 < length pat \<Longrightarrow> norm_shift (int (length pat)) (int k) = Some (int (k mod length pat))"
  by (simp add: norm_shift_def c_mod_nonneg zmod_int)

lemma pat_ref_mod [simp]: "pat_ref pat (k mod length pat) n = pat_ref pat k n"
  by (simp add: pat_ref_def mod_add_right_eq)

lemma norm_shift_small: "s < length pat \<Longrightarrow> norm_shift (int (length pat)) (int s) = Some (int s)"
  using norm_shift_nat [of pat s] by (cases pat) simp_all

lemma wr_block_front: "length ys \<le> length buf \<Longrightarrow> wr_block buf 0 ys = Some (ys @ drop (length ys) buf)"
  using wr_block_append [of "[]" 0 ys buf] by simp

text \<open>A shift below the length, with a buffer that reaches past the first piece of the pattern.\<close>

lemma pattern_fill_wrapped:
  assumes s: "s < length pat" and s0: "s \<noteq> 0" and h_def: "h = length pat - s" and bl: "bl \<le> length buf" and long: "\<not> bl < h"
  shows "pattern_fill buf (int bl) pat (int (length pat)) (int s) = Some (0, pat_ref pat s bl @ drop bl buf)"
proof -
  note nz = norm_shift_small [OF s]
  have L: "0 < length pat" and h: "int (length pat) - int s = int h" "0 < h" using s by (auto simp: h_def)
  have r: "rd_block pat (int s) (int h) = Some (drop s pat)"
    using s by (simp add: rd_block_nat h_def del: of_nat_diff)
  have l: "length (drop s pat) = h" by (simp add: h_def)
  have w: "wr_block buf 0 (drop s pat) = Some (drop s pat @ drop h buf)"
    using wr_block_front [of "drop s pat" buf, unfolded l] long bl by linarith
  have n: "int bl - int h = int (bl - h)" using long by simp
  show ?thesis
  proof (cases "bl - h < s")
    case True
    obtain m where m: "bl = h + m" "m < s" "m \<le> s"
      using long True by (metis le_add_diff_inverse not_less less_imp_le)
    have "rd_block pat 0 (int m) = Some (take m pat)"
      using rd_block_append_fst [of m pat "[]"] m s by simp
    moreover have "wr_block (drop s pat @ drop h buf) (int h) (take m pat)
        = Some (drop s pat @ take m pat @ drop bl buf)"
      using wr_block_append [OF l, of "take m pat" "drop h buf"] bl m s
      by (simp add: add.commute)
    moreover have "pat_ref pat s bl = drop s pat @ take m pat"
      using pat_ref_second [OF s m(3)] m(1) by (simp add: h_def)
    moreover have "int bl - int h = int m" using m by simp
    moreover have "int m < int s" "\<not> int bl < int h" using m by simp_all
    ultimately show ?thesis
      using s0 r w by (simp add: pattern_fill_def nz h)
  next
    case ge: False
    have r2: "rd_block pat 0 (int s) = Some (take s pat)"
      using rd_block_append_fst [of s pat "[]"] s by simp
    have w2: "wr_block (drop s pat @ drop h buf) (int h) (take s pat)
        = Some (pat_ref pat s (length pat) @ drop (length pat) buf)"
      using wr_block_append [OF l, of "take s pat" "drop h buf"] bl ge long s pat_ref_second [OF s, of s]
      by (simp add: h_def add.commute)
    have e: "int h + int s = int (length pat)" "int (bl - h) - int s = int (bl - length pat)"
      using s ge long by (simp_all add: h_def)
    have "pattern_fill buf (int bl) pat (int (length pat)) (int s) =
      fill_loop (int bl) (pat_ref pat s (length pat) @ drop (length pat) buf)
        (int (length pat)) (int (length pat)) (int (bl - length pat)) \<bind> (\<lambda>b. Some (0, b))"
      using s0 long ge r w n r2 w2 e by (simp add: pattern_fill_def nz h del: of_nat_diff)
    also have "\<dots> = Some (0, pat_ref pat s bl @ drop bl buf)"
      using fill_loop_ref [of "length pat" pat bl "drop (length pat) buf" s] L bl long ge s
      by (simp add: h_def)
    finally show ?thesis .
  qed
qed

lemma pattern_fill_unshifted:
  assumes L: "0 < length pat" and bl: "bl \<le> length buf" and long: "\<not> bl < length pat"
  shows "pattern_fill buf (int bl) pat (int (length pat)) 0 = Some (0, pat_ref pat 0 bl @ drop bl buf)"
proof -
  have nz: "norm_shift (int (length pat)) 0 = Some 0" using norm_shift_small [of 0 pat] L by simp
  have ref: "pat_ref pat 0 (length pat) = pat" using pat_ref_head [of 0 pat "length pat"] L by simp
  have r: "rd_block pat 0 (int (length pat)) = Some pat" using rd_block_nat [of pat 0 "length pat"] by simp
  have w: "wr_block buf 0 pat = Some (pat @ drop (length pat) buf)" using wr_block_front [of pat buf] long bl by simp
  have n: "int bl - int (length pat) = int (bl - length pat)" using long by simp
  have "pattern_fill buf (int bl) pat (int (length pat)) 0 =
    fill_loop (int bl) (pat @ drop (length pat) buf) (int (length pat)) (int (length pat)) (int (bl - length pat)) \<bind> (\<lambda>b. Some (0, b))"
    using long r w n by (simp add: pattern_fill_def nz Let_def del: of_nat_diff)
  also have "\<dots> = Some (0, pat_ref pat 0 bl @ drop bl buf)"
    using fill_loop_ref [of "length pat" pat bl "drop (length pat) buf" 0] L bl long ref by simp
  finally show ?thesis .
qed

lemma pattern_fill_ref:
  assumes L: "0 < length pat" and bl: "bl \<le> length buf"
  shows "pattern_fill buf (int bl) pat (int (length pat)) (int k)
    = Some (0, pat_ref pat k bl @ drop bl buf)"
proof -
  define s where "s = k mod length pat"
  have s: "s < length pat" using L by (simp add: s_def)
  have k: "pattern_fill buf (int bl) pat (int (length pat)) (int k) = pattern_fill buf (int bl) pat (int (length pat)) (int s)"
    using L by (simp add: pattern_fill_def c_simps norm_shift_small [OF s] s_def)
  have "pattern_fill buf (int bl) pat (int (length pat)) (int s) = Some (0, pat_ref pat s bl @ drop bl buf)"
  proof (cases "bl < length pat - s")
    case True
    then have "rd_block pat (int s) (int bl) = Some (pat_ref pat s bl)"
      using s by (simp add: c_simps pat_ref_head)
    moreover have "int bl < int (length pat) - int s" using True by simp
    ultimately show ?thesis using bl wr_block_front [of "pat_ref pat s bl" buf]
      by (simp add: pattern_fill_def norm_shift_small [OF s])
  next
    case long: False
    then show ?thesis
      using pattern_fill_unshifted [OF L bl] pattern_fill_wrapped [OF s _ refl bl long] by (cases "s = 0") auto
  qed
  with k show ?thesis by (simp add: s_def)
qed

lemma memcmp_nat [c_simps]:
  "c + n \<le> length a \<Longrightarrow> s + n \<le> length b \<Longrightarrow>
    memcmp a (int c) b (int s) (int n) = Some (take n (drop c a) \<noteq> take n (drop s b))"
  by (simp add: memcmp_def rd_block_nat)

lemma take_eq_mono:
  "take n xs = pat_ref pat s n \<Longrightarrow> m \<le> n \<Longrightarrow> take m xs = pat_ref pat s m"
  by (metis min.absorb1 pat_ref_take take_take)

text \<open>A shift below the length, with a buffer that reaches past a first piece that is right.\<close>

lemma pattern_check_wrapped:
  assumes s: "s < length pat" and s0: "s \<noteq> 0" and h_def: "h = length pat - s" and bl: "bl \<le> length buf" and long: "\<not> bl < h"
    and first: "take h buf = pat_ref pat s h" "memcmp buf 0 pat (int s) (int h) = Some False"
  shows "pattern_check buf (int bl) pat (int (length pat)) (int s) = Some (if take bl buf = pat_ref pat s bl then 0 else - 1)"
proof -
  note nz = norm_shift_small [OF s]
  have h: "int (length pat) - int s = int h" "0 < h" using s by (auto simp: h_def)
  have n: "int bl - int h = int (bl - h)" using long by simp
  have hd: "take h buf = drop s pat" using first pat_ref_head [OF s, of h] by (simp add: h_def)
  have m2: "memcmp buf (int h) pat 0 (int m) = Some (take (h + m) buf \<noteq> pat_ref pat s (h + m))"
    if "m \<le> s" "h + m \<le> length buf" for m
    using memcmp_nat [of h m buf 0 pat] that s hd pat_ref_second [OF s, of m] by (simp add: take_add h_def [symmetric])
  show ?thesis
  proof (cases "bl - h < s")
    case True
    with s0 long first n m2 [of "bl - h"] bl show ?thesis by (simp add: pattern_check_def nz h del: of_nat_diff)
  next
    case ge: False
    have e: "int h + int s = int (length pat)" "int bl - int h - int s = int (bl - length pat)" "h + s = length pat"
      using s ge long by (simp_all add: h_def)
    have "take (length pat) buf = pat_ref pat s (length pat)" if "take bl buf = pat_ref pat s bl"
      using take_eq_mono [OF that] e ge long by simp
    moreover have "memcmp buf (int h) pat 0 (int s) = Some (take (length pat) buf \<noteq> pat_ref pat s (length pat))"
      using m2 [of s] e ge long bl by simp
    moreover have "pattern_check buf (int bl) pat (int (length pat)) (int s) =
      (if take (length pat) buf = pat_ref pat s (length pat)
       then check_loop (int bl) buf (int (length pat)) (int (length pat)) (int (bl - length pat)) else Some (- 1))"
      using s0 long ge first n e(1,2) calculation(2) by (simp add: pattern_check_def nz h Let_def del: of_nat_diff)
    ultimately show ?thesis
      using check_loop_ref [of "length pat" pat bl buf s] e s bl ge long by (cases "pat = []") auto
  qed
qed

lemma pattern_check_unshifted:
  assumes L: "0 < length pat" and bl: "bl \<le> length buf" and long: "\<not> bl < length pat"
    and first: "take (length pat) buf = pat_ref pat 0 (length pat)" "memcmp buf 0 pat 0 (int (length pat)) = Some False"
  shows "pattern_check buf (int bl) pat (int (length pat)) 0 = Some (if take bl buf = pat_ref pat 0 bl then 0 else - 1)"
proof -
  have "int bl - int (length pat) = int (bl - length pat)" using long by simp
  then have "pattern_check buf (int bl) pat (int (length pat)) 0 =
    check_loop (int bl) buf (int (length pat)) (int (length pat)) (int (bl - length pat))"
    using long first norm_shift_small [of 0 pat] L by (simp add: pattern_check_def Let_def del: of_nat_diff)
  then show ?thesis using check_loop_ref [of "length pat" pat bl buf 0] first L bl long by auto
qed

lemma pattern_check_ref:
  assumes L: "0 < length pat" and bl: "bl \<le> length buf"
  shows "pattern_check buf (int bl) pat (int (length pat)) (int k)
    = Some (if take bl buf = pat_ref pat k bl then 0 else - 1)"
proof -
  define s where "s = k mod length pat"
  have s: "s < length pat" using L by (simp add: s_def)
  note nz = norm_shift_small [OF s]
  define h where "h = length pat - s"
  have h: "int (length pat) - int s = int h" using s by (auto simp: h_def)
  have k: "pattern_check buf (int bl) pat (int (length pat)) (int k) = pattern_check buf (int bl) pat (int (length pat)) (int s)"
    using L by (simp add: pattern_check_def c_simps nz s_def)
  have m: "memcmp buf 0 pat (int s) (int m) = Some (take m buf \<noteq> pat_ref pat s m)" if "m \<le> h" "m \<le> length buf" for m
    using memcmp_nat [of 0 m buf s pat] that s by (simp add: h_def pat_ref_head)
  have "pattern_check buf (int bl) pat (int (length pat)) (int s) = Some (if take bl buf = pat_ref pat s bl then 0 else - 1)"
  proof (cases "bl < h")
    case True
    with m [of bl] bl show ?thesis by (simp add: pattern_check_def nz h)
  next
    case long: False
    show ?thesis
    proof (cases "take h buf = pat_ref pat s h")
      case True
      then show ?thesis
        using long m [of h] bl pattern_check_unshifted [OF L bl] pattern_check_wrapped [OF s _ h_def bl long] by (cases "s = 0") (auto simp: h_def)
    next
      case False
      then have "take bl buf \<noteq> pat_ref pat s bl" using take_eq_mono [of bl buf pat s h] long by auto
      with False long m [of h] bl show ?thesis by (auto simp: pattern_check_def nz h Let_def simp del: of_nat_diff)
    qed
  qed
  with k show ?thesis by (simp add: s_def)
qed

text \<open>With an empty pattern and a non-empty buffer neither loop makes progress: the state is
unchanged by an iteration, so the call does not return.\<close>

lemma fill_loop_stuck: "0 < bl \<Longrightarrow> fill_loop bl buf 0 0 bl = None"
proof (cases "fill_loop bl buf 0 0 bl")
  case (Some r)
  then have "\<not> ((0::int) = 0 \<and> (0::int) = 0 \<and> bl = bl \<and> 0 < bl)"
    by (rule fill_loop.raw_induct [where P = "\<lambda>bl buf cp nc nl r. \<not> (cp = 0 \<and> nc = 0 \<and> nl = bl \<and> 0 < bl)", rotated])
      (auto simp: Let_def bind_eq_Some_conv rd_block_def wr_block_def split: if_splits)
  then show "0 < bl \<Longrightarrow> ?thesis" by simp
qed simp

end
