(* ===== verification/Generator.thy ===== *)
theory Generator
imports Prelude
begin

text \<open>The contract shared by the data generators of the library (\<open>pattern.c\<close>, \<open>dataascii.c\<close>,
\<open>databin.c\<close>): a fill routine and a check routine that agree on what a buffer should hold, and
for two of them a check that locates the first wrong byte.\<close>

section \<open>Fill and check\<close>

locale generator =
  fixes fill :: "'p \<Rightarrow> byte list \<Rightarrow> byte list option"
    and passes :: "'p \<Rightarrow> byte list \<Rightarrow> bool option"
    and expected :: "'p \<Rightarrow> nat \<Rightarrow> byte list"
    and valid :: "'p \<Rightarrow> nat \<Rightarrow> bool"
  assumes expected_length: "valid p n \<Longrightarrow> length (expected p n) = n"
    and fill_expected: "valid p (length buf) \<Longrightarrow> fill p buf = Some (expected p (length buf))"
    and passes_iff: "valid p (length buf) \<Longrightarrow> passes p buf = Some (buf = expected p (length buf))"
begin

lemma fill_passes:
  assumes "valid p (length buf)"
  shows "fill p buf \<bind> passes p = Some True"
  using assms by (simp add: fill_expected passes_iff expected_length)

lemma corruption_detected:
  assumes "valid p (length buf)" "fill p buf = Some b" "i < length buf" "v \<noteq> b ! i"
  shows "passes p (b[i := v]) = Some False"
proof -
  have b: "b = expected p (length buf)" using assms by (simp add: fill_expected)
  then have "length b = length buf" using assms by (simp add: expected_length)
  then have "b[i := v] \<noteq> b" using assms by (metis nth_list_update_eq)
  with b \<open>length b = length buf\<close> assms(1) show ?thesis
    using passes_iff [of p "b[i := v]"] by simp
qed

lemma fill_idem:
  assumes "valid p (length buf)"
  shows "fill p buf \<bind> fill p = fill p buf"
  using assms by (simp add: fill_expected expected_length)

end

section \<open>Locating the first difference\<close>

fun first_diff :: "'a list \<Rightarrow> 'a list \<Rightarrow> nat option" where
  "first_diff (x # xs) (y # ys) = (if x \<noteq> y then Some 0 else map_option Suc (first_diff xs ys))"
| "first_diff _ _ = None"

lemma first_diff_None: "length xs = length ys \<Longrightarrow> first_diff xs ys = None \<longleftrightarrow> xs = ys"
  by (induction xs ys rule: first_diff.induct) auto

lemma first_diff_Some:
  "first_diff xs ys = Some i \<Longrightarrow>
     i < length xs \<and> i < length ys \<and> xs ! i \<noteq> ys ! i \<and> take i xs = take i ys"
  by (induction xs ys arbitrary: i rule: first_diff.induct) (auto split: if_splits)

lemma first_diff_update:
  "i < length xs \<Longrightarrow> v \<noteq> xs ! i \<Longrightarrow> first_diff xs (xs[i := v]) = Some i"
proof (induction xs arbitrary: i)
  case (Cons x xs)
  then show ?case by (cases i) auto
qed simp

locale locating_generator =
  fixes lfill :: "'p \<Rightarrow> byte list \<Rightarrow> byte list option"
    and locate :: "'p \<Rightarrow> byte list \<Rightarrow> nat option option"
    and lexpected :: "'p \<Rightarrow> nat \<Rightarrow> byte list"
    and lvalid :: "'p \<Rightarrow> nat \<Rightarrow> bool"
  assumes lexpected_length: "lvalid p n \<Longrightarrow> length (lexpected p n) = n"
    and lfill_expected: "lvalid p (length buf) \<Longrightarrow> lfill p buf = Some (lexpected p (length buf))"
    and locate_first: "lvalid p (length buf) \<Longrightarrow>
      locate p buf = Some (first_diff (lexpected p (length buf)) buf)"

sublocale locating_generator \<subseteq>
  generator lfill "\<lambda>p buf. map_option (\<lambda>r. r = None) (locate p buf)" lexpected lvalid
  by unfold_locales
    (auto simp: lexpected_length lfill_expected locate_first first_diff_None)

context locating_generator begin

lemma corruption_located:
  assumes "lvalid p (length buf)" "lfill p buf = Some b" "i < length buf" "v \<noteq> b ! i"
  shows "locate p (b[i := v]) = Some (Some i)"
proof -
  have b: "b = lexpected p (length buf)" using assms by (simp add: lfill_expected)
  then have "length b = length buf" using assms by (simp add: lexpected_length)
  with b assms show ?thesis
    using locate_first [of p "b[i := v]"] by (simp add: first_diff_update)
qed

end

end
