(* ===== verification/DataGen.thy ===== *)
theory DataGen
imports Generator
begin

text \<open>\<open>ltp_framework/lib/dataascii.c\<close> and \<open>ltp_framework/lib/databin.c\<close>: buffers of cycling
characters and of binary patterns, and their checkers.  The message left in \<open>Errmsg\<close> is not
modelled; \<open>rand()\<close> is the argument \<open>rnd\<close> (its n-th result).\<close>

section \<open>dataascii.c\<close>

definition CHARS :: "byte list" where
  "CHARS = map of_char (''ABCDEFGHIJKLMNOPQRSTUVWXYZabcdefghjiklmnopqrstuvwxyz'' @ [CHR 0x0A])"

text \<open>The character array and \<open>chars_size\<close>: \<open>sizeof\<close> counts the terminating NUL of the default
list, \<open>strlen\<close> does not count the one of the caller's list.\<close>

definition charlist_of :: "byte list option \<Rightarrow> byte list \<times> int" where
  "charlist_of listofchars = (case listofchars of
      None \<Rightarrow> (CHARS @ [0], int (length CHARS) + 1)
    | Some s \<Rightarrow> (s @ [0], int (length s)))"

fun ascii_gen_loop :: "byte list \<Rightarrow> int \<Rightarrow> nat \<Rightarrow> int \<Rightarrow> int \<Rightarrow> byte list \<Rightarrow> byte list option" where
  "ascii_gen_loop charlist sz 0 cnt chr buf = Some buf"
| "ascii_gen_loop charlist sz (Suc n) cnt chr buf = do {
     ind \<leftarrow> c_mod cnt sz;
     c \<leftarrow> rd charlist ind;
     buf' \<leftarrow> wr buf chr c;
     ascii_gen_loop charlist sz n (cnt + 1) (chr + 1) buf'
   }"

definition dataasciigen :: "byte list option \<Rightarrow> byte list \<Rightarrow> int \<Rightarrow> int \<Rightarrow> (int \<times> byte list) option" where
  "dataasciigen listofchars buffer bsize offset = do {
     let total = offset + bsize;
     chk (fits_int total);
     let (charlist, chars_size) = charlist_of listofchars;
     buf \<leftarrow> ascii_gen_loop charlist chars_size (nat (total - offset)) offset 0 buffer;
     Some (bsize, buf)
   }"

fun ascii_chk_loop :: "byte list \<Rightarrow> int \<Rightarrow> nat \<Rightarrow> int \<Rightarrow> int \<Rightarrow> byte list \<Rightarrow> int option" where
  "ascii_chk_loop charlist sz 0 cnt chr buf = Some (- 1)"
| "ascii_chk_loop charlist sz (Suc n) cnt chr buf = do {
     ind \<leftarrow> c_mod cnt sz;
     b \<leftarrow> rd buf chr;
     c \<leftarrow> rd charlist ind;
     if b \<noteq> c then Some cnt
     else ascii_chk_loop charlist sz n (cnt + 1) (chr + 1) buf
   }"

definition dataasciichk :: "byte list option \<Rightarrow> byte list \<Rightarrow> int \<Rightarrow> int \<Rightarrow> int option" where
  "dataasciichk listofchars buffer bsize offset = do {
     let total = offset + bsize;
     chk (fits_int total);
     let (charlist, chars_size) = charlist_of listofchars;
     ascii_chk_loop charlist chars_size (nat (total - offset)) offset 0 buffer
   }"

section \<open>databin.c\<close>

definition count_byte :: "int \<Rightarrow> int" where
  "count_byte i = and (i smod 8) 127"

fun bin_gen_loop :: "(nat \<Rightarrow> int) \<Rightarrow> nat \<Rightarrow> nat \<Rightarrow> byte list \<Rightarrow> byte list option" where
  "bin_gen_loop f 0 ind buf = Some buf"
| "bin_gen_loop f (Suc n) ind buf = do {
     buf' \<leftarrow> wr buf (int ind) (word_of_int (f ind));
     bin_gen_loop f n (Suc ind) buf'
   }"

definition memset :: "byte list \<Rightarrow> byte \<Rightarrow> int \<Rightarrow> byte list option" where
  "memset buf v n = do { chk (0 \<le> n); wr_block buf 0 (replicate (nat n) v) }"

definition databingen :: "(nat \<Rightarrow> int) \<Rightarrow> char \<Rightarrow> byte list \<Rightarrow> int \<Rightarrow> int \<Rightarrow> byte list option" where
  "databingen rnd mode buffer bsize offset =
    (if mode = CHR ''c'' then memset buffer 0xf0 bsize
     else if mode = CHR ''C'' then bin_gen_loop (\<lambda>ind. count_byte (offset + int ind)) (nat bsize) 0 buffer
     else if mode = CHR ''o'' then memset buffer 0xff bsize
     else if mode = CHR ''z'' then memset buffer 0 bsize
     else if mode = CHR ''r'' then bin_gen_loop (\<lambda>ind. or (and (rnd ind) 127) 64) (nat bsize) 0 buffer
     else memset buffer 0x55 bsize)"

fun bin_chk_loop :: "(nat \<Rightarrow> int) \<Rightarrow> int \<Rightarrow> nat \<Rightarrow> nat \<Rightarrow> byte list \<Rightarrow> int option" where
  "bin_chk_loop expbits offset 0 cnt buf = Some (- 1)"
| "bin_chk_loop expbits offset (Suc n) cnt buf = do {
     act \<leftarrow> rd buf (int cnt);
     if uint act \<noteq> expbits cnt then Some (offset + int cnt)
     else bin_chk_loop expbits offset n (Suc cnt) buf
   }"

definition databinchk :: "char \<Rightarrow> byte list \<Rightarrow> int \<Rightarrow> int \<Rightarrow> int option" where
  "databinchk mode buffer bsize offset =
    (if mode = CHR ''c'' then bin_chk_loop (\<lambda>_. 0xf0) offset (nat bsize) 0 buffer
     else if mode = CHR ''C'' then bin_chk_loop (\<lambda>cnt. count_byte (offset + int cnt)) offset (nat bsize) 0 buffer
     else if mode = CHR ''o'' then bin_chk_loop (\<lambda>_. 0xff) offset (nat bsize) 0 buffer
     else if mode = CHR ''z'' then bin_chk_loop (\<lambda>_. 0) offset (nat bsize) 0 buffer
     else if mode = CHR ''r'' then Some (- 1)
     else bin_chk_loop (\<lambda>_. 0x55) offset (nat bsize) 0 buffer)"

section \<open>The loops against their reference\<close>

definition ascii_ref :: "byte list option \<Rightarrow> int \<Rightarrow> nat \<Rightarrow> byte list" where
  "ascii_ref l offset n = map (\<lambda>i. fst (charlist_of l) ! nat ((offset + int i) mod snd (charlist_of l))) [0..<n]"

lemma map_Suc_upt_shift: "map f [0..<Suc n] = f 0 # map (\<lambda>i. f (Suc i)) [0..<n]"
  by (simp add: upt_conv_Cons map_Suc_upt [symmetric] del: upt_Suc)

lemma ascii_gen_loop_ref:
  assumes "0 \<le> cnt" "0 < sz" "sz \<le> int (length cl)"
  shows "c + n \<le> length buf \<Longrightarrow> ascii_gen_loop cl sz n cnt (int c) buf =
    Some (take c buf @ map (\<lambda>i. cl ! nat ((cnt + int i) mod sz)) [0..<n] @ drop (c + n) buf)"
  using assms
proof (induction n arbitrary: cnt c buf)
  case (Suc n)
  have m: "0 \<le> cnt mod sz" "cnt mod sz < sz" using Suc.prems by auto
  then have r: "rd cl (cnt mod sz) = Some (cl ! nat (cnt mod sz))"
    using Suc.prems m by (simp add: rd_def order_less_le_trans)
  let ?b = "buf[c := cl ! nat (cnt mod sz)]"
  have t: "take (Suc c) ?b = take c buf @ [cl ! nat (cnt mod sz)]"
    using Suc.prems by (simp add: take_Suc_conv_app_nth)
  have d: "drop (Suc c + n) ?b = drop (c + Suc n) buf" by simp
  have IH: "ascii_gen_loop cl sz n (cnt + 1) (int (Suc c)) ?b =
    Some (take (Suc c) ?b @ map (\<lambda>i. cl ! nat ((cnt + 1 + int i) mod sz)) [0..<n] @ drop (Suc c + n) ?b)"
    using Suc.prems by (intro Suc.IH) auto
  have s: "int c + 1 = int (Suc c)" by simp
  have g: "map (\<lambda>i. cl ! nat ((cnt + int i) mod sz)) [0..<Suc n] =
     cl ! nat (cnt mod sz) # map (\<lambda>i. cl ! nat ((cnt + 1 + int i) mod sz)) [0..<n]"
    by (subst map_Suc_upt_shift) (simp add: ac_simps)
  show ?case
    using Suc.prems r IH
    by (simp add: c_mod_nonneg wr_nat s t d g del: of_nat_Suc upt_Suc)
qed simp

lemma bin_gen_loop_ref:
  "c + n \<le> length buf \<Longrightarrow> bin_gen_loop f n c buf =
    Some (take c buf @ map (\<lambda>i. word_of_int (f (c + i))) [0..<n] @ drop (c + n) buf)"
proof (induction n arbitrary: c buf)
  case (Suc n)
  let ?b = "buf[c := word_of_int (f c)]"
  have t: "take (Suc c) ?b = take c buf @ [word_of_int (f c)]"
    using Suc.prems by (simp add: take_Suc_conv_app_nth)
  show ?case
    using Suc.prems Suc.IH [of "Suc c" ?b] t
    by (simp add: wr_nat map_Suc_upt_shift del: upt_Suc)
qed simp

definition chk_code :: "int \<Rightarrow> nat option \<Rightarrow> int" where
  "chk_code offset r = (case r of None \<Rightarrow> - 1 | Some i \<Rightarrow> offset + int i)"

lemma ascii_chk_loop_ref:
  assumes "0 \<le> cnt" "0 < sz" "sz \<le> int (length cl)"
  shows "c + n \<le> length buf \<Longrightarrow> ascii_chk_loop cl sz n cnt (int c) buf =
    Some (chk_code cnt (first_diff (map (\<lambda>i. cl ! nat ((cnt + int i) mod sz)) [0..<n]) (take n (drop c buf))))"
  using assms
proof (induction n arbitrary: cnt c)
  case (Suc n)
  have m: "0 \<le> cnt mod sz" "cnt mod sz < sz" using Suc.prems by auto
  then have r: "rd cl (cnt mod sz) = Some (cl ! nat (cnt mod sz))"
    using Suc.prems m by (simp add: rd_def order_less_le_trans)
  have IH: "ascii_chk_loop cl sz n (cnt + 1) (int (Suc c)) buf =
    Some (chk_code (cnt + 1) (first_diff (map (\<lambda>i. cl ! nat ((cnt + 1 + int i) mod sz)) [0..<n]) (take n (drop (Suc c) buf))))"
    using Suc.prems by (intro Suc.IH) auto
  have s: "int c + 1 = int (Suc c)" by simp
  have g: "map (\<lambda>i. cl ! nat ((cnt + int i) mod sz)) [0..<Suc n] =
     cl ! nat (cnt mod sz) # map (\<lambda>i. cl ! nat ((cnt + 1 + int i) mod sz)) [0..<n]"
    by (subst map_Suc_upt_shift) (simp add: ac_simps)
  have d: "take (Suc n) (drop c buf) = buf ! c # take n (drop (Suc c) buf)"
    using Suc.prems by (simp add: Cons_nth_drop_Suc [symmetric])
  show ?case
    using Suc.prems r IH
    by (auto simp: c_mod_nonneg rd_nat s g d chk_code_def split: option.splits simp del: of_nat_Suc upt_Suc)
qed (simp add: chk_code_def)

lemma uint_byte_eq:
  assumes "0 \<le> k" "k < 256" shows "uint (b :: byte) = k \<longleftrightarrow> word_of_int k = b"
proof -
  have "uint (word_of_int k :: byte) = k"
    using assms by (simp add: uint_word_of_int)
  then show ?thesis by auto
qed

lemma bin_chk_loop_ref:
  assumes "\<And>i. 0 \<le> f i \<and> f i < 256"
  shows "c + n \<le> length buf \<Longrightarrow> bin_chk_loop f offset n c buf =
    Some (chk_code (offset + int c) (first_diff (map (\<lambda>i. word_of_int (f (c + i))) [0..<n]) (take n (drop c buf))))"
proof (induction n arbitrary: c)
  case (Suc n)
  have d: "take (Suc n) (drop c buf) = buf ! c # take n (drop (Suc c) buf)"
    using Suc.prems by (simp add: Cons_nth_drop_Suc [symmetric])
  have u: "uint (buf ! c) = f c \<longleftrightarrow> word_of_int (f c) = buf ! c"
    using assms [of c] by (simp add: uint_byte_eq)
  show ?case
    using Suc.prems Suc.IH [of "Suc c"] u
    by (auto simp: rd_nat d map_Suc_upt_shift chk_code_def split: option.splits simp del: upt_Suc)
qed (simp add: chk_code_def)

section \<open>The functions against their reference\<close>

definition ascii_ok :: "byte list option \<times> int \<Rightarrow> nat \<Rightarrow> bool" where
  "ascii_ok p n \<longleftrightarrow> fst p \<noteq> Some [] \<and> 0 \<le> snd p \<and> fits_int (snd p + int n)"

lemma charlist_of_ok:
  "l \<noteq> Some [] \<Longrightarrow> charlist_of l = (cl, sz) \<Longrightarrow> 0 < sz \<and> sz \<le> int (length cl)"
  by (auto simp: charlist_of_def split: option.splits)

lemma dataasciigen_ref:
  assumes "ascii_ok (l, offset) n" "n \<le> length buf"
  shows "dataasciigen l buf (int n) offset = Some (int n, ascii_ref l offset n @ drop n buf)"
proof -
  obtain cl sz where c: "charlist_of l = (cl, sz)" by force
  from assms c have "0 < sz" "sz \<le> int (length cl)"
    using charlist_of_ok [of l cl sz] by (auto simp: ascii_ok_def)
  with assms c show ?thesis
    using ascii_gen_loop_ref [of offset sz cl 0 n buf]
    by (simp add: dataasciigen_def c_simps ascii_ref_def ascii_ok_def)
qed

lemma dataasciichk_ref:
  assumes "ascii_ok (l, offset) n" "n \<le> length buf"
  shows "dataasciichk l buf (int n) offset =
    Some (chk_code offset (first_diff (ascii_ref l offset n) (take n buf)))"
proof -
  obtain cl sz where c: "charlist_of l = (cl, sz)" by force
  from assms c have "0 < sz" "sz \<le> int (length cl)"
    using charlist_of_ok [of l cl sz] by (auto simp: ascii_ok_def)
  with assms c show ?thesis
    using ascii_chk_loop_ref [of offset sz cl 0 n buf]
    by (simp add: dataasciichk_def c_simps ascii_ref_def ascii_ok_def)
qed

definition bin_ref :: "(nat \<Rightarrow> int) \<Rightarrow> char \<Rightarrow> int \<Rightarrow> nat \<Rightarrow> byte list" where
  "bin_ref rnd mode offset n =
    (if mode = CHR ''c'' then replicate n 0xf0
     else if mode = CHR ''C'' then map (\<lambda>i. word_of_int ((offset + int i) mod 8)) [0..<n]
     else if mode = CHR ''o'' then replicate n 0xff
     else if mode = CHR ''z'' then replicate n 0
     else if mode = CHR ''r'' then map (\<lambda>i. word_of_int (or (and (rnd i) 127) 64)) [0..<n]
     else replicate n 0x55)"

lemma count_byte_nonneg [simp]: "0 \<le> i \<Longrightarrow> count_byte i = i mod 8"
proof -
  assume "0 \<le> i"
  have "and (i mod 8) 127 = take_bit 7 (i mod 8)"
    by (simp add: take_bit_eq_mask mask_eq_exp_minus_1)
  also have "\<dots> = i mod 8" by (simp add: take_bit_int_eq_self order_less_trans [of _ 8])
  finally show ?thesis using \<open>0 \<le> i\<close> by (simp add: count_byte_def smod_nonneg)
qed

lemma count_byte_range: "0 \<le> count_byte i \<and> count_byte i < 256"
proof -
  have "and (i smod 8) 127 = take_bit 7 (i smod 8)"
    by (simp add: take_bit_eq_mask mask_eq_exp_minus_1)
  moreover have "take_bit 7 (i smod 8) < 2 ^ 7" by (rule take_bit_int_less_exp)
  ultimately show ?thesis by (simp add: count_byte_def)
qed

lemma memset_nat [c_simps]:
  "n \<le> length buf \<Longrightarrow> memset buf v (int n) = Some (replicate n v @ drop n buf)"
  using wr_block_append [of "[]" 0 "replicate n v" buf] by (simp add: memset_def c_simps)

lemma databingen_ref:
  assumes "0 \<le> offset" "n \<le> length buf"
  shows "databingen rnd mode buf (int n) offset = Some (bin_ref rnd mode offset n @ drop n buf)"
  using assms bin_gen_loop_ref [of 0 n buf] 
  by (auto simp: databingen_def bin_ref_def memset_nat)

lemma replicate_as_map: "replicate n v = map (\<lambda>_. v) [0..<n]"
  by (simp add: map_replicate_const)

lemma databinchk_ref:
  assumes "0 \<le> offset" "n \<le> length buf" "mode \<noteq> CHR ''r''"
  shows "databinchk mode buf (int n) offset =
    Some (chk_code offset (first_diff (bin_ref rnd mode offset n) (take n buf)))"
  using assms bin_chk_loop_ref [of _ 0 n buf offset] count_byte_range
  by (auto simp: databinchk_def bin_ref_def replicate_as_map)

section \<open>Interfaces\<close>

text \<open>The offset a checker reports, relative to the buffer.\<close>

definition rel_pos :: "int \<Rightarrow> int \<Rightarrow> nat option" where
  "rel_pos offset r = (if r = - 1 then None else Some (nat (r - offset)))"

lemma rel_pos_chk_code: "0 \<le> offset \<Longrightarrow> rel_pos offset (chk_code offset r) = r"
  by (auto simp: rel_pos_def chk_code_def split: option.splits)

interpretation ascii: locating_generator
  "\<lambda>p buf. map_option snd (dataasciigen (fst p) buf (int (length buf)) (snd p))"
  "\<lambda>p buf. map_option (rel_pos (snd p)) (dataasciichk (fst p) buf (int (length buf)) (snd p))"
  "\<lambda>p. ascii_ref (fst p) (snd p)" ascii_ok
proof
  fix p n show "length (ascii_ref (fst p) (snd p) n) = n" by (simp add: ascii_ref_def)
next
  fix p and buf :: "byte list" assume "ascii_ok p (length buf)"
  then show "map_option snd (dataasciigen (fst p) buf (int (length buf)) (snd p)) =
      Some (ascii_ref (fst p) (snd p) (length buf))"
    by (simp add: dataasciigen_ref)
next
  fix p and buf :: "byte list" assume "ascii_ok p (length buf)"
  then show "map_option (rel_pos (snd p)) (dataasciichk (fst p) buf (int (length buf)) (snd p)) =
      Some (first_diff (ascii_ref (fst p) (snd p) (length buf)) buf)"
    by (simp add: dataasciichk_ref rel_pos_chk_code ascii_ok_def)
qed

definition bin_ok :: "char \<times> int \<Rightarrow> nat \<Rightarrow> bool" where
  "bin_ok p n \<longleftrightarrow> fst p \<noteq> CHR ''r'' \<and> 0 \<le> snd p"

interpretation bin: locating_generator
  "\<lambda>p buf. databingen rnd (fst p) buf (int (length buf)) (snd p)"
  "\<lambda>p buf. map_option (rel_pos (snd p)) (databinchk (fst p) buf (int (length buf)) (snd p))"
  "\<lambda>p. bin_ref rnd (fst p) (snd p)" bin_ok for rnd
proof
  fix p n show "length (bin_ref rnd (fst p) (snd p) n) = n" by (simp add: bin_ref_def)
next
  fix p and buf :: "byte list" assume "bin_ok p (length buf)"
  then show "databingen rnd (fst p) buf (int (length buf)) (snd p) =
      Some (bin_ref rnd (fst p) (snd p) (length buf))"
    by (simp add: databingen_ref bin_ok_def)
next
  fix p and buf :: "byte list" assume "bin_ok p (length buf)"
  then show "map_option (rel_pos (snd p)) (databinchk (fst p) buf (int (length buf)) (snd p)) =
      Some (first_diff (bin_ref rnd (fst p) (snd p) (length buf)) buf)"
    by (simp add: databinchk_ref [of _ _ _ _ rnd] rel_pos_chk_code bin_ok_def)
qed

end
