(* ===== verification/DataProps.thy ===== *)
theory DataProps
imports Pattern DataGen
begin

text \<open>What the data generators promise their callers (the I/O tests): what was filled in passes the check,
any changed byte is found, and for the ASCII and binary data the first changed byte is located.\<close>

section \<open>pattern.c as a generator\<close>

interpretation pat: generator
  "\<lambda>(p, k) buf. map_option snd (pattern_fill buf (int (length buf)) p (int (length p)) (int k))"
  "\<lambda>(p, k) buf. map_option (\<lambda>r. r = 0) (pattern_check buf (int (length buf)) p (int (length p)) (int k))"
  "\<lambda>(p, k). pat_ref p k" "\<lambda>(p, k) n. p \<noteq> []"
  by unfold_locales (auto simp: pattern_fill_ref pattern_check_ref split: prod.splits)

text \<open>C31: \<open>pattern_fill\<close> fills a buffer so that \<open>pattern_check\<close> with the same pattern and shift accepts it, and
rejects (with -1) every buffer in which one byte was changed afterwards.\<close>

theorem pattern_roundtrip:
  assumes "p \<noteq> []" "i < length buf"
  shows "\<exists>b. pattern_fill buf (int (length buf)) p (int (length p)) (int k) = Some (0, b) \<and> length b = length buf \<and>
    pattern_check b (int (length buf)) p (int (length p)) (int k) = Some 0 \<and>
    (v \<noteq> b ! i \<longrightarrow> pattern_check (b[i := v]) (int (length buf)) p (int (length p)) (int k) = Some (- 1))"
proof -
  have f: "pattern_fill buf (int (length buf)) p (int (length p)) (int k) = Some (0, pat_ref p k (length buf))"
    using pattern_fill_ref [of p "length buf" buf k] assms(1) by simp
  have c: "pattern_check b (int (length buf)) p (int (length p)) (int k) = Some (if b = pat_ref p k (length buf) then 0 else - 1)"
    if "length b = length buf" for b
    using pattern_check_ref [of p "length buf" b k] assms(1) that by simp
  have "(pat_ref p k (length buf))[i := v] \<noteq> pat_ref p k (length buf)" if "v \<noteq> pat_ref p k (length buf) ! i"
    using pat.corruption_detected [of "(p, k)" buf "pat_ref p k (length buf)" i v] assms that f c by auto
  then show ?thesis using f c by (intro exI [of _ "pat_ref p k (length buf)"]) simp
qed

lemma pattern_roundtrip_witness:
  "\<exists>b. pattern_fill [0, 0, 0, 0] (int (length [0, 0, 0, 0 :: byte])) [1, 2, 3] (int (length [1, 2, 3 :: byte])) (int 1) = Some (0, b) \<and>
    pattern_check b (int (length [0, 0, 0, 0 :: byte])) [1, 2, 3] (int (length [1, 2, 3 :: byte])) (int 1) = Some 0"
  using pattern_roundtrip [of "[1, 2, 3]" 2 "[0, 0, 0, 0]" 1 9] by fastforce

text \<open>C30: the bytes \<open>pattern_fill\<close> writes: byte \<open>i\<close> of the buffer is byte \<open>(i + shift) mod patlen\<close> of the pattern,
whatever the two copies and the doubling loop do to get there, and nothing is written after \<open>buflen\<close>.\<close>

theorem pattern_fill_bytes:
  assumes "p \<noteq> []" "n \<le> length buf"
  shows "pattern_fill buf (int n) p (int (length p)) (int k) =
    Some (0, map (\<lambda>i. p ! ((i + k) mod length p)) [0..<n] @ drop n buf)"
  using pattern_fill_ref [of p n buf k] assms by (simp add: pat_ref_def)

lemma pattern_fill_bytes_witness:
  "pattern_fill [0, 0, 0, 0, 9] (int 4) [1, 2] (int (length [1, 2 :: byte])) (int 3) = Some (0, [2, 1, 2, 1, 9])"
  using pattern_fill_bytes [of "[1, 2]" 4 "[0, 0, 0, 0, 9]" 3] by (simp add: upt_conv_Cons numeral_2_eq_2 [symmetric] del: upt_Suc)

text \<open>With an empty pattern \<open>pattern_fill\<close> never returns: no byte is copied, and the doubling loop doubles
nothing for ever.\<close>

theorem pattern_fill_empty:
  assumes "0 < n" "n \<le> length buf"
  shows "pattern_fill buf (int n) [] 0 0 = None"
proof -
  have "fill_loop (int n) buf 0 0 (int n) = None" using fill_loop_stuck [of "int n" buf] assms(1) by simp
  then show ?thesis using assms by (simp add: pattern_fill_def norm_shift_def rd_block_def wr_block_def Let_def)
qed

lemma pattern_fill_empty_witness: "pattern_fill [0, 0] (int 2) [] 0 0 = None"
  by (rule pattern_fill_empty) simp_all

section \<open>dataascii.c and databin.c\<close>

text \<open>C32: after \<open>dataasciigen\<close>, \<open>dataasciichk\<close> with the same list and offset returns -1 (all bytes right); when
byte \<open>i\<close> was changed it returns the file offset of that byte.\<close>

theorem dataascii_located:
  assumes "l \<noteq> Some []" "0 \<le> offset" "fits_int (offset + int (length buf))" "i < length buf"
  shows "\<exists>b. dataasciigen l buf (int (length buf)) offset = Some (int (length buf), b) \<and>
    dataasciichk l b (int (length buf)) offset = Some (- 1) \<and>
    (v \<noteq> b ! i \<longrightarrow> dataasciichk l (b[i := v]) (int (length buf)) offset = Some (offset + int i))"
proof -
  have ok: "ascii_ok (l, offset) (length buf)" using assms by (simp add: ascii_ok_def)
  let ?b = "ascii_ref l offset (length buf)"
  have len: "length ?b = length buf" by (simp add: ascii_ref_def)
  have g: "dataasciigen l buf (int (length buf)) offset = Some (int (length buf), ?b)"
    using dataasciigen_ref [OF ok order_refl] by simp
  have c: "dataasciichk l b (int (length buf)) offset = Some (chk_code offset (first_diff ?b b))"
    if "length b = length buf" for b
    using dataasciichk_ref [OF ok, of b] that by simp
  have "first_diff ?b ?b = None" using first_diff_None [of ?b ?b] by simp
  moreover have "first_diff ?b (?b[i := v]) = Some i" if "v \<noteq> ?b ! i"
    using first_diff_update [of i ?b v] assms(4) len that by simp
  ultimately show ?thesis using g c len by (intro exI [of _ ?b]) (simp add: chk_code_def)
qed

lemma dataascii_located_witness:
  "\<exists>b. dataasciigen None [0, 0, 0] (int (length [0, 0, 0 :: byte])) 100 = Some (int (length [0, 0, 0 :: byte]), b) \<and>
    dataasciichk None b (int (length [0, 0, 0 :: byte])) 100 = Some (- 1)"
  using dataascii_located [of None 100 "[0, 0, 0]" 1 7] by (auto simp: fits_int_def INT_MIN_def INT_MAX_def)

text \<open>The binary generator and checker agree in every mode but the random one, and the checker returns the
offset of the first changed byte; in the random mode it accepts anything.\<close>

theorem databin_located:
  assumes "0 \<le> offset" "i < length buf"
  shows "\<exists>b. databingen rnd mode buf (int (length buf)) offset = Some b \<and>
    databinchk mode b (int (length buf)) offset = Some (- 1) \<and>
    (v \<noteq> b ! i \<longrightarrow> databinchk mode (b[i := v]) (int (length buf)) offset =
       Some (if mode = CHR ''r'' then - 1 else offset + int i))"
proof -
  let ?b = "bin_ref rnd mode offset (length buf)"
  have len: "length ?b = length buf" by (simp add: bin_ref_def)
  have g: "databingen rnd mode buf (int (length buf)) offset = Some ?b"
    using databingen_ref [OF assms(1) order_refl] by simp
  have r: "databinchk (CHR ''r'') b n offset = Some (- 1)" for b n by (simp add: databinchk_def)
  have c: "databinchk mode b (int (length buf)) offset = Some (chk_code offset (first_diff ?b b))"
    if "length b = length buf" "mode \<noteq> CHR ''r''" for b
    using databinchk_ref [OF assms(1), of "length buf" b mode rnd] that by simp
  have "first_diff ?b ?b = None" using first_diff_None [of ?b ?b] by simp
  moreover have "first_diff ?b (?b[i := v]) = Some i" if "v \<noteq> ?b ! i"
    using first_diff_update [of i ?b v] assms(2) len that by simp
  ultimately show ?thesis using g c r len
    by (cases "mode = CHR ''r''") (auto intro!: exI [of _ ?b] simp: chk_code_def)
qed

lemma databin_located_witness:
  "\<exists>b. databingen (\<lambda>_. 3) (CHR ''C'') [0, 0] (int (length [0, 0 :: byte])) 6 = Some b \<and>
    databinchk (CHR ''C'') b (int (length [0, 0 :: byte])) 6 = Some (- 1)"
  using databin_located [of 6 1 "[0, 0]" "\<lambda>_. 3" "CHR ''C''" 9] by auto

end
