(* ===== verification/Stdio.thy ===== *)
theory Stdio
imports CString TstReport ParseProps
begin

text \<open>What the sensor tests use of the C library: streams on the files of sysfs, and their common \<open>main\<close>.

The driver behind the files is a parameter (record \<open>sysfs\<close> over a world): whether a file opens, what it reads,
and whether it accepts what is written.  A stream on a file is fully buffered unless \<open>unbuffered\<close> (when its
buffer cannot be allocated): \<open>fputc\<close> fills the buffer, \<open>fflush\<close> and \<open>fclose\<close> hand it to the driver.  A stream that is closed twice has no
value.  \<open>io_open\<close> counts the descriptors that are open.\<close>

section \<open>Streams\<close>

record 'w sysfs =
  can_open :: "string \<Rightarrow> bool \<Rightarrow> 'w \<Rightarrow> bool"
  contents :: "string \<Rightarrow> 'w \<Rightarrow> string \<times> 'w"
  accepts :: "string \<Rightarrow> string \<Rightarrow> 'w \<Rightarrow> bool \<times> 'w"
  unbuffered :: bool

record 'w io =
  io_world :: 'w
  io_open :: int

record strm =
  st_path :: string
  st_buf :: string
  st_live :: bool

definition EOF :: int where "EOF = - 1"

text \<open>\<open>fopen(path, "w")\<close> when \<open>w\<close>, else \<open>fopen(path, "r")\<close>.\<close>

definition fopen :: "'w sysfs \<Rightarrow> string \<Rightarrow> bool \<Rightarrow> 'w io \<Rightarrow> (strm \<times> 'w io) option" where
  "fopen y path w io = (if can_open y path w (io_world io)
     then Some (\<lparr>st_path = path, st_buf = [], st_live = True\<rparr>, io\<lparr>io_open := io_open io + 1\<rparr>) else None)"

definition flush :: "'w sysfs \<Rightarrow> strm \<Rightarrow> 'w io \<Rightarrow> bool \<times> strm \<times> 'w io" where
  "flush y f io = (if st_buf f = [] then (True, f, io)
     else let (ok, w) = accepts y (st_path f) (st_buf f) (io_world io)
          in (ok, f\<lparr>st_buf := []\<rparr>, io\<lparr>io_world := w\<rparr>))"

text \<open>\<open>fputs\<close>, and \<open>fputc\<close> for one character: false is EOF.\<close>

definition fputs :: "'w sysfs \<Rightarrow> string \<Rightarrow> strm \<Rightarrow> 'w io \<Rightarrow> (bool \<times> strm \<times> 'w io) option" where
  "fputs y s f io = do {
     chk (st_live f);
     let f = f\<lparr>st_buf := st_buf f @ s\<rparr>;
     Some (if unbuffered y then flush y f io else (True, f, io))
   }"

definition fputc :: "'w sysfs \<Rightarrow> char \<Rightarrow> strm \<Rightarrow> 'w io \<Rightarrow> (bool \<times> strm \<times> 'w io) option" where
  "fputc y c = fputs y [c]"

definition fflush :: "'w sysfs \<Rightarrow> strm \<Rightarrow> 'w io \<Rightarrow> (strm \<times> 'w io) option" where
  "fflush y f io = do { chk (st_live f); let (ok, f, io) = flush y f io; Some (f, io) }"

definition fclose :: "'w sysfs \<Rightarrow> strm \<Rightarrow> 'w io \<Rightarrow> (strm \<times> 'w io) option" where
  "fclose y f io = do {
     chk (st_live f);
     let (ok, f, io) = flush y f io;
     Some (f\<lparr>st_live := False\<rparr>, io\<lparr>io_open := io_open io - 1\<rparr>)
   }"

text \<open>One \<open>fscanf\<close> on a stream just opened for reading; the scanner says whether all conversions succeed.\<close>

definition fscanf :: "'w sysfs \<Rightarrow> (string \<Rightarrow> 'a) \<Rightarrow> strm \<Rightarrow> 'w io \<Rightarrow> ('a \<times> 'w io) option" where
  "fscanf y scan f io = do {
     chk (st_live f);
     let (s, w) = contents y (st_path f) (io_world io);
     Some (scan s, io\<lparr>io_world := w\<rparr>)
   }"

definition scan_d :: "string \<Rightarrow> bool" where "scan_d s \<longleftrightarrow> sscanf_d s \<noteq> None"

text \<open>\<open>%8x\<close>: the rest of the input.\<close>

definition scan_x8 :: "string \<Rightarrow> string option" where
  "scan_x8 s = (let s = dropWhile isspace s;
      (neg, t) = read_sign (take 8 s);
      t = (case t of c # x # cs \<Rightarrow> if c = CHR ''0'' \<and> (x = CHR ''x'' \<or> x = CHR ''X'') then cs else t | _ \<Rightarrow> t);
      (v, n, rest) = read_digits 16 0 0 t
    in if n = 0 then None else Some (rest @ drop 8 s))"

definition colon :: "string \<Rightarrow> string option" where
  "colon s = (case s of [] \<Rightarrow> None | c # cs \<Rightarrow> if c = CHR '':'' then Some cs else None)"

text \<open>\<open>fscanf(f, "%8x:%8x:%8x", ...) == 3\<close>.\<close>

definition scan_xyz :: "string \<Rightarrow> bool" where
  "scan_xyz s \<longleftrightarrow> (scan_x8 s \<bind> colon \<bind> scan_x8 \<bind> colon \<bind> scan_x8) \<noteq> None"

section \<open>Blocks that the sensor tests repeat\<close>

text \<open>Characters written one after the other with \<open>fflush\<close> between them; the result is that of the last \<open>fputc\<close>:
\<open>if (fputc(c, f) == EOF) val = EOF; else val = 0;\<close>\<close>

fun put_chars :: "'w sysfs \<Rightarrow> string \<Rightarrow> int \<Rightarrow> strm \<Rightarrow> 'w io \<Rightarrow> (int \<times> strm \<times> 'w io) option" where
  "put_chars y [] val f io = Some (val, f, io)"
| "put_chars y (c # cs) val f io = do {
     (ok, f, io) \<leftarrow> fputc y c f io;
     let val = (if ok then 0 else EOF);
     (f, io) \<leftarrow> (if cs = [] then Some (f, io) else fflush y f io);
     put_chars y cs val f io
   }"

text \<open>The result of a step: \<open>Inl r\<close> when the function returns \<open>r\<close>, \<open>Inr val\<close> when it goes on.\<close>

definition step_then :: "((int + int) \<times> 'w io) option \<Rightarrow> (int \<Rightarrow> 'w io \<Rightarrow> ((int + int) \<times> 'w io) option) \<Rightarrow>
    ((int + int) \<times> 'w io) option" where
  "step_then m f = do { (r, io) \<leftarrow> m; case r of Inl v \<Rightarrow> Some (Inl v, io) | Inr v \<Rightarrow> f v io }"

definition returned :: "((int + int) \<times> 'w io) option \<Rightarrow> (int \<times> 'w io) option" where
  "returned m = do { (r, io) \<leftarrow> m; Some (case r of Inl v \<Rightarrow> v | Inr v \<Rightarrow> v, io) }"

text \<open>Open, write, close; a file that cannot be opened makes the function return -1.\<close>

definition write_file :: "'w sysfs \<Rightarrow> string \<Rightarrow> string \<Rightarrow> int \<Rightarrow> 'w io \<Rightarrow> ((int + int) \<times> 'w io) option" where
  "write_file y path cs val io = (case fopen y path True io of
      None \<Rightarrow> Some (Inl (- 1), io)
    | Some (f, io) \<Rightarrow> do {
        (val, f, io) \<leftarrow> put_chars y cs val f io;
        (f, io) \<leftarrow> fclose y f io;
        Some (Inr val, io)
      })"

text \<open>A property read with \<open>fscanf\<close>: \<open>ret\<close> counts what is missing.  The stream stays open for what follows, on a
failed conversion the function goes to \<open>error\<close>, which closes it.\<close>

definition read_prop :: "'w sysfs \<Rightarrow> (string \<Rightarrow> bool) \<Rightarrow> string \<Rightarrow> int \<Rightarrow> 'w io \<Rightarrow>
    (int \<Rightarrow> strm \<Rightarrow> 'w io \<Rightarrow> (int \<times> 'w io) option) \<Rightarrow> (int \<times> 'w io) option" where
  "read_prop y scan path ret io k = (case fopen y path False io of
      None \<Rightarrow> Some (- 1, io)
    | Some (f, io) \<Rightarrow> do {
        (ok, io) \<leftarrow> fscanf y scan f io;
        if ok then k (ret - 1) f io
        else do { (f, io) \<leftarrow> fclose y f io; Some (ret, io) }
      })"

definition close_ret :: "'w sysfs \<Rightarrow> strm \<Rightarrow> int \<Rightarrow> 'w io \<Rightarrow> (int \<times> 'w io) option" where
  "close_ret y f ret io = do { (f, io) \<leftarrow> fclose y f io; Some (ret, io) }"

text \<open>\<open>get_val\<close> of the accelerometer and the gyroscope.\<close>

definition INVALID_DATA_READ :: int where "INVALID_DATA_READ = - 1"
definition VALID_DATA :: int where "VALID_DATA = 0"

definition get_val :: "'w sysfs \<Rightarrow> string \<Rightarrow> 'w io \<Rightarrow> (int \<times> 'w io) option" where
  "get_val y fname io = (case fopen y fname False io of
      None \<Rightarrow> Some (- 1, io)
    | Some (f, io) \<Rightarrow> do {
        (ok, io) \<leftarrow> fscanf y scan_xyz f io;
        let ret = (if ok then VALID_DATA else INVALID_DATA_READ);
        close_ret y f ret io
      })"

section \<open>main of the sensor tests\<close>

record 'w sens =
  s_tst :: tst
  s_io :: "'w io"

text \<open>One call under \<open>TEST\<close> and its report: 0 passes, \<open>bad\<close> selects the second message, anything else the
third.  \<open>errno\<close> is not recorded: no report here prints it.\<close>

definition sens_test :: "tenv \<Rightarrow> ('w io \<Rightarrow> (int \<times> 'w io) option) \<Rightarrow> (int \<Rightarrow> bool) \<Rightarrow> (int \<Rightarrow> string) \<Rightarrow> (int \<Rightarrow> string) \<Rightarrow>
    'w sens \<Rightarrow> 'w sens option" where
  "sens_test te act bad m2 m3 u = do {
     (ret, io) \<leftarrow> act (s_io u);
     let n = tst_count (s_tst u);
     t \<leftarrow> (if ret = 0 then tst_resm te TPASS (''Functional test '' @ int_to_string n @ '' OK'' @ [CHR 0x0A]) (s_tst u)
           else if bad ret then tst_resm te TFAIL (m2 n) (s_tst u)
           else tst_resm te TFAIL (m3 n) (s_tst u));
     Some \<lparr>s_tst = t, s_io = io\<rparr>
   }"

definition failed :: "int \<Rightarrow> string \<Rightarrow> string" where
  "failed n m = ''Functional test '' @ int_to_string n @ '' failed. '' @ m"

definition tc_file :: "string \<Rightarrow> string \<Rightarrow> string" where
  "tc_file tc file_name = ''TCID: '' @ tc @ '' File: '' @ file_name"

text \<open>\<open>for (Tst_count = 0; Tst_count < TST_TOTAL;) switch (Tst_count) { case 0: body }\<close> with \<open>TST_TOTAL = 1\<close>.\<close>

partial_function (option) case_loop :: "('w sens \<Rightarrow> 'w sens option) \<Rightarrow> 'w sens \<Rightarrow> 'w sens option" where
  "case_loop body u = (if tst_count (s_tst u) < 1 then do {
       u \<leftarrow> (if tst_count (s_tst u) = 0 then body u else Some u);
       case_loop body u
     } else Some u)"

text \<open>The loop over \<open>TEST_LOOPING\<close> ends with \<open>tst_exit\<close> in its first iteration; a loop that is not entered
falls off the end of \<open>main\<close>.\<close>

definition sensor_main :: "tenv \<Rightarrow> penv \<Rightarrow> (nat \<Rightarrow> int) \<Rightarrow> ('w sens \<Rightarrow> 'w sens option) \<Rightarrow> string \<Rightarrow> string list \<Rightarrow> 'w \<Rightarrow>
    'w sens option" where
  "sensor_main te pe clock body tc av w = do {
     (r, s) \<leftarrow> parse_opts pe av None (std0 0);
     let u = \<lparr>s_tst = tst_init tc, s_io = \<lparr>io_world = w, io_open = 0\<rparr>\<rparr>;
     case r of
       Message msg \<Rightarrow> do {
         t \<leftarrow> tst_brkm te TBROK None (''OPTION PARSING ERROR - '' @ msg) (s_tst u);
         t \<leftarrow> (if t_exit t = None then tst_exit te t else Some t);
         Some (u\<lparr>s_tst := t\<rparr>)
       }
     | Exit0 \<Rightarrow> Some (u\<lparr>s_tst := (s_tst u)\<lparr>t_exit := Some 0\<rparr>\<rparr>)
     | Parsed \<Rightarrow> do {
         (more, l) \<leftarrow> usc_test_looping clock s 0 looping0;
         if more then do {
           u \<leftarrow> (if STD_FUNCTIONAL_TEST s then case_loop body (u\<lparr>s_tst := (s_tst u)\<lparr>tst_count := 0\<rparr>\<rparr>) else Some u);
           t \<leftarrow> tst_exit te (s_tst u);
           Some (u\<lparr>s_tst := t\<rparr>)
         }
         else Some (u\<lparr>s_tst := (s_tst u)\<lparr>t_exit := Some 0\<rparr>\<rparr>)
       }
   }"

end
