(* ===== verification/Sensors.thy ===== *)
theory Sensors
imports Stdio
begin

text \<open>The sensor tests under \<open>kernel/testcases\<close>: \<open>lsm303dlh\<close> (accelerometer and magnetometer), \<open>lps001wp_prs\<close>
(pressure), \<open>l3g4200d\<close> (gyroscope) and \<open>proximity\<close>.  Each writes and reads the files of its driver and
reports; a file-local function carries the name of its program in front (\<open>lsm_\<close>, \<open>prs_\<close>, \<open>gyr_\<close>, \<open>prox_\<close>).\<close>

section \<open>lsm303dlh\<close>

record lsm =
  acc_filepath :: string
  acc_filepath_activate :: string
  acc_filepath_range :: string
  acc_filepath_sleepwake :: string
  acc_filepath_id :: string
  acc_filepath_rate :: string
  lsm_id :: int

definition i2c :: "string \<Rightarrow> string \<Rightarrow> string" where
  "i2c dev name = ''/sys/devices/platform/nmk-i2c.2/i2c-2/2-'' @ dev @ ''/'' @ name"

definition lsm0 :: lsm where
  "lsm0 = \<lparr>acc_filepath = i2c ''0018'' ''data'', acc_filepath_activate = i2c ''0018'' ''mode'',
     acc_filepath_range = i2c ''0018'' ''range'', acc_filepath_sleepwake = i2c ''0018'' ''sleep_wake'',
     acc_filepath_id = i2c ''0018'' ''id'', acc_filepath_rate = i2c ''0018'' ''rate'', lsm_id = 0\<rparr>"

definition mag_filepath_range :: string where "mag_filepath_range = i2c ''001e'' ''range''"
definition mag_filepath :: string where "mag_filepath = i2c ''001e'' ''data''"
definition mag_filepath_activate :: string where "mag_filepath_activate = i2c ''001e'' ''mode''"
definition mag_filepath_rate :: string where "mag_filepath_rate = i2c ''001e'' ''rate''"
definition mag_filepath_gain :: string where "mag_filepath_gain = i2c ''001e'' ''gain''"

text \<open>Where the return value of a step does not matter, the file still has to open.\<close>

definition acc_set_val :: "'w sysfs \<Rightarrow> lsm \<Rightarrow> 'w io \<Rightarrow> (int \<times> 'w io) option" where
  "acc_set_val y g io = returned (
     step_then (if lsm_id g = 50 then
         step_then (write_file y (acc_filepath_rate g) ''0'' 0 io) (\<lambda>_.
         write_file y (acc_filepath_sleepwake g) ''0'' 0)
       else Some (Inr 0, io)) (\<lambda>_ io.
     step_then (write_file y (acc_filepath_range g) ''1'' 0 io) (\<lambda>_ io. do {
       (_, io) \<leftarrow> get_val y (acc_filepath g) io;
       write_file y (acc_filepath_activate g) ''1'' (- 1) io
     })))"

definition acc_set_properties :: "'w sysfs \<Rightarrow> lsm \<Rightarrow> 'w io \<Rightarrow> (int \<times> 'w io) option" where
  "acc_set_properties y g io = returned (
     step_then (if lsm_id g = 50 then
         step_then (write_file y (acc_filepath_rate g) ''0'' (- 1) io) (
         write_file y (acc_filepath_sleepwake g) ''0'')
       else Some (Inr (- 1), io)) (
     write_file y (acc_filepath_range g) ''1230''))"

definition mag_set_properties :: "'w sysfs \<Rightarrow> 'w io \<Rightarrow> (int \<times> 'w io) option" where
  "mag_set_properties y io = returned (
     step_then (write_file y mag_filepath_rate ''4'' (- 1) io) (
     write_file y mag_filepath_range ''12356784''))"

definition mag_set_val :: "'w sysfs \<Rightarrow> 'w io \<Rightarrow> (int \<times> 'w io) option" where
  "mag_set_val y io = returned (
     step_then (write_file y mag_filepath_rate ''4'' 0 io) (\<lambda>_ io.
     step_then (write_file y mag_filepath_range ''1'' 0 io) (\<lambda>_ io. do {
       (_, io) \<leftarrow> get_val y mag_filepath io;
       write_file y mag_filepath_activate ''0'' (- 1) io
     })))"

definition acc_get_properties :: "'w sysfs \<Rightarrow> lsm \<Rightarrow> 'w io \<Rightarrow> (int \<times> 'w io) option" where
  "acc_get_properties y g io =
     read_prop y scan_d (acc_filepath_activate g) 4 io (\<lambda>ret f io. do {
     (f, io) \<leftarrow> fclose y f io;
     read_prop y scan_d (acc_filepath_range g) ret io (\<lambda>ret f io.
     if lsm_id g = 50 then do {
       (f, io) \<leftarrow> fclose y f io;
       read_prop y scan_d (acc_filepath_rate g) ret io (\<lambda>ret f io. do {
       (f, io) \<leftarrow> fclose y f io;
       read_prop y scan_d (acc_filepath_sleepwake g) ret io (\<lambda>ret f io. close_ret y f ret io) })
     }
     else close_ret y f (ret - 2) io) })"

definition mag_get_properties :: "'w sysfs \<Rightarrow> 'w io \<Rightarrow> (int \<times> 'w io) option" where
  "mag_get_properties y io =
     read_prop y scan_d mag_filepath_activate 4 io (\<lambda>ret f io. do {
     (f, io) \<leftarrow> fclose y f io;
     read_prop y scan_d mag_filepath_range ret io (\<lambda>ret f io. do {
     (f, io) \<leftarrow> fclose y f io;
     read_prop y scan_d mag_filepath_rate ret io (\<lambda>ret f io. do {
     (f, io) \<leftarrow> fclose y f io;
     read_prop y scan_xyz mag_filepath_gain ret io (\<lambda>ret f io. close_ret y f ret io) }) }) })"

definition check_acc_devid :: "'w sysfs \<Rightarrow> lsm \<Rightarrow> 'w io \<Rightarrow> (int \<times> lsm \<times> 'w io) option" where
  "check_acc_devid y g io =
    (let opened = (case fopen y (acc_filepath g) False io of
         Some (f, io) \<Rightarrow> Some (f, g, io)
       | None \<Rightarrow> (case fopen y (i2c ''0019'' ''data'') False io of
           None \<Rightarrow> None
         | Some (f, io) \<Rightarrow> Some (f, g\<lparr>acc_filepath := i2c ''0019'' ''data'', acc_filepath_activate := i2c ''0019'' ''mode'',
             acc_filepath_range := i2c ''0019'' ''range'', acc_filepath_rate := i2c ''0019'' ''rate'',
             acc_filepath_sleepwake := i2c ''0019'' ''sleep_wake'', acc_filepath_id := i2c ''0019'' ''id''\<rparr>, io)))
     in case opened of None \<Rightarrow> Some (- 1, g, io)
      | Some (f, g, io) \<Rightarrow> do {
          (f, io) \<leftarrow> fclose y f io;
          case fopen y (acc_filepath_id g) False io of
            None \<Rightarrow> Some (- 1, g, io)
          | Some (f, io) \<Rightarrow> do {
              (v, io) \<leftarrow> fscanf y sscanf_d f io;
              (ret, g) \<leftarrow> (case v of None \<Rightarrow> Some (- 1, g)
                | Some v \<Rightarrow> do { chk (fits_int v); Some (0, g\<lparr>lsm_id := v\<rparr>) });
              (f, io) \<leftarrow> fclose y f io;
              Some (ret, g, io)
            }
        })"

text \<open>\<open>case 0\<close> of \<open>main\<close>; \<open>file_name\<close> stands for \<open>__FILE__\<close>.\<close>

definition not_found :: "string \<Rightarrow> string \<Rightarrow> string \<Rightarrow> string \<Rightarrow> int \<Rightarrow> string" where
  "not_found label path tc file_name n = failed n (label @ path @ '' not found. '' @ tc_file tc file_name @ [CHR 0x0A])"

definition lsm_body :: "tenv \<Rightarrow> string \<Rightarrow> 'w sysfs \<Rightarrow> 'w sens \<Rightarrow> 'w sens option" where
  "lsm_body te file_name y u =
    (let tcf = tc_file ''lsm303dlh'' file_name; plain = (\<lambda>n. failed n (tcf @ [CHR 0x0A]))
     in do {
     (_, g, io) \<leftarrow> check_acc_devid y lsm0 (s_io u);
     let u = u\<lparr>s_io := io\<rparr>;
     u \<leftarrow> sens_test te (acc_set_val y g) (\<lambda>r. r = EOF)
       (\<lambda>n. failed n (''Error activating accelerometer,confirm hardware presence. '' @ tcf))
       (not_found ''FilePath: '' (acc_filepath_activate g) ''lsm303dlh'' file_name) u;
     u \<leftarrow> sens_test te (acc_set_properties y g) (\<lambda>r. r = EOF)
       (\<lambda>n. failed n (''Error setting accelerometer properties,'' @ tcf)) plain u;
     u \<leftarrow> sens_test te (get_val y (acc_filepath g)) (\<lambda>r. r = INVALID_DATA_READ)
       (\<lambda>n. failed n (''Accelerometer XYZ values not read completely'' @ tcf))
       (not_found ''Filepath: '' (acc_filepath g) ''lsm303dlh'' file_name) u;
     u \<leftarrow> sens_test te (mag_set_val y) (\<lambda>r. r = EOF)
       (\<lambda>n. failed n (''Error when activating magnetometer,confirm hardware presence. '' @ tcf))
       (not_found ''FilePath: '' (acc_filepath_activate g) ''lsm303dlh'' file_name) u;
     u \<leftarrow> sens_test te (mag_set_properties y) (\<lambda>r. r = EOF)
       (\<lambda>n. failed n (''Error setting magnetometer properties,'' @ tcf)) plain u;
     u \<leftarrow> sens_test te (get_val y mag_filepath) (\<lambda>r. r = INVALID_DATA_READ)
       (\<lambda>n. failed n (''Magnetometer XYZ values not read completely'' @ tcf))
       (not_found ''Filepath: '' mag_filepath ''lsm303dlh'' file_name) u;
     u \<leftarrow> sens_test te (acc_get_properties y g) (\<lambda>r. r > 0)
       (\<lambda>n. failed n (''accelerometer property values not read completely'' @ tcf)) plain u;
     sens_test te (mag_get_properties y) (\<lambda>r. r > 0)
       (\<lambda>n. failed n (''magnetometer property values not read completely'' @ tcf)) plain u
   })"

definition lsm_main :: "tenv \<Rightarrow> penv \<Rightarrow> (nat \<Rightarrow> int) \<Rightarrow> string \<Rightarrow> 'w sysfs \<Rightarrow> string list \<Rightarrow> 'w \<Rightarrow> 'w sens option" where
  "lsm_main te pe clock file_name y = sensor_main te pe clock (lsm_body te file_name y) ''lsm303dlh''"

section \<open>lps001wp_prs\<close>

definition path_prs :: "string \<Rightarrow> string" where "path_prs name = i2c ''005c'' name"

text \<open>\<open>close(f)\<close> on the stream passes its address as a descriptor: nothing is closed.\<close>

definition prs_read :: "'w sysfs \<Rightarrow> string \<Rightarrow> int \<Rightarrow> 'w io \<Rightarrow> ((int + int) \<times> 'w io) option" where
  "prs_read y path ret io = (case fopen y path False io of
      None \<Rightarrow> Some (Inl (- 1), io)
    | Some (f, io) \<Rightarrow> do {
        (ok, io) \<leftarrow> fscanf y scan_d f io;
        Some (Inr (if ok then VALID_DATA else INVALID_DATA_READ), io)
      })"

definition prs_get_val :: "'w sysfs \<Rightarrow> 'w io \<Rightarrow> (int \<times> 'w io) option" where
  "prs_get_val y io = returned (
     step_then (prs_read y (path_prs ''press_data'') 0 io) (\<lambda>ret io.
     step_then (prs_read y (path_prs ''temp_data'') ret io) (
     prs_read y (path_prs ''deltapr_data''))))"

text \<open>Here an EOF is kept: \<open>if (fputs(s, f) == EOF) val = EOF;\<close>\<close>

fun puts_keep :: "'w sysfs \<Rightarrow> string list \<Rightarrow> int \<Rightarrow> strm \<Rightarrow> 'w io \<Rightarrow> (int \<times> strm \<times> 'w io) option" where
  "puts_keep y [] val f io = Some (val, f, io)"
| "puts_keep y (x # xs) val f io = do {
     (ok, f, io) \<leftarrow> fputs y x f io;
     puts_keep y xs (if ok then val else EOF) f io
   }"

definition write_keep :: "'w sysfs \<Rightarrow> string \<Rightarrow> string list \<Rightarrow> int \<Rightarrow> 'w io \<Rightarrow> ((int + int) \<times> 'w io) option" where
  "write_keep y path xs val io = (case fopen y path True io of
      None \<Rightarrow> Some (Inl (- 1), io)
    | Some (f, io) \<Rightarrow> do {
        (val, f, io) \<leftarrow> puts_keep y xs val f io;
        (f, io) \<leftarrow> fclose y f io;
        Some (Inr val, io)
      })"

definition prs_set_properties :: "'w sysfs \<Rightarrow> 'w io \<Rightarrow> (int \<times> 'w io) option" where
  "prs_set_properties y io = returned (
     step_then (write_keep y (path_prs ''pollrate_ms'') [''0'', ''500''] 0 io) (\<lambda>val io.
     step_then (write_keep y (path_prs ''diff_enable'') [''0''] val io) (\<lambda>val io.
     step_then (write_keep y (path_prs ''press_reference'') [''0''] val io) (\<lambda>val io.
     step_then (write_keep y (path_prs ''lowpow_enable'') [''0''] val io) (
     write_keep y (path_prs ''reg_addr'') [''0x34''])))))"

definition prs_set_mode :: "'w sysfs \<Rightarrow> 'w io \<Rightarrow> (int \<times> 'w io) option" where
  "prs_set_mode y io = do {
     (_, io) \<leftarrow> prs_set_properties y io;
     (_, io) \<leftarrow> prs_get_val y io;
     returned (write_keep y (path_prs ''enable'') [''1''] 0 io)
   }"

definition read_keep :: "'w sysfs \<Rightarrow> string \<Rightarrow> int \<Rightarrow> 'w io \<Rightarrow> ((int + int) \<times> 'w io) option" where
  "read_keep y path val io = (case fopen y path False io of
      None \<Rightarrow> Some (Inl (- 1), io)
    | Some (f, io) \<Rightarrow> do {
        (ok, io) \<leftarrow> fscanf y scan_d f io;
        (f, io) \<leftarrow> fclose y f io;
        Some (Inr (if ok then val else EOF), io)
      })"

definition prs_get_properties :: "'w sysfs \<Rightarrow> 'w io \<Rightarrow> (int \<times> 'w io) option" where
  "prs_get_properties y io = returned (
     step_then (read_keep y (path_prs ''pollrate_ms'') 0 io) (\<lambda>val io.
     step_then (read_keep y (path_prs ''diff_enable'') val io) (\<lambda>val io.
     step_then (read_keep y (path_prs ''press_reference'') val io) (\<lambda>val io.
     step_then (read_keep y (path_prs ''lowpow_enable'') val io) (
     read_keep y (path_prs ''reg_value''))))))"

definition prs_body :: "tenv \<Rightarrow> string \<Rightarrow> 'w sysfs \<Rightarrow> 'w sens \<Rightarrow> 'w sens option" where
  "prs_body te file_name y u =
    (let tcf = tc_file ''lps001wp'' file_name; plain = (\<lambda>n. failed n (tcf @ [CHR 0x0A]))
     in do {
     u \<leftarrow> sens_test te (prs_set_mode y) (\<lambda>r. r = EOF)
       (\<lambda>n. failed n (''Error activating pres sensor,confirm hardware presence. '' @ tcf))
       (not_found ''FilePath: '' (path_prs ''enable'') ''lps001wp'' file_name) u;
     u \<leftarrow> sens_test te (prs_set_properties y) (\<lambda>r. r = EOF)
       (\<lambda>n. failed n (''Error setting pres sensor properties,'' @ tcf)) plain u;
     u \<leftarrow> sens_test te (prs_get_val y) (\<lambda>r. r = INVALID_DATA_READ)
       (\<lambda>n. failed n (''pres sensor values not read completely'' @ tcf))
       (not_found ''Filepath: '' (path_prs ''press_data'') ''lps001wp'' file_name) u;
     sens_test te (prs_get_properties y) (\<lambda>r. r > 0)
       (\<lambda>n. failed n (''pres sensor values not read completely'' @ tcf)) plain u
   })"

definition prs_main :: "tenv \<Rightarrow> penv \<Rightarrow> (nat \<Rightarrow> int) \<Rightarrow> string \<Rightarrow> 'w sysfs \<Rightarrow> string list \<Rightarrow> 'w \<Rightarrow> 'w sens option" where
  "prs_main te pe clock file_name y = sensor_main te pe clock (prs_body te file_name y) ''lps001wp''"

section \<open>l3g4200d\<close>

definition gyr_path :: "string \<Rightarrow> string" where "gyr_path name = i2c ''0068'' name"

definition gyr_set_properties :: "'w sysfs \<Rightarrow> 'w io \<Rightarrow> (int \<times> 'w io) option" where
  "gyr_set_properties y io = returned (
     step_then (write_file y (gyr_path ''datarate'') ''0'' (- 1) io) (
     write_file y (gyr_path ''range'') ''0''))"

text \<open>The last property is closed before the label \<open>error\<close>, which closes it again.\<close>

definition gyr_get_properties :: "'w sysfs \<Rightarrow> 'w io \<Rightarrow> (int \<times> 'w io) option" where
  "gyr_get_properties y io =
     read_prop y scan_d (gyr_path ''powermode'') 4 io (\<lambda>ret f io. do {
     (f, io) \<leftarrow> fclose y f io;
     read_prop y scan_d (gyr_path ''range'') ret io (\<lambda>ret f io. do {
     (f, io) \<leftarrow> fclose y f io;
     read_prop y scan_d (gyr_path ''datarate'') ret io (\<lambda>ret f io. do {
     (f, io) \<leftarrow> fclose y f io;
     read_prop y scan_d (gyr_path ''gyrotemp'') ret io (\<lambda>ret f io. do {
     (f, io) \<leftarrow> fclose y f io;
     close_ret y f ret io }) }) }) })"

definition gyr_set_val :: "'w sysfs \<Rightarrow> 'w io \<Rightarrow> (int \<times> 'w io) option" where
  "gyr_set_val y io = do {
     (_, io) \<leftarrow> gyr_set_properties y io;
     (_, io) \<leftarrow> get_val y (gyr_path ''gyrodata'') io;
     returned (write_file y (gyr_path ''powermode'') ''1'' (- 1) io)
   }"

definition gyr_body :: "tenv \<Rightarrow> string \<Rightarrow> 'w sysfs \<Rightarrow> 'w sens \<Rightarrow> 'w sens option" where
  "gyr_body te file_name y u =
    (let tcf = tc_file ''l3g4200d'' file_name; plain = (\<lambda>n. failed n (tcf @ [CHR 0x0A]))
     in do {
     u \<leftarrow> sens_test te (gyr_set_val y) (\<lambda>r. r = EOF)
       (\<lambda>n. failed n (''Error when activating gyroscope,confirm hardware presence'' @ [CHR 0x09] @ tcf))
       (not_found ''FilePath: '' (gyr_path ''powermode'') ''l3g4200d'' file_name) u;
     u \<leftarrow> sens_test te (gyr_set_properties y) (\<lambda>r. r = EOF)
       (\<lambda>n. failed n (''Error setting gyroscope properties,'' @ tcf)) plain u;
     u \<leftarrow> sens_test te (get_val y (gyr_path ''gyrodata'')) (\<lambda>r. r = INVALID_DATA_READ)
       (\<lambda>n. failed n (''XYZ values not read completely'' @ tcf))
       (not_found ''Filepath: '' (gyr_path ''gyrodata'') ''l3g4200d'' file_name) u;
     sens_test te (gyr_get_properties y) (\<lambda>r. r > 0)
       (\<lambda>n. failed n (''gyro property values not read completely'' @ tcf)) plain u
   })"

definition gyr_main :: "tenv \<Rightarrow> penv \<Rightarrow> (nat \<Rightarrow> int) \<Rightarrow> string \<Rightarrow> 'w sysfs \<Rightarrow> string list \<Rightarrow> 'w \<Rightarrow> 'w sens option" where
  "gyr_main te pe clock file_name y = sensor_main te pe clock (gyr_body te file_name y) ''l3g4200d''"

section \<open>proximity\<close>

definition FISHY_PROXIMITY_VALUE :: int where "FISHY_PROXIMITY_VALUE = - 10"
definition PROXIMITY_NEAR_VALUE :: int where "PROXIMITY_NEAR_VALUE = 0"
definition PROXIMITY_FAR_VALUE :: int where "PROXIMITY_FAR_VALUE = 100000"

definition prox_path :: string where "prox_path = ''/sys/devices/platform/sensors1p.0/proximity''"
definition prox_path_activate :: string where "prox_path_activate = ''/sys/devices/platform/sensors1p.0/proximity_activate''"

definition prox_set_val :: "'w sysfs \<Rightarrow> 'w io \<Rightarrow> (int \<times> 'w io) option" where
  "prox_set_val y io = returned (write_file y prox_path_activate ''1'' (- 1) io)"

text \<open>\<open>val\<close> is unsigned: a negative number that is read is out of the range at the top.  \<open>wl\<close> is the width of \<open>long\<close>.\<close>

definition prox_get_val :: "nat \<Rightarrow> 'w sysfs \<Rightarrow> string \<Rightarrow> 'w io \<Rightarrow> (int \<times> 'w io) option" where
  "prox_get_val wl y fname io = (case fopen y fname False io of
      None \<Rightarrow> Some (- 1, io)
    | Some (f, io) \<Rightarrow> do {
        (v, io) \<leftarrow> fscanf y sscanf_d f io;
        val \<leftarrow> (case v of None \<Rightarrow> Some (- 1)
          | Some v \<Rightarrow> do {
              chk (- (2 ^ (wl - 1)) \<le> v \<and> v < 2 ^ (wl - 1));
              let val = v mod 2 ^ wl;
              Some (if val \<ge> PROXIMITY_NEAR_VALUE \<and> val \<le> PROXIMITY_FAR_VALUE then 0 else FISHY_PROXIMITY_VALUE)
            });
        close_ret y f val io
      })"

text \<open>The input device: the descriptor, what \<open>select\<close> returns, whether \<open>FD_ISSET\<close> holds, and the code and value
of the event that is read (\<open>None\<close>: the read fails and the cleared event stays).\<close>

record input_dev =
  in_fd :: int
  in_select :: int
  in_isset :: bool
  in_event :: "(int \<times> int) option"

definition get_interrupt_val :: "input_dev \<Rightarrow> 'w io \<Rightarrow> (int \<times> 'w io) option" where
  "get_interrupt_val d io =
    (if in_fd d = - 1 then Some (- 1, io)
     else let io = io\<lparr>io_open := io_open io + 1\<rparr> in
       if in_select d = - 1 then Some (- 1, io)
       else
         let val = (if in_select d > 0 then
               (if in_isset d then
                  (let (code, value) = (case in_event d of None \<Rightarrow> (0, 0) | Some ev \<Rightarrow> ev)
                   in if 11 = code then
                        (if value \<ge> PROXIMITY_NEAR_VALUE \<and> value \<le> PROXIMITY_FAR_VALUE then 0 else FISHY_PROXIMITY_VALUE)
                      else - 1)
                else - 1)
             else 0);
             io = (if in_fd d > 0 then io\<lparr>io_open := io_open io - 1\<rparr> else io)
         in Some (val, io))"

definition prox_body :: "nat \<Rightarrow> string \<Rightarrow> input_dev \<Rightarrow> tenv \<Rightarrow> string \<Rightarrow> 'w sysfs \<Rightarrow> 'w sens \<Rightarrow> 'w sens option" where
  "prox_body wl release d te file_name y u =
    (let tc = ''prox_sfh7741''; tcf = tc_file tc file_name;
         fishy = (\<lambda>n. failed n (''proximity value not valid'' @ tcf))
     in if strneq 3 release ''3.0'' then
       sens_test te (get_interrupt_val d) (\<lambda>r. r = FISHY_PROXIMITY_VALUE) fishy (not_found ''Filepath: '' prox_path tc file_name) u
     else do {
       u \<leftarrow> sens_test te (prox_set_val y) (\<lambda>r. r = EOF)
         (\<lambda>n. failed n (''Error when activating proximity. '' @ tcf)) (not_found ''FilePath: '' prox_path_activate tc file_name) u;
       sens_test te (prox_get_val wl y prox_path) (\<lambda>r. r = FISHY_PROXIMITY_VALUE) fishy (not_found ''Filepath: '' prox_path tc file_name) u
     })"

definition prox_main :: "nat \<Rightarrow> string \<Rightarrow> input_dev \<Rightarrow> tenv \<Rightarrow> penv \<Rightarrow> (nat \<Rightarrow> int) \<Rightarrow> string \<Rightarrow> 'w sysfs \<Rightarrow> string list \<Rightarrow> 'w \<Rightarrow> 'w sens option" where
  "prox_main wl release d te pe clock file_name y =
     sensor_main te pe clock (prox_body wl release d te file_name y) ''prox_sfh7741''"

end
