(* ===== verification/SensorProps.thy ===== *)
theory SensorProps
imports Sensors
begin

text \<open>What the sensor tests find and what they cannot find.\<close>

section \<open>A device whose files open and read well\<close>

definition xyz_paths :: "string set" where
  "xyz_paths = {acc_filepath lsm0, mag_filepath, mag_filepath_gain, gyr_path ''gyrodata''}"

definition readable :: "'w sysfs \<Rightarrow> bool" where
  "readable y \<longleftrightarrow> (\<forall>p w wd. can_open y p w wd) \<and> \<not> unbuffered y \<and>
     (\<forall>p wd. if p \<in> xyz_paths then scan_xyz (fst (contents y p wd))
        else (\<exists>v. sscanf_d (fst (contents y p wd)) = Some v \<and> fits_int v))"

lemma readableD:
  assumes "readable y"
  shows "can_open y p w wd" "\<not> unbuffered y" "p \<in> xyz_paths \<Longrightarrow> scan_xyz (fst (contents y p wd))"
    "p \<notin> xyz_paths \<Longrightarrow> scan_d (fst (contents y p wd))"
    "p \<notin> xyz_paths \<Longrightarrow> \<exists>v. sscanf_d (fst (contents y p wd)) = Some v \<and> fits_int v"
proof -
  have r: "if p \<in> xyz_paths then scan_xyz (fst (contents y p wd))
      else (\<exists>v. sscanf_d (fst (contents y p wd)) = Some v \<and> fits_int v)" for p wd
    using assms by (simp add: readable_def)
  show "can_open y p w wd" "\<not> unbuffered y" using assms by (simp_all add: readable_def)
  show "p \<in> xyz_paths \<Longrightarrow> scan_xyz (fst (contents y p wd))"
    "p \<notin> xyz_paths \<Longrightarrow> scan_d (fst (contents y p wd))"
    "p \<notin> xyz_paths \<Longrightarrow> \<exists>v. sscanf_d (fst (contents y p wd)) = Some v \<and> fits_int v"
    using r [of p wd] by (auto simp: scan_d_def)
qed

text \<open>What the driver sees of a sequence of characters written with \<open>fflush\<close> after each.\<close>

definition pushed :: "'w sysfs \<Rightarrow> string \<Rightarrow> string \<Rightarrow> 'w \<Rightarrow> 'w" where
  "pushed y p cs wd = fold (\<lambda>c wd. snd (accepts y p [c] wd)) cs wd"

lemma put_chars_buffered:
  assumes "\<not> unbuffered y" "st_live f" "st_buf f = []" "cs \<noteq> []"
  shows "put_chars y cs val f io =
    Some (0, f\<lparr>st_buf := [last cs]\<rparr>, io\<lparr>io_world := pushed y (st_path f) (butlast cs) (io_world io)\<rparr>)"
  using assms(2-4)
proof (induction cs arbitrary: val io f)
  case (Cons c cs)
  show ?case
  proof (cases "cs = []")
    case True
    then show ?thesis using Cons.prems assms(1) by (simp add: fputc_def fputs_def c_simps pushed_def)
  next
    case False
    obtain ok w where a: "accepts y (st_path f) [c] (io_world io) = (ok, w)" by fastforce
    have f: "f\<lparr>st_buf := []\<rparr> = f" using Cons.prems(2) by (cases f) simp
    have "put_chars y (c # cs) val f io = put_chars y cs 0 f (io\<lparr>io_world := w\<rparr>)"
      using Cons.prems assms(1) False a by (simp add: f fputc_def fputs_def fflush_def flush_def c_simps Let_def)
    then show ?thesis using Cons.IH [of f 0 "io\<lparr>io_world := w\<rparr>"] Cons.prems False a by (simp add: pushed_def)
  qed
qed simp

text \<open>Writing succeeds whatever the driver answers: nothing looks at the result of \<open>fclose\<close>.\<close>

lemma write_file_buffered:
  assumes "readable y" "cs \<noteq> []"
  shows "write_file y p cs val io = Some (Inr 0, io\<lparr>io_world := pushed y p cs (io_world io)\<rparr>)"
proof -
  have b: "pushed y p cs wd = snd (accepts y p [last cs] (pushed y p (butlast cs) wd))" for wd
    by (subst append_butlast_last_id [OF assms(2), symmetric]) (simp add: pushed_def del: append_butlast_last_id)
  show ?thesis
    using put_chars_buffered [OF readableD(2) [OF assms(1)] _ _ assms(2)] readableD(1) [OF assms(1)]
    by (simp add: write_file_def fopen_def fclose_def flush_def c_simps Let_def b split: prod.split)
qed

lemma get_val_readable:
  assumes "readable y" "p \<in> xyz_paths"
  shows "get_val y p io = Some (0, io\<lparr>io_world := snd (contents y p (io_world io))\<rparr>)"
proof -
  obtain s w where "contents y p (io_world io) = (s, w)" by fastforce
  moreover from this have "scan_xyz s" using readableD(3) [OF assms, of "io_world io"] by simp
  ultimately show ?thesis using readableD(1) [OF assms(1)]
    by (simp add: get_val_def fopen_def fscanf_def close_ret_def fclose_def flush_def c_simps VALID_DATA_def)
qed

lemma read_prop_readable:
  assumes "readable y" "(scan = scan_d \<and> p \<notin> xyz_paths) \<or> (scan = scan_xyz \<and> p \<in> xyz_paths)"
  shows "read_prop y scan p ret io k = k (ret - 1) \<lparr>st_path = p, st_buf = [], st_live = True\<rparr>
    \<lparr>io_world = snd (contents y p (io_world io)), io_open = io_open io + 1\<rparr>"
proof -
  obtain s w where c: "contents y p (io_world io) = (s, w)" by fastforce
  then have "scan s" using readableD(3,4) [OF assms(1), of p "io_world io"] assms(2) by auto
  moreover have i: "io\<lparr>io_open := io_open io + 1, io_world := w\<rparr> = \<lparr>io_world = w, io_open = io_open io + 1\<rparr>"
    by (cases io) simp
  ultimately show ?thesis using readableD(1) [OF assms(1)] c by (simp add: i read_prop_def fopen_def fscanf_def c_simps)
qed

lemma fclose_read [simp]:
  "fclose y \<lparr>st_path = p, st_buf = [], st_live = True\<rparr> io =
    Some (\<lparr>st_path = p, st_buf = [], st_live = False\<rparr>, io\<lparr>io_open := io_open io - 1\<rparr>)"
  "fclose y (f\<lparr>st_live := False\<rparr>) io = None"
  "fclose y \<lparr>st_path = p, st_buf = [], st_live = False\<rparr> io = None"
  by (simp_all add: fclose_def flush_def c_simps)

section \<open>Actions and tests\<close>

text \<open>An action that always returns \<open>r\<close> and leaves \<open>d\<close> more streams open.\<close>

definition gives :: "('w io \<Rightarrow> (int \<times> 'w io) option) \<Rightarrow> int \<Rightarrow> int \<Rightarrow> bool" where
  "gives act r d \<longleftrightarrow> (\<forall>io. \<exists>io'. act io = Some (r, io') \<and> io_open io' = io_open io + d)"

lemmas sensor_acts = step_then_def returned_def write_file_buffered get_val_readable read_prop_readable close_ret_def

lemma xyz_paths_simps:
  "acc_filepath lsm0 \<in> xyz_paths" "mag_filepath \<in> xyz_paths" "mag_filepath_gain \<in> xyz_paths" "gyr_path ''gyrodata'' \<in> xyz_paths"
  "acc_filepath_activate lsm0 \<notin> xyz_paths" "acc_filepath_range lsm0 \<notin> xyz_paths" "acc_filepath_rate lsm0 \<notin> xyz_paths"
  "acc_filepath_sleepwake lsm0 \<notin> xyz_paths" "acc_filepath_id lsm0 \<notin> xyz_paths"
  "mag_filepath_activate \<notin> xyz_paths" "mag_filepath_range \<notin> xyz_paths" "mag_filepath_rate \<notin> xyz_paths"
  "gyr_path ''powermode'' \<notin> xyz_paths" "gyr_path ''range'' \<notin> xyz_paths" "gyr_path ''datarate'' \<notin> xyz_paths"
  "gyr_path ''gyrotemp'' \<notin> xyz_paths" "path_prs name \<notin> xyz_paths"
  by (simp_all add: xyz_paths_def lsm0_def mag_filepath_def mag_filepath_gain_def mag_filepath_activate_def
      mag_filepath_range_def mag_filepath_rate_def gyr_path_def path_prs_def i2c_def)

lemma lsm_acts:
  assumes "readable y"
  shows "gives (acc_set_val y (lsm0\<lparr>lsm_id := v\<rparr>)) 0 0" "gives (acc_set_properties y (lsm0\<lparr>lsm_id := v\<rparr>)) 0 0"
    "gives (get_val y (acc_filepath (lsm0\<lparr>lsm_id := v\<rparr>))) 0 0" "gives (mag_set_val y) 0 0"
    "gives (mag_set_properties y) 0 0" "gives (get_val y mag_filepath) 0 0"
    "gives (acc_get_properties y (lsm0\<lparr>lsm_id := v\<rparr>)) 0 0" "gives (mag_get_properties y) 0 0"
  by (simp_all add: gives_def acc_set_val_def acc_set_properties_def mag_set_val_def mag_set_properties_def
      acc_get_properties_def mag_get_properties_def sensor_acts assms xyz_paths_simps)

lemma prs_acts:
  assumes "readable y"
  shows "gives (prs_set_properties y) 0 0" "gives (prs_get_val y) 0 3" "gives (prs_set_mode y) 0 3" "gives (prs_get_properties y) 0 0"
proof -
  have k: "write_keep y p xs val io = Some (Inr val, io\<lparr>io_world := snd (accepts y p (concat xs) (io_world io))\<rparr>)"
    if "concat xs \<noteq> []" for p xs val and io :: "'a io"
  proof -
    have "puts_keep y ys v f i = Some (v, f\<lparr>st_buf := st_buf f @ concat ys\<rparr>, i)" if "st_live f" for ys v f and i :: "'a io"
      using that readableD(2) [OF assms] by (induction ys arbitrary: f) (simp_all add: fputs_def c_simps)
    with that show ?thesis using readableD(1) [OF assms]
      by (simp add: write_keep_def fopen_def fclose_def flush_def c_simps split: prod.split del: concat_eq_Nil_conv)
  qed
  have r: "prs_read y (path_prs n) val io = Some (Inr 0, io\<lparr>io_open := io_open io + 1, io_world := snd (contents y (path_prs n) (io_world io))\<rparr>)"
    "read_keep y (path_prs n) val io = Some (Inr val, io\<lparr>io_world := snd (contents y (path_prs n) (io_world io))\<rparr>)" for n val and io :: "'a io"
  proof -
    obtain s w where c: "contents y (path_prs n) (io_world io) = (s, w)" by fastforce
    then have "scan_d s" using readableD(4) [OF assms, of "path_prs n" "io_world io"] by (auto simp: xyz_paths_simps)
    then show "prs_read y (path_prs n) val io = Some (Inr 0, io\<lparr>io_open := io_open io + 1, io_world := snd (contents y (path_prs n) (io_world io))\<rparr>)"
      "read_keep y (path_prs n) val io = Some (Inr val, io\<lparr>io_world := snd (contents y (path_prs n) (io_world io))\<rparr>)"
      using readableD(1) [OF assms] c by (simp_all add: prs_read_def read_keep_def fopen_def fscanf_def c_simps VALID_DATA_def)
  qed
  show "gives (prs_set_properties y) 0 0" "gives (prs_get_val y) 0 3" "gives (prs_get_properties y) 0 0"
    by (simp_all add: gives_def prs_set_properties_def prs_get_val_def prs_get_properties_def step_then_def returned_def k r)
  then show "gives (prs_set_mode y) 0 3"
    by (simp add: gives_def prs_set_mode_def prs_set_properties_def prs_get_val_def step_then_def returned_def k r)
qed

lemma gyr_acts:
  assumes "readable y"
  shows "gives (gyr_set_val y) 0 0" "gives (gyr_set_properties y) 0 0" "gives (get_val y (gyr_path ''gyrodata'')) 0 0"
    "gyr_get_properties y io = None"
  by (simp_all add: gives_def gyr_set_val_def gyr_set_properties_def gyr_get_properties_def sensor_acts assms xyz_paths_simps)

lemma check_acc_devid_readable:
  assumes "readable y"
  shows "\<exists>v wd. check_acc_devid y lsm0 io = Some (0, lsm0\<lparr>lsm_id := v\<rparr>, io\<lparr>io_world := wd\<rparr>)"
proof -
  obtain s w where c: "contents y (acc_filepath_id lsm0) (io_world io) = (s, w)" by fastforce
  obtain v where "sscanf_d s = Some v" "fits_int v"
    using readableD(5) [OF assms xyz_paths_simps(9), of "io_world io"] c by auto
  then show ?thesis using readableD(1) [OF assms] c
    by (auto simp: check_acc_devid_def fopen_def fscanf_def c_simps fclose_def flush_def)
qed

section \<open>Running the tests\<close>

text \<open>\<open>n\<close> tests have passed, \<open>d\<close> streams are open.\<close>

definition passed :: "int \<Rightarrow> int \<Rightarrow> 'w sens \<Rightarrow> bool" where
  "passed n d u \<longleftrightarrow> tst_inv (s_tst u) \<and> t_exitval (s_tst u) = 0 \<and> tst_count (s_tst u) = n \<and> io_open (s_io u) = d"

lemma sens_test_passes:
  assumes "gives act 0 k" "passed n d u"
  shows "\<exists>u'. sens_test te act bad m2 m3 u = Some u' \<and> passed (n + 1) (d + k) u'"
proof -
  obtain io' where io': "act (s_io u) = Some (0, io')" "io_open io' = d + k"
    using assms by (auto simp: gives_def passed_def)
  let ?m = "''Functional test '' @ int_to_string n @ '' OK'' @ [CHR 0x0A]"
  obtain t where "tst_resm te TPASS ?m (s_tst u) = Some t" "reported TPASS (s_tst u) t"
    using tst_resm_plain [of "s_tst u" ?m te TPASS] assms(2) by (auto simp: passed_def)
  then show ?thesis using io' assms(2) by (simp add: sens_test_def passed_def reported_def TTYPE_RESULT_def)
qed

lemma sens_test_next:
  assumes "passed n d u" "gives act 0 k" "\<And>u'. passed (n + 1) (d + k) u' \<Longrightarrow> \<exists>v. f u' = Some v \<and> passed m e v"
  shows "\<exists>v. (sens_test te act bad m2 m3 u \<bind> f) = Some v \<and> passed m e v"
  using sens_test_passes [OF assms(2,1), of te bad m2 m3] assms(3) by auto

lemma lsm_body_passes:
  assumes "readable y" "passed 0 0 u"
  shows "\<exists>v. lsm_body te file_name y u = Some v \<and> passed 8 0 v"
proof -
  obtain i wd where c: "check_acc_devid y lsm0 (s_io u) = Some (0, lsm0\<lparr>lsm_id := i\<rparr>, (s_io u)\<lparr>io_world := wd\<rparr>)"
    using check_acc_devid_readable [OF assms(1)] by blast
  have p: "passed 0 0 (u\<lparr>s_io := (s_io u)\<lparr>io_world := wd\<rparr>\<rparr>)" using assms(2) by (simp add: passed_def)
  show ?thesis unfolding lsm_body_def Let_def c bind.bind_lunit prod.case
    by (rule sens_test_next [OF p lsm_acts(1) [OF assms(1)]])
      (((erule sens_test_next, rule lsm_acts [OF assms(1)])+)?, drule sens_test_passes [OF lsm_acts(8) [OF assms(1)]], simp)
qed

lemma prs_body_passes:
  assumes "readable y" "passed 0 0 u"
  shows "\<exists>v. prs_body te file_name y u = Some v \<and> passed 4 6 v"
  unfolding prs_body_def Let_def
  by (rule sens_test_next [OF assms(2) prs_acts(3) [OF assms(1)]])
    (((erule sens_test_next, rule prs_acts [OF assms(1)])+)?, drule sens_test_passes [OF prs_acts(4) [OF assms(1)]], simp)

lemma gyr_body_none:
  assumes "readable y" "passed 0 0 u"
  shows "gyr_body te file_name y u = None"
proof -
  have n: "sens_test te (gyr_get_properties y) bad m2 m3 = (\<lambda>u. None)" for bad m2 m3
    by (simp add: fun_eq_iff sens_test_def gyr_acts [OF assms(1)])
  show ?thesis by (simp add: gyr_body_def Let_def n)
qed

text \<open>The command lines without a count and with \<open>-i n\<close>.\<close>

definition some_runs :: "string list \<Rightarrow> bool" where
  "some_runs av \<longleftrightarrow> av = [] \<or> (\<exists>n. 0 < n \<and> fits_int n \<and> av = [''-i'', int_to_string n])"

lemma parse_some_runs:
  assumes "no_env pe" "some_runs av"
  shows "\<exists>s. parse_opts pe av None (std0 0) = Some (Parsed, s) \<and> counted s \<and> 0 < STD_LOOP_COUNT s \<and> STD_FUNCTIONAL_TEST s"
proof (cases "av = []")
  case True
  have "parse_opts pe [] None (std0 0) = Some (Parsed, std0 0)"
    using assms(1) by (simp add: parse_opts_def parse_env_empty) (simp add: no_env_def)
  with True show ?thesis by (simp add: counted_def std0_def float0_def)
next
  case False
  then obtain n where n: "0 < n" "fits_int n" "av = [''-i'', int_to_string n]" using assms(2) by (auto simp: some_runs_def)
  from parse_i [OF assms(1) n(2), of "std0 0"] n show ?thesis by (simp add: counted_def std0_def float0_def)
qed

lemma case_loop_once:
  assumes "tst_count (s_tst u) = 0" "body u = Some v" "1 \<le> tst_count (s_tst v)"
  shows "case_loop body u = Some v"
  using assms by (subst case_loop.simps, simp, subst case_loop.simps, simp)

lemma tst_exit_count:
  assumes "tst_inv s" "tst_exit e s = Some s'"
  shows "tst_count s' = tst_count s"
proof (cases "t_last s")
  case None
  then show ?thesis using assms by (simp add: tst_exit_def tst_flush_def) (auto simp: Let_def)
next
  case (Some l)
  obtain tc n ty m where l: "l = (tc, n, ty, m)" by (cases l) auto
  with Some assms have f: "t_file s = None" "t_out s" "TTYPE_RESULT ty = ty" "t_exitval s OR ty = t_exitval s"
    by (auto simp: tst_inv_def)
  show ?thesis using Some l f assms tst_print_plain [OF f(1,2), of e tc n ty m]
    by (cases "t_mode s = NOPASS") (auto simp: tst_exit_def tst_flush_def)
qed

lemma sensor_main_start:
  assumes "no_env pe" "some_runs av"
  shows "sensor_main te pe clock body tc av w = do {
      u \<leftarrow> case_loop body \<lparr>s_tst = tst_init tc, s_io = \<lparr>io_world = w, io_open = 0\<rparr>\<rparr>;
      t \<leftarrow> tst_exit te (s_tst u);
      Some (u\<lparr>s_tst := t\<rparr>)
    }"
proof -
  obtain s where s: "parse_opts pe av None (std0 0) = Some (Parsed, s)" "counted s" "0 < STD_LOOP_COUNT s" "STD_FUNCTIONAL_TEST s"
    using parse_some_runs [OF assms] by blast
  have l: "usc_test_looping clock s 0 looping0 = Some (True, looped s 1 looping0)"
    using looping_counted [OF s(2), of clock 0 looping0] s(3) by simp
  have t: "(tst_init tc)\<lparr>tst_count := 0\<rparr> = tst_init tc" by (simp add: tst_init_def)
  show ?thesis using s l by (simp add: sensor_main_def t)
qed

lemma sensor_main_passes:
  assumes "no_env pe" "some_runs av" "\<And>u. passed 0 0 u \<Longrightarrow> \<exists>v. body u = Some v \<and> passed k d v" "1 \<le> k"
  shows "\<exists>v. sensor_main te pe clock body tc av w = Some v \<and> t_exit (s_tst v) = Some 0 \<and> tst_count (s_tst v) = k \<and> io_open (s_io v) = d"
proof -
  let ?u = "\<lparr>s_tst = tst_init tc, s_io = \<lparr>io_world = w, io_open = 0\<rparr>\<rparr>"
  have "passed 0 0 ?u" by (simp add: passed_def) (simp add: tst_init_def)
  then obtain v where v: "body ?u = Some v" "passed k d v" using assms(3) by blast
  then have c: "case_loop body ?u = Some v" using assms(4) by (intro case_loop_once) (simp_all add: passed_def tst_init_def)
  have i: "tst_inv (s_tst v)" using v(2) by (simp add: passed_def)
  obtain t where t: "tst_exit te (s_tst v) = Some t" "t_exit t = Some (t_exitval (s_tst v) AND NOT (TRETR OR TINFO OR TCONF))"
    using tst_exit_plain [OF i, of te] by blast
  show ?thesis using v(2) c t tst_exit_count [OF i t(1)]
    by (simp add: sensor_main_start [OF assms(1,2)] passed_def)
qed

text \<open>C13: on a device whose files open and read well the accelerometer and magnetometer test reports its eight results
as passed and exits with 0, whatever the driver answers to what is written (nothing looks at the result of \<open>fclose\<close>),
and with \<open>-i n\<close> it runs once, whatever \<open>n\<close> is; no stream stays open.\<close>

theorem lsm_main_passes:
  assumes "no_env pe" "some_runs av" "readable y"
  shows "\<exists>v. lsm_main te pe clock file_name y av w = Some v \<and> t_exit (s_tst v) = Some 0 \<and> tst_count (s_tst v) = 8 \<and> io_open (s_io v) = 0"
  unfolding lsm_main_def using sensor_main_passes [OF assms(1,2) lsm_body_passes [OF assms(3)]] by simp

text \<open>A device that reads well and rejects everything that is written.\<close>

definition stubborn :: "unit sysfs" where
  "stubborn = \<lparr>can_open = \<lambda>_ _ _. True, contents = \<lambda>p w. (if p \<in> xyz_paths then ''1a:0x2:ff'' else ''50'', w),
     accepts = \<lambda>_ _ w. (False, w), unbuffered = False\<rparr>"

lemma stubborn_readable: "readable stubborn"
  by (simp add: readable_def stubborn_def scan_xyz_def scan_x8_def colon_def isspace_def read_sign_def digit_of_def
      sscanf_d_def scan_int_def fits_int_def INT_MIN_def INT_MAX_def)

lemma lsm_main_passes_witness:
  "\<exists>v. lsm_main plain_env quiet_env (\<lambda>_. 0) ''sensor.c'' stubborn [''-i'', int_to_string 5] () = Some v \<and>
    t_exit (s_tst v) = Some 0 \<and> tst_count (s_tst v) = 8"
proof -
  have "some_runs [''-i'', int_to_string 5]"
    unfolding some_runs_def by (rule disjI2, rule exI [of _ 5]) (simp add: fits_int_def INT_MIN_def INT_MAX_def)
  from lsm_main_passes [OF quiet_env this stubborn_readable, of plain_env "\<lambda>_. 0" "''sensor.c''" "()"] show ?thesis by blast
qed

text \<open>The pressure test passes on such a device as well, and leaves six streams open: \<open>get_val\<close>, which it calls
twice, gives its streams to \<open>close\<close> instead of \<open>fclose\<close>.\<close>

theorem prs_main_leaks:
  assumes "no_env pe" "some_runs av" "readable y"
  shows "\<exists>v. prs_main te pe clock file_name y av w = Some v \<and> t_exit (s_tst v) = Some 0 \<and> tst_count (s_tst v) = 4 \<and> io_open (s_io v) = 6"
  unfolding prs_main_def using sensor_main_passes [OF assms(1,2) prs_body_passes [OF assms(3)]] by simp

lemma prs_main_leaks_witness:
  "\<exists>v. prs_main plain_env quiet_env (\<lambda>_. 0) ''sensor.c'' stubborn [] () = Some v \<and> io_open (s_io v) = 6"
  using prs_main_leaks [OF quiet_env _ stubborn_readable, of "[]" plain_env "\<lambda>_. 0" "''sensor.c''" "()"]
  by (auto simp: some_runs_def)

text \<open>On a gyroscope whose files open and read well the test closes a stream twice, which has no defined
behaviour: \<open>gyr_get_properties\<close> runs into its error label after it has closed the last file.\<close>

theorem gyr_main_closes_twice:
  assumes "no_env pe" "some_runs av" "readable y"
  shows "gyr_main te pe clock file_name y av w = None"
proof -
  let ?u = "\<lparr>s_tst = tst_init ''l3g4200d'', s_io = \<lparr>io_world = w, io_open = 0\<rparr>\<rparr>"
  have "passed 0 0 ?u" by (simp add: passed_def) (simp add: tst_init_def)
  then have "gyr_body te file_name y ?u = None" by (rule gyr_body_none [OF assms(3)])
  then have "case_loop (gyr_body te file_name y) ?u = None"
    by (subst case_loop.simps) (simp add: tst_init_def)
  then show ?thesis by (simp add: gyr_main_def sensor_main_start [OF assms(1,2)])
qed

lemma gyr_main_closes_twice_witness: "gyr_main plain_env quiet_env (\<lambda>_. 0) ''sensor.c'' stubborn [] () = None"
  by (rule gyr_main_closes_twice [OF quiet_env _ stubborn_readable]) (simp add: some_runs_def)

text \<open>A proximity sensor that stays silent passes: when \<open>select\<close> times out the value is taken as good.\<close>

lemma prox_silent_passes:
  assumes "no_env pe" "some_runs av" "in_fd d > 0" "in_select d = 0"
  shows "\<exists>v. prox_main wl (''3.0'' @ r) d te pe clock file_name y av w = Some v \<and> t_exit (s_tst v) = Some 0"
proof -
  have g: "gives (get_interrupt_val d) 0 0"
    using assms(3,4) by (simp add: gives_def get_interrupt_val_def Let_def)
  have b: "prox_body wl (''3.0'' @ r) d te file_name y =
      sens_test te (get_interrupt_val d) (\<lambda>r. r = FISHY_PROXIMITY_VALUE)
        (\<lambda>n. failed n (''proximity value not valid'' @ tc_file ''prox_sfh7741'' file_name))
        (not_found ''Filepath: '' prox_path ''prox_sfh7741'' file_name)"
    by (simp add: prox_body_def fun_eq_iff strneq_def Let_def)
  have "\<exists>v. prox_body wl (''3.0'' @ r) d te file_name y u = Some v \<and> passed 1 0 v" if "passed 0 0 u" for u
    unfolding b using sens_test_passes [OF g that, of te] by simp
  from sensor_main_passes [OF assms(1,2) this, where te = te] show ?thesis
    unfolding prox_main_def by fastforce
qed

text \<open>Its value is accepted between the two limits.\<close>

lemma prox_get_val_range:
  assumes "can_open y p False (io_world io)" "sscanf_d (fst (contents y p (io_world io))) = Some v"
    "- (2 ^ (wl - 1)) \<le> v" "v < 2 ^ (wl - 1)" "32 \<le> wl"
  shows "\<exists>io'. prox_get_val wl y p io = Some (if 0 \<le> v \<and> v \<le> 100000 then 0 else - 10, io')"
proof -
  obtain s w where c: "contents y p (io_world io) = (s, w)" by fastforce
  have e: "(2 :: int) ^ wl = 2 * 2 ^ (wl - 1)" using assms(5) by (simp add: power_Suc [symmetric])
  have big: "(2 :: int) ^ 31 \<le> 2 ^ (wl - 1)" using assms(5) by (intro power_increasing) auto
  have "v mod 2 ^ wl = (if 0 \<le> v then v else v + 2 ^ wl)"
  proof (cases "0 \<le> v")
    case False
    have "(v + 2 ^ wl) mod 2 ^ wl = v + 2 ^ wl" using False assms(3) e by (intro mod_pos_pos_trivial) auto
    then show ?thesis using False by simp
  qed (use assms(4) e in simp)
  then have "(0 \<le> v mod 2 ^ wl \<and> v mod 2 ^ wl \<le> 100000) \<longleftrightarrow> 0 \<le> v \<and> v \<le> 100000"
    using assms(3) e big by auto
  then show ?thesis using assms(1-4) c
    by (simp add: prox_get_val_def fopen_def fscanf_def close_ret_def c_simps fclose_def flush_def
        PROXIMITY_NEAR_VALUE_def PROXIMITY_FAR_VALUE_def FISHY_PROXIMITY_VALUE_def)
qed

end
