(* ===== verification/RandomRange.thy ===== *)
theory RandomRange
imports CString
begin

text \<open>\<open>ltp_framework/lib/random_range.c\<close>: parsing lists of ranges and picking random numbers and bits.

\<open>lrand48\<close> is a parameter, the value \<open>lr\<close> (0 to \<open>2 ^ 31 - 1\<close>) that its call returns.  Arithmetic on
\<open>int\<close>, \<open>long\<close> and \<open>long long\<close> is checked against its width: an overflow has no value.\<close>

unbundle bit_operations_syntax

section \<open>Parsing ranges\<close>

record range =
  r_min :: int
  r_max :: int
  r_mult :: int

text \<open>\<open>sscanf(str, "%i%c", ip, &c) != 1\<close>: a number and nothing behind it.\<close>

definition str_to_int :: "string \<Rightarrow> int option option" where
  "str_to_int s = (case scan_int None s of None \<Rightarrow> Some None
     | Some (v, rest) \<Rightarrow> do { chk (fits_int v); Some (if rest = [] then Some v else None) })"

text \<open>A failed parse writes its message into \<open>errmsg\<close>, 256 bytes.\<close>

definition parse_error :: "string \<Rightarrow> string" where
  "parse_error s = ''error parsing string '' @ s @ '' into an integer''"

definition bindE :: "('e + 'a) option \<Rightarrow> ('a \<Rightarrow> ('e + 'b) option) \<Rightarrow> ('e + 'b) option" where
  "bindE m f = do { r \<leftarrow> m; case r of Inl e \<Rightarrow> Some (Inl e) | Inr v \<Rightarrow> f v }"

lemma bindE_simps [simp]: "bindE (Some (Inl e)) f = Some (Inl e)" "bindE (Some (Inr v)) f = f v" "bindE None f = None"
  by (simp_all add: bindE_def)

definition parse_field :: "(string \<Rightarrow> int option option) \<Rightarrow> string \<Rightarrow> int \<Rightarrow> (string + int) option" where
  "parse_field parse_func s dflt = (if s = [] then Some (Inr dflt) else do {
     v \<leftarrow> parse_func s;
     case v of Some v \<Rightarrow> Some (Inr v)
     | None \<Rightarrow> do { chk (length (parse_error s) < 256); Some (Inl (parse_error s)) }
   })"

definition parse_range :: "(string \<Rightarrow> int option option) \<Rightarrow> int \<Rightarrow> int \<Rightarrow> int \<Rightarrow> string \<Rightarrow> (string + range) option" where
  "parse_range parse_func defmin defmax defmult tok =
    (let (n1str, rest) = cut (CHR '':'') tok;
         (n2str, multstr) = (case rest of None \<Rightarrow> (None, None)
            | Some r \<Rightarrow> (let (n2, m) = cut (CHR '':'') r in (Some n2, m)))
     in bindE (parse_field parse_func n1str defmin) (\<lambda>lo.
        bindE (case n2str of None \<Rightarrow> Some (Inr lo) | Some n2 \<Rightarrow> parse_field parse_func n2 defmax) (\<lambda>hi.
        bindE (case multstr of None \<Rightarrow> Some (Inr defmult) | Some m \<Rightarrow> parse_field parse_func m defmult) (\<lambda>mult.
        Some (Inr \<lparr>r_min = lo, r_max = hi, r_mult = mult\<rparr>)))))"

text \<open>The loop over \<open>strtok\<close>: \<open>ranges\<close> has \<open>cap\<close> elements, of which those in \<open>acc\<close> are written.\<close>

fun parse_tokens :: "(string \<Rightarrow> (string + range) option) \<Rightarrow> nat \<Rightarrow> string list \<Rightarrow> range list \<Rightarrow> (string + range list) option" where
  "parse_tokens parse cap [] acc = Some (Inr acc)"
| "parse_tokens parse cap (tok # toks) acc = do {
     chk (length acc < cap);
     bindE (parse tok) (\<lambda>r. parse_tokens parse cap toks (acc @ [r]))
   }"

definition parse_ranges :: "string \<Rightarrow> int \<Rightarrow> int \<Rightarrow> int \<Rightarrow> (string \<Rightarrow> int option option) option \<Rightarrow> (string + range list) option" where
  "parse_ranges str defmin defmax defmult parse_func =
    (let ncommas = length (filter (\<lambda>c. c = CHR '','') str);
         parse_func = (case parse_func of None \<Rightarrow> str_to_int | Some f \<Rightarrow> f)
     in parse_tokens (parse_range parse_func defmin defmax defmult) (ncommas + 1)
          (strtok_all (\<lambda>c. c = CHR '','') str) [])"

definition range_min :: "range list \<Rightarrow> int \<Rightarrow> int option" where "range_min rbuf r = map_option r_min (rd rbuf r)"
definition range_max :: "range list \<Rightarrow> int \<Rightarrow> int option" where "range_max rbuf r = map_option r_max (rd rbuf r)"
definition range_mult :: "range list \<Rightarrow> int \<Rightarrow> int option" where "range_mult rbuf r = map_option r_mult (rd rbuf r)"

section \<open>Random numbers\<close>

definition sfits :: "nat \<Rightarrow> int \<Rightarrow> bool" where
  "sfits w i \<longleftrightarrow> - (2 ^ (w - 1)) \<le> i \<and> i < 2 ^ (w - 1)"

datatype rerror = Bad_mult | No_multiples int int int

text \<open>Order the bounds and move them to multiples.\<close>

definition to_multiples :: "nat \<Rightarrow> int \<Rightarrow> int \<Rightarrow> int \<Rightarrow> (int \<times> int) option" where
  "to_multiples w a b mult = do {
     let (lo, hi) = (if b < a then (b, a) else (a, b));
     r \<leftarrow> c_mod lo mult;
     lo \<leftarrow> (if r \<noteq> 0 then do { chk (sfits w (mult - r) \<and> sfits w (lo + (mult - r))); Some (lo + (mult - r)) } else Some lo);
     r \<leftarrow> c_mod hi mult;
     Some (lo, if r \<noteq> 0 then hi - r else hi)
   }"

definition nmults :: "nat \<Rightarrow> int \<Rightarrow> int \<Rightarrow> int \<Rightarrow> int option" where
  "nmults w lo hi mult = do {
     chk (sfits w (hi - lo));
     q \<leftarrow> c_div (hi - lo) mult;
     chk (sfits w (q + 1));
     Some (q + 1)
   }"

definition random_range :: "int \<Rightarrow> int \<Rightarrow> int \<Rightarrow> int \<Rightarrow> (rerror + int) option" where
  "random_range a b mult lr = (if mult < 1 then Some (Inl Bad_mult) else do {
     (lo, hi) \<leftarrow> to_multiples 32 a b mult;
     if lo > hi then Some (Inl (No_multiples a b mult)) else do {
       n \<leftarrow> nmults 32 lo hi mult;
       k \<leftarrow> c_mod lr n;
       Some (Inr (lo + k * mult))
     }
   })"

text \<open>\<open>wl\<close>: the width of \<open>long\<close>.\<close>

definition random_rangel :: "nat \<Rightarrow> int \<Rightarrow> int \<Rightarrow> int \<Rightarrow> int \<Rightarrow> (rerror + int) option" where
  "random_rangel wl a b mult lr = (if mult < 1 then Some (Inl Bad_mult) else do {
     (lo, hi) \<leftarrow> to_multiples wl a b mult;
     if lo > hi then Some (Inl (No_multiples a b mult)) else do {
       n \<leftarrow> nmults wl lo hi mult;
       k \<leftarrow> c_mod lr n;
       Some (Inr (lo + k * mult))
     }
   })"

text \<open>\<open>1<<cnt\<close> is an int: beyond 30 it has no value.\<close>

function divider :: "int \<Rightarrow> int \<Rightarrow> int \<Rightarrow> int \<Rightarrow> int \<Rightarrow> int option" where
  "divider lr lo hi cnt rand = (if cnt > 32 then Some (- 1) else do {
     let rand = (if cnt = 0 \<or> rand < - 1 then lr else rand);
     chk (sfits 64 (hi - lo));
     if hi - lo \<le> 2147483647 then do { chk (sfits 64 (lo + rand)); Some (lo + rand) }
     else do {
       let half = (hi - lo) div 2;
       let med = lo + half;
       chk (0 \<le> cnt \<and> cnt \<le> 30);
       let upper = (rand AND 2 ^ nat cnt \<noteq> 0);
       if half \<le> 2147483647 then
         (if upper then do { chk (sfits 64 (med + rand)); Some (med + rand) }
          else do { chk (sfits 64 (lo + rand)); Some (lo + rand) })
       else if upper then divider lr med hi (cnt + 1) rand
       else divider lr lo med (cnt + 1) rand
     }
   })"
  by pat_completeness auto
termination by (relation "measure (\<lambda>(lr, lo, hi, cnt, rand). nat (33 - cnt))") auto

declare divider.simps [simp del]

definition random_rangell :: "int \<Rightarrow> int \<Rightarrow> int \<Rightarrow> int \<Rightarrow> (rerror + int) option" where
  "random_rangell a b mult lr = (if mult < 1 then Some (Inl Bad_mult) else do {
     (lo, hi) \<leftarrow> to_multiples 64 a b mult;
     if lo > hi then Some (Inl (No_multiples a b mult)) else do {
       n \<leftarrow> nmults 64 lo hi mult;
       randnum \<leftarrow> (if hi \<le> 2147483647 then Some lr else divider lr lo hi 0 (- 1));
       k \<leftarrow> c_mod randnum n;
       Some (Inr (lo + k * mult))
     }
   })"

section \<open>Random bits\<close>

text \<open>\<open>long\<close> is a word; the shift of the one into and beyond the sign bit wraps, \<open>>>\<close> is arithmetic.\<close>

fun count_bits :: "nat \<Rightarrow> 'l::len word \<Rightarrow> 'l word \<Rightarrow> nat \<Rightarrow> nat" where
  "count_bits 0 m b nbits = nbits"
| "count_bits (Suc n) m b nbits = count_bits n m (push_bit 1 b) (if m AND b \<noteq> 0 then nbits + 1 else nbits)"

partial_function (option) shift_loop :: "int \<Rightarrow> 'l::len word \<Rightarrow> nat \<Rightarrow> nat option" where
  "shift_loop b m nshift = (if b \<noteq> 0
     then shift_loop (if m AND 1 \<noteq> 0 then b - 1 else b) (signed_drop_bit 1 m) (nshift + 1)
     else Some nshift)"

definition random_bit :: "'l::len word \<Rightarrow> int \<Rightarrow> 'l word option" where
  "random_bit m lr = (if m = 0 then Some 0 else do {
     r \<leftarrow> random_range 1 (int (count_bits LENGTH('l) m 1 0)) 1 lr;
     nshift \<leftarrow> shift_loop (case r of Inl e \<Rightarrow> - 1 | Inr v \<Rightarrow> v) m 0;
     Some (push_bit (nshift - 1) 1)
   })"

end
