(* ===== verification/RandomProps.thy ===== *)
theory RandomProps
imports RandomRange
begin

text \<open>What \<open>parse_ranges\<close>, the random ranges and \<open>random_bit\<close> promise, and where they do not keep it.\<close>

section \<open>Printing and parsing ranges\<close>

text \<open>A range as a user writes it, and what it stands for.\<close>

datatype rspec = One int | Two "int option" "int option" | Three "int option" "int option" "int option"

definition pick :: "int option \<Rightarrow> int \<Rightarrow> int" where "pick a d = (case a of None \<Rightarrow> d | Some v \<Rightarrow> v)"

primrec meaning :: "int \<Rightarrow> int \<Rightarrow> int \<Rightarrow> rspec \<Rightarrow> range" where
  "meaning d1 d2 d3 (One a) = \<lparr>r_min = a, r_max = a, r_mult = d3\<rparr>"
| "meaning d1 d2 d3 (Two a b) = \<lparr>r_min = pick a d1, r_max = pick b d2, r_mult = d3\<rparr>"
| "meaning d1 d2 d3 (Three a b c) = \<lparr>r_min = pick a d1, r_max = pick b d2, r_mult = pick c d3\<rparr>"

primrec numbers :: "rspec \<Rightarrow> int set" where
  "numbers (One a) = {a}"
| "numbers (Two a b) = set_option a \<union> set_option b"
| "numbers (Three a b c) = set_option a \<union> set_option b \<union> set_option c"

definition opt_text :: "(int \<Rightarrow> string) \<Rightarrow> int option \<Rightarrow> string" where
  "opt_text fmt a = (case a of None \<Rightarrow> [] | Some v \<Rightarrow> fmt v)"

primrec rspec_text :: "(int \<Rightarrow> string) \<Rightarrow> rspec \<Rightarrow> string" where
  "rspec_text fmt (One a) = fmt a"
| "rspec_text fmt (Two a b) = opt_text fmt a @ CHR '':'' # opt_text fmt b"
| "rspec_text fmt (Three a b c) = opt_text fmt a @ CHR '':'' # opt_text fmt b @ CHR '':'' # opt_text fmt c"

lemma strtok_comma_list:
  assumes "\<forall>x \<in> set xs. x \<noteq> [] \<and> CHR '','' \<notin> set x"
  shows "strtok_all (\<lambda>c. c = CHR '','') (comma_list xs) = xs"
proof -
  have "split_on (\<lambda>c. c = CHR '','') (comma_list xs) = xs" if "xs \<noteq> []"
    using assms that
    by (induction xs rule: comma_list.induct) (auto simp: split_on_plain_char split_on_char)
  moreover have "filter (\<lambda>t. t \<noteq> []) xs = xs" using assms by (auto simp: filter_id_conv)
  ultimately show ?thesis by (cases "xs = []") (simp_all add: strtok_all_def)
qed

text \<open>The caller's \<open>parse_func\<close>: a number format without commas and colons.\<close>

locale number_format =
  fixes parse_func :: "string \<Rightarrow> int option option" and fmt :: "int \<Rightarrow> string" and valid :: "int \<Rightarrow> bool"
  assumes parse_fmt: "valid i \<Longrightarrow> parse_func (fmt i) = Some (Some i)"
    and fmt_plain: "CHR '','' \<notin> set (fmt i)" "CHR '':'' \<notin> set (fmt i)" "fmt i \<noteq> []"
begin

lemma parse_opt_text: "\<forall>i \<in> set_option a. valid i \<Longrightarrow> parse_field parse_func (opt_text fmt a) d = Some (Inr (pick a d))"
  by (cases a) (simp_all add: parse_field_def opt_text_def pick_def fmt_plain parse_fmt)

lemma opt_text_plain: "CHR '':'' \<notin> set (opt_text fmt a)" "CHR '','' \<notin> set (opt_text fmt a)"
  by (cases a; simp add: opt_text_def fmt_plain)+

lemma parse_rspec:
  assumes "\<forall>i \<in> numbers r. valid i"
  shows "parse_range parse_func d1 d2 d3 (rspec_text fmt r) = Some (Inr (meaning d1 d2 d3 r))"
proof (cases r)
  case (One a)
  have "parse_field parse_func (fmt a) d1 = Some (Inr a)" using assms One by (simp add: parse_field_def fmt_plain parse_fmt)
  then show ?thesis using One by (simp add: parse_range_def cut_plain fmt_plain)
qed (use assms in \<open>simp_all add: parse_range_def cut_append cut_plain opt_text_plain parse_opt_text\<close>)

lemma rspec_text_token: "rspec_text fmt r \<noteq> [] \<and> CHR '','' \<notin> set (rspec_text fmt r)"
  by (cases r) (simp_all add: fmt_plain opt_text_plain)

lemma parse_tokens_rspecs:
  assumes "\<forall>r \<in> set rs. \<forall>i \<in> numbers r. valid i" "length acc + length rs \<le> cap"
  shows "parse_tokens (parse_range parse_func d1 d2 d3) cap (map (rspec_text fmt) rs) acc =
    Some (Inr (acc @ map (meaning d1 d2 d3) rs))"
  using assms by (induction rs arbitrary: acc) (simp_all add: c_simps parse_rspec)

lemma parse_ranges_text:
  assumes "\<forall>r \<in> set rs. \<forall>i \<in> numbers r. valid i"
  shows "parse_ranges (comma_list (map (rspec_text fmt) rs)) d1 d2 d3 (Some parse_func) =
    Some (Inr (map (meaning d1 d2 d3) rs))"
proof -
  let ?t = "comma_list (map (rspec_text fmt) rs)"
  have s: "strtok_all (\<lambda>c. c = CHR '','') ?t = map (rspec_text fmt) rs"
    by (rule strtok_comma_list) (use rspec_text_token in auto)
  then have "length rs \<le> length (filter (\<lambda>c. c = CHR '','') ?t) + 1"
    using length_strtok_all [of "\<lambda>c. c = CHR '',''" ?t] by simp
  then show ?thesis using assms by (simp add: parse_ranges_def s parse_tokens_rspecs)
qed

end

interpretation default_format: number_format str_to_int int_to_string fits_int
  by unfold_locales (simp_all add: str_to_int_def scan_i_to_string c_simps int_to_string_plain)

text \<open>C27: every list of ranges, with fields left out or not, that is written with \<open>%d\<close>, colons and commas is read
back by \<open>parse_ranges\<close>, with the defaults for what is left out; a single number stands for both bounds.\<close>

theorem parse_ranges_roundtrip:
  assumes "\<forall>r \<in> set rs. \<forall>i \<in> numbers r. fits_int i"
  shows "parse_ranges (comma_list (map (rspec_text int_to_string) rs)) d1 d2 d3 None =
    Some (Inr (map (meaning d1 d2 d3) rs))"
  using default_format.parse_ranges_text [OF assms] by (simp add: parse_ranges_def)

lemma parse_ranges_roundtrip_witness:
  "parse_ranges (comma_list (map (rspec_text int_to_string) [One 5, Two None (Some 7), Three (Some (- 1)) (Some 9) (Some 4)])) 0 100 1 None =
    Some (Inr [\<lparr>r_min = 5, r_max = 5, r_mult = 1\<rparr>, \<lparr>r_min = 0, r_max = 7, r_mult = 1\<rparr>, \<lparr>r_min = - 1, r_max = 9, r_mult = 4\<rparr>])"
  by (subst parse_ranges_roundtrip) (simp_all add: fits_int_def INT_MIN_def INT_MAX_def pick_def)

text \<open>The array never overflows: it has a place for every token.\<close>

lemma parse_tokens_in_bounds:
  assumes "length acc + length toks \<le> cap" "\<forall>t \<in> set toks. parse t \<noteq> None"
  shows "parse_tokens parse cap toks acc \<noteq> None"
  using assms
proof (induction toks arbitrary: acc)
  case (Cons t toks)
  then obtain r where "parse t = Some r" by auto
  with Cons show ?case by (cases r) (auto simp: c_simps)
qed simp

section \<open>Random numbers\<close>

text \<open>What the header comment promises for the bounds \<open>a\<close> and \<open>b\<close> in either order.\<close>

definition candidate :: "int \<Rightarrow> int \<Rightarrow> int \<Rightarrow> int \<Rightarrow> bool" where
  "candidate a b mult v \<longleftrightarrow> min a b \<le> v \<and> v \<le> max a b \<and> mult dvd v"

lemma dvd_step: "(m :: int) dvd x \<Longrightarrow> m dvd y \<Longrightarrow> 0 < m \<Longrightarrow> x < y + m \<Longrightarrow> x \<le> y"
proof -
  assume "m dvd x" "m dvd y" and m: "0 < m" "x < y + m"
  then obtain i j where "x = m * i" "y = m * j" by (auto simp: dvd_def)
  with m have "m * i < m * (j + 1)" by (simp add: algebra_simps)
  with m have "i < j + 1" by (simp add: mult_less_cancel_left)
  with m \<open>x = m * i\<close> \<open>y = m * j\<close> show "x \<le> y" by simp
qed

text \<open>For bounds that are not negative the smallest and the largest multiple are found.\<close>

lemma to_multiples_nonneg:
  assumes "0 \<le> a" "0 \<le> b" "1 \<le> mult" "max a b + mult < 2 ^ (w - 1)"
  obtains lo hi where "to_multiples w a b mult = Some (lo, hi)" "0 \<le> lo" "mult dvd lo" "mult dvd hi"
    "min a b \<le> lo" "lo < min a b + mult" "hi \<le> max a b" "max a b < hi + mult"
proof -
  let ?lo = "min a b + (if min a b mod mult \<noteq> 0 then mult - min a b mod mult else 0)"
  let ?hi = "max a b - max a b mod mult"
  have m: "0 \<le> x mod mult" "x mod mult < mult" "mult dvd x - x mod mult" for x
    using assms(3) by (simp_all add: dvd_minus_mod)
  have mm: "0 \<le> min a b" "min a b \<le> max a b" using assms by simp_all
  have le: "min a b + (mult - min a b mod mult) < 2 ^ (w - 1)" "mult - min a b mod mult < 2 ^ (w - 1)"
    using assms(3,4) mm m(1) [of "min a b"] by linarith+
  have f: "sfits w (mult - min a b mod mult) \<and> sfits w (min a b + (mult - min a b mod mult))"
    using le m(2) [of "min a b"] mm(1) zero_le_power [of "2 :: int" "w - 1"] unfolding sfits_def by linarith
  have r: "c_mod (min a b) mult = Some (min a b mod mult)" "c_mod (max a b) mult = Some (max a b mod mult)"
    using assms by (simp_all add: c_mod_nonneg)
  have o: "(if b < a then (b, a) else (a, b)) = (min a b, max a b)" by auto
  have "to_multiples w a b mult = Some (?lo, ?hi)"
    by (simp only: to_multiples_def o Let_def prod.case r bind.bind_lunit) (simp add: c_simps f)
  moreover have "mult dvd ?lo"
  proof -
    have "min a b + (mult - min a b mod mult) = (min a b - min a b mod mult) + mult" by simp
    moreover have "mult dvd (min a b - min a b mod mult) + mult" using m(3) by (rule dvd_add) simp
    ultimately have "mult dvd min a b + (mult - min a b mod mult)" by (simp only:)
    then show ?thesis by (auto simp: mod_eq_0_iff_dvd)
  qed
  moreover have "0 \<le> ?lo \<and> min a b \<le> ?lo \<and> ?lo < min a b + mult"
    using m [of "min a b"] mm assms(3) by (cases "min a b mod mult = 0") (simp_all only: if_True if_False not_not simp_thms, linarith+)
  moreover have "?hi \<le> max a b \<and> max a b < ?hi + mult" using m [of "max a b"] by linarith
  ultimately show ?thesis using that [of ?lo ?hi] m(3) [of "max a b"] by blast
qed

lemma no_candidate:
  assumes "1 \<le> mult" "mult dvd lo" "mult dvd hi" "min a b \<le> lo" "lo < min a b + mult" "hi \<le> max a b" "max a b < hi + mult"
  shows "candidate a b mult v \<Longrightarrow> lo \<le> v \<and> v \<le> hi" "lo \<le> hi \<Longrightarrow> candidate a b mult lo"
  using assms dvd_step [of mult lo v] dvd_step [of mult v hi] by (auto simp: candidate_def)

lemma nmults_ok:
  assumes "0 \<le> lo" "lo \<le> hi" "1 \<le> mult" "hi + mult < 2 ^ (w - 1)"
  shows "nmults w lo hi mult = Some ((hi - lo) div mult + 1)"
proof -
  have "(hi - lo) div mult \<le> hi - lo" using zdiv_mono2 [of "hi - lo" 1 mult] assms by simp
  moreover have "0 \<le> (hi - lo) div mult" using assms by (intro div_int_pos_iff [THEN iffD2]) simp
  moreover have "- (2 ^ (w - 1)) \<le> (0 :: int)" by simp
  ultimately have "sfits w (hi - lo)" "sfits w ((hi - lo) div mult + 1)"
    using assms unfolding sfits_def by linarith+
  then show ?thesis using assms by (simp add: nmults_def c_simps c_div_nonneg)
qed

lemma picked:
  fixes k mult lo hi :: int
  assumes "1 \<le> mult" "mult dvd lo" "mult dvd hi" "lo \<le> hi" "0 \<le> k" "k < (hi - lo) div mult + 1"
  shows "lo \<le> lo + k * mult" "lo + k * mult \<le> hi" "mult dvd lo + k * mult"
proof -
  have "k * mult \<le> (hi - lo) div mult * mult" using assms by (intro mult_right_mono) auto
  also have "\<dots> = hi - lo" using dvd_diff [OF assms(3,2)] by (rule dvd_div_mult_self)
  finally show "lo + k * mult \<le> hi" by simp
qed (use assms in auto)

text \<open>One pick between the two multiples.\<close>

lemma pick_candidate:
  assumes "1 \<le> mult" "mult dvd lo" "mult dvd hi" "min a b \<le> lo" "lo \<le> hi" "hi \<le> max a b" "0 \<le> lo"
    "max a b + mult < 2 ^ (w - 1)" "0 \<le> x"
  obtains n where "nmults w lo hi mult = Some n" "n = (hi - lo) div mult + 1" "c_mod x n = Some (x mod n)"
    "candidate a b mult (lo + x mod n * mult)"
proof -
  let ?n = "(hi - lo) div mult + 1"
  have n: "nmults w lo hi mult = Some ?n" using nmults_ok [of lo hi mult w] assms by linarith
  have "0 \<le> (hi - lo) div mult" using assms(1,5) by (simp add: pos_imp_zdiv_nonneg_iff)
  then have p: "0 < ?n" by simp
  then have m: "c_mod x ?n = Some (x mod ?n)" "0 \<le> x mod ?n" "x mod ?n < ?n"
    using assms(9) by (simp_all only: c_mod_nonneg pos_mod_sign pos_mod_bound)
  have "candidate a b mult (lo + x mod ?n * mult)"
    using picked [OF assms(1-3,5) m(2,3)] assms(4,6) by (auto simp: candidate_def)
  with n m(1) show ?thesis using that by blast
qed

text \<open>Every multiple of \<open>mult\<close> in the range is picked by some random number, and nothing else is.\<close>

lemma random_rangel_candidates:
  assumes "0 \<le> a" "0 \<le> b" "1 \<le> mult" "max a b + mult < 2 ^ (w - 1)"
  shows "0 \<le> lr \<Longrightarrow> \<exists>r. random_rangel w a b mult lr = Some r \<and>
      (case r of Inl e \<Rightarrow> e = No_multiples a b mult \<and> (\<nexists>v. candidate a b mult v) | Inr v \<Rightarrow> candidate a b mult v)"
    and "candidate a b mult v \<Longrightarrow> \<exists>lr. 0 \<le> lr \<and> lr \<le> max a b \<and> random_rangel w a b mult lr = Some (Inr v)"
proof -
  obtain lo hi where lh: "to_multiples w a b mult = Some (lo, hi)" "0 \<le> lo" and
    b: "mult dvd lo" "mult dvd hi" "min a b \<le> lo" "lo < min a b + mult" "hi \<le> max a b" "max a b < hi + mult"
    using to_multiples_nonneg [OF assms] by metis
  note nc = no_candidate [OF assms(3) b]
  show "\<exists>r. random_rangel w a b mult lr = Some r \<and>
      (case r of Inl e \<Rightarrow> e = No_multiples a b mult \<and> (\<nexists>v. candidate a b mult v) | Inr v \<Rightarrow> candidate a b mult v)"
    if lr: "0 \<le> lr"
  proof (cases "lo \<le> hi")
    case True
    obtain n where "nmults w lo hi mult = Some n" "c_mod lr n = Some (lr mod n)" "candidate a b mult (lo + lr mod n * mult)"
      using pick_candidate [OF assms(3) b(1-3) True b(5) lh(2) assms(4) lr] by metis
    then show ?thesis using True assms(3) by (simp add: random_rangel_def lh(1))
  next
    case False
    then have "\<nexists>v. candidate a b mult v" using nc(1) by force
    then show ?thesis using False assms(3) by (simp add: random_rangel_def lh(1))
  qed
  show "\<exists>lr. 0 \<le> lr \<and> lr \<le> max a b \<and> random_rangel w a b mult lr = Some (Inr v)" if "candidate a b mult v"
  proof -
    have v: "lo \<le> v" "v \<le> hi" "mult dvd v" using nc(1) [OF that] that by (auto simp: candidate_def)
    then obtain k where k: "v - lo = mult * k" using b(1) by (metis dvd_diff dvdE)
    have k0: "0 \<le> k" using k v(1) assms(3) by (smt (verit) mult_pos_neg)
    obtain n where n: "nmults w lo hi mult = Some n" "n = (hi - lo) div mult + 1" "c_mod k n = Some (k mod n)"
      using pick_candidate [OF assms(3) b(1-3) _ b(5) lh(2) assms(4) k0] v by (metis order_trans)
    have "k = (v - lo) div mult" using k assms(3) by simp
    also have "\<dots> \<le> (hi - lo) div mult" using v assms(3) by (intro zdiv_mono1) auto
    finally have k1: "k < n" using n(2) by simp
    have "k \<le> v - lo" using k k0 assms(3) by (simp add: mult_le_cancel_right1)
    then have "k \<le> max a b" using v(2) b(5) lh(2) by simp
    then show ?thesis using k0 k1 k assms(3) v n
      by (intro exI [of _ k]) (simp add: random_rangel_def lh(1) mult.commute mod_pos_pos_trivial)
  qed
qed

lemma random_range_rangel: "random_range a b mult lr = random_rangel 32 a b mult lr"
  by (simp add: random_range_def random_rangel_def)

text \<open>C11: \<open>random_range\<close> refuses every \<open>mult\<close> below 1.  Otherwise, for bounds that are not negative and with the larger of them
plus \<open>mult\<close> in the range of an int, it keeps its promise: it fails exactly when the range holds no multiple of \<open>mult\<close>, otherwise it
returns one, and every one of them is returned for some value of \<open>lrand48\<close>.\<close>

theorem random_range_candidates:
  assumes "1 \<le> mult \<longrightarrow> 0 \<le> a \<and> 0 \<le> b \<and> max a b + mult \<le> INT_MAX"
  shows "(\<forall>lr \<ge> 0. \<exists>r. random_range a b mult lr = Some r \<and>
      (case r of Inl e \<Rightarrow> if mult < 1 then e = Bad_mult else e = No_multiples a b mult \<and> (\<nexists>v. candidate a b mult v)
       | Inr v \<Rightarrow> 1 \<le> mult \<and> candidate a b mult v)) \<and>
    (1 \<le> mult \<longrightarrow> (\<forall>v. candidate a b mult v \<longrightarrow> (\<exists>lr. 0 \<le> lr \<and> lr \<le> INT_MAX \<and> random_range a b mult lr = Some (Inr v))))"
proof (cases "1 \<le> mult")
  case True
  with assms have h: "0 \<le> a" "0 \<le> b" "1 \<le> mult" "max a b + mult \<le> INT_MAX" by simp_all
  then have w: "max a b + mult < 2 ^ (32 - 1)" by (simp add: INT_MAX_def)
  note r = random_rangel_candidates [OF h(1-3) w, folded random_range_rangel]
  have m: "max a b \<le> INT_MAX" using h by linarith
  have "\<exists>r. random_range a b mult lr = Some r \<and>
      (case r of Inl e \<Rightarrow> if mult < 1 then e = Bad_mult else e = No_multiples a b mult \<and> (\<nexists>v. candidate a b mult v)
       | Inr v \<Rightarrow> 1 \<le> mult \<and> candidate a b mult v)" if lr: "0 \<le> lr" for lr
  proof -
    obtain q where q: "random_range a b mult lr = Some q"
      "case q of Inl e \<Rightarrow> e = No_multiples a b mult \<and> (\<nexists>v. candidate a b mult v) | Inr v \<Rightarrow> candidate a b mult v"
      using r(1) [OF lr] by blast
    with True show ?thesis by (cases q) auto
  qed
  with r(2) m show ?thesis by (blast intro: order_trans)
next
  case False
  then show ?thesis by (simp add: random_range_def)
qed

lemma random_range_candidates_witness:
  "(\<exists>lr. random_range 30 4 7 lr = Some (Inr 28)) \<and> (\<exists>e. random_range 8 13 7 0 = Some (Inl e))"
proof -
  have i: "1 \<le> (7 :: int) \<longrightarrow> 0 \<le> (30 :: int) \<and> 0 \<le> (4 :: int) \<and> max 30 4 + 7 \<le> INT_MAX"
    "1 \<le> (7 :: int) \<longrightarrow> 0 \<le> (8 :: int) \<and> 0 \<le> (13 :: int) \<and> max 8 13 + 7 \<le> INT_MAX"
    by (simp_all add: INT_MAX_def)
  have "candidate 30 4 7 28" by (simp add: candidate_def)
  then have "\<exists>lr. random_range 30 4 7 lr = Some (Inr 28)"
    using random_range_candidates [OF i(1)] by (metis one_le_numeral)
  moreover have "\<exists>e. random_range 8 13 7 0 = Some (Inl e)"
  proof -
    have n: "\<not> candidate 8 13 7 v" for v by (simp add: candidate_def) presburger
    obtain r where "random_range 8 13 7 0 = Some r"
      "case r of Inl e \<Rightarrow> if (7 :: int) < 1 then e = Bad_mult else e = No_multiples 8 13 7 \<and> (\<nexists>v. candidate 8 13 7 v)
       | Inr v \<Rightarrow> 1 \<le> (7 :: int) \<and> candidate 8 13 7 v"
      using spec [OF conjunct1 [OF random_range_candidates [OF i(2)]], of 0] by auto
    with n show ?thesis by (cases r) simp_all
  qed
  ultimately show ?thesis by blast
qed

text \<open>The bound is needed: for the whole range of an int that is not negative, \<open>nmults\<close> overflows.\<close>

lemma random_range_overflow: "random_range 0 INT_MAX 1 lr = None"
  by (simp add: random_range_def to_multiples_def nmults_def c_mod_nonneg c_div_nonneg c_simps INT_MAX_def sfits_def)

text \<open>Below zero \<open>%\<close> is negative: the upper bound moves up.\<close>

lemma smod_neg: "(x :: int) < 0 \<Longrightarrow> 0 < m \<Longrightarrow> x smod m = - ((- x) mod m)"
  by (simp add: signed_modulo_int_def sgn_if)

lemma div_times: "(x :: int) - x mod m = x div m * m"
  by (simp add: minus_mod_eq_div_mult)

text \<open>With negative bounds \<open>random_range\<close> can return a number above the upper bound, although the comment allows
"any valid integer" as a bound.\<close>

theorem random_range_above:
  assumes "INT_MIN < a" "a \<le> b - mult" "b < 0" "\<not> mult dvd b" "1 \<le> mult" "2 * mult \<le> INT_MAX"
  shows "\<exists>lr v. 0 \<le> lr \<and> lr \<le> INT_MAX \<and> random_range a b mult lr = Some (Inr v) \<and> b < v"
proof -
  let ?hi = "- ((- b) div mult * mult)"
  let ?lo = "if a smod mult = 0 then a else a + (mult - a smod mult)"
  have m: "1 < mult" using assms(4,5) by (cases "mult = 1") auto
  have ra: "a smod mult = - ((- a) mod mult)" "b smod mult = - ((- b) mod mult)"
    using assms by (simp_all add: smod_neg)
  have rb: "0 \<le> (- a) mod mult" "(- a) mod mult < mult" "0 < (- b) mod mult" "(- b) mod mult < mult"
    using assms(4,5) pos_mod_bound [of mult "- a"] pos_mod_bound [of mult "- b"] pos_mod_sign [of mult "- b"]
    by (simp_all add: less_le mod_eq_0_iff_dvd)
  have lo: "?lo = - ((- a) div mult * mult) + (if (- a) mod mult = 0 then 0 else mult)"
    using div_times [of "- a" mult] by (simp add: ra)
  have hi: "?hi = b + (- b) mod mult" using div_times [of "- b" mult] by simp
  have q: "(- b) div mult + 1 \<le> (- a) div mult"
    using zdiv_mono1 [of "- b + 1 * mult" "- a" mult] assms(2,5) div_mult_self1 [of mult "- b" 1] by simp
  have "((- b) div mult + 1) * mult \<le> (- a) div mult * mult" using q assms(5) by (intro mult_right_mono) auto
  then have le: "?lo \<le> ?hi" using assms(5)
    by (subst lo) (cases "(- a) mod mult = 0"; simp only: if_True if_False simp_thms distrib_right; linarith)
  have gt: "b < ?hi" using rb hi by simp
  have p31: "(2 :: int) ^ (32 - 1) = 2147483648" by simp
  have f: "sfits 32 (mult - a smod mult)" "sfits 32 (a + (mult - a smod mult))"
    using assms rb p31 unfolding ra sfits_def INT_MIN_def INT_MAX_def by linarith+
  have "INT_MIN < a + (mult - a smod mult)" using assms(1,5) rb unfolding ra by linarith
  then have neg: "INT_MIN < ?lo" "?hi \<le> 0" using assms(1,3,5) by (simp_all add: pos_imp_zdiv_nonneg_iff)
  have t: "to_multiples 32 a b mult = Some (?lo, ?hi)"
    using assms(2,5) f rb hi ra by (simp add: to_multiples_def c_mod_def c_simps)
  have "mult dvd ?hi - ?lo" by (simp only: lo) (simp add: dvd_diff)
  then have "(?hi - ?lo) div mult * mult = ?hi - ?lo" by (rule dvd_div_mult_self)
  with le gt neg t obtain lo hi where h: "to_multiples 32 a b mult = Some (lo, hi)" "lo \<le> hi" "b < hi" "INT_MIN < lo" "hi \<le> 0"
    and d: "(hi - lo) div mult * mult = hi - lo" by blast
  let ?k = "(hi - lo) div mult"
  have k: "0 \<le> ?k" using h(2) assms(5) by (simp add: pos_imp_zdiv_nonneg_iff)
  have "2 * ?k \<le> mult * ?k" using k m by (intro mult_right_mono) auto
  then have k2: "2 * ?k \<le> hi - lo" using d by (simp add: mult.commute)
  have n: "nmults 32 lo hi mult = Some (?k + 1)"
    using k k2 h assms(5) by (simp add: nmults_def sfits_def INT_MIN_def c_simps c_div_nonneg)
  have "random_range a b mult ?k = Some (Inr (lo + ?k * mult))"
    using assms(5) k n h by (simp add: random_range_def c_mod_nonneg mod_pos_pos_trivial)
  then show ?thesis using d k k2 h by (intro exI [of _ ?k] exI [of _ hi]) (simp add: INT_MIN_def INT_MAX_def)
qed

lemma random_range_above_witness:
  "\<exists>lr v. 0 \<le> lr \<and> random_range (- 8) (- 2) 3 lr = Some (Inr v) \<and> v > - 2"
  using random_range_above [of "- 8" "- 2" 3] by (auto simp: INT_MIN_def INT_MAX_def)

section \<open>64-bit numbers\<close>

text \<open>\<open>divider\<close> never runs away, and it returns at least its lower bound.\<close>

lemma divider_bounds:
  assumes "0 \<le> cnt" "cnt \<le> 30" "0 \<le> lr" "lr \<le> INT_MAX" "cnt = 0 \<or> rand = lr" "lo \<le> hi" "hi - lo \<le> 2 ^ nat (61 - cnt)"
    "- (2 ^ 61) \<le> lo" "hi \<le> 2 ^ 62"
  shows "\<exists>v. divider lr lo hi cnt rand = Some v \<and> lo \<le> v \<and> v \<le> hi + INT_MAX"
  using assms
proof (induction lr lo hi cnt rand rule: divider.induct)
  case (1 lr lo hi cnt rand)
  let ?half = "(hi - lo) div 2" and ?rand = "if cnt = 0 \<or> rand < - 1 then lr else rand"
  have r: "?rand = lr" using "1.prems" by auto
  have f: "sfits 64 (hi - lo)" "\<And>x. lo \<le> x \<Longrightarrow> x \<le> hi \<Longrightarrow> sfits 64 (x + lr)"
    using "1.prems" by (simp_all add: sfits_def INT_MAX_def)
  note d = divider.simps [of lr lo hi cnt rand, unfolded r Let_def]
  show ?case
  proof (cases "?half \<le> 2147483647 \<or> hi - lo \<le> 2147483647")
    case True
    then show ?thesis
      using "1.prems" f by (subst d) (auto simp: c_simps INT_MAX_def)
  next
    case False
    have c: "cnt < 30"
    proof (rule ccontr)
      assume "\<not> cnt < 30"
      then have "cnt = 30" using "1.prems" by simp
      then have "hi - lo \<le> 2147483648" using "1.prems" by simp
      then show False using False by presburger
    qed
    have e: "2 ^ nat (61 - cnt) = (2 :: int) * 2 ^ nat (61 - (cnt + 1))"
      using c "1.prems" by (simp add: nat_diff_distrib power_Suc [symmetric] del: power_Suc)
    have h: "lo + ?half \<le> hi" "hi - (lo + ?half) \<le> 2 ^ nat (61 - (cnt + 1))" "lo \<le> lo + ?half"
      "?half \<le> 2 ^ nat (61 - (cnt + 1))"
      using "1.prems" e by linarith+
    have upper: "\<exists>v. divider lr (lo + ?half) hi (cnt + 1) lr = Some v \<and> lo + ?half \<le> v \<and> v \<le> hi + INT_MAX"
      if "lr AND 2 ^ nat cnt \<noteq> 0"
      by (rule "1.IH"(1) [of lr]) (use "1.prems" c f False h that r in \<open>auto simp: c_simps\<close>)
    have lower: "\<exists>v. divider lr lo (lo + ?half) (cnt + 1) lr = Some v \<and> lo \<le> v \<and> v \<le> lo + ?half + INT_MAX"
      if "lr AND 2 ^ nat cnt = 0"
      by (rule "1.IH"(2) [of lr]) (use "1.prems" c f False h that r in \<open>auto simp: c_simps\<close>)
    have eq: "divider lr lo hi cnt rand = (if lr AND 2 ^ nat cnt \<noteq> 0 then divider lr (lo + ?half) hi (cnt + 1) lr
        else divider lr lo (lo + ?half) (cnt + 1) lr)"
      using "1.prems"(1) c f(1) False by (subst d) (simp add: c_simps)
    show ?thesis
    proof (cases "lr AND 2 ^ nat cnt = 0")
      case True
      then obtain v where "divider lr lo hi cnt rand = Some v" "lo \<le> v" "v \<le> lo + ?half + INT_MAX"
        using lower eq by auto
      then show ?thesis using h(1) by auto
    next
      case False
      then obtain v where "divider lr lo hi cnt rand = Some v" "lo + ?half \<le> v" "v \<le> hi + INT_MAX"
        using upper eq by auto
      then show ?thesis using h(3) by auto
    qed
  qed
qed

text \<open>\<open>random_rangell\<close> with bounds that are not negative, however far apart (up to \<open>2 ^ 61\<close>), returns a multiple in
the range, and fails exactly when there is none.\<close>

theorem random_rangell_candidates:
  assumes "0 \<le> a" "0 \<le> b" "max a b \<le> 2 ^ 61" "1 \<le> mult" "mult \<le> 2 ^ 61" "0 \<le> lr" "lr \<le> INT_MAX"
  shows "\<exists>r. random_rangell a b mult lr = Some r \<and>
      (case r of Inl e \<Rightarrow> e = No_multiples a b mult \<and> (\<nexists>v. candidate a b mult v) | Inr v \<Rightarrow> candidate a b mult v)"
proof -
  have mx: "max a b + mult < 2 ^ (64 - 1)" using add_mono [OF assms(3,5)] by simp
  obtain lo hi where lh: "to_multiples 64 a b mult = Some (lo, hi)" "0 \<le> lo" and
    b: "mult dvd lo" "mult dvd hi" "min a b \<le> lo" "lo < min a b + mult" "hi \<le> max a b" "max a b < hi + mult"
    using to_multiples_nonneg [OF assms(1,2,4) mx] by metis
  note nc = no_candidate [OF assms(4) b]
  show ?thesis
  proof (cases "lo \<le> hi")
    case True
    obtain x where x: "(if hi \<le> 2147483647 then Some lr else divider lr lo hi 0 (- 1)) = Some x" "0 \<le> x"
    proof (cases "hi \<le> 2147483647")
      case False
      have "hi \<le> 2 ^ 61" using b(5) assms(3) by linarith
      then obtain v where "divider lr lo hi 0 (- 1) = Some v" "lo \<le> v"
        using divider_bounds [of 0 lr "- 1" lo hi] assms(6,7) True lh(2) by auto
      with False lh(2) that show ?thesis by simp
    qed (use assms(6) that in simp)
    obtain n where "nmults 64 lo hi mult = Some n" "c_mod x n = Some (x mod n)" "candidate a b mult (lo + x mod n * mult)"
      using pick_candidate [OF assms(4) b(1-3) True b(5) lh(2) mx x(2)] by metis
    then show ?thesis using True assms(4) by (simp add: random_rangell_def lh(1) x(1))
  next
    case False
    then have "\<nexists>v. candidate a b mult v" using nc(1) by force
    then show ?thesis using False assms(4) by (simp add: random_rangell_def lh(1))
  qed
qed

lemma random_rangell_candidates_witness:
  "\<exists>v. random_rangell 10 85899345920 1000 123456 = Some (Inr v) \<and> candidate 10 85899345920 1000 v"
proof -
  have "candidate 10 85899345920 1000 1000" by (simp add: candidate_def)
  moreover obtain r where "random_rangell 10 85899345920 1000 123456 = Some r"
    "case r of Inl e \<Rightarrow> e = No_multiples 10 85899345920 1000 \<and> (\<nexists>v. candidate 10 85899345920 1000 v)
      | Inr v \<Rightarrow> candidate 10 85899345920 1000 v"
    using random_rangell_candidates [of 10 85899345920 1000 123456] unfolding INT_MAX_def by fastforce
  ultimately show ?thesis by (cases r) auto
qed

text \<open>With a negative lower bound and an upper bound above \<open>INT_MAX\<close>, \<open>random_rangell\<close> can return a number below
the range: the random number of \<open>divider\<close> already counts from the lower bound.\<close>

theorem random_rangell_below:
  assumes "- (2 ^ 61) \<le> a" "- b \<le> a" "INT_MAX < b" "b - a \<le> 2 * INT_MAX" "0 \<le> lr" "even lr" "lr < - a"
  shows "random_rangell a b 1 lr = Some (Inr (a + (a + lr))) \<and> a + (a + lr) < a"
proof -
  have o: "lr AND 1 = 0" using assms(6) by (simp add: and_one_eq even_iff_mod_2_eq_zero)
  have d: "divider lr a b 0 (- 1) = Some (a + lr)"
  proof (cases "b - a \<le> INT_MAX")
    case True
    then show ?thesis using assms by (subst divider.simps) (simp add: c_simps sfits_def INT_MAX_def)
  next
    case False
    have "(b - a) div 2 \<le> 2147483647" using assms(4) by (simp add: INT_MAX_def)
    then show ?thesis using False assms o by (subst divider.simps) (simp add: c_simps sfits_def INT_MAX_def)
  qed
  have t: "to_multiples 64 a b 1 = Some (a, b)"
    using assms by (simp add: to_multiples_def c_mod_def signed_modulo_int_def INT_MAX_def)
  have n: "nmults 64 a b 1 = Some (b - a + 1)"
    using assms by (simp add: nmults_def c_div_def sfits_def c_simps INT_MAX_def)
  have "(a + lr) smod (b - a + 1) = a + lr"
    using assms by (subst smod_neg) (simp_all add: mod_pos_pos_trivial)
  then show ?thesis
    using assms d n t by (simp add: random_rangell_def c_mod_def INT_MAX_def)
qed

lemma random_rangell_below_witness: "random_rangell (- 100) 3000000000 1 0 = Some (Inr (- 200))"
  using random_rangell_below [of "- 100" 3000000000 0] by (simp add: INT_MAX_def)

section \<open>Random bits\<close>

text \<open>The positions of the set bits, lowest first.\<close>

definition ones :: "'l::len word \<Rightarrow> nat \<Rightarrow> nat list" where
  "ones m n = filter (bit m) [n..<LENGTH('l)]"

lemma ones_step: "n < LENGTH('l) \<Longrightarrow> ones m n = (if bit m n then n # ones m (Suc n) else ones m (Suc n))" for m :: "'l::len word"
  by (simp add: ones_def upt_conv_Cons)

lemma ones_end [simp]: "LENGTH('l) \<le> n \<Longrightarrow> ones m n = []" for m :: "'l::len word"
  by (simp add: ones_def)

lemma count_bits_ones:
  "n \<le> LENGTH('l) \<Longrightarrow> count_bits (LENGTH('l) - n) m (push_bit n 1) k = k + length (ones m n)" for m :: "'l::len word"
proof (induction "LENGTH('l) - n" arbitrary: n k)
  case (Suc d)
  have n: "n < LENGTH('l)" "LENGTH('l) - n = Suc (LENGTH('l) - Suc n)" using Suc.hyps(2) by simp_all
  have b: "m AND push_bit n 1 \<noteq> 0 \<longleftrightarrow> bit m n"
    by (simp add: and_exp_eq_0_iff_not_bit)
  have p: "push_bit 1 (push_bit n 1) = (push_bit (Suc n) 1 :: 'l word)" by simp
  show ?case using Suc.hyps(1) [of "Suc n"] Suc.hyps(2) n(1)
    by (simp only: n(2) count_bits.simps p b) (simp add: ones_step)
qed simp

lemma count_bits_all: "count_bits LENGTH('l) m 1 0 = length (ones m 0)" for m :: "'l::len word"
  using count_bits_ones [of 0 m 0] by simp

lemma shift_loop_ones:
  "n \<le> LENGTH('l) \<Longrightarrow> j < length (ones m n) \<Longrightarrow>
    shift_loop (int j + 1) (signed_drop_bit n m) n = Some (ones m n ! j + 1)" for m :: "'l::len word"
proof (induction "LENGTH('l) - n" arbitrary: n j)
  case (Suc d)
  have n: "n < LENGTH('l)" using Suc.hyps(2) by simp
  have "bit (signed_drop_bit n m) 0 = bit m n" using n by (auto simp: bit_signed_drop_bit_iff)
  then have b: "signed_drop_bit n m AND 1 \<noteq> 0 \<longleftrightarrow> bit m n"
    by (simp add: and_one_eq bit_0 odd_iff_mod_2_eq_one)
  have s: "signed_drop_bit 1 (signed_drop_bit n m) = signed_drop_bit (Suc n) m" by simp
  have z: "shift_loop 0 x k = Some k" for x :: "'l word" and k by (subst shift_loop.simps) simp
  show ?case
  proof (cases "bit m n \<and> j = 0")
    case True
    with n b show ?thesis by (subst shift_loop.simps) (simp add: z ones_step)
  next
    case False
    have i: "shift_loop (int i + 1) (signed_drop_bit (Suc n) m) (Suc n) = Some (ones m (Suc n) ! i + 1)"
      if "i < length (ones m (Suc n))" for i
      using Suc.hyps(1) [of "Suc n" i] Suc.hyps(2) n that by simp
    show ?thesis
    proof (cases "bit m n")
      case True
      with False obtain i where "j = Suc i" by (cases j) auto
      with True Suc.prems(2) n b i [of i] s show ?thesis by (subst shift_loop.simps) (simp add: ones_step add.commute)
    next
      case False
      with Suc.prems(2) n b i [of j] s show ?thesis by (subst shift_loop.simps) (simp add: ones_step)
    qed
  qed
qed simp

lemma random_one_to:
  assumes "0 < n" "n < INT_MAX" "0 \<le> lr"
  shows "random_range 1 n 1 lr = Some (Inr (1 + lr mod n))"
  using assms
  by (simp add: random_range_def to_multiples_def c_mod_nonneg nmults_def c_div_nonneg sfits_def c_simps INT_MAX_def)

lemma random_bit_ones:
  fixes m :: "'l::len word"
  assumes "m \<noteq> 0" "int LENGTH('l) < INT_MAX" "0 \<le> lr"
  shows "random_bit m lr = Some (push_bit (ones m 0 ! nat (lr mod int (length (ones m 0)))) 1)"
    "0 < length (ones m 0)"
proof -
  obtain k where "bit m k" "k < LENGTH('l)" using assms(1) by (metis bit_eq_iff bit_imp_le_length bit_0_eq bot_apply bot_bool_def)
  then have "k \<in> set (ones m 0)" by (simp add: ones_def)
  then show p: "0 < length (ones m 0)" by (cases "ones m 0") auto
  have l: "length (ones m 0) \<le> LENGTH('l)"
    unfolding ones_def using length_filter_le [of "bit m" "[0..<LENGTH('l)]"] by simp
  let ?n = "int (length (ones m 0))"
  let ?j = "nat (lr mod ?n)"
  have j: "?j < length (ones m 0)" "int ?j = lr mod ?n" using p assms(3) by (simp_all add: nat_less_iff)
  have r: "random_range 1 ?n 1 lr = Some (Inr (int ?j + 1))"
    using random_one_to [of ?n lr] p l assms(2,3) j(2) by simp
  have "shift_loop (int ?j + 1) m 0 = Some (ones m 0 ! ?j + 1)"
    using shift_loop_ones [of 0 ?j m] j(1) by simp
  then show "random_bit m lr = Some (push_bit (ones m 0 ! ?j) 1)"
    using assms(1) r by (simp add: random_bit_def count_bits_all)
qed

text \<open>C26: \<open>random_bit\<close> of a mask that is not zero returns one bit that is set in the mask, and every set bit is returned
for some value of \<open>lrand48\<close>; its second loop always ends.\<close>

theorem random_bit_of_mask:
  fixes m :: "'l::len word"
  assumes "m \<noteq> 0" "int LENGTH('l) < INT_MAX"
  shows "(\<forall>lr \<ge> 0. \<exists>k. bit m k \<and> random_bit m lr = Some (push_bit k 1)) \<and>
    (\<forall>k. bit m k \<longrightarrow> (\<exists>lr. 0 \<le> lr \<and> lr \<le> INT_MAX \<and> random_bit m lr = Some (push_bit k 1)))"
proof (intro conjI allI impI)
  fix lr :: int assume lr: "0 \<le> lr"
  note r = random_bit_ones [OF assms lr]
  have "ones m 0 ! nat (lr mod int (length (ones m 0))) \<in> set (ones m 0)" using r(2) by (intro nth_mem) (simp add: nat_less_iff)
  then have "bit m (ones m 0 ! nat (lr mod int (length (ones m 0))))" by (simp add: ones_def)
  with r(1) show "\<exists>k. bit m k \<and> random_bit m lr = Some (push_bit k 1)" by blast
next
  fix k assume k: "bit m k"
  then have "k \<in> set (ones m 0)" by (simp add: ones_def bit_imp_le_length)
  then obtain j where j: "j < length (ones m 0)" "ones m 0 ! j = k" by (auto simp: in_set_conv_nth)
  have l: "length (ones m 0) \<le> LENGTH('l)"
    unfolding ones_def using length_filter_le [of "bit m" "[0..<LENGTH('l)]"] by simp
  have "random_bit m (int j) = Some (push_bit k 1)"
    using random_bit_ones(1) [OF assms, of "int j"] j by (simp add: mod_pos_pos_trivial)
  then show "\<exists>lr. 0 \<le> lr \<and> lr \<le> INT_MAX \<and> random_bit m lr = Some (push_bit k 1)"
    using j(1) l assms(2) by (intro exI [of _ "int j"]) simp
qed

lemma random_bit_of_mask_witness: "\<exists>lr. random_bit (0x80000001 :: 32 word) lr = Some (push_bit 31 1)"
proof -
  have "bit (0x80000001 :: 32 word) 31" by (simp add: bit_iff_odd)
  moreover have "(0x80000001 :: 32 word) \<noteq> 0" "int LENGTH(32) < INT_MAX" by (simp_all add: INT_MAX_def)
  ultimately show ?thesis using conjunct2 [OF random_bit_of_mask [of "0x80000001 :: 32 word"]] by blast
qed

end
