(* ===== verification/WriteLog.thy ===== *)
theory WriteLog
imports Prelude
begin

text \<open>\<open>ltp_framework/lib/write_log.c\<close>: the history of writes that the I/O tests keep.

The log file is its bytes; \<open>wsys\<close> says which system calls on it succeed.  The layout of \<open>wlog_rec_disk\<close> is that
of a little-endian machine: seven words, bit fields from the low bit, none across a word.  The buffers are on the
stack, so that the unnamed bits of a record are whatever was there (\<open>junk\<close>).  Whether \<open>char\<close> is signed is a
parameter.  Messages (\<open>Wlog_Error_String\<close>) are not modelled.\<close>

section \<open>Records\<close>

definition WLOG_MAX_PATH :: nat where "WLOG_MAX_PATH = 128"
definition WLOG_MAX_PATTERN :: nat where "WLOG_MAX_PATTERN = 64"
definition WLOG_MAX_HOST :: nat where "WLOG_MAX_HOST = 8"

record wlog_rec =
  w_pid :: int
  w_offset :: int
  w_nbytes :: int
  w_oflags :: int
  w_done :: int
  w_async :: int
  w_host :: "byte list"
  w_hostlen :: int
  w_path :: "byte list"
  w_pathlen :: int
  w_pattern :: "byte list"
  w_patternlen :: int

text \<open>\<open>sizeof(struct wlog_rec)\<close> is 248: nine ints and three arrays, each padded to a word.\<close>

definition WLOG_REC_MAX_SIZE :: nat where
  "WLOG_REC_MAX_SIZE = 248 + WLOG_MAX_PATH + WLOG_MAX_PATTERN + WLOG_MAX_HOST + 2"

section \<open>Words in memory\<close>

definition le32 :: "int \<Rightarrow> byte list" where
  "le32 v = [word_of_int v, word_of_int (v div 2 ^ 8), word_of_int (v div 2 ^ 16), word_of_int (v div 2 ^ 24)]"

definition rd32 :: "byte list \<Rightarrow> nat \<Rightarrow> int" where
  "rd32 buf i = uint (buf ! (4 * i)) + uint (buf ! (4 * i + 1)) * 2 ^ 8 + uint (buf ! (4 * i + 2)) * 2 ^ 16 +
     uint (buf ! (4 * i + 3)) * 2 ^ 24"

definition to_int :: "int \<Rightarrow> int" where
  "to_int v = (if v < 2 ^ 31 then v else v - 2 ^ 32)"

section \<open>Packing and unpacking\<close>

definition DISK :: nat where "DISK = 28"

record junk =
  j_extra0 :: int
  j_word4 :: int
  j_word5 :: int
  j_word6 :: int

definition bits_len :: "nat \<Rightarrow> int \<Rightarrow> int" where
  "bits_len k n = (if n > 0 then n mod 2 ^ k else 0)"

definition disk_words :: "junk \<Rightarrow> wlog_rec \<Rightarrow> int list" where
  "disk_words j r = [w_offset r, j_extra0 j, w_nbytes r, w_oflags r,
     w_pid r mod 2 ^ 17 + 2 ^ 17 * bits_len 7 (w_pathlen r) + 2 ^ 24 * bits_len 6 (w_patternlen r) + 2 ^ 30 * j_word4 j,
     bits_len 4 (w_hostlen r) + 2 ^ 4 * (w_done r mod 2) + 2 ^ 5 * (w_async r mod 2) + 2 ^ 6 * j_word5 j,
     j_word6 j]"

definition wlog_rec_pack :: "junk \<Rightarrow> wlog_rec \<Rightarrow> bool \<Rightarrow> byte list option" where
  "wlog_rec_pack j r flag = (let wrecd = concat (map le32 (disk_words j r)) in
     if flag then do {
       file_part \<leftarrow> rd_block (w_path r) 0 (bits_len 7 (w_pathlen r));
       host \<leftarrow> rd_block (w_host r) 0 (bits_len 4 (w_hostlen r));
       pattern \<leftarrow> rd_block (w_pattern r) 0 (bits_len 6 (w_patternlen r));
       Some (wrecd @ file_part @ host @ pattern)
     }
     else Some wrecd)"

text \<open>Copying into an array of zeros of \<open>cap\<close> bytes.\<close>

definition copy_in :: "nat \<Rightarrow> byte list \<Rightarrow> int \<Rightarrow> int \<Rightarrow> byte list option" where
  "copy_in cap buf i n = do {
     xs \<leftarrow> rd_block buf i n;
     chk (length xs \<le> cap);
     Some (xs @ replicate (cap - length xs) 0)
   }"

definition wlog_rec_unpack :: "byte list \<Rightarrow> wlog_rec option" where
  "wlog_rec_unpack buf = do {
     let pathlen = rd32 buf 4 div 2 ^ 17 mod 2 ^ 7;
     let patternlen = rd32 buf 4 div 2 ^ 24 mod 2 ^ 6;
     let hostlen = rd32 buf 5 mod 2 ^ 4;
     path \<leftarrow> copy_in (WLOG_MAX_PATH + 1) buf (int DISK) pathlen;
     host \<leftarrow> copy_in (WLOG_MAX_HOST + 1) buf (int DISK + pathlen) hostlen;
     pattern \<leftarrow> copy_in (WLOG_MAX_PATTERN + 1) buf (int DISK + pathlen + hostlen) patternlen;
     Some \<lparr>w_pid = rd32 buf 4 mod 2 ^ 17, w_offset = to_int (rd32 buf 0), w_nbytes = to_int (rd32 buf 2),
       w_oflags = to_int (rd32 buf 3), w_done = rd32 buf 5 div 2 ^ 4 mod 2, w_async = rd32 buf 5 div 2 ^ 5 mod 2,
       w_host = host, w_hostlen = hostlen, w_path = path, w_pathlen = pathlen, w_pattern = pattern,
       w_patternlen = patternlen\<rparr>
   }"

section \<open>The log file\<close>

record wlog =
  w_afd :: int
  w_rfd :: int
  w_data :: "byte list"

text \<open>The two descriptors that \<open>open\<close> returns (-1: it fails), and whether \<open>write\<close>, \<open>lseek\<close> and \<open>read\<close> succeed.\<close>

record wsys =
  sys_afd :: int
  sys_rfd :: int
  write_ok :: bool
  lseek_ok :: bool
  read_ok :: bool

definition wlog_open :: "wsys \<Rightarrow> wlog \<Rightarrow> bool \<Rightarrow> int \<times> wlog" where
  "wlog_open sys l trunc =
    (let l = l\<lparr>w_afd := sys_afd sys\<rparr> in
     if w_afd l = - 1 then (- 1, l)
     else let l = (if trunc then l\<lparr>w_data := []\<rparr> else l); l = l\<lparr>w_rfd := sys_rfd sys\<rparr> in
       if w_rfd l = - 1 then (- 1, l\<lparr>w_afd := - 1\<rparr>) else (0, l))"

definition wlog_close :: "wlog \<Rightarrow> int \<times> wlog" where "wlog_close l = (0, l)"

text \<open>\<open>write\<close> at a position: a gap is filled with zeros.\<close>

definition write_at :: "byte list \<Rightarrow> nat \<Rightarrow> byte list \<Rightarrow> byte list" where
  "write_at bs n xs = take n bs @ replicate (n - length bs) 0 @ xs @ drop (n + length xs) bs"

definition reclen_bytes :: "nat \<Rightarrow> byte list" where
  "reclen_bytes n = [word_of_int (int n div 256), word_of_int (int n mod 256)]"

definition wlog_record_write :: "wsys \<Rightarrow> junk \<Rightarrow> wlog \<Rightarrow> wlog_rec \<Rightarrow> int \<Rightarrow> (int \<times> wlog) option" where
  "wlog_record_write sys j l r offset = do {
     wbuf \<leftarrow> wlog_rec_pack j r (offset < 0);
     if offset < 0 then
       (let wbuf = wbuf @ reclen_bytes (length wbuf) in
        if \<not> write_ok sys then Some (- 1, l)
        else let l = l\<lparr>w_data := w_data l @ wbuf\<rparr> in
          if \<not> lseek_ok sys then Some (- 1 - int (length wbuf), l)
          else Some (int (length (w_data l)) - int (length wbuf), l))
     else if \<not> lseek_ok sys then Some (- 1, l)
     else if \<not> write_ok sys then Some (- 1, l)
     else Some (offset, l\<lparr>w_data := write_at (w_data l) (nat offset) wbuf\<rparr>)
   }"

section \<open>Scanning backwards\<close>

definition BUFSIZE :: nat where "BUFSIZE = 512 * 32"

text \<open>\<open>*(cp-2) * 256 + *(cp-1)\<close> at the end of \<open>seg\<close>.\<close>

definition char_val :: "bool \<Rightarrow> byte \<Rightarrow> int" where
  "char_val schar c = (if schar then sint c else uint c)"

definition rd_reclen :: "bool \<Rightarrow> byte list \<Rightarrow> int" where
  "rd_reclen schar seg = char_val schar (seg ! (length seg - 2)) * 256 + char_val schar (seg ! (length seg - 1))"

text \<open>The inner loop on \<open>seg\<close>, the bytes from \<open>bufstart\<close> to \<open>cp\<close> (\<open>avail\<close>: those to \<open>bufend\<close>).  It returns the bytes
left over.  A callback that answers \<open>False\<close> (\<open>WLOG_STOP_SCAN\<close>) leaves this loop only.\<close>

function scan_buf :: "bool \<Rightarrow> (wlog_rec \<Rightarrow> 's \<Rightarrow> bool \<times> 's) \<Rightarrow> int \<Rightarrow> nat \<Rightarrow> byte list \<Rightarrow> int \<Rightarrow> byte list \<Rightarrow> 's
    \<Rightarrow> (byte list \<times> int \<times> byte list \<times> 's) option" where
  "scan_buf schar func nrecs avail seg recnum albuf s =
    (if length seg < 2 then do { chk (2 * length seg \<le> avail); Some (seg, recnum, albuf, s) }
     else let reclen = rd_reclen schar seg in
       if int (length seg) < reclen + 2 then do {
         chk (2 * length seg \<le> avail);
         Some (seg, recnum, albuf, s)
       }
       else do {
         chk (0 \<le> reclen \<and> reclen \<le> int WLOG_REC_MAX_SIZE);
         let rest = take (length seg - (nat reclen + 2)) seg;
         let albuf = take (nat reclen) (drop (length rest) seg) @ drop (nat reclen) albuf;
         r \<leftarrow> wlog_rec_unpack albuf;
         let (cont, s) = func r s;
         if \<not> cont then Some ([], recnum, albuf, s)
         else if nrecs \<noteq> 0 \<and> recnum + 1 \<ge> nrecs then Some ([], recnum + 1, albuf, s)
         else scan_buf schar func nrecs avail rest (recnum + 1) albuf s
       })"
  by pat_completeness auto
termination
  by (relation "measure (\<lambda>(schar, func, nrecs, avail, seg, recnum, albuf, s). length seg)") auto

declare scan_buf.simps [simp del]

text \<open>The outer loop; \<open>leftover\<close> are the bytes at the end of the buffer.\<close>

partial_function (option) scan_loop :: "wsys \<Rightarrow> bool \<Rightarrow> (wlog_rec \<Rightarrow> 's \<Rightarrow> bool \<times> 's) \<Rightarrow> int \<Rightarrow> byte list \<Rightarrow> nat \<Rightarrow> byte list \<Rightarrow>
    int \<Rightarrow> byte list \<Rightarrow> 's \<Rightarrow> (int \<times> 's) option" where
  "scan_loop sys schar func nrecs bs offset leftover recnum albuf s =
    (if (nrecs = 0 \<or> recnum < nrecs) \<and> offset > 0 then
       (let (start, n) = (if offset + length leftover < BUFSIZE then (0, offset)
              else (offset - (BUFSIZE - length leftover), BUFSIZE - length leftover))
        in if \<not> lseek_ok sys \<or> \<not> read_ok sys then Some (- 1, s)
        else do {
          let seg = take n (drop start bs) @ leftover;
          (leftover, recnum, albuf, s) \<leftarrow> scan_buf schar func nrecs (length seg) seg recnum albuf s;
          scan_loop sys schar func nrecs bs start leftover recnum albuf s
        })
     else Some (0, s))"

text \<open>\<open>albuf\<close> is on the stack.\<close>

definition wlog_scan_backward :: "wsys \<Rightarrow> bool \<Rightarrow> byte list \<Rightarrow> wlog \<Rightarrow> int \<Rightarrow> (wlog_rec \<Rightarrow> 's \<Rightarrow> bool \<times> 's) \<Rightarrow> 's \<Rightarrow> (int \<times> 's) option" where
  "wlog_scan_backward sys schar albuf l nrecs func s =
    (if \<not> lseek_ok sys then Some (- 1, s)
     else do {
       chk (fits_int (int (length (w_data l))) \<and> length albuf = WLOG_REC_MAX_SIZE);
       scan_loop sys schar func nrecs (w_data l) (length (w_data l)) [] 0 albuf s
     })"

end
