(* ===== verification/WriteLogProps.thy ===== *)
theory WriteLogProps
imports WriteLog
begin

text \<open>What is written to the log is what a backward scan finds, however long the log is.\<close>

section \<open>Records on disk\<close>

lemma le32_simps [simp]: "length (le32 v) = 4" "le32 v ! 0 = word_of_int v" "le32 v ! Suc 0 = word_of_int (v div 2 ^ 8)"
  "le32 v ! 2 = word_of_int (v div 2 ^ 16)" "le32 v ! 3 = word_of_int (v div 2 ^ 24)"
  by (simp_all add: le32_def)

lemma bytes_sum: "v mod 2 ^ 8 + (v div 2 ^ 8) mod 2 ^ 8 * 2 ^ 8 + (v div 2 ^ 16) mod 2 ^ 8 * 2 ^ 16 + (v div 2 ^ 24) mod 2 ^ 8 * 2 ^ 24 =
    v mod 2 ^ 32" for v :: int
proof -
  have m: "v mod (a * b) = v mod a + (v div a) mod b * a" if "0 < a" "0 < b" for a b v :: int
    using zmod_zmult2_eq [of b v a] that by (simp add: mult.commute)
  show ?thesis using m [of "2 ^ 8" "2 ^ 8" v] m [of "2 ^ 16" "2 ^ 8" v] m [of "2 ^ 24" "2 ^ 8" v] by simp
qed

lemma rd32_le32:
  assumes "length xs = 4 * i"
  shows "rd32 (xs @ le32 v @ ys) i = v mod 2 ^ 32"
proof -
  have n: "(xs @ le32 v @ ys) ! (4 * i + k) = le32 v ! k" if "k < 4" for k
    using assms that by (simp add: nth_append)
  have b: "rd32 (xs @ le32 v @ ys) i = uint (word_of_int v :: byte) + uint (word_of_int (v div 2 ^ 8) :: byte) * 2 ^ 8 +
      uint (word_of_int (v div 2 ^ 16) :: byte) * 2 ^ 16 + uint (word_of_int (v div 2 ^ 24) :: byte) * 2 ^ 24"
    using n [of 0] n [of 1] n [of 2] n [of 3] unfolding rd32_def by (simp only: add_0_right le32_simps One_nat_def)
  have l: "LENGTH(8) = 8" by simp
  show ?thesis unfolding b uint_word_of_int take_bit_eq_mod l by (rule bytes_sum)
qed

lemma length_disk_words [simp]: "length (concat (map le32 (disk_words j r))) = DISK"
  by (simp add: disk_words_def DISK_def)

lemma rd32_disk:
  assumes "i < 7"
  shows "rd32 (concat (map le32 (disk_words j r)) @ z) i = disk_words j r ! i mod 2 ^ 32"
proof -
  let ?w = "disk_words j r"
  have l: "i < length ?w" using assms by (simp add: disk_words_def)
  have "concat (map le32 ?w) = concat (map le32 (take i ?w)) @ le32 (?w ! i) @ concat (map le32 (drop (Suc i) ?w))"
    by (subst id_take_nth_drop [OF l]) simp
  moreover have "length (concat (map le32 xs)) = 4 * length xs" for xs
    by (induction xs) simp_all
  ultimately show ?thesis using rd32_le32 [of "concat (map le32 (take i ?w))" i] l by simp
qed

text \<open>A record as the tests fill it in: names and pattern shorter than their bit fields can hold.\<close>

definition padded :: "nat \<Rightarrow> byte list \<Rightarrow> int \<Rightarrow> bool" where
  "padded cap xs n \<longleftrightarrow> length xs = cap \<and> 0 \<le> n \<and> n \<le> int cap \<and> drop (nat n) xs = replicate (cap - nat n) 0"

definition valid_rec :: "wlog_rec \<Rightarrow> bool" where
  "valid_rec r \<longleftrightarrow> 0 \<le> w_pid r \<and> w_pid r < 2 ^ 17 \<and> fits_int (w_offset r) \<and> fits_int (w_nbytes r) \<and> fits_int (w_oflags r) \<and>
     w_done r \<in> {0, 1} \<and> w_async r \<in> {0, 1} \<and>
     padded (WLOG_MAX_PATH + 1) (w_path r) (w_pathlen r) \<and> w_pathlen r < 2 ^ 7 \<and>
     padded (WLOG_MAX_HOST + 1) (w_host r) (w_hostlen r) \<and>
     padded (WLOG_MAX_PATTERN + 1) (w_pattern r) (w_patternlen r) \<and> w_patternlen r < 2 ^ 6"

lemma to_int_mod:
  assumes "fits_int v"
  shows "to_int (v mod 2 ^ 32) = v"
proof (cases "0 \<le> v")
  case False
  have "v mod 2 ^ 32 = (v + 2 ^ 32) mod 2 ^ 32" by simp
  also have "\<dots> = v + 2 ^ 32" using False assms by (intro mod_pos_pos_trivial) (simp_all add: fits_int_def INT_MIN_def)
  finally show ?thesis using False assms by (simp add: to_int_def fits_int_def INT_MIN_def)
qed (use assms in \<open>simp add: to_int_def fits_int_def INT_MAX_def\<close>)

text \<open>The bit fields of the two packed words.\<close>

lemma field_first:
  fixes a m x :: int
  assumes "0 \<le> a" "a < m"
  shows "(a + m * x) mod m = a" "(a + m * x) div m = x"
  using assms by (simp_all add: mod_pos_pos_trivial div_pos_pos_trivial)

lemma fields3:
  fixes a b c j :: int
  assumes "0 \<le> a" "a < 2 ^ k" "0 \<le> b" "b < 2 ^ l" "0 \<le> c" "c < 2 ^ n"
  shows "(a + 2 ^ k * b + 2 ^ (k + l) * c + 2 ^ (k + l + n) * j) mod 2 ^ (k + l + n + p) mod 2 ^ k = a"
    "(a + 2 ^ k * b + 2 ^ (k + l) * c + 2 ^ (k + l + n) * j) mod 2 ^ (k + l + n + p) div 2 ^ k mod 2 ^ l = b"
    "(a + 2 ^ k * b + 2 ^ (k + l) * c + 2 ^ (k + l + n) * j) mod 2 ^ (k + l + n + p) div 2 ^ (k + l) mod 2 ^ n = c"
proof -
  let ?w = "a + 2 ^ k * b + 2 ^ (k + l) * c + 2 ^ (k + l + n) * j"
  let ?x = "c + 2 ^ n * (j mod 2 ^ p)"
  have j: "2 ^ p * (j div 2 ^ p) + j mod 2 ^ p = j" by simp
  have e: "?w = (a + 2 ^ k * (b + 2 ^ l * ?x)) + 2 ^ (k + l + n + p) * (j div 2 ^ p)"
  proof -
    have "a + 2 ^ k * b + 2 ^ (k + l) * c + 2 ^ (k + l + n) * (2 ^ p * q + t) =
        (a + 2 ^ k * (b + 2 ^ l * (c + 2 ^ n * t))) + 2 ^ (k + l + n + p) * q" for q t
      by (simp add: power_add algebra_simps)
    from this [of "j div 2 ^ p" "j mod 2 ^ p"] show ?thesis unfolding j .
  qed
  have cx: "0 \<le> ?x" "?x + 1 \<le> 2 ^ (n + p)"
  proof -
    have "j mod 2 ^ p + 1 \<le> 2 ^ p" by (simp add: zless_imp_add1_zle)
    then have "2 ^ n * (j mod 2 ^ p + 1) \<le> 2 ^ n * 2 ^ p" by (rule mult_left_mono) simp
    then show "?x + 1 \<le> 2 ^ (n + p)" using assms(6) by (simp add: power_add distrib_left)
    show "0 \<le> ?x" using assms(5) by simp
  qed
  have bx: "0 \<le> b + 2 ^ l * ?x" "b + 2 ^ l * ?x + 1 \<le> 2 ^ (l + n + p)"
  proof -
    have "2 ^ l * (?x + 1) \<le> 2 ^ l * 2 ^ (n + p)" using cx(2) by (rule mult_left_mono) simp
    then show "b + 2 ^ l * ?x + 1 \<le> 2 ^ (l + n + p)" using assms(4) by (simp add: power_add distrib_left mult.assoc)
    show "0 \<le> b + 2 ^ l * ?x" using assms(3) cx(1) by simp
  qed
  have ax: "0 \<le> a + 2 ^ k * (b + 2 ^ l * ?x)" "a + 2 ^ k * (b + 2 ^ l * ?x) < 2 ^ (k + l + n + p)"
  proof -
    have "2 ^ k * (b + 2 ^ l * ?x + 1) \<le> 2 ^ k * 2 ^ (l + n + p)" using bx(2) by (rule mult_left_mono) simp
    then show "a + 2 ^ k * (b + 2 ^ l * ?x) < 2 ^ (k + l + n + p)" using assms(2) by (simp add: power_add distrib_left mult.assoc)
    show "0 \<le> a + 2 ^ k * (b + 2 ^ l * ?x)" using assms(1) bx(1) by simp
  qed
  have w: "?w mod 2 ^ (k + l + n + p) = a + 2 ^ k * (b + 2 ^ l * ?x)"
    unfolding e using ax by (simp only: mod_mult_self2 mod_pos_pos_trivial)
  have d: "(a + 2 ^ k * (b + 2 ^ l * ?x)) div 2 ^ (k + l) = ?x"
    by (simp only: power_add zdiv_zmult2_eq zero_le_power zero_le_numeral field_first [OF assms(1,2)] field_first [OF assms(3,4)])
  show "?w mod 2 ^ (k + l + n + p) mod 2 ^ k = a" "?w mod 2 ^ (k + l + n + p) div 2 ^ k mod 2 ^ l = b"
    "?w mod 2 ^ (k + l + n + p) div 2 ^ (k + l) mod 2 ^ n = c"
    unfolding w d by (simp_all only: field_first [OF assms(1,2)] field_first [OF assms(3,4)] field_first [OF assms(5,6)])
qed

text \<open>What a packed record holds, and reading it back.\<close>

definition body :: "junk \<Rightarrow> wlog_rec \<Rightarrow> byte list" where
  "body j r = concat (map le32 (disk_words j r)) @ take (nat (w_pathlen r)) (w_path r) @
     take (nat (w_hostlen r)) (w_host r) @ take (nat (w_patternlen r)) (w_pattern r)"

lemma bits_len_small: "0 \<le> n \<Longrightarrow> n < 2 ^ k \<Longrightarrow> bits_len k n = n"
  by (simp add: bits_len_def mod_pos_pos_trivial)

lemma valid_recD:
  assumes "valid_rec r"
  shows "bits_len 7 (w_pathlen r) = w_pathlen r" "bits_len 4 (w_hostlen r) = w_hostlen r"
    "bits_len 6 (w_patternlen r) = w_patternlen r" "w_done r mod 2 = w_done r" "w_async r mod 2 = w_async r"
    "0 \<le> w_pathlen r" "w_pathlen r < 128" "0 \<le> w_hostlen r" "w_hostlen r \<le> 9" "0 \<le> w_patternlen r" "w_patternlen r < 64"
    "length (w_path r) = 129" "length (w_host r) = 9" "length (w_pattern r) = 65"
  using assms by (auto simp: valid_rec_def padded_def bits_len_small WLOG_MAX_PATH_def WLOG_MAX_HOST_def WLOG_MAX_PATTERN_def)

lemma wlog_rec_pack_valid:
  assumes "valid_rec r"
  shows "wlog_rec_pack j r True = Some (body j r)"
  using valid_recD [OF assms] by (simp add: wlog_rec_pack_def body_def rd_block_def)

lemma length_body:
  assumes "valid_rec r"
  shows "length (body j r) = DISK + nat (w_pathlen r) + nat (w_hostlen r) + nat (w_patternlen r)"
    "length (body j r) \<le> 227"
  using valid_recD [OF assms] by (simp_all add: body_def DISK_def)

lemma copy_in_padded:
  assumes "padded cap xs n" "n \<le> int cap" "length pre = i"
  shows "copy_in cap (pre @ take (nat n) xs @ z) (int i) n = Some xs"
proof -
  have l: "length (take (nat n) xs) = nat n" "length xs = cap" "0 \<le> n" using assms by (auto simp: padded_def)
  have "rd_block (pre @ take (nat n) xs @ z) (int i) n = Some (take (nat n) xs)"
    using assms(3) l by (simp add: rd_block_def)
  moreover have "take (nat n) xs @ replicate (cap - nat n) 0 = xs"
    using assms(1) append_take_drop_id [of "nat n" xs] by (simp add: padded_def)
  ultimately show ?thesis using l by (simp add: copy_in_def c_simps)
qed

lemma wlog_rec_unpack_body:
  assumes "valid_rec r"
  shows "wlog_rec_unpack (body j r @ z) = Some r"
proof -
  let ?h = "concat (map le32 (disk_words j r))"
  let ?b = "body j r @ z"
  note v = valid_recD [OF assms]
  have p: "padded 129 (w_path r) (w_pathlen r)" "padded 9 (w_host r) (w_hostlen r)" "padded 65 (w_pattern r) (w_patternlen r)"
    "0 \<le> w_pid r" "w_pid r < 2 ^ 17" "fits_int (w_offset r)" "fits_int (w_nbytes r)" "fits_int (w_oflags r)"
    using assms by (simp_all add: valid_rec_def WLOG_MAX_PATH_def WLOG_MAX_HOST_def WLOG_MAX_PATTERN_def)
  have w: "rd32 ?b i = disk_words j r ! i mod 2 ^ 32" if "i < 7" for i
    using rd32_disk [OF that, of j r] by (simp add: body_def)
  have w0: "to_int (rd32 ?b 0) = w_offset r" "to_int (rd32 ?b 2) = w_nbytes r" "to_int (rd32 ?b 3) = w_oflags r"
    using p w [of 0] w [of 2] w [of 3] by (simp_all add: disk_words_def to_int_mod [simplified])
  have ex: "(17 + 7 :: nat) = 24" "(24 + 6 :: nat) = 30" "(30 + 2 :: nat) = 32"
    "(4 + 1 :: nat) = 5" "(5 + 1 :: nat) = 6" "(6 + 26 :: nat) = 32" by simp_all
  have pid: "w_pid r mod 2 ^ 17 = w_pid r" using p(4,5) by (rule mod_pos_pos_trivial)
  have d4: "disk_words j r ! 4 = w_pid r mod 2 ^ 17 + 2 ^ 17 * bits_len 7 (w_pathlen r) +
      2 ^ 24 * bits_len 6 (w_patternlen r) + 2 ^ 30 * j_word4 j" by (simp add: disk_words_def del: power_numeral)
  have d5: "disk_words j r ! 5 = bits_len 4 (w_hostlen r) + 2 ^ 4 * (w_done r mod 2) + 2 ^ 5 * (w_async r mod 2) + 2 ^ 6 * j_word5 j"
    by (simp add: disk_words_def del: power_numeral)
  have W4: "rd32 ?b 4 = (w_pid r + 2 ^ 17 * w_pathlen r + 2 ^ 24 * w_patternlen r + 2 ^ 30 * j_word4 j) mod 2 ^ 32"
    unfolding w [of 4, simplified] d4 pid v(1,3) by simp
  have W5: "rd32 ?b 5 = (w_hostlen r + 2 ^ 4 * w_done r + 2 ^ 5 * w_async r + 2 ^ 6 * j_word5 j) mod 2 ^ 32"
    unfolding w [of 5, simplified] d5 v(2,4,5) by simp
  have hl: "w_hostlen r < 2 ^ 4" "0 \<le> w_done r" "w_done r < 2 ^ 1" "0 \<le> w_async r" "w_async r < 2 ^ 1"
    "w_pathlen r < 2 ^ 7" "w_patternlen r < 2 ^ 6"
    using v assms by (auto simp: valid_rec_def)
  have w4: "rd32 ?b 4 mod 2 ^ 17 = w_pid r" "rd32 ?b 4 div 2 ^ 17 mod 2 ^ 7 = w_pathlen r"
    "rd32 ?b 4 div 2 ^ 24 mod 2 ^ 6 = w_patternlen r"
    by (simp_all only: W4 fields3 [OF p(4,5) v(6) hl(6) v(10) hl(7), where p = 2, unfolded ex])
  have w5: "rd32 ?b 5 mod 2 ^ 4 = w_hostlen r" "rd32 ?b 5 div 2 ^ 4 mod 2 = w_done r" "rd32 ?b 5 div 2 ^ 5 mod 2 = w_async r"
    by (simp_all only: W5 fields3 [OF v(8) hl(1-5), where p = 26, unfolded ex power_one_right])
  have c1: "copy_in 129 ?b (int DISK) (w_pathlen r) = Some (w_path r)"
    unfolding body_def append_assoc by (rule copy_in_padded [OF p(1)]) (use v in simp_all)
  have c2: "copy_in 9 ?b (int DISK + w_pathlen r) (w_hostlen r) = Some (w_host r)"
    using copy_in_padded [OF p(2), of "?h @ take (nat (w_pathlen r)) (w_path r)" "DISK + nat (w_pathlen r)"] v
    by (simp add: body_def)
  have c3: "copy_in 65 ?b (int DISK + w_pathlen r + w_hostlen r) (w_patternlen r) = Some (w_pattern r)"
    using copy_in_padded [OF p(3), of "?h @ take (nat (w_pathlen r)) (w_path r) @ take (nat (w_hostlen r)) (w_host r)"
        "DISK + nat (w_pathlen r) + nat (w_hostlen r)"] v
    by (simp add: body_def)
  show ?thesis
    unfolding wlog_rec_unpack_def Let_def w0 w4 w5 by (simp add: WLOG_MAX_PATH_def WLOG_MAX_HOST_def WLOG_MAX_PATTERN_def c1 c2 c3)
qed

section \<open>The log\<close>

definition disk :: "junk \<times> wlog_rec \<Rightarrow> byte list" where
  "disk x = body (fst x) (snd x) @ reclen_bytes (length (body (fst x) (snd x)))"

definition whole :: "(junk \<times> wlog_rec) list \<Rightarrow> byte list" where
  "whole xs = concat (map disk xs)"

lemma whole_simps [simp]: "whole [] = []" "whole (xs @ ys) = whole xs @ whole ys" "whole (x # xs) = disk x @ whole xs"
  by (simp_all add: whole_def)

lemma length_disk: "length (disk x) = length (body (fst x) (snd x)) + 2"
  by (simp add: disk_def reclen_bytes_def)

definition all_ok :: "wsys \<Rightarrow> bool" where
  "all_ok sys \<longleftrightarrow> write_ok sys \<and> lseek_ok sys \<and> read_ok sys"

lemma record_write_append:
  assumes "all_ok sys" "valid_rec r"
  shows "wlog_record_write sys j l r (- 1) = Some (int (length (w_data l)), l\<lparr>w_data := w_data l @ disk (j, r)\<rparr>)"
  using assms by (simp add: wlog_record_write_def wlog_rec_pack_valid all_ok_def disk_def reclen_bytes_def Let_def)

text \<open>A history of appended records.\<close>

fun log_all :: "wsys \<Rightarrow> (junk \<times> wlog_rec) list \<Rightarrow> wlog \<Rightarrow> wlog option" where
  "log_all sys [] l = Some l"
| "log_all sys ((j, r) # xs) l = do { (offset, l) \<leftarrow> wlog_record_write sys j l r (- 1); log_all sys xs l }"

lemma log_all_whole:
  assumes "all_ok sys" "\<forall>x \<in> set xs. valid_rec (snd x)"
  shows "log_all sys xs l = Some (l\<lparr>w_data := w_data l @ whole xs\<rparr>)"
  using assms(2)
proof (induction xs arbitrary: l)
  case (Cons x xs)
  then show ?case by (cases x) (simp add: record_write_append [OF assms(1)])
qed simp

section \<open>One buffer\<close>

lemma rd_reclen_end:
  assumes "n < 65536"
  shows "rd_reclen False (xs @ reclen_bytes n) = int n"
proof -
  have "int n div 256 < 256" using assms by simp
  then have "uint (word_of_int (int n div 256) :: byte) = int n div 256"
    by (simp add: uint_word_of_int take_bit_eq_mod mod_pos_pos_trivial)
  moreover have "uint (word_of_int (int n mod 256) :: byte) = int n mod 256"
    by (simp add: uint_word_of_int take_bit_eq_mod)
  ultimately show ?thesis
    by (simp add: rd_reclen_def char_val_def reclen_bytes_def nth_append)
qed

text \<open>A buffer that holds the log from position \<open>k\<close> on: all records that are complete in it are passed to the
callback, last first, up to the limit; what is left is the part of the next one.\<close>

definition under :: "int \<Rightarrow> int \<Rightarrow> bool" where "under nrecs n \<longleftrightarrow> nrecs = 0 \<or> n < nrecs"

definition handed :: "(wlog_rec \<Rightarrow> 's \<Rightarrow> 's) \<Rightarrow> (junk \<times> wlog_rec) list \<Rightarrow> 's \<Rightarrow> 's" where
  "handed g xs s = fold g (map snd (rev xs)) s"

lemma handed_append [simp]: "handed g (xs @ ys) s = handed g xs (handed g ys s)"
  by (simp add: handed_def)

lemma handed_simps [simp]: "handed g [] s = s" "handed g [x] s = g (snd x) s"
  by (simp_all add: handed_def)

lemma scan_buf_partial:
  assumes "valid_rec (snd x)" "seg = drop i (disk x)" "0 < i" "458 \<le> avail"
  shows "scan_buf False func nrecs avail seg n albuf s = Some (seg, n, albuf, s)"
proof (cases "length seg < 2")
  case False
  let ?b = "body (fst x) (snd x)"
  have l: "length ?b \<le> 227" using length_body(2) [OF assms(1)] .
  have i: "i \<le> length ?b" using False assms(2) by (simp add: length_disk)
  then have "seg = drop i ?b @ reclen_bytes (length ?b)" using assms(2) by (simp add: disk_def)
  then have "rd_reclen False seg = int (length ?b)" using rd_reclen_end [of "length ?b"] l by simp
  moreover have "length seg < length ?b + 2" using i assms(2,3) by (simp add: length_disk)
  ultimately show ?thesis using False l assms(4) by (subst scan_buf.simps) (simp add: c_simps)
qed (use assms(4) in \<open>subst scan_buf.simps, simp add: c_simps\<close>)

lemma scan_buf_step:
  assumes "valid_rec (snd x)" "seg = rest @ disk x" "length albuf = WLOG_REC_MAX_SIZE"
  obtains al where "length al = WLOG_REC_MAX_SIZE" "scan_buf False (\<lambda>r s. (True, g r s)) nrecs avail seg n albuf s =
    (if nrecs \<noteq> 0 \<and> n + 1 \<ge> nrecs then Some ([], n + 1, al, g (snd x) s)
     else scan_buf False (\<lambda>r s. (True, g r s)) nrecs avail rest (n + 1) al (g (snd x) s))"
proof -
  let ?b = "body (fst x) (snd x)"
  have l: "length ?b \<le> 227" using length_body(2) [OF assms(1)] .
  have r: "rd_reclen False seg = int (length ?b)"
    using rd_reclen_end [of "length ?b" "rest @ ?b"] l assms(2) by (simp add: disk_def)
  let ?al = "?b @ drop (length ?b) albuf"
  have al: "length ?al = WLOG_REC_MAX_SIZE" using assms(3) l by (simp add: WLOG_REC_MAX_SIZE_def)
  have len: "length seg = length rest + (length ?b + 2)" using assms(2) by (simp add: length_disk)
  have "take (length ?b) (drop (length rest) seg) = ?b" using assms(2) by (simp add: disk_def)
  then have "scan_buf False (\<lambda>r s. (True, g r s)) nrecs avail seg n albuf s =
    (if nrecs \<noteq> 0 \<and> n + 1 \<ge> nrecs then Some ([], n + 1, ?al, g (snd x) s)
     else scan_buf False (\<lambda>r s. (True, g r s)) nrecs avail rest (n + 1) ?al (g (snd x) s))"
    using l len r assms(2) wlog_rec_unpack_body [OF assms(1)]
    by (subst scan_buf.simps) (simp add: c_simps WLOG_REC_MAX_SIZE_def WLOG_MAX_PATH_def)
  with al show ?thesis using that by blast
qed

lemma scan_buf_whole:
  assumes "\<forall>x \<in> set xs. valid_rec (snd x)" "k \<le> length (whole xs)" "k = 0 \<or> 458 \<le> avail"
    "length albuf = WLOG_REC_MAX_SIZE" "under nrecs n"
  shows "\<exists>a b lo al. xs = a @ b \<and> k \<le> length (whole a) \<and> length al = WLOG_REC_MAX_SIZE \<and>
    scan_buf False (\<lambda>r s. (True, g r s)) nrecs avail (drop k (whole xs)) n albuf s =
      Some (lo, n + int (length b), al, handed g b s) \<and>
    (if under nrecs (n + int (length b)) then lo = drop k (whole a) \<and> length lo < 229 \<and> (k = 0 \<longrightarrow> a = [])
     else nrecs = n + int (length b))"
  using assms
proof (induction xs arbitrary: n albuf s rule: rev_induct)
  case Nil
  then show ?case
    by (intro exI [of _ "[]"] exI [of _ albuf]) (simp add: scan_buf.simps c_simps)
next
  case (snoc x xs)
  have x: "valid_rec (snd x)" "length (disk x) \<le> 229"
    using snoc.prems(1) length_body(2) [of "snd x" "fst x"] by (simp_all add: length_disk)
  show ?case
  proof (cases "k \<le> length (whole xs)")
    case False
    then have d: "drop k (whole (xs @ [x])) = drop (k - length (whole xs)) (disk x)" "0 < k - length (whole xs)" by simp_all
    have lo: "length (drop (k - length (whole xs)) (disk x)) < 229" using d(2) x(2) by (simp add: length_disk)
    show ?thesis
      unfolding d(1) using scan_buf_partial [OF x(1) refl d(2), of avail] False snoc.prems lo d(1)
      by (intro exI [of _ "xs @ [x]"] exI [of _ "[]"] exI [of _ "drop (k - length (whole xs)) (disk x)"] exI [of _ albuf]) auto
  next
    case True
    then have d: "drop k (whole (xs @ [x])) = drop k (whole xs) @ disk x" by simp
    obtain al where al: "length al = WLOG_REC_MAX_SIZE"
      "scan_buf False (\<lambda>r s. (True, g r s)) nrecs avail (drop k (whole (xs @ [x]))) n albuf s =
        (if nrecs \<noteq> 0 \<and> n + 1 \<ge> nrecs then Some ([], n + 1, al, g (snd x) s)
         else scan_buf False (\<lambda>r s. (True, g r s)) nrecs avail (drop k (whole xs)) (n + 1) al (g (snd x) s))"
      using scan_buf_step [OF x(1) d snoc.prems(4), of g nrecs avail n s] by blast
    show ?thesis
    proof (cases "under nrecs (n + 1)")
      case False
      then show ?thesis using al True snoc.prems(5)
        by (intro exI [of _ xs] exI [of _ "[x]"] exI [of _ "[]"] exI [of _ al]) (auto simp: under_def)
    next
      case u: True
      obtain a b lo al' where ih: "xs = a @ b" "k \<le> length (whole a)" "length al' = WLOG_REC_MAX_SIZE"
        "scan_buf False (\<lambda>r s. (True, g r s)) nrecs avail (drop k (whole xs)) (n + 1) al (g (snd x) s) =
          Some (lo, n + 1 + int (length b), al', handed g b (g (snd x) s))"
        "if under nrecs (n + 1 + int (length b)) then lo = drop k (whole a) \<and> length lo < 229 \<and> (k = 0 \<longrightarrow> a = [])
         else nrecs = n + 1 + int (length b)"
        using snoc.IH [OF _ True snoc.prems(3) al(1) u, of "g (snd x) s"] snoc.prems(1) by auto
      have e: "scan_buf False (\<lambda>r s. (True, g r s)) nrecs avail (drop k (whole (xs @ [x]))) n albuf s =
          Some (lo, n + int (length (b @ [x])), al', handed g (b @ [x]) s)"
      proof -
        have "\<not> (nrecs \<noteq> 0 \<and> n + 1 \<ge> nrecs)" using u by (auto simp: under_def)
        then show ?thesis unfolding al(2) using ih(4) by (simp only: if_not_P) (simp add: add.assoc)
      qed
      have l: "n + 1 + int (length b) = n + int (length (b @ [x]))" by simp
      show ?thesis
        by (rule exI [of _ a], rule exI [of _ "b @ [x]"], rule exI [of _ lo], rule exI [of _ al'])
          (use e ih(1-3,5)[unfolded l] in simp)
    qed
  qed
qed

section \<open>All buffers\<close>

text \<open>The records that a scan for \<open>nrecs\<close> of them still has to deliver after \<open>n\<close>, last first.\<close>

definition due :: "int \<Rightarrow> int \<Rightarrow> 'a list \<Rightarrow> 'a list" where
  "due nrecs n xs = (if nrecs = 0 then rev xs else take (nat (nrecs - n)) (rev xs))"

lemma due_append:
  "under nrecs (n + int (length b)) \<or> nrecs = n + int (length b) \<Longrightarrow> due nrecs n (a @ b) = rev b @ due nrecs (n + int (length b)) a"
proof -
  assume "under nrecs (n + int (length b)) \<or> nrecs = n + int (length b)"
  then have "nrecs \<noteq> 0 \<Longrightarrow> length b \<le> nat (nrecs - n)" by (auto simp: under_def)
  moreover have "nat (nrecs - n) - length b = nat (nrecs - (n + int (length b)))" by arith
  ultimately show ?thesis by (simp add: due_def)
qed

lemma scan_loop_end:
  assumes "\<not> under nrecs n \<or> offset = 0"
  shows "scan_loop sys schar func nrecs bs offset leftover n albuf s = Some (0, s)"
proof -
  have "\<not> ((nrecs = 0 \<or> n < nrecs) \<and> offset > 0)" using assms by (auto simp: under_def)
  then show ?thesis by (subst scan_loop.simps) (simp only: if_False)
qed

lemma take_drop_part: "start + n = offset \<Longrightarrow> offset \<le> length ys \<Longrightarrow> take n (drop start (ys @ t)) @ drop offset ys = drop start ys"
proof -
  assume a: "start + n = offset" "offset \<le> length ys"
  then have "take n (drop start (ys @ t)) = take n (drop start ys)" by simp
  moreover have "drop offset ys = drop n (drop start ys)" using a by (simp add: add.commute)
  ultimately show ?thesis by (simp only: append_take_drop_id)
qed

lemma scan_loop_whole:
  assumes "all_ok sys" "\<forall>x \<in> set xs. valid_rec (snd x)" "bs = whole xs @ t" "offset \<le> length (whole xs)"
    "leftover = drop offset (whole xs)" "length leftover < 229" "length albuf = WLOG_REC_MAX_SIZE"
    "under nrecs n \<or> nrecs = n" "offset = 0 \<Longrightarrow> under nrecs n \<Longrightarrow> xs = []"
  shows "scan_loop sys False (\<lambda>r s. (True, g r s)) nrecs bs offset leftover n albuf s =
    Some (0, fold g (map snd (due nrecs n xs)) s)"
  using assms(2-)
proof (induction offset arbitrary: xs t leftover n albuf s rule: less_induct)
  case (less offset)
  show ?case
  proof (cases "under nrecs n \<and> offset > 0")
    case False
    then have "due nrecs n xs = []" using less.prems(7,8) by (auto simp: due_def under_def)
    with False show ?thesis by (subst scan_loop_end) auto
  next
    case True
    obtain start len where sl: "(if offset + length leftover < BUFSIZE then (0, offset)
        else (offset - (BUFSIZE - length leftover), BUFSIZE - length leftover)) = (start, len)" by fastforce
    then have st: "start + len = offset" "start < offset" "start \<le> length (whole xs)"
      using less.prems(3,5) True by (auto simp: BUFSIZE_def split: if_splits)
    have seg: "take len (drop start bs) @ leftover = drop start (whole xs)"
      unfolding less.prems(2,4) by (rule take_drop_part [OF st(1) less.prems(3)])
    have big: "start = 0 \<or> 458 \<le> length (drop start (whole xs))"
      using sl less.prems(3,4) True by (auto simp: BUFSIZE_def split: if_splits)
    obtain a b lo al where sb: "xs = a @ b" "start \<le> length (whole a)" "length al = WLOG_REC_MAX_SIZE"
      "scan_buf False (\<lambda>r s. (True, g r s)) nrecs (length (drop start (whole xs))) (drop start (whole xs)) n albuf s =
        Some (lo, n + int (length b), al, handed g b s)"
      "if under nrecs (n + int (length b)) then lo = drop start (whole a) \<and> length lo < 229 \<and> (start = 0 \<longrightarrow> a = [])
       else nrecs = n + int (length b)"
      using scan_buf_whole [OF less.prems(1) st(3) big less.prems(6), of nrecs n g s] True by blast
    have eq: "scan_loop sys False (\<lambda>r s. (True, g r s)) nrecs bs offset leftover n albuf s =
        scan_loop sys False (\<lambda>r s. (True, g r s)) nrecs bs start lo (n + int (length b)) al (handed g b s)"
    proof -
      have c: "(nrecs = 0 \<or> n < nrecs) \<and> 0 < offset" "lseek_ok sys" "read_ok sys"
        using True assms(1) by (simp_all add: under_def all_ok_def)
      show ?thesis by (subst scan_loop.simps) (simp only: c sl Let_def prod.case seg sb(4) bind.bind_lunit if_True simp_thms if_False)
    qed
    have d: "due nrecs n xs = rev b @ due nrecs (n + int (length b)) a"
      unfolding sb(1) by (rule due_append) (use sb(5) in \<open>auto split: if_splits\<close>)
    show ?thesis
    proof (cases "under nrecs (n + int (length b))")
      case False
      then have "due nrecs (n + int (length b)) a = []" using sb(5) by (simp add: due_def under_def)
      then show ?thesis using False d by (simp add: eq scan_loop_end handed_def)
    next
      case u: True
      have "scan_loop sys False (\<lambda>r s. (True, g r s)) nrecs bs start lo (n + int (length b)) al (handed g b s) =
          Some (0, fold g (map snd (due nrecs (n + int (length b)) a)) (handed g b s))"
        by (rule less.IH [OF st(2), of a "whole b @ t"]) (use less.prems(1,2) sb u in auto)
      then show ?thesis by (simp add: eq d handed_def)
    qed
  qed
qed

section \<open>What a scan finds\<close>

definition collect :: "wlog_rec \<Rightarrow> wlog_rec list \<Rightarrow> bool \<times> wlog_rec list" where
  "collect r s = (True, s @ [r])"

lemma fold_collect: "fold (\<lambda>r s. s @ [r]) ys zs = zs @ ys"
  by (induction ys arbitrary: zs) simp_all

lemma whole_empty: "whole xs = [] \<Longrightarrow> xs = []"
  by (cases xs) (simp_all add: disk_def reclen_bytes_def)

lemma scan_whole:
  assumes "all_ok sys" "\<forall>x \<in> set xs. valid_rec (snd x)" "w_data l = whole xs" "int (length (w_data l)) \<le> INT_MAX"
    "length albuf = WLOG_REC_MAX_SIZE" "0 \<le> nrecs"
  shows "wlog_scan_backward sys False albuf l nrecs collect [] = Some (0, map snd (due nrecs 0 xs))"
proof -
  have "scan_loop sys False (\<lambda>r s. (True, s @ [r])) nrecs (w_data l) (length (w_data l)) [] 0 albuf [] =
      Some (0, fold (\<lambda>r s. s @ [r]) (map snd (due nrecs 0 xs)) [])"
    by (rule scan_loop_whole [OF assms(1,2), of _ "[]"]) (use assms whole_empty in \<open>auto simp: under_def\<close>)
  moreover have "collect = (\<lambda>r s. (True, s @ [r]))" by (simp add: fun_eq_iff collect_def)
  moreover have "lseek_ok sys" using assms(1) by (simp add: all_ok_def)
  ultimately show ?thesis using assms(4,5)
    by (simp add: wlog_scan_backward_def c_simps fits_int_def INT_MIN_def fold_collect)
qed

text \<open>C7: a backward scan of a log finds the records that were appended to it, the last one first, all of them or as
many as it is asked for, with every field as it was written, however long the log is (records that straddle the
16384-byte buffer included).\<close>

theorem scan_finds_written:
  assumes "all_ok sys" "\<forall>x \<in> set xs. valid_rec (snd x)" "log_all sys xs l = Some l'" "w_data l = []"
    "int (length (w_data l')) \<le> INT_MAX" "length albuf = WLOG_REC_MAX_SIZE" "0 \<le> nrecs"
  shows "wlog_scan_backward sys False albuf l' nrecs collect [] =
    Some (0, let rs = rev (map snd xs) in if nrecs = 0 then rs else take (nat nrecs) rs)"
proof -
  have "w_data l' = whole xs" using log_all_whole [OF assms(1,2), of l] assms(3,4) by simp
  from scan_whole [OF assms(1,2) this assms(5-7)] show ?thesis
    by (simp add: due_def rev_map take_map)
qed

text \<open>A write of three bytes to the file \<open>f\<close> by process 7, first outstanding.\<close>

definition sample_rec :: wlog_rec where
  "sample_rec = \<lparr>w_pid = 7, w_offset = - 1, w_nbytes = 3, w_oflags = 2, w_done = 0, w_async = 1,
     w_host = replicate 9 0, w_hostlen = 0, w_path = 102 # replicate 128 0, w_pathlen = 1,
     w_pattern = [1, 2] @ replicate 63 0, w_patternlen = 2\<rparr>"

definition good_sys :: wsys where
  "good_sys = \<lparr>sys_afd = 3, sys_rfd = 4, write_ok = True, lseek_ok = True, read_ok = True\<rparr>"

definition no_junk :: junk where "no_junk = \<lparr>j_extra0 = 0, j_word4 = 0, j_word5 = 0, j_word6 = 0\<rparr>"

lemma sample_valid: "valid_rec sample_rec" "valid_rec (sample_rec\<lparr>w_done := 1\<rparr>)"
  by (simp_all add: valid_rec_def sample_rec_def padded_def fits_int_def INT_MIN_def INT_MAX_def WLOG_MAX_PATH_def
      WLOG_MAX_HOST_def WLOG_MAX_PATTERN_def)

lemma good_sys_ok: "all_ok good_sys"
  by (simp add: all_ok_def good_sys_def)

definition log0 :: wlog where "log0 = \<lparr>w_afd = 3, w_rfd = 4, w_data = []\<rparr>"

lemma sample_log_short:
  assumes "\<forall>x \<in> set xs. valid_rec (snd x)"
  shows "length (whole xs) \<le> 229 * length xs"
proof -
  have "length (disk x) \<le> 229" if "x \<in> set xs" for x
    using length_body(2) [of "snd x" "fst x"] assms that by (auto simp: length_disk)
  then show ?thesis by (induction xs) fastforce+
qed

lemma scan_finds_written_witness:
  "\<exists>l'. log_all good_sys [(no_junk, sample_rec), (no_junk, sample_rec\<lparr>w_done := 1\<rparr>)] log0 = Some l' \<and>
    wlog_scan_backward good_sys False (replicate WLOG_REC_MAX_SIZE 0) l' 1 collect [] = Some (0, [sample_rec\<lparr>w_done := 1\<rparr>])"
proof -
  let ?xs = "[(no_junk, sample_rec), (no_junk, sample_rec\<lparr>w_done := 1\<rparr>)]"
  have v: "\<forall>x \<in> set ?xs. valid_rec (snd x)" using sample_valid by simp
  let ?l = "log0\<lparr>w_data := w_data log0 @ whole ?xs\<rparr>"
  have l: "log_all good_sys ?xs log0 = Some ?l" by (rule log_all_whole [OF good_sys_ok v])
  have "int (length (w_data ?l)) \<le> INT_MAX" using sample_log_short [OF v] by (simp add: log0_def INT_MAX_def)
  from scan_finds_written [OF good_sys_ok v l _ this, of "replicate WLOG_REC_MAX_SIZE 0" 1] l
  show ?thesis by (auto simp: log0_def)
qed

section \<open>Marking a write as done\<close>

lemma write_at_middle: "length xs = n \<Longrightarrow> length ys = length ys' \<Longrightarrow> write_at (xs @ ys @ zs) n ys' = xs @ ys' @ zs"
  by (simp add: write_at_def)

text \<open>C28: rewriting a record with its \<open>w_done\<close> bit changed, at the offset that appending it returned, changes this
record and no other: a later scan finds it in its place with the new bit.\<close>

theorem done_update:
  assumes "all_ok sys" "\<forall>x \<in> set (xs @ (j, r) # ys). valid_rec (snd x)" "d \<in> {0, 1}" "w_data l = []"
    "log_all sys xs l = Some l1" "wlog_record_write sys j l1 r (- 1) = Some (offset, l2)" "log_all sys ys l2 = Some l3"
    "int (length (w_data l3)) \<le> INT_MAX" "length albuf = WLOG_REC_MAX_SIZE"
  shows "\<exists>l4. wlog_record_write sys j' l3 (r\<lparr>w_done := d\<rparr>) offset = Some (offset, l4) \<and>
    wlog_scan_backward sys False albuf l4 0 collect [] = Some (0, rev (map snd xs @ r\<lparr>w_done := d\<rparr> # map snd ys))"
proof -
  let ?r = "r\<lparr>w_done := d\<rparr>"
  have v: "valid_rec r" "valid_rec ?r" using assms(2,3) by (auto simp: valid_rec_def)
  have d1: "w_data l1 = whole xs" using log_all_whole [OF assms(1), of xs l] assms(2,4,5) by auto
  have d2: "offset = int (length (whole xs))" "w_data l2 = whole xs @ disk (j, r)"
    using record_write_append [OF assms(1) v(1), of j l1] assms(6) d1 by auto
  have d3: "w_data l3 = whole xs @ disk (j, r) @ whole ys" using log_all_whole [OF assms(1), of ys l2] assms(2,7) d2 by auto
  let ?h = "concat (map le32 (disk_words j r))" and ?h' = "concat (map le32 (disk_words j' ?r))"
  obtain tl where h: "disk (j, r) = ?h @ tl" "disk (j', ?r) = ?h' @ tl"
    using length_body(1) [OF v(1), of j] length_body(1) [OF v(2), of j'] by (simp add: disk_def body_def)
  let ?l4 = "l3\<lparr>w_data := whole (xs @ (j', ?r) # ys)\<rparr>"
  have "write_at (whole xs @ disk (j, r) @ whole ys) (length (whole xs)) ?h' = whole (xs @ (j', ?r) # ys)"
    using write_at_middle [of "whole xs" _ ?h ?h' "tl @ whole ys"] h by simp
  then have w: "wlog_record_write sys j' l3 ?r offset = Some (offset, ?l4)"
    using assms(1) d2(1) d3 by (simp add: wlog_record_write_def wlog_rec_pack_def all_ok_def Let_def)
  have len: "length (w_data ?l4) = length (w_data l3)"
    using d3 h by simp
  have "wlog_scan_backward sys False albuf ?l4 0 collect [] = Some (0, map snd (due 0 0 (xs @ (j', ?r) # ys)))"
    by (rule scan_whole [OF assms(1)]) (use assms(2,8,9) v(2) len in auto)
  then show ?thesis using w by (intro exI [of _ ?l4] conjI) (simp_all add: due_def rev_map)
qed

lemma done_update_witness:
  "\<exists>l4. wlog_record_write good_sys no_junk (log0\<lparr>w_data := whole [(no_junk, sample_rec)]\<rparr>) (sample_rec\<lparr>w_done := 1\<rparr>) 0 = Some (0, l4) \<and>
    wlog_scan_backward good_sys False (replicate WLOG_REC_MAX_SIZE 0) l4 0 collect [] = Some (0, [sample_rec\<lparr>w_done := 1\<rparr>])"
proof -
  let ?l = "log0\<lparr>w_data := whole [(no_junk, sample_rec)]\<rparr>"
  have v: "\<forall>x \<in> set ([] @ (no_junk, sample_rec) # []). valid_rec (snd x)" using sample_valid by simp
  have w: "wlog_record_write good_sys no_junk log0 sample_rec (- 1) = Some (0, ?l)"
    using record_write_append [OF good_sys_ok sample_valid(1), of no_junk log0] by (simp add: log0_def)
  have "int (length (w_data ?l)) \<le> INT_MAX"
    using sample_log_short [of "[(no_junk, sample_rec)]"] sample_valid by (simp add: INT_MAX_def)
  from done_update [OF good_sys_ok v, of 1 log0 log0 0 ?l ?l "replicate WLOG_REC_MAX_SIZE 0" no_junk] w this
  show ?thesis by (simp add: log0_def)
qed

section \<open>What does not fit\<close>

text \<open>A path of \<open>WLOG_MAX_PATH\<close> or a pattern of \<open>WLOG_MAX_PATTERN\<close> bytes is recorded as none: the bit fields
of their lengths hold one bit less than they have to.\<close>

theorem longest_names_lost:
  "wlog_rec_pack j (r\<lparr>w_pathlen := int WLOG_MAX_PATH\<rparr>) flag = wlog_rec_pack j (r\<lparr>w_pathlen := 0\<rparr>) flag \<and>
   wlog_rec_pack j (r\<lparr>w_patternlen := int WLOG_MAX_PATTERN\<rparr>) flag = wlog_rec_pack j (r\<lparr>w_patternlen := 0\<rparr>) flag"
proof -
  have b: "bits_len 7 (int WLOG_MAX_PATH) = bits_len 7 0" "bits_len 6 (int WLOG_MAX_PATTERN) = bits_len 6 0"
    by (simp_all add: bits_len_def WLOG_MAX_PATH_def WLOG_MAX_PATTERN_def)
  then have "disk_words j (r\<lparr>w_pathlen := int WLOG_MAX_PATH\<rparr>) = disk_words j (r\<lparr>w_pathlen := 0\<rparr>)"
    "disk_words j (r\<lparr>w_patternlen := int WLOG_MAX_PATTERN\<rparr>) = disk_words j (r\<lparr>w_patternlen := 0\<rparr>)"
    by (simp_all add: disk_words_def)
  with b show ?thesis by (simp add: wlog_rec_pack_def Let_def)
qed

lemma sint_byte_neg:
  assumes "128 \<le> n" "n < 256"
  shows "sint (word_of_int n :: byte) = n - 256"
proof -
  have "(n + 128) mod 256 = (n - 128 + 256) mod 256" by (simp add: add.commute)
  also have "\<dots> = n - 128" unfolding mod_add_self2 using assms by (intro mod_pos_pos_trivial) auto
  finally show ?thesis by (simp add: int_word_sint)
qed

text \<open>Where \<open>char\<close> is signed, a scan of a log whose last record has 128 bytes or more copies a negative number of
bytes, which has no defined behaviour.\<close>

theorem signed_char_scan:
  assumes "all_ok sys" "\<forall>x \<in> set (xs @ [(j, r)]). valid_rec (snd x)" "100 \<le> w_pathlen r + w_hostlen r + w_patternlen r"
    "log_all sys (xs @ [(j, r)]) l = Some l'" "w_data l = []" "0 \<le> nrecs"
  shows "wlog_scan_backward sys True albuf l' nrecs func s = None"
proof -
  let ?b = "body j r"
  have v: "valid_rec r" using assms(2) by simp
  have b: "128 \<le> length ?b" "length ?b \<le> 227"
    using length_body [OF v, of j] valid_recD(6,8,10) [OF v] assms(3) unfolding DISK_def by linarith+
  have d: "w_data l' = whole xs @ disk (j, r)" using log_all_whole [OF assms(1,2), of l] assms(4,5) by simp
  have lo: "sint (word_of_int (int (length ?b)) :: byte) = int (length ?b) - 256"
    by (rule sint_byte_neg) (use b in simp_all)
  have neg: "rd_reclen True (ys @ disk (j, r)) = int (length ?b) - 256" for ys
    using b lo by (simp add: rd_reclen_def char_val_def disk_def reclen_bytes_def nth_append)
  have sb: "scan_buf True func nrecs avail (ys @ disk (j, r)) n al t = None" for ys avail n al t
    using b neg by (subst scan_buf.simps) (simp add: length_disk c_simps)
  let ?n = "length (w_data l')"
  have n: "0 < ?n" using d by (simp add: disk_def reclen_bytes_def)
  obtain start len where sl: "(if ?n + length ([] :: byte list) < BUFSIZE then (0, ?n) else (?n - (BUFSIZE - length ([] :: byte list)), BUFSIZE - length ([] :: byte list))) = (start, len)"
    by fastforce
  then have "start + len = ?n" "start \<le> length (whole xs)"
    using d b by (auto simp: BUFSIZE_def length_disk split: if_splits)
  then have seg: "take len (drop start (w_data l')) @ [] = drop start (whole xs) @ disk (j, r)"
    using d by simp
  have "scan_loop sys True func nrecs (w_data l') ?n [] 0 albuf s = None"
  proof -
    have c: "(nrecs = 0 \<or> 0 < nrecs) \<and> 0 < ?n" "lseek_ok sys" "read_ok sys"
      using n assms(1,6) by (simp_all add: all_ok_def) linarith
    show ?thesis by (subst scan_loop.simps) (simp only: c sl Let_def prod.case seg sb if_True simp_thms if_False, simp)
  qed
  then show ?thesis using assms(1) by (simp add: wlog_scan_backward_def all_ok_def c_simps)
qed

lemma signed_char_scan_witness:
  "wlog_scan_backward good_sys True (replicate WLOG_REC_MAX_SIZE 0)
     (log0\<lparr>w_data := whole [(no_junk, sample_rec\<lparr>w_pathlen := 127\<rparr>)]\<rparr>) 0 collect [] = None"
proof -
  have v: "\<forall>x \<in> set ([] @ [(no_junk, sample_rec\<lparr>w_pathlen := 127\<rparr>)]). valid_rec (snd x)"
    using sample_valid(1) by (simp add: valid_rec_def sample_rec_def padded_def WLOG_MAX_PATH_def)
  show ?thesis
    by (rule signed_char_scan [OF good_sys_ok v, of log0]) (use log_all_whole [OF good_sys_ok v, of log0] in \<open>simp_all add: sample_rec_def log0_def\<close>)
qed

end
