(* ===== verification/Tlibio.thy ===== *)
theory Tlibio
imports CString RandomRange
begin

unbundle bit_operations_syntax

text \<open>\<open>ltp_framework/lib/tlibio.c\<close> as it is built for Linux: one read and one write function for all kinds of I/O.

The kernel is a parameter (record \<open>lsys\<close> over a world): the calls on the one descriptor \<open>fd\<close> that a call of the library
is about, each with its result, \<open>Inl errno\<close> or \<open>Inr n\<close>.  The texts in \<open>Errormsg\<close> are kept as their kind and fields;
debug output is not modelled (the level is).  \<open>long\<close> and \<open>int\<close> have 32 bits.\<close>

section \<open>Methods\<close>

type_synonym mword = "32 word"

definition LIO_IO_SYNC :: mword where "LIO_IO_SYNC = 0x1"
definition LIO_IO_ASYNC :: mword where "LIO_IO_ASYNC = 0x2"
definition LIO_IO_SLISTIO :: mword where "LIO_IO_SLISTIO = 0x4"
definition LIO_IO_ALISTIO :: mword where "LIO_IO_ALISTIO = 0x8"
definition LIO_IO_SYNCV :: mword where "LIO_IO_SYNCV = 0x10"
definition LIO_IO_SYNCP :: mword where "LIO_IO_SYNCP = 0x20"
definition LIO_IO_TYPES :: mword where "LIO_IO_TYPES = 0x31"
definition LIO_IO_ATYPES :: mword where "LIO_IO_ATYPES = 0x3F"
definition LIO_WAIT_NONE :: mword where "LIO_WAIT_NONE = 0x1000"
definition LIO_WAIT_ACTIVE :: mword where "LIO_WAIT_ACTIVE = 0x2000"
definition LIO_WAIT_RECALL :: mword where "LIO_WAIT_RECALL = 0x4000"
definition LIO_WAIT_SIGPAUSE :: mword where "LIO_WAIT_SIGPAUSE = 0x8000"
definition LIO_WAIT_SIGACTIVE :: mword where "LIO_WAIT_SIGACTIVE = 0x10000"
definition LIO_WAIT_CBSUSPEND :: mword where "LIO_WAIT_CBSUSPEND = 0x20000"
definition LIO_WAIT_SIGSUSPEND :: mword where "LIO_WAIT_SIGSUSPEND = 0x40000"
definition LIO_WAIT_ATYPES :: mword where "LIO_WAIT_ATYPES = 0x7E000"
definition LIO_WAIT_TYPES :: mword where "LIO_WAIT_TYPES = 0x2000"
definition LIO_WAIT_CBTYPES :: mword where "LIO_WAIT_CBTYPES = LIO_WAIT_CBSUSPEND"
definition LIO_WAIT_SIGTYPES :: mword where
  "LIO_WAIT_SIGTYPES = (LIO_WAIT_SIGPAUSE OR LIO_WAIT_SIGACTIVE OR LIO_WAIT_SIGSUSPEND)"
definition LIO_RANDOM :: mword where "LIO_RANDOM = 0x200000"
definition LIO_USE_SIGNAL :: mword where "LIO_USE_SIGNAL = 0x400000"

lemmas lio_bits = LIO_IO_SYNC_def LIO_IO_ASYNC_def LIO_IO_SLISTIO_def LIO_IO_ALISTIO_def LIO_IO_SYNCV_def
  LIO_IO_SYNCP_def LIO_IO_TYPES_def LIO_IO_ATYPES_def LIO_WAIT_NONE_def LIO_WAIT_ACTIVE_def LIO_WAIT_RECALL_def
  LIO_WAIT_SIGPAUSE_def LIO_WAIT_SIGACTIVE_def LIO_WAIT_CBSUSPEND_def LIO_WAIT_SIGSUSPEND_def LIO_WAIT_ATYPES_def
  LIO_WAIT_TYPES_def LIO_WAIT_CBTYPES_def LIO_WAIT_SIGTYPES_def LIO_RANDOM_def LIO_USE_SIGNAL_def

definition has :: "mword \<Rightarrow> mword \<Rightarrow> bool" where "has m b \<longleftrightarrow> m AND b \<noteq> 0"

record lio_info_type =
  token :: string
  bits :: mword
  desc :: string

definition Lio_info1 :: "lio_info_type list" where
  "Lio_info1 = map (\<lambda>(t, b, d). \<lparr>token = t, bits = b, desc = d\<rparr>) [
    (''s'', LIO_IO_SYNC, ''sync i/o''),
    (''p'', LIO_IO_ASYNC OR LIO_WAIT_SIGACTIVE, ''async i/o using a loop to wait for a signal''),
    (''b'', LIO_IO_ASYNC OR LIO_WAIT_SIGPAUSE, ''async i/o using pause''),
    (''a'', LIO_IO_ASYNC OR LIO_WAIT_RECALL, ''async i/o using recall/aio_suspend''),
    (''r'', LIO_RANDOM OR LIO_IO_TYPES OR LIO_WAIT_TYPES, ''random sync i/o types and wait methods''),
    (''R'', LIO_RANDOM OR LIO_IO_ATYPES OR LIO_WAIT_ATYPES, ''random i/o types and wait methods''),
    (''l'', LIO_IO_SLISTIO OR LIO_WAIT_RECALL, ''single stride sync listio''),
    (''L'', LIO_IO_ALISTIO OR LIO_WAIT_RECALL, ''single stride async listio using recall''),
    (''X'', LIO_IO_ALISTIO OR LIO_WAIT_SIGPAUSE, ''single stride async listio using pause''),
    (''v'', LIO_IO_SYNCV, ''single buffer sync readv/writev''),
    (''P'', LIO_IO_SYNCP, ''sync pread/pwrite'')]"

definition Lio_info2 :: "lio_info_type list" where
  "Lio_info2 = map (\<lambda>(t, b, d). \<lparr>token = t, bits = b, desc = d\<rparr>) [
    (''sync'', LIO_IO_SYNC, ''sync i/o (read/write)''),
    (''async'', LIO_IO_ASYNC, ''async i/o (reada/writea/aio_read/aio_write)''),
    (''slistio'', LIO_IO_SLISTIO, ''single stride sync listio''),
    (''alistio'', LIO_IO_ALISTIO, ''single stride async listio''),
    (''syncv'', LIO_IO_SYNCV, ''single buffer sync readv/writev''),
    (''syncp'', LIO_IO_SYNCP, ''pread/pwrite''),
    (''active'', LIO_WAIT_ACTIVE, ''spin on status/control values''),
    (''recall'', LIO_WAIT_RECALL, ''use recall(2)/aio_suspend(3) to wait for i/o to complete''),
    (''sigactive'', LIO_WAIT_SIGACTIVE, ''spin waiting for signal''),
    (''sigpause'', LIO_WAIT_SIGPAUSE, ''call pause(2) to wait for signal''),
    (''random'', LIO_RANDOM, ''set random bit''),
    (''randomall'', LIO_RANDOM OR LIO_IO_TYPES OR LIO_WAIT_TYPES, ''all random i/o types and wait methods (except nowait)'')]"

definition lookup_token :: "lio_info_type list \<Rightarrow> string \<Rightarrow> mword option" where
  "lookup_token tab t = map_option bits (find (\<lambda>i. token i = t) tab)"

definition lio_parse_io_arg1 :: "string \<Rightarrow> mword" where
  "lio_parse_io_arg1 str = (case lookup_token Lio_info1 str of None \<Rightarrow> - 1 | Some b \<Rightarrow> b)"

definition lio_help :: "lio_info_type list \<Rightarrow> string \<Rightarrow> string list" where
  "lio_help tab pre = map (\<lambda>i. pre @ '' '' @ token i @ '' : '' @ desc i @ [CHR 0x0A]) tab"

definition lio_help1 :: "string \<Rightarrow> string list" where "lio_help1 = lio_help Lio_info1"
definition lio_help2 :: "string \<Rightarrow> string list" where "lio_help2 = lio_help Lio_info2"

text \<open>The bits of one token: a name of the table, or else a number with nothing after it.\<close>

definition token_bits :: "string \<Rightarrow> mword option option" where
  "token_bits t = (case lookup_token Lio_info2 t of
      Some b \<Rightarrow> Some (Some b)
    | None \<Rightarrow> (case scan_int None t of
        Some (v, []) \<Rightarrow> do { chk (fits_int v); Some (Some (word_of_int v)) }
      | _ \<Rightarrow> Some None))"

text \<open>The result and, for a token that is not valid, the string from there on (\<open>*badtoken\<close>).\<close>

function parse_tokens2 :: "string \<Rightarrow> mword \<Rightarrow> (mword \<times> string option) option" where
  "parse_tokens2 str m = do {
     b \<leftarrow> token_bits (takeWhile (\<lambda>c. c \<noteq> CHR '','') str);
     case b of
       None \<Rightarrow> Some (- 1, Some str)
     | Some b \<Rightarrow> (case dropWhile (\<lambda>c. c \<noteq> CHR '','') str of
           [] \<Rightarrow> Some (m OR b, None)
         | _ # cs \<Rightarrow> parse_tokens2 cs (m OR b))
   }"
  by pat_completeness auto
termination
  by (relation "measure (\<lambda>(str, m). length str)") (auto dest: dropWhile_shorter)

declare parse_tokens2.simps [simp del]

definition lio_parse_io_arg2 :: "string option \<Rightarrow> (mword \<times> string option) option" where
  "lio_parse_io_arg2 str = (case str of None \<Rightarrow> Some (- 1, None) | Some s \<Rightarrow> parse_tokens2 s 0)"

text \<open>\<open>lr1\<close> and \<open>lr2\<close> are the values of \<open>lrand48\<close> for the two random bits.\<close>

definition lio_random_methods :: "int \<Rightarrow> int \<Rightarrow> mword \<Rightarrow> mword option" where
  "lio_random_methods lr1 lr2 curr_mask = do {
     let m = curr_mask AND NOT (LIO_IO_TYPES OR LIO_WAIT_TYPES OR LIO_RANDOM);
     b \<leftarrow> random_bit (curr_mask AND LIO_IO_TYPES) lr1;
     let m = m OR b;
     b \<leftarrow> random_bit (curr_mask AND LIO_WAIT_TYPES) lr2;
     Some (m OR b)
   }"

section \<open>Strides\<close>

text \<open>The number of bytes, and the first and last byte.\<close>

definition stride_bounds :: "int \<Rightarrow> int \<Rightarrow> int \<Rightarrow> int \<Rightarrow> (int \<times> (int \<times> int) option) option" where
  "stride_bounds offset stride nstrides bytes_per_stride =
    (if nstrides < 0 \<or> bytes_per_stride < 0 then Some (- 1, None)
     else do {
       let stride = (if stride = 0 then bytes_per_stride else stride);
       chk (fits_int \<bar>stride\<bar> \<and> fits_int (\<bar>stride\<bar> * (nstrides - 1)));
       let nbytes = \<bar>stride\<bar> * (nstrides - 1) + bytes_per_stride;
       chk (fits_int nbytes);
       if stride < 0 then do {
         chk (fits_int (offset + bytes_per_stride));
         let max_byte = offset + bytes_per_stride - 1;
         chk (fits_int (max_byte - nbytes) \<and> fits_int max_byte);
         let min_byte = max_byte - nbytes + 1;
         Some (nbytes, Some (min_byte, max_byte))
       } else do {
         let min_byte = offset;
         chk (fits_int (min_byte + nbytes));
         let max_byte = min_byte + nbytes - 1;
         chk (fits_int max_byte);
         Some (nbytes, Some (min_byte, max_byte))
       }
     })"

section \<open>The kernel and the state\<close>

datatype sigev = SIGEV_NONE | SIGEV_SIGNAL | SIGEV_THREAD

datatype aio_op = LIO_READ | LIO_WRITE

record aiocb =
  aio_nbytes :: int
  aio_buf :: "byte list"
  aio_offset :: int
  aio_lio_opcode :: aio_op
  sigev_notify :: sigev
  sigev_signo :: int

text \<open>\<open>sys_caught\<close>: how many signals the handler has caught since it was last asked.  \<open>sys_aio_data\<close>: the bytes that the
read request has put into its buffer so far.  \<open>sys_aio_error\<close> and \<open>sys_aio_return\<close> are about the one request.\<close>

record 'w lsys =
  sys_lseek :: "'w \<Rightarrow> (int + int) \<times> 'w"
  sys_write :: "byte list \<Rightarrow> 'w \<Rightarrow> (int + int) \<times> 'w"
  sys_writev :: "byte list \<Rightarrow> 'w \<Rightarrow> (int + int) \<times> 'w"
  sys_pwrite :: "byte list \<Rightarrow> int \<Rightarrow> 'w \<Rightarrow> (int + int) \<times> 'w"
  sys_read :: "int \<Rightarrow> 'w \<Rightarrow> (int + byte list) \<times> 'w"
  sys_readv :: "int \<Rightarrow> 'w \<Rightarrow> (int + byte list) \<times> 'w"
  sys_pread :: "int \<Rightarrow> int \<Rightarrow> 'w \<Rightarrow> (int + byte list) \<times> 'w"
  sys_select :: "bool \<Rightarrow> 'w \<Rightarrow> 'w"
  sys_aio_write :: "aiocb \<Rightarrow> 'w \<Rightarrow> (int + int) \<times> 'w"
  sys_aio_read :: "aiocb \<Rightarrow> 'w \<Rightarrow> (int + int) \<times> 'w"
  sys_lio_listio :: "bool \<Rightarrow> aiocb \<Rightarrow> 'w \<Rightarrow> (int + int) \<times> 'w"
  sys_aio_error :: "'w \<Rightarrow> int \<times> 'w"
  sys_aio_return :: "'w \<Rightarrow> int \<times> 'w"
  sys_aio_suspend :: "'w \<Rightarrow> (int + int) \<times> 'w"
  sys_aio_data :: "'w \<Rightarrow> byte list"
  sys_pause :: "'w \<Rightarrow> 'w"
  sys_sigset :: "int \<Rightarrow> 'w \<Rightarrow> 'w"
  sys_sighold :: "int \<Rightarrow> 'w \<Rightarrow> 'w"
  sys_sigrelse :: "int \<Rightarrow> 'w \<Rightarrow> 'w"
  sys_caught :: "'w \<Rightarrow> nat \<times> 'w"

text \<open>A call that failed with an errno; a call for the first number of bytes that did the second; \<open>aio_error\<close> in a loop so
many times, or with an error; \<open>aio_return\<close> with another size; \<open>aio_suspend\<close> interrupted; no waiting.\<close>

datatype lmsg =
    Call_failed string int
  | Short_call string int int
  | Looped string int mword sigev
  | Aio_failed string int mword
  | Return_differs string int int
  | Interrupted sigev
  | Wait_none

record 'w lio =
  l_world :: 'w
  l_errno :: int
  Lio_SysCall :: string
  Errormsg :: "lmsg option"
  Received_signal :: int
  Rec_signal :: int
  Received_callback :: int
  Rec_callback :: int
  Debug_level :: int

definition EINTR :: int where "EINTR = 4"
definition EAGAIN :: int where "EAGAIN = 11"
definition ESPIPE :: int where "ESPIPE = 29"
definition EINPROGRESS :: int where "EINPROGRESS = 115"

definition lio_set_debug :: "int \<Rightarrow> 'w lio \<Rightarrow> int \<times> 'w lio" where
  "lio_set_debug level s = (Debug_level s, s\<lparr>Debug_level := level\<rparr>)"

definition lio_async_signal_handler :: "'w lio \<Rightarrow> 'w lio" where
  "lio_async_signal_handler s = s\<lparr>Received_signal := Received_signal s + 1\<rparr>"

definition lio_async_callback_handler :: "'w lio \<Rightarrow> 'w lio" where
  "lio_async_callback_handler s = s\<lparr>Received_callback := Received_callback s + 1\<rparr>"

text \<open>The return value of a call, -1 with \<open>errno\<close> if it fails.\<close>

definition sysret :: "(int + int) \<times> 'w \<Rightarrow> 'w lio \<Rightarrow> int \<times> 'w lio" where
  "sysret r s = (case r of (Inl e, w) \<Rightarrow> (- 1, s\<lparr>l_errno := e, l_world := w\<rparr>) | (Inr n, w) \<Rightarrow> (n, s\<lparr>l_world := w\<rparr>))"

definition datret :: "(int + byte list) \<times> 'w \<Rightarrow> 'w lio \<Rightarrow> int \<times> byte list \<times> 'w lio" where
  "datret r s = (case r of (Inl e, w) \<Rightarrow> (- 1, [], s\<lparr>l_errno := e, l_world := w\<rparr>)
     | (Inr xs, w) \<Rightarrow> (int (length xs), xs, s\<lparr>l_world := w\<rparr>))"

definition wdo :: "('w \<Rightarrow> 'w) \<Rightarrow> 'w lio \<Rightarrow> 'w lio" where "wdo f s = s\<lparr>l_world := f (l_world s)\<rparr>"

definition num :: "int \<Rightarrow> string" where "num = int_to_string"

definition wait4sync_io :: "'w lsys \<Rightarrow> bool \<Rightarrow> 'w lio \<Rightarrow> 'w lio" where
  "wait4sync_io sys rdng s = wdo (sys_select sys rdng) s"

section \<open>Waiting for asynchronous I/O\<close>

partial_function (option) error_loop :: "'w lsys \<Rightarrow> int \<Rightarrow> 'w \<Rightarrow> (int \<times> int \<times> 'w) option" where
  "error_loop sys cnt w = (let (ret, w) = sys_aio_error sys w in
     if ret = EINPROGRESS then error_loop sys (cnt + 1) w else Some (ret, cnt, w))"

definition lio_check_asyncio :: "'w lsys \<Rightarrow> string \<Rightarrow> int \<Rightarrow> aiocb \<Rightarrow> mword \<Rightarrow> 'w lio \<Rightarrow> (int \<times> 'w lio) option" where
  "lio_check_asyncio sys io_type sz cb m s = do {
     let s = (if sigev_notify cb = SIGEV_SIGNAL then wdo (sys_sigrelse sys (sigev_signo cb)) s else s);
     (ret, cnt, w) \<leftarrow> error_loop sys 1 (l_world s);
     let s = s\<lparr>l_world := w\<rparr>;
     if cnt > 1 then Some (- ret, s\<lparr>Errormsg := Some (Looped io_type cnt m (sigev_notify cb))\<rparr>)
     else if ret \<noteq> 0 then Some (- ret, s\<lparr>Errormsg := Some (Aio_failed io_type ret m)\<rparr>)
     else (let (ret, w) = sys_aio_return sys (l_world s); s = s\<lparr>l_world := w\<rparr> in
       if ret \<noteq> sz then Some (ret, s\<lparr>Errormsg := Some (Return_differs io_type sz ret)\<rparr>)
       else Some (ret, s))
   }"

text \<open>Spinning until a signal is caught; the handler runs whenever the kernel delivers one.\<close>

definition catch_signals :: "'w lsys \<Rightarrow> 'w lio \<Rightarrow> 'w lio" where
  "catch_signals sys s = (let (n, w) = sys_caught sys (l_world s) in
     (lio_async_signal_handler ^^ n) (s\<lparr>l_world := w\<rparr>))"

partial_function (option) sigactive_loop :: "'w lsys \<Rightarrow> int \<Rightarrow> 'w lio \<Rightarrow> 'w lio option" where
  "sigactive_loop sys signo s = (let s = catch_signals sys s in
     if Received_signal s = Rec_signal s then sigactive_loop sys signo (wdo (sys_sigrelse sys signo) s)
     else Some s)"

definition aio_suspend_wait :: "'w lsys \<Rightarrow> aiocb \<Rightarrow> 'w lio \<Rightarrow> int \<times> 'w lio" where
  "aio_suspend_wait sys cb s =
    (let (ret, s) = sysret (sys_aio_suspend sys (l_world s)) s in
     if ret = - 1 \<and> l_errno s = EINTR then
       (if sigev_notify cb = SIGEV_SIGNAL then (0, s)
        else (- l_errno s, s\<lparr>Errormsg := Some (Interrupted (sigev_notify cb))\<rparr>))
     else if ret \<noteq> 0 then (- l_errno s, s\<lparr>Errormsg := Some (Call_failed ''aio_suspend'' (l_errno s))\<rparr>)
     else (0, s))"

definition lio_wait4asyncio :: "'w lsys \<Rightarrow> mword \<Rightarrow> aiocb \<Rightarrow> 'w lio \<Rightarrow> (int \<times> 'w lio) option" where
  "lio_wait4asyncio sys m cb s =
    (if has m LIO_WAIT_RECALL \<or> has m LIO_WAIT_CBSUSPEND \<or> has m LIO_WAIT_SIGSUSPEND \<or> \<not> has m LIO_WAIT_TYPES then
       Some (aio_suspend_wait sys cb s)
     else if has m LIO_WAIT_ACTIVE then do {
       (ret, cnt, w) \<leftarrow> error_loop sys 0 (l_world s);
       Some (0, s\<lparr>l_world := w\<rparr>)
     }
     else if has m LIO_WAIT_SIGPAUSE then Some (0, catch_signals sys (wdo (sys_pause sys) s))
     else if has m LIO_WAIT_SIGACTIVE then
       (if sigev_notify cb = SIGEV_SIGNAL then do {
          s \<leftarrow> sigactive_loop sys (sigev_signo cb) (wdo (sys_sigrelse sys (sigev_signo cb)) s);
          Some (0, s)
        }
        else Some (- 1, s))
     else if has m LIO_WAIT_NONE then Some (- 1, s\<lparr>Errormsg := Some Wait_none\<rparr>)
     else Some (- 1, s))"

section \<open>The common beginning\<close>

text \<open>The value of \<open>lseek\<close> is stored in an \<open>int\<close>.\<close>

definition to_c_int :: "int \<Rightarrow> int" where "to_c_int n = sint (word_of_int n :: 32 word)"

text \<open>A random choice of \<open>pread\<close> or \<open>pwrite\<close> is not for a pipe.\<close>

definition espipe_method :: "mword \<Rightarrow> mword \<Rightarrow> mword" where
  "espipe_method om m =
    (if has m LIO_IO_SYNCP \<and> has om LIO_RANDOM then (m AND NOT LIO_IO_SYNCP) OR LIO_IO_SYNC else m)"

text \<open>When the signal parameter is used.\<close>

definition used_signal :: "mword \<Rightarrow> int \<Rightarrow> int" where
  "used_signal m sig =
    (let sig = (if sig \<noteq> 0 \<and> \<not> has m LIO_USE_SIGNAL \<and> \<not> has m LIO_WAIT_SIGTYPES then 0 else sig)
     in if sig \<noteq> 0 \<and> has m LIO_WAIT_CBTYPES then 0 else sig)"

definition set_notify :: "'w lsys \<Rightarrow> mword \<Rightarrow> int \<Rightarrow> aiocb \<Rightarrow> 'w lio \<Rightarrow> aiocb \<times> 'w lio" where
  "set_notify sys m sig cb s =
    (if sig \<noteq> 0 \<and> has m LIO_WAIT_SIGTYPES
     then (cb\<lparr>sigev_notify := SIGEV_SIGNAL, sigev_signo := sig\<rparr>, wdo (sys_sigset sys sig) s)
     else if has m LIO_WAIT_CBTYPES then (cb\<lparr>sigev_notify := SIGEV_THREAD\<rparr>, s)
     else (cb, s))"

text \<open>Either the result of a failed \<open>lseek\<close>, or the method, the signal, the request, and the position.\<close>

definition lio_begin :: "'w lsys \<Rightarrow> mword \<Rightarrow> byte list \<Rightarrow> int \<Rightarrow> int \<Rightarrow> int \<Rightarrow> int \<Rightarrow> 'w lio
    \<Rightarrow> ((int + mword \<times> int \<times> aiocb \<times> int) \<times> 'w lio) option" where
  "lio_begin sys om buf sz sig lr1 lr2 s = do {
     m \<leftarrow> (if has om LIO_RANDOM then lio_random_methods lr1 lr2 om else Some om);
     let s = s\<lparr>Rec_signal := Received_signal s, Rec_callback := Received_callback s\<rparr>;
     let cb = \<lparr>aio_nbytes = sz, aio_buf = buf, aio_offset = 0, aio_lio_opcode = LIO_READ, sigev_notify = SIGEV_NONE,
       sigev_signo = 0\<rparr>;
     let (ret, s) = sysret (sys_lseek sys (l_world s)) s;
     let ret = to_c_int ret;
     if ret = - 1 \<and> l_errno s \<noteq> ESPIPE
     then Some (Inl (- l_errno s), s\<lparr>Errormsg := Some (Call_failed ''lseek'' (l_errno s))\<rparr>)
     else do {
       let m = (if ret = - 1 then espipe_method om m else m);
       let ret = (if ret = - 1 then 0 else ret);
       let sig = used_signal m sig;
       let (cb, s) = set_notify sys m sig (cb\<lparr>aio_offset := ret\<rparr>) s;
       Some (Inr (m, sig, cb, ret), s)
     }
   }"

section \<open>Writing\<close>

partial_function (option) write_loop :: "'w lsys \<Rightarrow> byte list \<Rightarrow> int \<Rightarrow> 'w lio \<Rightarrow> (int \<times> 'w lio) option" where
  "write_loop sys buf sz s = do {
     xs \<leftarrow> rd_block buf 0 sz;
     let (ret, s) = sysret (sys_write sys xs (l_world s)) s;
     if ret = - 1 \<and> l_errno s \<noteq> EAGAIN \<and> l_errno s \<noteq> EINTR
     then Some (- l_errno s, s\<lparr>Errormsg := Some (Call_failed ''write'' (l_errno s))\<rparr>)
     else if ret \<noteq> - 1 \<and> ret \<noteq> sz
     then write_loop sys (drop (nat ret) buf) (sz - ret)
       (wait4sync_io sys False (s\<lparr>Errormsg := Some (Short_call ''write'' sz ret)\<rparr>))
     else if ret \<noteq> - 1 then Some (ret, s)
     else write_loop sys buf sz (wait4sync_io sys False s)
   }"

definition lio_write_sync :: "'w lsys \<Rightarrow> int \<Rightarrow> byte list \<Rightarrow> int \<Rightarrow> 'w lio \<Rightarrow> (int \<times> 'w lio) option" where
  "lio_write_sync sys fd buf sz s =
    write_loop sys buf sz (s\<lparr>Lio_SysCall := ''write('' @ num fd @ '', buf, '' @ num sz @ '')''\<rparr>)"

text \<open>The end of an asynchronous request.\<close>

definition lio_async_end :: "'w lsys \<Rightarrow> string \<Rightarrow> int \<Rightarrow> aiocb \<Rightarrow> mword \<Rightarrow> 'w lio \<Rightarrow> (int \<times> 'w lio) option" where
  "lio_async_end sys io_type sz cb m s = do {
     (ret, s) \<leftarrow> lio_wait4asyncio sys m cb s;
     if ret < 0 then Some (ret, s)
     else if ret = 1 then Some (sz, s)
     else lio_check_asyncio sys io_type sz cb m s
   }"

text \<open>A request handed over with the signal held; \<open>Some\<close>: the call failed.\<close>

definition lio_submit :: "'w lsys \<Rightarrow> string \<Rightarrow> (aiocb \<Rightarrow> 'w \<Rightarrow> (int + int) \<times> 'w) \<Rightarrow> int \<Rightarrow> aiocb \<Rightarrow> 'w lio
    \<Rightarrow> (int option \<times> 'w lio) option" where
  "lio_submit sys call f sig cb s = do {
     chk (0 \<le> aio_nbytes cb \<and> aio_nbytes cb \<le> int (length (aio_buf cb)));
     let s = (if sig \<noteq> 0 then wdo (sys_sighold sys sig) s else s);
     let (ret, s) = sysret (f cb (l_world s)) s;
     if ret = - 1 then do {
       let e = l_errno s;
       let s = s\<lparr>Errormsg := Some (Call_failed call e)\<rparr>;
       Some (Some (- e), if sig \<noteq> 0 then wdo (sys_sigrelse sys sig) s else s)
     }
     else Some (None, s)
   }"

definition lio_write_async :: "'w lsys \<Rightarrow> int \<Rightarrow> int \<Rightarrow> int \<Rightarrow> aiocb \<Rightarrow> mword \<Rightarrow> 'w lio \<Rightarrow> (int \<times> 'w lio) option" where
  "lio_write_async sys fd sz sig cb m s = do {
     let s = s\<lparr>Lio_SysCall := ''aio_write(fildes='' @ num fd @ '', buf, nbytes='' @ num sz @ '', signo='' @ num sig @ '')''\<rparr>;
     (r, s) \<leftarrow> lio_submit sys ''aio_write'' (sys_aio_write sys) sig cb s;
     case r of Some ret \<Rightarrow> Some (ret, s) | None \<Rightarrow> lio_async_end sys ''aio_write'' sz cb m s
   }"

definition lio_write_slistio :: "'w lsys \<Rightarrow> int \<Rightarrow> int \<Rightarrow> int \<Rightarrow> aiocb \<Rightarrow> mword \<Rightarrow> 'w lio \<Rightarrow> (int \<times> 'w lio) option" where
  "lio_write_slistio sys fd sz sig cb m s = do {
     let cb = cb\<lparr>aio_lio_opcode := LIO_WRITE\<rparr>;
     let s = s\<lparr>Lio_SysCall := ''lio_listio(LIO_WAIT, aiolist, 1, NULL) LIO_WRITE, fd:'' @ num fd @ '', nbyte:'' @ num sz @ '', sig:'' @ num sig\<rparr>;
     (r, s) \<leftarrow> lio_submit sys (Lio_SysCall s) (sys_lio_listio sys True) sig cb s;
     case r of Some ret \<Rightarrow> Some (ret, s) | None \<Rightarrow> lio_check_asyncio sys ''lio_listio(3) sync write'' sz cb m s
   }"

definition lio_write_alistio :: "'w lsys \<Rightarrow> int \<Rightarrow> int \<Rightarrow> int \<Rightarrow> aiocb \<Rightarrow> mword \<Rightarrow> 'w lio \<Rightarrow> (int \<times> 'w lio) option" where
  "lio_write_alistio sys fd sz sig cb m s = do {
     let cb = cb\<lparr>aio_lio_opcode := LIO_WRITE\<rparr>;
     let s = s\<lparr>Lio_SysCall := ''lio_listio(LIO_NOWAIT, aiolist, 1, NULL) LIO_WRITE, fd:'' @ num fd @ '', nbyte:'' @ num sz\<rparr>;
     (r, s) \<leftarrow> lio_submit sys (Lio_SysCall s) (sys_lio_listio sys False) sig cb s;
     case r of Some ret \<Rightarrow> Some (ret, s) | None \<Rightarrow> lio_async_end sys ''lio_listio(3) async write'' sz cb m s
   }"

text \<open>One call whose count is compared with the size.\<close>

definition one_call :: "string \<Rightarrow> int \<Rightarrow> int \<times> 'w lio \<Rightarrow> int \<times> 'w lio" where
  "one_call call sz rs = (case rs of (ret, s) \<Rightarrow>
     if ret = - 1 then (- l_errno s, s\<lparr>Errormsg := Some (Call_failed call (l_errno s))\<rparr>)
     else if ret \<noteq> sz then (ret, s\<lparr>Errormsg := Some (Short_call call sz ret)\<rparr>)
     else (ret, s))"

definition lio_write_syncv :: "'w lsys \<Rightarrow> int \<Rightarrow> byte list \<Rightarrow> int \<Rightarrow> 'w lio \<Rightarrow> (int \<times> 'w lio) option" where
  "lio_write_syncv sys fd buf sz s = do {
     let s = s\<lparr>Lio_SysCall := ''writev('' @ num fd @ '', &iov, 1) nbyte:'' @ num sz\<rparr>;
     xs \<leftarrow> rd_block buf 0 sz;
     Some (one_call ''writev'' sz (sysret (sys_writev sys xs (l_world s)) s))
   }"

definition lio_write_syncp :: "'w lsys \<Rightarrow> int \<Rightarrow> byte list \<Rightarrow> int \<Rightarrow> int \<Rightarrow> 'w lio \<Rightarrow> (int \<times> 'w lio) option" where
  "lio_write_syncp sys fd buf sz poffset s = do {
     let s = s\<lparr>Lio_SysCall := ''pwrite('' @ num fd @ '', buf, '' @ num sz @ '', '' @ num poffset @ '')''\<rparr>;
     xs \<leftarrow> rd_block buf 0 sz;
     Some (one_call ''pwrite'' sz (sysret (sys_pwrite sys xs poffset (l_world s)) s))
   }"

definition lio_write_buffer :: "'w lsys \<Rightarrow> int \<Rightarrow> mword \<Rightarrow> byte list \<Rightarrow> int \<Rightarrow> int \<Rightarrow> int \<Rightarrow> int \<Rightarrow> 'w lio \<Rightarrow> (int \<times> 'w lio) option" where
  "lio_write_buffer sys fd meth buf sz sig lr1 lr2 s = do {
     (r, s) \<leftarrow> lio_begin sys meth buf sz sig lr1 lr2 s;
     case r of
       Inl ret \<Rightarrow> Some (ret, s)
     | Inr (m, sig, cb, poffset) \<Rightarrow>
         if has m LIO_IO_SYNC \<or> \<not> has m (LIO_IO_TYPES OR LIO_IO_ATYPES) then lio_write_sync sys fd buf sz s
         else if has m LIO_IO_ASYNC then lio_write_async sys fd sz sig cb m s
         else if has m LIO_IO_SLISTIO then lio_write_slistio sys fd sz sig cb m s
         else if has m LIO_IO_ALISTIO then lio_write_alistio sys fd sz sig cb m s
         else if has m LIO_IO_SYNCV then lio_write_syncv sys fd buf sz s
         else if has m LIO_IO_SYNCP then lio_write_syncp sys fd buf sz poffset s
         else Some (- 1, s)
   }"

section \<open>Reading\<close>

text \<open>The functions that read also return the buffer; \<open>off\<close> is how far the code has moved its pointer.\<close>

partial_function (option) read_loop :: "'w lsys \<Rightarrow> byte list \<Rightarrow> int \<Rightarrow> int \<Rightarrow> 'w lio \<Rightarrow> (int \<times> byte list \<times> 'w lio) option" where
  "read_loop sys buf off sz s = do {
     chk (0 \<le> sz \<and> off + sz \<le> int (length buf));
     let (ret, xs, s) = datret (sys_read sys sz (l_world s)) s;
     buf \<leftarrow> wr_block buf off xs;
     if ret = - 1 \<and> l_errno s \<noteq> EINTR \<and> l_errno s \<noteq> EAGAIN
     then Some (- l_errno s, buf, s\<lparr>Errormsg := Some (Call_failed ''read'' (l_errno s))\<rparr>)
     else if ret = 0 then Some (0, buf, s)
     else if ret \<noteq> - 1 \<and> ret \<noteq> sz
     then read_loop sys buf (off + ret) (sz - ret)
       (wait4sync_io sys True (s\<lparr>Errormsg := Some (Short_call ''read'' sz ret)\<rparr>))
     else if ret \<noteq> - 1 then Some (ret, buf, s)
     else read_loop sys buf off sz (wait4sync_io sys True s)
   }"

definition lio_read_sync :: "'w lsys \<Rightarrow> int \<Rightarrow> byte list \<Rightarrow> int \<Rightarrow> 'w lio \<Rightarrow> (int \<times> byte list \<times> 'w lio) option" where
  "lio_read_sync sys fd buf sz s =
    read_loop sys buf 0 sz (s\<lparr>Lio_SysCall := ''read('' @ num fd @ '', buf, '' @ num sz @ '')''\<rparr>)"

text \<open>The buffer of a request when the function returns.\<close>

definition with_data :: "'w lsys \<Rightarrow> byte list \<Rightarrow> int \<times> 'w lio \<Rightarrow> (int \<times> byte list \<times> 'w lio) option" where
  "with_data sys buf r = (case r of (ret, s) \<Rightarrow> do {
     buf \<leftarrow> wr_block buf 0 (sys_aio_data sys (l_world s));
     Some (ret, buf, s)
   })"

definition lio_read_async :: "'w lsys \<Rightarrow> int \<Rightarrow> byte list \<Rightarrow> int \<Rightarrow> int \<Rightarrow> aiocb \<Rightarrow> mword \<Rightarrow> 'w lio
    \<Rightarrow> (int \<times> byte list \<times> 'w lio) option" where
  "lio_read_async sys fd buf sz sig cb m s = do {
     let s = s\<lparr>Lio_SysCall := ''aio_read(fildes='' @ num fd @ '', buf, nbytes='' @ num sz @ '', signo='' @ num sig @ '')''\<rparr>;
     (r, s) \<leftarrow> lio_submit sys ''aio_read'' (sys_aio_read sys) sig cb s;
     case r of Some ret \<Rightarrow> Some (ret, buf, s) | None \<Rightarrow> lio_async_end sys ''aio_read'' sz cb m s \<bind> with_data sys buf
   }"

definition lio_read_slistio :: "'w lsys \<Rightarrow> int \<Rightarrow> byte list \<Rightarrow> int \<Rightarrow> int \<Rightarrow> aiocb \<Rightarrow> mword \<Rightarrow> 'w lio
    \<Rightarrow> (int \<times> byte list \<times> 'w lio) option" where
  "lio_read_slistio sys fd buf sz sig cb m s = do {
     let cb = cb\<lparr>aio_lio_opcode := LIO_READ\<rparr>;
     let s = s\<lparr>Lio_SysCall := ''lio_listio(LIO_WAIT, aiolist, 1, NULL) LIO_READ, fd:'' @ num fd @ '', nbyte:'' @ num sz\<rparr>;
     (r, s) \<leftarrow> lio_submit sys (Lio_SysCall s) (sys_lio_listio sys True) sig cb s;
     case r of Some ret \<Rightarrow> Some (ret, buf, s)
     | None \<Rightarrow> lio_check_asyncio sys ''lio_listio(3) sync read'' sz cb m s \<bind> with_data sys buf
   }"

definition lio_read_alistio :: "'w lsys \<Rightarrow> int \<Rightarrow> byte list \<Rightarrow> int \<Rightarrow> int \<Rightarrow> aiocb \<Rightarrow> mword \<Rightarrow> 'w lio
    \<Rightarrow> (int \<times> byte list \<times> 'w lio) option" where
  "lio_read_alistio sys fd buf sz sig cb m s = do {
     let cb = cb\<lparr>aio_lio_opcode := LIO_READ\<rparr>;
     let s = s\<lparr>Lio_SysCall := ''lio_listio(LIO_NOWAIT, aiolist, 1, NULL) LIO_READ, fd:'' @ num fd @ '', nbyte:'' @ num sz\<rparr>;
     (r, s) \<leftarrow> lio_submit sys (Lio_SysCall s) (sys_lio_listio sys False) sig cb s;
     case r of Some ret \<Rightarrow> Some (ret, buf, s)
     | None \<Rightarrow> lio_async_end sys ''lio_listio(3) async read'' sz cb m s \<bind> with_data sys buf
   }"

text \<open>One call that stores what it reads.\<close>

definition one_read :: "string \<Rightarrow> int \<Rightarrow> byte list \<Rightarrow> int \<times> byte list \<times> 'w lio \<Rightarrow> (int \<times> byte list \<times> 'w lio) option" where
  "one_read call sz buf r = (case r of (ret, xs, s) \<Rightarrow> do {
     chk (0 \<le> sz \<and> sz \<le> int (length buf));
     buf \<leftarrow> wr_block buf 0 xs;
     let (ret, s) = one_call call sz (ret, s);
     Some (ret, buf, s)
   })"

definition lio_read_syncv :: "'w lsys \<Rightarrow> int \<Rightarrow> byte list \<Rightarrow> int \<Rightarrow> 'w lio \<Rightarrow> (int \<times> byte list \<times> 'w lio) option" where
  "lio_read_syncv sys fd buf sz s =
    (let s = s\<lparr>Lio_SysCall := ''readv('' @ num fd @ '', &iov, 1) nbyte:'' @ num sz\<rparr>
     in one_read ''readv'' sz buf (datret (sys_readv sys sz (l_world s)) s))"

definition lio_read_syncp :: "'w lsys \<Rightarrow> int \<Rightarrow> byte list \<Rightarrow> int \<Rightarrow> int \<Rightarrow> 'w lio \<Rightarrow> (int \<times> byte list \<times> 'w lio) option" where
  "lio_read_syncp sys fd buf sz poffset s =
    (let s = s\<lparr>Lio_SysCall := ''pread('' @ num fd @ '', buf, '' @ num sz @ '', '' @ num poffset @ '')''\<rparr>
     in one_read ''pread'' sz buf (datret (sys_pread sys sz poffset (l_world s)) s))"

definition lio_read_buffer :: "'w lsys \<Rightarrow> int \<Rightarrow> mword \<Rightarrow> byte list \<Rightarrow> int \<Rightarrow> int \<Rightarrow> int \<Rightarrow> int \<Rightarrow> 'w lio
    \<Rightarrow> (int \<times> byte list \<times> 'w lio) option" where
  "lio_read_buffer sys fd meth buf sz sig lr1 lr2 s = do {
     (r, s) \<leftarrow> lio_begin sys meth buf sz sig lr1 lr2 s;
     case r of
       Inl ret \<Rightarrow> Some (ret, buf, s)
     | Inr (m, sig, cb, poffset) \<Rightarrow>
         if has m LIO_IO_SYNC \<or> \<not> has m (LIO_IO_TYPES OR LIO_IO_ATYPES) then lio_read_sync sys fd buf sz s
         else if has m LIO_IO_ASYNC then lio_read_async sys fd buf sz sig cb m s
         else if has m LIO_IO_SLISTIO then lio_read_slistio sys fd buf sz sig cb m s
         else if has m LIO_IO_ALISTIO then lio_read_alistio sys fd buf sz sig cb m s
         else if has m LIO_IO_SYNCV then lio_read_syncv sys fd buf sz s
         else if has m LIO_IO_SYNCP then lio_read_syncp sys fd buf sz poffset s
         else Some (- 1, buf, s)
   }"

end
