(* ===== verification/TlibioProps.thy ===== *)
theory TlibioProps
imports Tlibio RandomProps
begin

unbundle bit_operations_syntax

text \<open>What the I/O functions of \<open>tlibio.c\<close> do with a file that takes and gives its bytes in pieces, and which of the
methods that a user can ask for are ever used.\<close>

section \<open>The kernel's side\<close>

text \<open>What \<open>write\<close> does on a descriptor that never fails for good: it takes some of the bytes, or it fails with
\<open>EAGAIN\<close> or \<open>EINTR\<close>, but not forever (\<open>stalls\<close> decreases); nothing else changes what has been written.\<close>

definition accepts :: "'w lsys \<Rightarrow> ('w \<Rightarrow> byte list) \<Rightarrow> ('w \<Rightarrow> nat) \<Rightarrow> bool" where
  "accepts sys content stalls \<longleftrightarrow>
    (\<forall>w xs r w'. xs \<noteq> [] \<longrightarrow> sys_write sys xs w = (r, w') \<longrightarrow> (case r of
        Inl e \<Rightarrow> e \<in> {EAGAIN, EINTR} \<and> content w' = content w \<and> stalls (sys_select sys False w') < stalls w
      | Inr n \<Rightarrow> 0 < n \<and> n \<le> int (length xs) \<and> content w' = content w @ take (nat n) xs)) \<and>
    (\<forall>w. content (sys_select sys False w) = content w) \<and>
    (\<forall>sig w. content (sys_sigset sys sig w) = content w) \<and>
    (\<forall>w. content (snd (sys_lseek sys w)) = content w)"

text \<open>What \<open>read\<close> does on a descriptor with the bytes \<open>rest\<close> to come: no bytes means the end.\<close>

definition delivers :: "'w lsys \<Rightarrow> ('w \<Rightarrow> byte list) \<Rightarrow> ('w \<Rightarrow> nat) \<Rightarrow> bool" where
  "delivers sys rest stalls \<longleftrightarrow>
    (\<forall>w n r w'. 0 < n \<longrightarrow> sys_read sys n w = (r, w') \<longrightarrow> (case r of
        Inl e \<Rightarrow> e \<in> {EAGAIN, EINTR} \<and> rest w' = rest w \<and> stalls (sys_select sys True w') < stalls w
      | Inr xs \<Rightarrow> int (length xs) \<le> n \<and> rest w = xs @ rest w' \<and> (xs = [] \<longrightarrow> rest w = []))) \<and>
    (\<forall>w. rest (sys_select sys True w) = rest w) \<and>
    (\<forall>sig w. rest (sys_sigset sys sig w) = rest w) \<and>
    (\<forall>w. rest (snd (sys_lseek sys w)) = rest w)"

text \<open>The position can be asked for, or the descriptor is a pipe.\<close>

definition can_seek :: "'w lsys \<Rightarrow> 'w \<Rightarrow> bool" where
  "can_seek sys w \<longleftrightarrow> (case fst (sys_lseek sys w) of Inl e \<Rightarrow> e = ESPIPE | Inr off \<Rightarrow> to_c_int off \<noteq> - 1)"

lemma to_c_int_minus_one [simp]: "to_c_int (- 1) = - 1"
  by (simp add: to_c_int_def)

text \<open>A method that is not random keeps its I/O types on the way through \<open>lio_begin\<close>.\<close>

lemma set_notify_world:
  assumes "set_notify sys m sig cb s = (cb', s')"
  shows "l_world s' = l_world s \<or> (\<exists>sg. l_world s' = sys_sigset sys sg (l_world s))" "Errormsg s' = Errormsg s"
  using assms by (auto simp: set_notify_def wdo_def split: if_splits)

lemma lio_begin_seekable:
  assumes "can_seek sys (l_world s)" "\<not> has m LIO_RANDOM"
  obtains sig' cb pos s' where "lio_begin sys m buf sz sig lr1 lr2 s = Some (Inr (m, sig', cb, pos), s')"
    "l_world s' = snd (sys_lseek sys (l_world s)) \<or> (\<exists>sg. l_world s' = sys_sigset sys sg (snd (sys_lseek sys (l_world s))))"
    "Errormsg s' = Errormsg s"
proof -
  obtain r w where l: "sys_lseek sys (l_world s) = (r, w)" by (cases "sys_lseek sys (l_world s)")
  have m: "espipe_method m m = m" using assms(2) by (simp add: espipe_method_def)
  obtain ret s1 where r: "sysret (sys_lseek sys (l_world s)) (s\<lparr>Rec_signal := Received_signal s, Rec_callback := Received_callback s\<rparr>) = (ret, s1)"
    by fastforce
  then have s1: "l_world s1 = w" "Errormsg s1 = Errormsg s" "to_c_int ret = - 1 \<Longrightarrow> l_errno s1 = ESPIPE"
    using assms(1) l by (auto simp: sysret_def can_seek_def split: sum.splits)
  let ?pos = "if to_c_int ret = - 1 then 0 else to_c_int ret"
  let ?cb = "\<lparr>aio_nbytes = sz, aio_buf = buf, aio_offset = ?pos, aio_lio_opcode = LIO_READ, sigev_notify = SIGEV_NONE, sigev_signo = 0\<rparr>"
  obtain cb s2 where n: "set_notify sys m (used_signal m sig) ?cb s1 = (cb, s2)" by fastforce
  have "lio_begin sys m buf sz sig lr1 lr2 s = Some (Inr (m, used_signal m sig, cb, ?pos), s2)"
    using assms(2) r s1(3) n m by (cases "to_c_int ret = - 1") (simp_all add: lio_begin_def Let_def)
  with that set_notify_world [OF n] s1(1,2) l show thesis by simp
qed

section \<open>Writing\<close>

lemma accepts_write:
  assumes "accepts sys content stalls" "xs \<noteq> []" "sys_write sys xs w = (r, w')"
  shows "case r of Inl e \<Rightarrow> e \<in> {EAGAIN, EINTR} \<and> content w' = content w \<and> stalls (sys_select sys False w') < stalls w
      | Inr n \<Rightarrow> 0 < n \<and> n \<le> int (length xs) \<and> content w' = content w @ take (nat n) xs"
  using assms unfolding accepts_def by blast

lemma accepts_rest:
  assumes "accepts sys content stalls"
  shows "content (sys_select sys False w) = content w" "content (sys_sigset sys sig w) = content w"
    "content (snd (sys_lseek sys w)) = content w"
  using assms unfolding accepts_def by blast+

lemma pieces: "0 \<le> n \<Longrightarrow> 0 \<le> k \<Longrightarrow> take (nat n) xs @ take (nat k) (drop (nat n) xs) = take (nat (n + k)) xs"
  by (simp add: nat_add_distrib take_add)

lemma drop_pieces: "0 \<le> n \<Longrightarrow> 0 \<le> k \<Longrightarrow> drop (nat k) (take (nat (m - n)) (drop (nat n) xs)) = drop (nat (n + k)) (take (nat m) xs)"
  by (auto simp: nat_add_distrib drop_take ac_simps nat_diff_distrib intro!: arg_cong [of _ _ "\<lambda>j. take j _"])

declare write_loop.simps [code]

lemma write_loop_delivers:
  assumes "accepts sys content stalls"
  shows "0 < sz \<Longrightarrow> sz \<le> int (length buf) \<Longrightarrow>
    \<exists>ret s'. write_loop sys buf sz s = Some (ret, s') \<and>
      content (l_world s') = content (l_world s) @ take (nat sz) buf \<and> 0 < ret \<and> ret \<le> sz \<and>
      (ret = sz \<longrightarrow> Errormsg s' = Errormsg s) \<and> (ret < sz \<longrightarrow> (\<exists>n k. Errormsg s' = Some (Short_call ''write'' n k))) \<and>
      (\<exists>w. content w = content (l_world s) @ take (nat (sz - ret)) buf \<and>
        sys_write sys (drop (nat (sz - ret)) (take (nat sz) buf)) w = (Inr ret, l_world s'))"
proof (induction "(nat sz, stalls (l_world s))" arbitrary: buf sz s rule: wf_induct_rule [OF wf_lex_prod [OF wf_less_than wf_less_than]])
  case (1 sz s buf)
  let ?xs = "take (nat sz) buf"
  have xs: "rd_block buf 0 sz = Some ?xs" "?xs \<noteq> []" "int (length ?xs) = sz"
    using "1.prems" by (auto simp: rd_block_def)
  obtain r w where w: "sys_write sys ?xs (l_world s) = (r, w)" by (cases "sys_write sys ?xs (l_world s)")
  show ?case
  proof (cases r)
    case (Inl e)
    let ?s = "wait4sync_io sys False (s\<lparr>l_errno := e, l_world := w\<rparr>)"
    have e: "e \<in> {EAGAIN, EINTR}" "content (sys_select sys False w) = content (l_world s)"
        "stalls (sys_select sys False w) < stalls (l_world s)"
      using accepts_write [OF assms xs(2) w] Inl accepts_rest [OF assms] by simp_all
    have "write_loop sys buf sz s = write_loop sys buf sz ?s"
      using e(1) by (subst write_loop.simps) (auto simp: xs(1) w Inl sysret_def)
    with "1.hyps" [of sz ?s buf] "1.prems" e(2,3) show ?thesis
      by (simp add: wait4sync_io_def wdo_def)
  next
    case (Inr n)
    have n: "0 < n" "n \<le> sz" "content w = content (l_world s) @ take (nat n) ?xs"
      using accepts_write [OF assms xs(2) w] Inr xs(3) by simp_all
    show ?thesis
    proof (cases "n = sz")
      case True
      with n xs w Inr show ?thesis
        by (subst write_loop.simps) (auto simp: sysret_def)
    next
      case False
      let ?s = "wait4sync_io sys False (s\<lparr>l_world := w, Errormsg := Some (Short_call ''write'' sz n)\<rparr>)"
      let ?buf = "drop (nat n) buf"
      have "write_loop sys buf sz s = write_loop sys ?buf (sz - n) ?s"
        using False n(1) by (subst write_loop.simps) (simp add: xs(1) w Inr sysret_def)
      moreover have "content (l_world ?s) = content w"
        using accepts_rest [OF assms] by (simp add: wait4sync_io_def wdo_def)
      moreover have m: "((nat (sz - n), stalls (l_world ?s)), (nat sz, stalls (l_world s))) \<in> less_than <*lex*> less_than"
        using n by simp
      moreover have "0 < sz - n" "sz - n \<le> int (length ?buf)" using n False "1.prems" by auto
      from "1.hyps" [OF m this] obtain ret s' where r: "write_loop sys ?buf (sz - n) ?s = Some (ret, s')"
        "content (l_world s') = content (l_world ?s) @ take (nat (sz - n)) ?buf" "0 < ret" "ret \<le> sz - n"
        "ret = sz - n \<longrightarrow> Errormsg s' = Errormsg ?s"
        "ret < sz - n \<longrightarrow> (\<exists>n k. Errormsg s' = Some (Short_call ''write'' n k))"
        "\<exists>w. content w = content (l_world ?s) @ take (nat (sz - n - ret)) ?buf \<and>
          sys_write sys (drop (nat (sz - n - ret)) (take (nat (sz - n)) ?buf)) w = (Inr ret, l_world s')"
        by blast
      moreover have "\<exists>n k. Errormsg s' = Some (Short_call ''write'' n k)"
        using r(4-6) by (cases "ret = sz - n") (auto simp: wait4sync_io_def wdo_def)
      moreover have "take (nat n) ?xs = take (nat n) buf" using n by (simp add: min_def)
      moreover have "n + (sz - n - ret) = sz - ret" by simp
      ultimately show ?thesis
        using n r(4) pieces [of n "sz - n" buf] pieces [of n "sz - n - ret" buf] drop_pieces [of n "sz - n - ret" sz buf]
        by auto
    qed
  qed
qed

text \<open>A pipe whose reader (or writer) is slow: the world is the bytes in it and how many bytes the next calls can move
(0: none now, \<open>EAGAIN\<close>; no entry: as many as asked for).\<close>

definition pipe_write :: "byte list \<Rightarrow> byte list \<times> nat list \<Rightarrow> (int + int) \<times> (byte list \<times> nat list)" where
  "pipe_write xs w = (case w of
      (c, []) \<Rightarrow> (Inr (int (length xs)), (c @ xs, []))
    | (c, k # ks) \<Rightarrow> if k = 0 then (Inl EAGAIN, (c, ks))
        else (Inr (int (min k (length xs))), (c @ take k xs, ks)))"

definition pipe_read :: "int \<Rightarrow> byte list \<times> nat list \<Rightarrow> (int + byte list) \<times> (byte list \<times> nat list)" where
  "pipe_read n w = (case w of
      (c, []) \<Rightarrow> (Inr (take (nat n) c), (drop (nat n) c, []))
    | (c, k # ks) \<Rightarrow> if k = 0 then (Inl EAGAIN, (c, ks))
        else (Inr (take (min k (nat n)) c), (drop (min k (nat n)) c, ks)))"

definition pipe :: "(byte list \<times> nat list) lsys" where
  "pipe = \<lparr>sys_lseek = Pair (Inl ESPIPE), sys_write = pipe_write, sys_writev = pipe_write,
     sys_pwrite = \<lambda>xs off. Pair (Inl ESPIPE), sys_read = pipe_read, sys_readv = pipe_read,
     sys_pread = \<lambda>n off. Pair (Inl ESPIPE), sys_select = \<lambda>b. id, sys_aio_write = \<lambda>cb. Pair (Inl EAGAIN),
     sys_aio_read = \<lambda>cb. Pair (Inl EAGAIN), sys_lio_listio = \<lambda>b cb. Pair (Inl EAGAIN), sys_aio_error = Pair 0,
     sys_aio_return = Pair 0, sys_aio_suspend = Pair (Inr 0), sys_aio_data = \<lambda>w. [], sys_pause = id,
     sys_sigset = \<lambda>sig. id, sys_sighold = \<lambda>sig. id, sys_sigrelse = \<lambda>sig. id, sys_caught = Pair 0\<rparr>"

definition lio0 :: "'w \<Rightarrow> 'w lio" where
  "lio0 w = \<lparr>l_world = w, l_errno = 0, Lio_SysCall = [], Errormsg = None, Received_signal = 0, Rec_signal = 0,
     Received_callback = 0, Rec_callback = 0, Debug_level = 0\<rparr>"

lemma pipe_accepts: "accepts pipe fst (\<lambda>w. length (snd w))"
  by (auto simp: accepts_def pipe_def pipe_write_def min_def split: list.splits if_splits prod.splits)

lemma pipe_can_seek [simp]: "can_seek pipe w"
  by (simp add: can_seek_def pipe_def)

lemma lio_write_pieces:
  assumes "accepts sys content stalls" "can_seek sys (l_world s)"
    "has m LIO_IO_SYNC \<or> \<not> has m (LIO_IO_TYPES OR LIO_IO_ATYPES)" "\<not> has m LIO_RANDOM"
    "0 < sz" "sz \<le> int (length buf)"
  shows "\<exists>ret s'. lio_write_buffer sys fd m buf sz sig lr1 lr2 s = Some (ret, s') \<and>
    content (l_world s') = content (l_world s) @ take (nat sz) buf \<and> 0 < ret \<and> ret \<le> sz \<and>
    (ret = sz \<longrightarrow> Errormsg s' = Errormsg s) \<and> (ret < sz \<longrightarrow> (\<exists>n k. Errormsg s' = Some (Short_call ''write'' n k))) \<and>
    (\<exists>w. content w = content (l_world s) @ take (nat (sz - ret)) buf \<and>
      sys_write sys (drop (nat (sz - ret)) (take (nat sz) buf)) w = (Inr ret, l_world s'))"
proof -
  obtain sig' cb pos s1 where b: "lio_begin sys m buf sz sig lr1 lr2 s = Some (Inr (m, sig', cb, pos), s1)"
    "l_world s1 = snd (sys_lseek sys (l_world s)) \<or> (\<exists>sg. l_world s1 = sys_sigset sys sg (snd (sys_lseek sys (l_world s))))"
    "Errormsg s1 = Errormsg s"
    using lio_begin_seekable [OF assms(2,4)] by blast
  have c: "content (l_world s1) = content (l_world s)" using b(2) accepts_rest [OF assms(1)] by auto
  have w: "lio_write_buffer sys fd m buf sz sig lr1 lr2 s =
      write_loop sys buf sz (s1\<lparr>Lio_SysCall := ''write('' @ num fd @ '', buf, '' @ num sz @ '')''\<rparr>)"
    using assms(3) by (simp add: lio_write_buffer_def b(1) lio_write_sync_def)
  show ?thesis unfolding w
    using write_loop_delivers [OF assms(1,5,6), of "s1\<lparr>Lio_SysCall := ''write('' @ num fd @ '', buf, '' @ num sz @ '')''\<rparr>"] c b(3)
    by simp
qed

text \<open>C15: writing with \<open>write\<close> (the default, or asked for) to any descriptor that takes its bytes in pieces, and makes
the caller wait in between, ends with all bytes written in order.  The return value is not their number but that of the
last piece, which is smaller than what was asked for exactly when the error text has been set.\<close>

theorem lio_write_delivers:
  assumes "accepts sys content stalls" "can_seek sys (l_world s)"
    "has m LIO_IO_SYNC \<or> \<not> has m (LIO_IO_TYPES OR LIO_IO_ATYPES)" "\<not> has m LIO_RANDOM"
    "0 < sz" "sz \<le> int (length buf)"
  shows "\<exists>ret s'. lio_write_buffer sys fd m buf sz sig lr1 lr2 s = Some (ret, s') \<and>
    content (l_world s') = content (l_world s) @ take (nat sz) buf \<and> 0 < ret \<and> ret \<le> sz \<and>
    (ret = sz \<longrightarrow> Errormsg s' = Errormsg s) \<and> (ret < sz \<longrightarrow> (\<exists>n k. Errormsg s' = Some (Short_call ''write'' n k))) \<and>
    (\<exists>w. content w = content (l_world s) @ take (nat (sz - ret)) buf \<and>
      sys_write sys (drop (nat (sz - ret)) (take (nat sz) buf)) w = (Inr ret, l_world s'))"
  by (rule lio_write_pieces [OF assms])

lemma lio_write_delivers_witness:
  "\<exists>ret s'. lio_write_buffer pipe 5 0 [1, 2, 3, 4, 5] 5 0 0 0 (lio0 ([9], [0, 3, 0, 2])) = Some (ret, s') \<and>
    fst (l_world s') = [9, 1, 2, 3, 4, 5] \<and> 0 < ret"
  using lio_write_delivers [OF pipe_accepts, where s = "lio0 ([9], [0, 3, 0, 2])" and m = 0 and sz = 5
      and buf = "[1, 2, 3, 4, 5]" and fd = 5 and sig = 0 and ?lr1.0 = 0 and ?lr2.0 = 0]
  by (auto simp: has_def lio0_def numeral_eq_Suc)

text \<open>There the result is 2, with five bytes written.\<close>

lemma lio_write_last_piece:
  "map_option (\<lambda>(ret, s). (ret, fst (l_world s))) (lio_write_buffer pipe 5 0 [1, 2, 3, 4, 5] 5 0 0 0 (lio0 ([9], [0, 3, 0, 2]))) =
    Some (2, [9, 1, 2, 3, 4, 5])"
  by code_simp

section \<open>Reading\<close>

lemma delivers_read:
  assumes "delivers sys rest stalls" "0 < n" "sys_read sys n w = (r, w')"
  shows "case r of Inl e \<Rightarrow> e \<in> {EAGAIN, EINTR} \<and> rest w' = rest w \<and> stalls (sys_select sys True w') < stalls w
      | Inr xs \<Rightarrow> int (length xs) \<le> n \<and> rest w = xs @ rest w' \<and> (xs = [] \<longrightarrow> rest w = [])"
  using assms unfolding delivers_def by blast

lemma delivers_rest:
  assumes "delivers sys rest stalls"
  shows "rest (sys_select sys True w) = rest w" "rest (sys_sigset sys sig w) = rest w" "rest (snd (sys_lseek sys w)) = rest w"
  using assms unfolding delivers_def by blast+

text \<open>A buffer in which \<open>xs\<close> has been stored from the start.\<close>

definition stored :: "byte list \<Rightarrow> byte list \<Rightarrow> byte list" where
  "stored xs buf = xs @ drop (length xs) buf"

lemma wr_block_stored:
  assumes "length xs + length ys \<le> length buf"
  shows "wr_block (stored xs buf) (int (length xs)) ys = Some (stored (xs @ ys) buf)"
  using assms by (simp add: stored_def wr_block_append ac_simps)

lemma length_stored [simp]: "length xs \<le> length buf \<Longrightarrow> length (stored xs buf) = length buf"
  by (simp add: stored_def)

declare read_loop.simps [code]

lemma read_loop_delivers:
  assumes "delivers sys rest stalls"
  shows "0 < sz \<Longrightarrow> int (length xs) + sz \<le> int (length buf) \<Longrightarrow>
    \<exists>ret s'. read_loop sys (stored xs buf) (int (length xs)) sz s =
        Some (ret, stored (xs @ take (nat sz) (rest (l_world s))) buf, s') \<and>
      rest (l_world s') = drop (nat sz) (rest (l_world s)) \<and>
      (if int (length (rest (l_world s))) < sz then ret = 0 else 0 < ret \<and> ret \<le> sz)"
proof (induction "(nat sz, stalls (l_world s))" arbitrary: xs sz s rule: wf_induct_rule [OF wf_lex_prod [OF wf_less_than wf_less_than]])
  case (1 sz s xs)
  obtain r w where w: "sys_read sys sz (l_world s) = (r, w)" by (cases "sys_read sys sz (l_world s)")
  note law = delivers_read [OF assms "1.prems"(1) w]
  show ?case
  proof (cases r)
    case (Inl e)
    let ?s = "wait4sync_io sys True (s\<lparr>l_errno := e, l_world := w\<rparr>)"
    have e: "e \<in> {EAGAIN, EINTR}" "rest (sys_select sys True w) = rest (l_world s)"
        "stalls (sys_select sys True w) < stalls (l_world s)"
      using law Inl delivers_rest [OF assms] by simp_all
    have "read_loop sys (stored xs buf) (int (length xs)) sz s = read_loop sys (stored xs buf) (int (length xs)) sz ?s"
      using e(1) "1.prems" wr_block_stored [of xs "[]" buf]
      by (subst read_loop.simps) (auto simp: w Inl datret_def c_simps)
    with "1.hyps" [of sz ?s xs] "1.prems" e(2,3) show ?thesis
      by (simp add: wait4sync_io_def wdo_def)
  next
    case (Inr ys)
    have y: "int (length ys) \<le> sz" "rest (l_world s) = ys @ rest w" "ys = [] \<Longrightarrow> rest (l_world s) = []"
      using law Inr by auto
    have st: "wr_block (stored xs buf) (int (length xs)) ys = Some (stored (xs @ ys) buf)"
      using wr_block_stored [of xs ys buf] y(1) "1.prems" by simp
    consider "ys = []" | "ys \<noteq> []" "int (length ys) = sz" | "ys \<noteq> []" "int (length ys) < sz" using y(1) by linarith
    then show ?thesis
    proof cases
      case 1
      with st y "1.prems" w Inr show ?thesis
        by (subst read_loop.simps) (auto simp: datret_def c_simps)
    next
      case 2
      with st y "1.prems" w Inr show ?thesis
        by (subst read_loop.simps) (auto simp: datret_def c_simps)
    next
      case 3
      let ?n = "int (length ys)"
      let ?s = "wait4sync_io sys True (s\<lparr>l_world := w, Errormsg := Some (Short_call ''read'' sz ?n)\<rparr>)"
      have "read_loop sys (stored xs buf) (int (length xs)) sz s =
          read_loop sys (stored (xs @ ys) buf) (int (length (xs @ ys))) (sz - ?n) ?s"
        using 3 st "1.prems" by (subst read_loop.simps) (simp add: datret_def c_simps w Inr)
      moreover have "rest (l_world ?s) = rest w" using delivers_rest [OF assms] by (simp add: wait4sync_io_def wdo_def)
      moreover have m: "((nat (sz - ?n), stalls (l_world ?s)), (nat sz, stalls (l_world s))) \<in> less_than <*lex*> less_than"
        using 3 by simp
      moreover have "0 < sz - ?n" "int (length (xs @ ys)) + (sz - ?n) \<le> int (length buf)" using 3 "1.prems" by auto
      from "1.hyps" [OF m this] obtain ret s' where
        "read_loop sys (stored (xs @ ys) buf) (int (length (xs @ ys))) (sz - ?n) ?s =
          Some (ret, stored ((xs @ ys) @ take (nat (sz - ?n)) (rest (l_world ?s))) buf, s')"
        "rest (l_world s') = drop (nat (sz - ?n)) (rest (l_world ?s))"
        "if int (length (rest (l_world ?s))) < sz - ?n then ret = 0 else 0 < ret \<and> ret \<le> sz - ?n"
        by blast
      moreover have "nat (sz - ?n) = nat sz - length ys" by (simp add: nat_diff_distrib')
      ultimately show ?thesis
        using 3 y(2) by (auto split: if_splits)
    qed
  qed
qed

lemma pipe_delivers: "delivers pipe fst (\<lambda>w. length (snd w))"
  by (auto simp: delivers_def pipe_def pipe_read_def min_def split: list.splits if_splits prod.splits)

lemma lio_read_pieces:
  assumes "delivers sys rest stalls" "can_seek sys (l_world s)"
    "has m LIO_IO_SYNC \<or> \<not> has m (LIO_IO_TYPES OR LIO_IO_ATYPES)" "\<not> has m LIO_RANDOM"
    "0 < sz" "sz \<le> int (length buf)"
  shows "\<exists>ret s'. lio_read_buffer sys fd m buf sz sig lr1 lr2 s = Some (ret, stored (take (nat sz) (rest (l_world s))) buf, s') \<and>
    rest (l_world s') = drop (nat sz) (rest (l_world s)) \<and>
    (if int (length (rest (l_world s))) < sz then ret = 0 else 0 < ret \<and> ret \<le> sz)"
proof -
  obtain sig' cb pos s1 where b: "lio_begin sys m buf sz sig lr1 lr2 s = Some (Inr (m, sig', cb, pos), s1)"
    "l_world s1 = snd (sys_lseek sys (l_world s)) \<or> (\<exists>sg. l_world s1 = sys_sigset sys sg (snd (sys_lseek sys (l_world s))))"
    "Errormsg s1 = Errormsg s"
    using lio_begin_seekable [OF assms(2,4)] by blast
  have c: "rest (l_world s1) = rest (l_world s)" using b(2) delivers_rest [OF assms(1)] by auto
  let ?s = "s1\<lparr>Lio_SysCall := ''read('' @ num fd @ '', buf, '' @ num sz @ '')''\<rparr>"
  have w: "lio_read_buffer sys fd m buf sz sig lr1 lr2 s = read_loop sys buf 0 sz ?s"
    using assms(3) by (simp add: lio_read_buffer_def b(1) lio_read_sync_def)
  show ?thesis unfolding w
    using read_loop_delivers [OF assms(1,5), of "[]" buf ?s] assms(6) c by (simp add: stored_def)
qed

text \<open>C16: reading with \<open>read\<close> from any descriptor that gives its bytes in pieces stores them in order, as many as were
asked for or as there are.  The return value says neither: it is 0 whenever there were fewer bytes than asked for,
however many have been stored, and else that of the last piece.\<close>

theorem lio_read_delivers:
  assumes "delivers sys rest stalls" "can_seek sys (l_world s)"
    "has m LIO_IO_SYNC \<or> \<not> has m (LIO_IO_TYPES OR LIO_IO_ATYPES)" "\<not> has m LIO_RANDOM"
    "0 < sz" "sz \<le> int (length buf)"
  shows "\<exists>ret s'. lio_read_buffer sys fd m buf sz sig lr1 lr2 s = Some (ret, stored (take (nat sz) (rest (l_world s))) buf, s') \<and>
    rest (l_world s') = drop (nat sz) (rest (l_world s)) \<and>
    (if int (length (rest (l_world s))) < sz then ret = 0 else 0 < ret \<and> ret \<le> sz)"
  by (rule lio_read_pieces [OF assms])

lemma lio_read_delivers_witness:
  "\<exists>s'. lio_read_buffer pipe 5 0 [0, 0, 0, 0, 0] 5 0 0 0 (lio0 ([9, 8, 7], [0, 2])) = Some (0, [9, 8, 7, 0, 0], s')"
  using lio_read_delivers [OF pipe_delivers pipe_can_seek, where s = "lio0 ([9, 8, 7], [0, 2])" and m = 0 and sz = 5
      and buf = "[0, 0, 0, 0, 0]" and fd = 5 and sig = 0 and ?lr1.0 = 0 and ?lr2.0 = 0]
  by (auto simp: has_def lio0_def numeral_eq_Suc stored_def)

section \<open>Which methods are used\<close>

lemma random_bit_Some:
  fixes m :: mword
  assumes "m \<noteq> 0" "0 \<le> lr"
  obtains k where "k \<in> set (ones m 0)" "random_bit m lr = Some (push_bit k 1)"
proof -
  have "int LENGTH(32) < INT_MAX" by (simp add: INT_MAX_def)
  note r = random_bit_ones [OF assms(1) this assms(2)]
  have "ones m 0 ! nat (lr mod int (length (ones m 0))) \<in> set (ones m 0)" using r(2) by (intro nth_mem) (simp add: nat_less_iff)
  with r(1) that show thesis by blast
qed

lemma ones_types: "ones (0x31 :: mword) 0 = [0, 4, 5]" "ones (0x2000 :: mword) 0 = [13]"
  by code_simp+

text \<open>The two random methods of the table: one of three I/O types, and the only wait type that is not asynchronous;
the asynchronous types are not chosen from but kept.\<close>

lemma random_types:
  assumes "0 \<le> lr1" "0 \<le> lr2"
  shows "\<exists>b \<in> {LIO_IO_SYNC, LIO_IO_SYNCV, LIO_IO_SYNCP}. lio_random_methods lr1 lr2 (lio_parse_io_arg1 ''r'') = Some (b OR LIO_WAIT_ACTIVE)"
    "\<exists>b \<in> {LIO_IO_SYNC, LIO_IO_SYNCV, LIO_IO_SYNCP}. lio_random_methods lr1 lr2 (lio_parse_io_arg1 ''R'') =
      Some (b OR LIO_IO_ASYNC OR LIO_IO_SLISTIO OR LIO_IO_ALISTIO OR LIO_WAIT_ATYPES)"
proof -
  obtain k where k: "k \<in> set (ones (0x31 :: mword) 0)" "random_bit (0x31 :: mword) lr1 = Some (push_bit k 1)"
    using random_bit_Some [where m = "0x31" and lr = lr1] assms(1) by auto
  obtain j where j: "j \<in> set (ones (0x2000 :: mword) 0)" "random_bit (0x2000 :: mword) lr2 = Some (push_bit j 1)"
    using random_bit_Some [where m = "0x2000" and lr = lr2] assms(2) by auto
  have m: "lio_parse_io_arg1 ''r'' = 0x202031" "lio_parse_io_arg1 ''R'' = 0x27E03F" by code_simp+
  have "k = 0 \<or> k = 4 \<or> k = 5" "j = 13" using k(1) j(1) by (simp_all add: ones_types)
  with k(2) j(2) show "\<exists>b \<in> {LIO_IO_SYNC, LIO_IO_SYNCV, LIO_IO_SYNCP}. lio_random_methods lr1 lr2 (lio_parse_io_arg1 ''r'') = Some (b OR LIO_WAIT_ACTIVE)"
    "\<exists>b \<in> {LIO_IO_SYNC, LIO_IO_SYNCV, LIO_IO_SYNCP}. lio_random_methods lr1 lr2 (lio_parse_io_arg1 ''R'') =
      Some (b OR LIO_IO_ASYNC OR LIO_IO_SLISTIO OR LIO_IO_ALISTIO OR LIO_WAIT_ATYPES)"
    by (auto simp: m lio_random_methods_def lio_bits)
qed

lemma lio_begin_chosen:
  assumes "(if has om LIO_RANDOM then lio_random_methods lr1 lr2 om else Some om) = Some m"
    "sys_lseek sys (l_world s) = (Inr off, w)" "to_c_int off \<noteq> - 1"
  obtains sig' cb pos s' where "lio_begin sys om buf sz sig lr1 lr2 s = Some (Inr (m, sig', cb, pos), s')"
proof -
  let ?s = "s\<lparr>Rec_signal := Received_signal s, Rec_callback := Received_callback s, l_world := w\<rparr>"
  let ?cb = "\<lparr>aio_nbytes = sz, aio_buf = buf, aio_offset = to_c_int off, aio_lio_opcode = LIO_READ, sigev_notify = SIGEV_NONE, sigev_signo = 0\<rparr>"
  obtain cb s' where "set_notify sys m (used_signal m sig) ?cb ?s = (cb, s')" by fastforce
  with assms have "lio_begin sys om buf sz sig lr1 lr2 s = Some (Inr (m, used_signal m sig, cb, to_c_int off), s')"
    by (simp add: lio_begin_def sysret_def Let_def)
  with that show thesis .
qed

text \<open>The method \<open>R\<close>, documented as a random choice among all I/O types, never uses list I/O, vectored or positioned
I/O: every call is a plain \<open>write\<close> or an \<open>aio_write\<close>, and likewise for reading.\<close>

theorem lio_random_never_lists:
  assumes "0 \<le> lr1" "0 \<le> lr2" "sys_lseek sys (l_world s) = (Inr off, w)" "to_c_int off \<noteq> - 1"
  shows "\<exists>sig' cb m s'.
    lio_write_buffer sys fd (lio_parse_io_arg1 ''R'') buf sz sig lr1 lr2 s \<in>
      {lio_write_sync sys fd buf sz s', lio_write_async sys fd sz sig' cb m s'} \<and>
    lio_read_buffer sys fd (lio_parse_io_arg1 ''R'') buf sz sig lr1 lr2 s \<in>
      {lio_read_sync sys fd buf sz s', lio_read_async sys fd buf sz sig' cb m s'}"
proof -
  obtain b where b: "b \<in> {LIO_IO_SYNC, LIO_IO_SYNCV, LIO_IO_SYNCP}" and
      r: "lio_random_methods lr1 lr2 (lio_parse_io_arg1 ''R'') =
        Some (b OR LIO_IO_ASYNC OR LIO_IO_SLISTIO OR LIO_IO_ALISTIO OR LIO_WAIT_ATYPES)"
    using random_types(2) [OF assms(1,2)] by blast
  let ?m = "b OR LIO_IO_ASYNC OR LIO_IO_SLISTIO OR LIO_IO_ALISTIO OR LIO_WAIT_ATYPES"
  have "has (lio_parse_io_arg1 ''R'') LIO_RANDOM" by code_simp
  with r have "(if has (lio_parse_io_arg1 ''R'') LIO_RANDOM then lio_random_methods lr1 lr2 (lio_parse_io_arg1 ''R'')
      else Some (lio_parse_io_arg1 ''R'')) = Some ?m" by simp
  from lio_begin_chosen [OF this assms(3,4)]
  obtain sig' cb pos s' where g: "lio_begin sys (lio_parse_io_arg1 ''R'') buf sz sig lr1 lr2 s = Some (Inr (?m, sig', cb, pos), s')" .
  have "has ?m (LIO_IO_TYPES OR LIO_IO_ATYPES)" "has ?m LIO_IO_ASYNC"
    using b by (auto simp: has_def lio_bits)
  then show ?thesis
    by (intro exI [of _ sig'] exI [of _ cb] exI [of _ ?m] exI [of _ s'])
      (simp add: lio_write_buffer_def lio_read_buffer_def g)
qed

text \<open>C17: every letter that \<open>lio_parse_io_arg1\<close> accepts gives, after the random choice if it asks for one, a method that
\<open>lio_write_buffer\<close> and \<open>lio_read_buffer\<close> implement: it names an I/O type, for asynchronous I/O also a way to wait, and
nothing else.\<close>

theorem lio_methods_typed:
  assumes "lio_parse_io_arg1 t = m" "m \<noteq> - 1" "0 \<le> lr1" "0 \<le> lr2"
  shows "\<exists>m'. (if has m LIO_RANDOM then lio_random_methods lr1 lr2 m else Some m) = Some m' \<and>
    has m' LIO_IO_ATYPES \<and> (has m' (LIO_IO_ASYNC OR LIO_IO_ALISTIO) \<longrightarrow> has m' LIO_WAIT_ATYPES) \<and>
    m' AND NOT (LIO_IO_ATYPES OR LIO_WAIT_ATYPES) = 0"
proof -
  have "t \<in> set (map token Lio_info1)"
    using assms(1,2) by (auto simp: lio_parse_io_arg1_def lookup_token_def find_Some_iff split: option.splits intro!: imageI nth_mem)
  then consider "t = ''r''" | "t = ''R''" | "t \<in> {''s'', ''p'', ''b'', ''a'', ''l'', ''L'', ''X'', ''v'', ''P''}"
    by (auto simp: Lio_info1_def)
  then show ?thesis
  proof cases
    case 1
    have "has (lio_parse_io_arg1 ''r'') LIO_RANDOM" by code_simp
    with 1 random_types(1) [OF assms(3,4)] assms(1) show ?thesis by (auto simp: has_def lio_bits)
  next
    case 2
    have "has (lio_parse_io_arg1 ''R'') LIO_RANDOM" by code_simp
    with 2 random_types(2) [OF assms(3,4)] assms(1) show ?thesis by (auto simp: has_def lio_bits)
  next
    case 3
    have "\<forall>t \<in> set [''s'', ''p'', ''b'', ''a'', ''l'', ''L'', ''X'', ''v'', ''P'']. (let m = lio_parse_io_arg1 t in
        \<not> has m LIO_RANDOM \<and> has m LIO_IO_ATYPES \<and> (has m (LIO_IO_ASYNC OR LIO_IO_ALISTIO) \<longrightarrow> has m LIO_WAIT_ATYPES) \<and>
        m AND NOT (LIO_IO_ATYPES OR LIO_WAIT_ATYPES) = 0)" by code_simp
    with 3 assms(1) show ?thesis by (auto simp: Let_def)
  qed
qed

text \<open>A file of which the position is known.\<close>

definition disk :: "(byte list \<times> nat list) lsys" where "disk = pipe\<lparr>sys_lseek := Pair (Inr 0)\<rparr>"

lemma lio_random_never_lists_witness:
  "\<exists>sig' cb m s'.
    lio_write_buffer disk 5 (lio_parse_io_arg1 ''R'') [1, 2] 2 0 7 8 (lio0 ([], [])) \<in>
      {lio_write_sync disk 5 [1, 2] 2 s', lio_write_async disk 5 2 sig' cb m s'}"
proof -
  have "to_c_int 0 \<noteq> - 1" by (simp add: to_c_int_def)
  with lio_random_never_lists [of 7 8 disk "lio0 ([], [])" 0 "([], [])" 5 "[1, 2]" 2 0] show ?thesis
    by (auto simp: disk_def lio0_def)
qed

lemma lio_methods_typed_witness:
  "\<exists>m'. lio_random_methods 5 6 (lio_parse_io_arg1 ''R'') = Some m' \<and> has m' LIO_IO_ATYPES"
proof -
  have "lio_parse_io_arg1 ''R'' \<noteq> - 1" "has (lio_parse_io_arg1 ''R'') LIO_RANDOM" by code_simp+
  then show ?thesis using lio_methods_typed [of "''R''" "lio_parse_io_arg1 ''R''" 5 6] by auto
qed

section \<open>Waiting\<close>

lemma has_OR [simp]: "has m (a OR b) \<longleftrightarrow> has m a \<or> has m b"
  by (auto simp: has_def bit.conj_disj_distrib or_eq_0_iff)

text \<open>C40: the library never waits for a signal: with \<open>LIO_WAIT_TYPES\<close> as it is on Linux the branches for \<open>pause\<close>, for
spinning until a signal has come and for not waiting cannot be reached, and the methods documented so wait with
\<open>aio_suspend\<close>.  Only \<open>active\<close> without \<open>recall\<close> polls the request.\<close>

theorem lio_wait_by_suspension:
  "lio_wait4asyncio sys m cb s =
    (if has m LIO_WAIT_ACTIVE \<and> \<not> has m (LIO_WAIT_RECALL OR LIO_WAIT_CBSUSPEND OR LIO_WAIT_SIGSUSPEND)
     then error_loop sys 0 (l_world s) \<bind> (\<lambda>(ret, cnt, w). Some (0, s\<lparr>l_world := w\<rparr>))
     else Some (aio_suspend_wait sys cb s)) \<and>
   lio_wait4asyncio sys (lio_parse_io_arg1 ''p'') cb s = Some (aio_suspend_wait sys cb s) \<and>
   lio_wait4asyncio sys (lio_parse_io_arg1 ''b'') cb s = Some (aio_suspend_wait sys cb s) \<and>
   lio_wait4asyncio sys (lio_parse_io_arg1 ''X'') cb s = Some (aio_suspend_wait sys cb s)"
proof -
  have t: "LIO_WAIT_TYPES = LIO_WAIT_ACTIVE" by (simp add: lio_bits)
  have "\<not> has (lio_parse_io_arg1 ''p'') LIO_WAIT_ACTIVE" "\<not> has (lio_parse_io_arg1 ''b'') LIO_WAIT_ACTIVE"
    "\<not> has (lio_parse_io_arg1 ''X'') LIO_WAIT_ACTIVE" by code_simp+
  then show ?thesis by (auto simp: lio_wait4asyncio_def t)
qed

text \<open>When \<open>aio_suspend\<close> is interrupted by the signal of the request, the request may still be in progress; if it then
succeeds, the result is 0, not the number of bytes.\<close>

lemma check_after_interrupt:
  assumes "sigev_notify cb = SIGEV_NONE" "sys_aio_error sys (l_world s) = (EINPROGRESS, w1)" "sys_aio_error sys w1 = (0, w2)"
  shows "lio_check_asyncio sys io_type sz cb m s =
    Some (0, s\<lparr>l_world := w2, Errormsg := Some (Looped io_type 2 m SIGEV_NONE)\<rparr>)"
proof -
  have "error_loop sys 1 (l_world s) = Some (0, 2, w2)"
    using assms(2,3) by (subst error_loop.simps, subst error_loop.simps) (simp add: EINPROGRESS_def)
  with assms(1) show ?thesis by (simp add: lio_check_asyncio_def)
qed

text \<open>A signal that is handed over with \<open>LIO_USE_SIGNAL\<close> and without one of the signal wait methods is held by
\<open>lio_submit\<close> and not released at the end: the request does not carry it.\<close>

lemma signal_stays_held:
  assumes "sigev_notify cb = SIGEV_NONE" "sig \<noteq> 0" "0 \<le> aio_nbytes cb" "aio_nbytes cb \<le> int (length (aio_buf cb))"
    "f cb (sys_sighold sys sig (l_world s)) = (Inr 0, w)" "sys_aio_suspend sys w = (Inr 0, w')" "sys_aio_error sys w' = (0, w')"
    "sys_aio_return sys w' = (sz, w')" "\<not> has m LIO_WAIT_ACTIVE"
  shows "\<exists>s'. lio_submit sys call f sig cb s = Some (None, s') \<and>
    lio_async_end sys io_type sz cb m s' = Some (sz, s'\<lparr>l_world := w'\<rparr>)"
proof -
  let ?s = "s\<lparr>l_world := w\<rparr>"
  have t: "LIO_WAIT_TYPES = LIO_WAIT_ACTIVE" by (simp add: lio_bits)
  have "lio_submit sys call f sig cb s = Some (None, ?s)"
    using assms(2-5) by (simp add: lio_submit_def chk_def sysret_def wdo_def)
  moreover have "lio_wait4asyncio sys m cb ?s = Some (0, ?s\<lparr>l_world := w'\<rparr>)"
    using assms(6,9) by (simp add: lio_wait4asyncio_def t aio_suspend_wait_def sysret_def)
  moreover have "error_loop sys 1 w' = Some (0, 1, w')"
    using assms(7) by (subst error_loop.simps) (simp add: EINPROGRESS_def)
  ultimately show ?thesis
    using assms(1,8) by (simp add: lio_async_end_def lio_check_asyncio_def)
qed

section \<open>Method names\<close>

text \<open>A list of names of the second table, separated by commas, is read as the union of their bits.\<close>

lemma Lio_info2_names:
  assumes "t \<in> set (map token Lio_info2)"
  shows "CHR '','' \<notin> set t" "token_bits t = Some (Some (the (lookup_token Lio_info2 t)))"
proof -
  have "\<forall>t \<in> set (map token Lio_info2). CHR '','' \<notin> set t \<and> lookup_token Lio_info2 t \<noteq> None" by code_simp
  with assms show "CHR '','' \<notin> set t" "token_bits t = Some (Some (the (lookup_token Lio_info2 t)))"
    by (auto simp: token_bits_def)
qed

lemma parse_tokens2_names:
  assumes "ts \<noteq> []" "\<forall>t \<in> set ts. t \<in> set (map token Lio_info2)"
  shows "parse_tokens2 (comma_list ts) m = Some (fold (\<lambda>t m. m OR the (lookup_token Lio_info2 t)) ts m, None)"
  using assms
proof (induction ts arbitrary: m rule: comma_list.induct)
  case (2 x)
  then have "x \<in> set (map token Lio_info2)" by simp
  note x = Lio_info2_names [OF this]
  show ?case by (subst parse_tokens2.simps) (simp add: until_comma [OF x(1)] x(2))
next
  case (3 x y ys)
  then have "x \<in> set (map token Lio_info2)" by simp
  note x = Lio_info2_names [OF this]
  show ?case using 3 by (subst parse_tokens2.simps) (simp add: until_comma [OF x(1)] x(2))
qed simp

section \<open>Strides\<close>

text \<open>A strided request needs exactly the bytes from its first to its last, and each of its pieces lies between them
(here for strides that do not overflow).\<close>

lemma stride_bounds_cover:
  assumes "stride_bounds offset stride nstrides bytes = Some (nbytes, Some (lo, hi))" "0 < nstrides" "0 < bytes"
  shows "nbytes = hi - lo + 1"
    "0 \<le> i \<Longrightarrow> i < nstrides \<Longrightarrow> lo \<le> offset + i * (if stride = 0 then bytes else stride) \<and>
      offset + i * (if stride = 0 then bytes else stride) + bytes - 1 \<le> hi"
proof -
  obtain st where st: "st = (if stride = 0 then bytes else stride)" by simp
  have b: "nbytes = \<bar>st\<bar> * (nstrides - 1) + bytes"
    "(lo, hi) = (if st < 0 then (offset + bytes - nbytes, offset + bytes - 1) else (offset, offset + nbytes - 1))"
    using assms by (auto simp: stride_bounds_def c_simps Let_def st split: if_splits)
  then show "nbytes = hi - lo + 1" by (auto split: if_splits)
  assume i: "0 \<le> i" "i < nstrides"
  show "lo \<le> offset + i * (if stride = 0 then bytes else stride) \<and>
      offset + i * (if stride = 0 then bytes else stride) + bytes - 1 \<le> hi"
  proof (cases "st < 0")
    case True
    have "st * (nstrides - 1) \<le> st * i" "st * i \<le> st * 0" using i True by (intro mult_left_mono_neg; simp)+
    with True b show ?thesis by (simp add: st [symmetric] mult.commute [of i])
  next
    case False
    have "st * i \<le> st * (nstrides - 1)" "st * 0 \<le> st * i" using i False by (intro mult_left_mono; simp)+
    moreover have "nbytes = st * (nstrides - 1) + bytes" "lo = offset" "hi = offset + nbytes - 1" using False b by simp_all
    ultimately show ?thesis unfolding st [symmetric] mult.commute [of i] by linarith
  qed
qed

end
