(* ===== verification/Hooks.thy ===== *)
theory Hooks
imports ParseProps
begin

text \<open>\<open>TEST_PAUSE\<close>: \<open>usc_global_setup_hook\<close> of \<open>ltp_framework/lib/parse_opts.c\<close>, with \<open>TEST_PAUSEF\<close> of \<open>usctest.h\<close>, and
\<open>get_high_address.c\<close>, over what they see and change of the process: the disposition of SIGUSR1 and the program break.

The kernel decides where the break may be (\<open>can\<close>) and when SIGUSR1 arrives (\<open>arr\<close>).  The system testing hooks end in
one theorem, from the variables of the environment to the break after the last iteration of a test.\<close>

section \<open>The process\<close>

datatype usr1 = Usr1_default | Usr1_ignored | STD_go | Usr1_function nat

definition catches :: "usr1 \<Rightarrow> bool" where
  "catches h \<longleftrightarrow> h \<noteq> Usr1_default \<and> h \<noteq> Usr1_ignored"

text \<open>\<open>p_caught\<close>: the functions that SIGUSR1 has called, the first one first.\<close>

record proc =
  p_usr1 :: usr1
  p_caught :: "usr1 list"
  p_break :: int
  STD_start_break :: int

text \<open>\<open>sbrk\<close>: the break before the call, or -1.\<close>

definition sbrk :: "(int \<Rightarrow> bool) \<Rightarrow> int \<Rightarrow> proc \<Rightarrow> int \<times> proc" where
  "sbrk can k p = (if k = 0 then (p_break p, p)
     else if can (p_break p + k) then (p_break p, p\<lparr>p_break := p_break p + k\<rparr>) else (- 1, p))"

definition get_high_address :: "(int \<Rightarrow> bool) \<Rightarrow> int \<Rightarrow> proc \<Rightarrow> int \<times> proc" where
  "get_high_address can pagesize p = (case sbrk can 0 p of (a, p) \<Rightarrow> (a + 4 * pagesize, p))"

text \<open>\<open>signal(SIGUSR1, h)\<close> returns the old disposition.  A SIGUSR1 ends the process, is ignored or calls a function.\<close>

definition signal_usr1 :: "usr1 \<Rightarrow> proc \<Rightarrow> usr1 \<times> proc" where
  "signal_usr1 h p = (p_usr1 p, p\<lparr>p_usr1 := h\<rparr>)"

definition deliver :: "proc \<Rightarrow> proc option" where
  "deliver p = (if p_usr1 p = Usr1_default then None
     else Some (if catches (p_usr1 p) then p\<lparr>p_caught := p_caught p @ [p_usr1 p]\<rparr> else p))"

section \<open>Waiting for SIGUSR1\<close>

text \<open>When the one signal arrives: before \<open>signal\<close>, between \<open>signal\<close> and \<open>pause\<close>, in \<open>pause\<close>, or never.\<close>

datatype arrival = Before_signal | Before_pause | In_pause | Never

text \<open>\<open>pause\<close> returns when the signal arrives in it and calls a function.\<close>

definition pause_for :: "arrival \<Rightarrow> proc \<Rightarrow> proc option" where
  "pause_for arr p = do {
     chk (arr = In_pause);
     chk (catches (p_usr1 p));
     deliver p
   }"

definition TEST_PAUSEF :: "usr1 \<Rightarrow> arrival \<Rightarrow> std \<Rightarrow> proc \<Rightarrow> proc option" where
  "TEST_PAUSEF h arr s p = (if STD_PAUSE s then do {
       p \<leftarrow> (if arr = Before_signal then deliver p else Some p);
       let (old, p) = signal_usr1 h p;
       p \<leftarrow> (if arr = Before_pause then deliver p else Some p);
       p \<leftarrow> pause_for arr p;
       Some (snd (signal_usr1 old p))
     } else Some p)"

section \<open>usc_global_setup_hook\<close>

text \<open>The calls of \<open>fork\<close> this process makes, the pause with \<open>STD_go\<close>, and the growth of the break.\<close>

definition usc_global_setup_hook :: "(int \<Rightarrow> int) \<Rightarrow> arrival \<Rightarrow> (int \<Rightarrow> bool) \<Rightarrow> std \<Rightarrow> proc \<Rightarrow> (int list \<times> proc) option" where
  "usc_global_setup_hook fork arr can s p = do {
     let forks = fork_loop fork (STD_COPIES s) 1;
     p \<leftarrow> TEST_PAUSEF STD_go arr s p;
     let p = (if STD_TP_sbrk s \<noteq> 0 \<or> STD_LP_sbrk s \<noteq> 0
       then (case sbrk can 0 p of (a, p) \<Rightarrow> p\<lparr>STD_start_break := a\<rparr>) else p);
     let p = (if STD_TP_sbrk s \<noteq> 0 then snd (sbrk can (STD_TP_sbrk s) p) else p);
     Some (forks, p)
   }"

text \<open>What the calls of \<open>sbrk\<close> by \<open>usc_test_looping\<close> do to the process.\<close>

definition grown :: "(int \<Rightarrow> bool) \<Rightarrow> looping \<Rightarrow> proc \<Rightarrow> proc" where
  "grown can l p = fold (\<lambda>k p. snd (sbrk can k p)) (lp_sbrks l) p"

section \<open>The pause\<close>

lemma TEST_PAUSEF_outcome:
  assumes "STD_PAUSE s" "catches h"
  shows "TEST_PAUSEF h arr s p = (if arr = In_pause then Some (p\<lparr>p_caught := p_caught p @ [h]\<rparr>) else None)"
  using assms by (cases p; cases arr)
    (auto simp: TEST_PAUSEF_def signal_usr1_def deliver_def pause_for_def catches_def c_simps bind_eq_None_conv)

lemma setup_hook_frame:
  assumes "usc_global_setup_hook fork arr can s p = Some (forks, p')"
  shows "p_usr1 p' = p_usr1 p" "p_caught p' = p_caught p @ (if STD_PAUSE s then [STD_go] else [])"
    "forks = fork_loop fork (STD_COPIES s) 1"
proof -
  have f: "TEST_PAUSEF STD_go arr s p = (if STD_PAUSE s \<and> arr \<noteq> In_pause then None
      else Some (p\<lparr>p_caught := p_caught p @ (if STD_PAUSE s then [STD_go] else [])\<rparr>))"
    using TEST_PAUSEF_outcome [of s STD_go arr p] by (cases "STD_PAUSE s") (auto simp: TEST_PAUSEF_def catches_def)
  from assms show "p_usr1 p' = p_usr1 p" "p_caught p' = p_caught p @ (if STD_PAUSE s then [STD_go] else [])"
      "forks = fork_loop fork (STD_COPIES s) 1"
    by (auto simp: usc_global_setup_hook_def f Let_def sbrk_def split: if_splits)
qed

section \<open>The break\<close>

text \<open>On a kernel that lets the break be anywhere up to a limit (RLIMIT_DATA): how far \<open>n\<close> calls of \<open>sbrk(b)\<close> get.\<close>

definition up_to :: "int \<Rightarrow> int \<Rightarrow> bool" where
  "up_to lim a \<longleftrightarrow> a \<le> lim"

lemma grow_steps:
  assumes "0 < b" "p_break p \<le> lim"
  shows "p_break (fold (\<lambda>k p. snd (sbrk (up_to lim) k p)) (replicate n b) p) =
    p_break p + b * min (int n) ((lim - p_break p) div b)"
  using assms(2)
proof (induction n arbitrary: p)
  case 0
  then show ?case using assms(1) by (simp add: pos_imp_zdiv_nonneg_iff)
next
  case (Suc n)
  let ?q = "(lim - p_break p) div b"
  show ?case
  proof (cases "p_break p + b \<le> lim")
    case True
    have "(lim - (p_break p + b)) div b = ?q - 1"
      using assms(1) div_add_self2 [of b "lim - p_break p - b"] by (simp add: algebra_simps)
    moreover have "min (int (Suc n)) ?q = min (int n) (?q - 1) + 1" by simp
    ultimately show ?thesis
      using Suc.IH [of "p\<lparr>p_break := p_break p + b\<rparr>"] True assms(1)
      by (simp add: sbrk_def up_to_def distrib_left)
  next
    case False
    then have "?q = 0" using Suc.prems by simp
    then show ?thesis using Suc.IH [OF Suc.prems] False assms(1) by (simp add: sbrk_def up_to_def)
  qed
qed

section \<open>From the environment to the break\<close>

text \<open>An environment in which at most the two variables of the break are set; what \<open>parse_opts\<close> makes of one.\<close>

definition sbrk_env :: "penv \<Rightarrow> string option \<Rightarrow> string option \<Rightarrow> bool" where
  "sbrk_env e tp lp \<longleftrightarrow> getenv e = (\<lambda>_. None)(''USC_TP_SBRK'' := tp, ''USC_LP_SBRK'' := lp) \<and> malloc_ok e"

definition increment :: "string option \<Rightarrow> int" where
  "increment v = (case Option.bind v sscanf_i of Some k \<Rightarrow> if k \<ge> 0 then k else 0 | None \<Rightarrow> 0)"

lemma increment_nonneg [simp]: "0 \<le> increment v"
  by (simp add: increment_def split: option.split)

text \<open>The text is no number, or one that an int can hold.\<close>

definition int_text :: "string option \<Rightarrow> bool" where
  "int_text v \<longleftrightarrow> (case Option.bind v sscanf_i of Some k \<Rightarrow> fits_int k | None \<Rightarrow> True)"

lemma env_nonneg_unset [simp]: "getenv e name = None \<Longrightarrow> env_nonneg e name put s = Some s"
  by (simp add: env_nonneg_def env_i_def)

lemma env_nonneg_increment:
  assumes "int_text (getenv e name)" "put 0 s = s"
  shows "env_nonneg e name put s = Some (put (increment (getenv e name)) s)"
  using assms by (auto simp: env_nonneg_def env_i_def increment_def int_text_def c_simps split: option.splits)

lemma parse_env_sbrk:
  assumes "sbrk_env e tp lp" "int_text tp" "int_text lp" "STD_TP_sbrk s = 0" "STD_LP_sbrk s = 0"
  shows "parse_env e g s = Some (s\<lparr>STD_TP_sbrk := increment tp, STD_LP_sbrk := increment lp\<rparr>)"
proof -
  have g: "getenv e n = None" if "n \<noteq> ''USC_TP_SBRK''" "n \<noteq> ''USC_LP_SBRK''" for n
    using that assms(1) by (simp add: sbrk_env_def)
  have t: "env_nonneg e ''USC_TP_SBRK'' (\<lambda>k s. s\<lparr>STD_TP_sbrk := k\<rparr>) s = Some (s\<lparr>STD_TP_sbrk := increment tp\<rparr>)"
    using env_nonneg_increment [of e "''USC_TP_SBRK''" "\<lambda>k s. s\<lparr>STD_TP_sbrk := k\<rparr>" s] assms(1,2,4) by (simp add: sbrk_env_def)
  have l: "env_nonneg e ''USC_LP_SBRK'' (\<lambda>k s. s\<lparr>STD_LP_sbrk := k\<rparr>) u = Some (u\<lparr>STD_LP_sbrk := increment lp\<rparr>)"
    if "STD_LP_sbrk u = 0" for u
    using env_nonneg_increment [of e "''USC_LP_SBRK''" "\<lambda>k s. s\<lparr>STD_LP_sbrk := k\<rparr>" u] assms(1,3) that by (simp add: sbrk_env_def)
  show ?thesis using assms(5)
    by (simp add: parse_env_def env_hooks_def env_iterations_def env_i_def env_duration_def env_delay_def env_copies_def
        env_barrier_def g t l Let_def)
qed

lemma parse_i_sbrk:
  assumes "sbrk_env e tp lp" "int_text tp" "int_text lp" "0 < n" "fits_int n"
  shows "parse_opts e [''-i'', int_to_string n] None (std0 k) = Some (Parsed,
    (std0 k)\<lparr>STD_LOOP_COUNT := n, STD_TP_sbrk := increment tp, STD_LP_sbrk := increment lp\<rparr>)"
proof -
  have "getopt ''c:efhi:I:pP:t'' [] [''-i'', int_to_string n] = [(CHR ''i'', Some (int_to_string n))]"
    by (simp add: strchr_def takes_arg_def)
  moreover have "malloc_ok e" using assms(1) by (simp add: sbrk_env_def)
  ultimately show ?thesis
    using assms(4,5) by (simp add: parse_opts_def opt_case_def int_arg_def c_simps parse_env_sbrk [OF assms(1-3)] std0_def)
qed

text \<open>C14: a test started with \<open>-i n\<close>, in an environment that sets at most \<open>USC_TP_SBRK\<close> and \<open>USC_LP_SBRK\<close>, runs its body
exactly \<open>n\<close> times, one after the other (stopping early only if the body does not return), and then the loop ends.  If the
kernel lets the break grow to a limit, it ends where the start-up hook has moved it (not at all when that would be too far)
plus the increment of each iteration that still fits.\<close>

theorem test_loop_iterations:
  assumes "sbrk_env e tp lp" "int_text tp" "int_text lp" "0 < n" "fits_int n" "p_break p \<le> lim"
  shows "\<exists>s l p'. parse_opts e [''-i'', int_to_string n] None (std0 k) = Some (Parsed, s) \<and>
    usc_global_setup_hook fork arr (up_to lim) s p = Some ([], p') \<and>
    p_break p' = p_break p + (if p_break p + increment tp \<le> lim then increment tp else 0) \<and>
    test_loop clock s body 0 looping0 b = map_option (Pair l) (ofold (\<lambda>_. body) [0..<nat n] b) \<and>
    p_break (grown (up_to lim) l p') = p_break p' + increment lp * min n ((lim - p_break p') div increment lp)"
proof -
  let ?s = "(std0 k)\<lparr>STD_LOOP_COUNT := n, STD_TP_sbrk := increment tp, STD_LP_sbrk := increment lp\<rparr>"
  let ?l = "looped ?s (nat n) looping0"
  have "counted ?s" by (simp add: counted_def std0_def float0_def)
  from test_loop_counted [OF this, of 0 clock body looping0 b]
  have loop: "test_loop clock ?s body 0 looping0 b = map_option (Pair ?l) (ofold (\<lambda>_. body) [0..<nat n] b)" by simp
  have "fork_loop fork 1 1 = []" by (subst fork_loop.simps) simp
  then obtain p' where p': "usc_global_setup_hook fork arr (up_to lim) ?s p = Some ([], p')"
    "p_break p' = p_break p + (if p_break p + increment tp \<le> lim then increment tp else 0)"
    by (auto simp: usc_global_setup_hook_def TEST_PAUSEF_def sbrk_def up_to_def std0_def Let_def)
  have "p_break p' \<le> lim" using p'(2) assms(6) by simp
  then have "p_break (grown (up_to lim) ?l p') = p_break p' + increment lp * min n ((lim - p_break p') div increment lp)"
    using grow_steps [of "increment lp" p' lim "nat n"] assms(4) increment_nonneg [of lp]
    by (cases "increment lp = 0") (auto simp: grown_def looped_def looping0_def)
  with loop p' parse_i_sbrk [OF assms(1-5)] show ?thesis by blast
qed

lemma test_loop_iterations_witness:
  "\<exists>s l p'. parse_opts (quiet_env\<lparr>getenv := (\<lambda>_. None)(''USC_TP_SBRK'' := Some (int_to_string 50), ''USC_LP_SBRK'' := Some (int_to_string 30))\<rparr>)
      [''-i'', int_to_string 3] None (std0 0) = Some (Parsed, s) \<and>
    usc_global_setup_hook (\<lambda>_. 1) Never (up_to 215) s \<lparr>p_usr1 = Usr1_default, p_caught = [], p_break = 100, STD_start_break = 0\<rparr> = Some ([], p') \<and>
    test_loop (\<lambda>_. 0) s (\<lambda>b. Some (b + 2 :: nat)) 0 looping0 0 = Some (l, 6) \<and> p_break (grown (up_to 215) l p') = 210"
proof -
  have t: "int_text (Some (int_to_string k)) \<longleftrightarrow> fits_int k" "increment (Some (int_to_string k)) = max k 0" for k
    by (auto simp: int_text_def increment_def)
  from test_loop_iterations [of "quiet_env\<lparr>getenv := (\<lambda>_. None)(''USC_TP_SBRK'' := Some (int_to_string 50), ''USC_LP_SBRK'' := Some (int_to_string 30))\<rparr>"
      "Some (int_to_string 50)" "Some (int_to_string 30)" 3
      "\<lparr>p_usr1 = Usr1_default, p_caught = [], p_break = 100, STD_start_break = 0\<rparr>" 215 0 "\<lambda>_. 1" Never "\<lambda>_. 0"
      "\<lambda>b. Some (b + 2 :: nat)" 0]
  show ?thesis
    by (auto simp: t sbrk_env_def quiet_env_def fits_int_def INT_MIN_def INT_MAX_def numeral_eq_Suc)
qed

end
