(* ===== verification/StrHelpers.thy ===== *)
theory StrHelpers
imports CString
begin

unbundle bit_operations_syntax

text \<open>Helpers on strings: \<open>open_flags.c\<close> (names of \<open>open\<close> flags and back), \<open>string_to_tokens.c\<close> and \<open>tst_kvercmp.c\<close> of
\<open>ltp_framework/lib\<close>.  The values of the flags are those of the system's \<open>fcntl.h\<close>: a parameter, \<open>None\<close> for a flag that it
does not define.\<close>

section \<open>Flags of open\<close>

type_synonym fword = "32 word"

definition always_flags :: "string list" where
  "always_flags = [''O_RDONLY'', ''O_WRONLY'', ''O_RDWR'', ''O_SYNC'', ''O_CREAT'', ''O_TRUNC'', ''O_EXCL'', ''O_APPEND'', ''O_NONBLOCK'']"

definition ifdef_flags :: "string list" where
  "ifdef_flags = [''O_SSD'', ''O_LARGEFILE'', ''O_DIRECT'', ''O_PRIV'']"

definition flag_names :: "string list" where
  "flag_names = always_flags @ [''O_NOCTTY'', ''O_DSYNC'', ''O_RSYNC'', ''O_ASYNC'', ''O_PTYIGN'', ''O_NDELAY'', ''O_RAW'', ''O_SSD'',
     ''O_BIG'', ''O_PLACE'', ''O_RESTART'', ''O_SFSXOP'', ''O_SFS_DEFER_TM'', ''O_WELLFORMED'', ''O_LDRAW'', ''O_T3D'', ''O_PARALLEL'',
     ''O_FSA'', ''O_LARGEFILE'', ''O_DIRECT'', ''O_PRIV'']"

definition flag_value :: "(string \<Rightarrow> fword option) \<Rightarrow> string \<Rightarrow> fword" where
  "flag_value v n = (let f = \<lambda>n. case v n of None \<Rightarrow> 0 | Some b \<Rightarrow> b in
     if n = ''O_FSA'' then f ''O_PARALLEL'' OR f ''O_WELLFORMED'' OR f ''O_RAW'' else f n)"

text \<open>\<open>#if\<close> and \<open>#ifdef\<close>.\<close>

definition flag_present :: "(string \<Rightarrow> fword option) \<Rightarrow> string \<Rightarrow> bool" where
  "flag_present v n = (if n \<in> set always_flags then True
     else if n \<in> set ifdef_flags then v n \<noteq> None
     else let n = (if n = ''O_FSA'' then ''O_PARALLEL'' else n) in v n \<noteq> None \<and> v n \<noteq> Some 0)"

definition Open_flags :: "(string \<Rightarrow> fword option) \<Rightarrow> (string \<times> fword) list" where
  "Open_flags v = map (\<lambda>n. (n, flag_value v n)) (filter (flag_present v) flag_names)"

text \<open>The result and, for a name that is not known, the string from there on (\<open>*badname\<close>).\<close>

function parse_flag_names :: "(string \<Rightarrow> fword option) \<Rightarrow> string \<Rightarrow> fword \<Rightarrow> fword \<times> string option" where
  "parse_flag_names v str m =
    (case map_of (Open_flags v) (takeWhile (\<lambda>c. c \<noteq> CHR '','') str) of
       None \<Rightarrow> (- 1, Some str)
     | Some b \<Rightarrow> (case dropWhile (\<lambda>c. c \<noteq> CHR '','') str of
           [] \<Rightarrow> (m OR b, None)
         | _ # cs \<Rightarrow> parse_flag_names v cs (m OR b)))"
  by pat_completeness auto
termination
  by (relation "measure (\<lambda>(v, str, m). length str)") (auto dest: dropWhile_shorter)

declare parse_flag_names.simps [simp del]

definition parse_open_flags :: "(string \<Rightarrow> fword option) \<Rightarrow> string \<Rightarrow> fword \<times> string option" where
  "parse_open_flags v str = parse_flag_names v str 0"

text \<open>The loop over the table; \<open>Open_symbols\<close> has 512 bytes.\<close>

fun symbols_loop :: "string \<Rightarrow> (string \<times> fword) list \<Rightarrow> string \<times> bool \<times> fword \<Rightarrow> string \<times> bool \<times> fword" where
  "symbols_loop sep [] s = s"
| "symbols_loop sep ((n, f) # fs) (t, havesome, m) = symbols_loop sep fs
    (if m AND f = f then (t @ (if havesome then sep else []) @ n, True, m AND NOT f) else (t, havesome, m))"

definition openflags2symbols :: "(string \<Rightarrow> fword option) \<Rightarrow> fword \<Rightarrow> string \<Rightarrow> int \<Rightarrow> string option" where
  "openflags2symbols v openflags sep mode =
    (let s = (if openflags AND (flag_value v ''O_WRONLY'' OR flag_value v ''O_RDWR'') = 0
              then (''O_RDONLY'', True, openflags) else ([], False, openflags));
         (t, havesome, m) = symbols_loop sep (tl (Open_flags v)) s;
         t = (if m \<noteq> 0 \<and> mode = 1 then t @ (if havesome then sep else []) @ ''UNKNOWN'' else t)
     in do { chk (length t < 512); Some t })"

section \<open>Tokens\<close>

text \<open>\<open>arg_array\<close> holds pointers (\<open>None\<close>: NULL); \<open>strtok\<close> with the characters of \<open>separator\<close>.  The result is the return
value and the array.\<close>

definition string_to_tokens :: "string \<Rightarrow> string option list option \<Rightarrow> int \<Rightarrow> string option \<Rightarrow>
    (int \<times> string option list option) option" where
  "string_to_tokens arg_string arg_array array_size separator =
    (case (arg_array, separator) of
       (Some arr, Some sep) \<Rightarrow>
         if array_size \<le> 1 then Some (- 1, arg_array)
         else (let toks = strtok_all (\<lambda>c. c \<in> set sep) arg_string; n = min (length toks) (nat array_size) in do {
           arr \<leftarrow> ofold (\<lambda>i a. wr a (int i) (Some (toks ! i))) [0..<n] arr;
           arr \<leftarrow> wr arr (int n) None;
           Some (int n, Some arr)
         })
     | _ \<Rightarrow> Some (- 1, arg_array))"

section \<open>Kernel versions\<close>

text \<open>\<open>strsep\<close> gives NULL when there is no third number, and \<open>atoi\<close> of NULL, or of a number that is no int, is undefined.\<close>

definition get_kver :: "string \<Rightarrow> (int \<times> int \<times> int) option" where
  "get_kver release = (case split_on (\<lambda>c. c = CHR ''.'') release of
      r1 # r2 # r3 # _ \<Rightarrow> do {
        chk (fits_int (atoi r1) \<and> fits_int (atoi r2) \<and> fits_int (atoi r3));
        Some (atoi r1, atoi r2, atoi r3)
      }
    | _ \<Rightarrow> None)"

definition kver_number :: "int \<Rightarrow> int \<Rightarrow> int \<Rightarrow> int option" where
  "kver_number a b c = do {
     chk (0 \<le> a \<and> 0 \<le> b \<and> fits_int (a * 2 ^ 16) \<and> fits_int (b * 2 ^ 8));
     chk (fits_int (a * 2 ^ 16 + b * 2 ^ 8) \<and> fits_int (a * 2 ^ 16 + b * 2 ^ 8 + c));
     Some (a * 2 ^ 16 + b * 2 ^ 8 + c)
   }"

definition tst_kvercmp :: "string \<Rightarrow> int \<Rightarrow> int \<Rightarrow> int \<Rightarrow> int option" where
  "tst_kvercmp release r1 r2 r3 = do {
     (a1, a2, a3) \<leftarrow> get_kver release;
     testver \<leftarrow> kver_number r1 r2 r3;
     currver \<leftarrow> kver_number a1 a2 a3;
     chk (fits_int (currver - testver));
     Some (currver - testver)
   }"

end
