(* ===== verification/StrProps.thy ===== *)
theory StrProps
imports StrHelpers
begin

unbundle bit_operations_syntax

text \<open>What the string helpers promise: names of flags that read back, tokens within their array, and the order of kernel
versions.\<close>

section \<open>Flags of open\<close>

lemma flag_names_plain:
  "distinct flag_names" "hd flag_names = ''O_RDONLY''" "\<forall>n \<in> set flag_names. CHR '','' \<notin> set n"
  "''UNKNOWN'' \<notin> set flag_names" "CHR '','' \<notin> set ''UNKNOWN''"
  by code_simp+

lemma Open_flags_names: "map fst (Open_flags v) = filter (flag_present v) flag_names"
  by (simp add: Open_flags_def comp_def)

lemma Open_flags_lookup:
  assumes "(n, f) \<in> set (Open_flags v)"
  shows "map_of (Open_flags v) n = Some f" "CHR '','' \<notin> set n"
proof -
  have "distinct (map fst (Open_flags v))" by (simp add: Open_flags_names flag_names_plain(1))
  with assms show "map_of (Open_flags v) n = Some f" by simp
  have "n \<in> set (map fst (Open_flags v))" using assms by force
  then show "CHR '','' \<notin> set n" using flag_names_plain(3) by (auto simp: Open_flags_names)
qed

lemma parse_names:
  assumes "ps \<noteq> []" "set ps \<subseteq> set (Open_flags v)"
  shows "parse_flag_names v (comma_list (map fst ps)) m = (fold (\<lambda>p m. m OR snd p) ps m, None)"
  using assms
proof (induction "map fst ps" arbitrary: ps m rule: comma_list.induct)
  case 1
  then show ?case by simp
next
  case (2 x)
  then obtain f where ps: "ps = [(x, f)]" by (cases ps) (auto simp: Cons_eq_map_conv)
  with 2 have "(x, f) \<in> set (Open_flags v)" by simp
  note x = Open_flags_lookup [OF this]
  show ?case unfolding ps by (subst parse_flag_names.simps) (simp add: until_comma [OF x(2)] x(1))
next
  case (3 x y ys)
  then obtain f qs where ps: "ps = (x, f) # qs" "map fst qs = y # ys" by (cases ps) auto
  with 3 have "(x, f) \<in> set (Open_flags v)" by simp
  note x = Open_flags_lookup [OF this]
  have q: "qs \<noteq> []" "set qs \<subseteq> set (Open_flags v)" "y # ys = map fst qs" using 3 ps by auto
  have c: "comma_list (map fst ps) = x @ CHR '','' # comma_list (map fst qs)" using ps by simp
  show ?case unfolding c
    by (subst parse_flag_names.simps) (simp add: until_comma [OF x(2)] x(1) 3(1) [OF q(3,1,2)], simp add: ps)
qed

lemma parse_names_unknown:
  assumes "set ps \<subseteq> set (Open_flags v)"
  shows "parse_flag_names v (comma_list (map fst ps @ [''UNKNOWN''])) m = (- 1, Some ''UNKNOWN'')"
  using assms
proof (induction ps arbitrary: m)
  case Nil
  have "map_of (Open_flags v) ''UNKNOWN'' = None"
  proof -
    have "''UNKNOWN'' \<notin> set (map fst (Open_flags v))" using flag_names_plain(4) by (simp add: Open_flags_names)
    then show ?thesis by (simp add: map_of_eq_None_iff)
  qed
  then show ?case by (subst parse_flag_names.simps) simp
next
  case (Cons p ps)
  obtain x f where p: "p = (x, f)" by (cases p)
  with Cons have "(x, f) \<in> set (Open_flags v)" by simp
  note x = Open_flags_lookup [OF this]
  have c: "comma_list (map fst (p # ps) @ [''UNKNOWN'']) = x @ CHR '','' # comma_list (map fst ps @ [''UNKNOWN''])"
    by (cases ps) (simp_all add: p)
  show ?case unfolding c using Cons
    by (subst parse_flag_names.simps) (simp add: until_comma [OF x(2)] x(1))
qed

definition ors :: "(string \<times> fword) list \<Rightarrow> fword" where "ors ps = fold (\<lambda>p m. m OR snd p) ps 0"

lemma fold_ors: "fold (\<lambda>p m. m OR snd p) ps m = m OR ors ps"
proof (induction ps arbitrary: m)
  case (Cons p ps)
  show ?case by (simp add: ors_def Cons [of "m OR snd p"] Cons [of "snd p"] or.assoc)
qed (simp add: ors_def)

lemma ors_snoc: "ors (ps @ [p]) = ors ps OR snd p"
  by (simp add: ors_def)

text \<open>What the loop has found: names of the table, whose flags together with the rest are the bits.\<close>

lemma symbols_loop_found:
  assumes "set tab \<subseteq> T" "set ps \<subseteq> T"
  shows "\<exists>qs m'. symbols_loop '','' tab (comma_list (map fst ps), ps \<noteq> [], m) = (comma_list (map fst qs), qs \<noteq> [], m') \<and>
    set qs \<subseteq> T \<and> m' OR ors qs = m OR ors ps \<and> (qs = [] \<longrightarrow> ps = [] \<and> m' = m)"
  using assms
proof (induction tab arbitrary: ps m)
  case Nil
  then show ?case by auto
next
  case (Cons p tab)
  obtain n f where p: "p = (n, f)" by (cases p)
  show ?case
  proof (cases "m AND f = f")
    case True
    have bits: "(m AND NOT f) OR (c OR f) = m OR c" for c
      using True by (intro bit_eqI) (auto simp: bit_simps bit_eq_iff)
    have c: "comma_list (map fst ps) @ (if ps \<noteq> [] then '','' else []) @ n = comma_list (map fst (ps @ [p]))"
      by (simp add: comma_list_snoc p)
    have "symbols_loop '','' (p # tab) (comma_list (map fst ps), ps \<noteq> [], m) =
        symbols_loop '','' tab (comma_list (map fst (ps @ [p])), ps @ [p] \<noteq> [], m AND NOT f)"
      unfolding c [symmetric] using True by (simp add: p)
    moreover have "(m AND NOT f) OR ors (ps @ [p]) = m OR ors ps" using bits [of "ors ps"] by (simp add: ors_snoc p)
    moreover have "set (ps @ [p]) \<subseteq> T" using Cons.prems by simp
    ultimately show ?thesis using Cons.IH [of "ps @ [p]" "m AND NOT f"] Cons.prems(1) by auto
  next
    case False
    with Cons.IH [of ps m] Cons.prems show ?thesis by (simp add: p)
  qed
qed


text \<open>What is left of the bits after the loop decides whether the text is read back.\<close>

definition unnamed :: "(string \<Rightarrow> fword option) \<Rightarrow> fword \<Rightarrow> fword" where
  "unnamed v flags = snd (snd (symbols_loop '','' (tl (Open_flags v))
     (if flags AND (flag_value v ''O_WRONLY'' OR flag_value v ''O_RDWR'') = 0 then (''O_RDONLY'', True, flags) else ([], False, flags))))"

lemma openflags_read_back:
  assumes "openflags2symbols v flags '','' 1 = Some t" "flag_value v ''O_RDONLY'' = 0"
  shows "if unnamed v flags = 0 then parse_open_flags v t = (flags, None)
    else parse_open_flags v t = (- 1, Some ''UNKNOWN'') \<and> (\<exists>pre. t = pre @ ''UNKNOWN'')"
proof -
  let ?acc = "flag_value v ''O_WRONLY'' OR flag_value v ''O_RDWR''"
  obtain ps :: "(string \<times> fword) list" where psd: "ps = (if flags AND ?acc = 0 then [(''O_RDONLY'', 0)] else [])" by simp
  let ?tab = "tl (Open_flags v)"
  have "flag_present v ''O_RDONLY''" by (simp add: flag_present_def always_flags_def)
  then have rd: "hd (Open_flags v) = (''O_RDONLY'', 0)" "Open_flags v \<noteq> []"
    using assms(2) by (simp_all add: Open_flags_def flag_names_def always_flags_def)
  then have ps: "set ps \<subseteq> set (Open_flags v)" "set ?tab \<subseteq> set (Open_flags v)" "ors ps = 0"
    by (auto simp: psd ors_def hd_in_set [of "Open_flags v", unfolded rd(1)] dest: list.set_sel(2) [rotated])
  obtain qs m' where l: "symbols_loop '','' ?tab (comma_list (map fst ps), ps \<noteq> [], flags) = (comma_list (map fst qs), qs \<noteq> [], m')"
      "set qs \<subseteq> set (Open_flags v)" "m' OR ors qs = flags OR ors ps" "qs = [] \<longrightarrow> ps = [] \<and> m' = flags"
    using symbols_loop_found [OF ps(2,1), of flags] by blast
  note l(3) [unfolded ps(3) or.right_neutral]
  have init: "(if flags AND ?acc = 0 then (''O_RDONLY'', True, flags) else ([], False, flags)) =
      (comma_list (map fst ps), ps \<noteq> [], flags)" by (simp add: psd)
  have m': "unnamed v flags = m'" unfolding unnamed_def init l(1) by simp
  have t: "t = (if m' \<noteq> 0 then comma_list (map fst qs @ [''UNKNOWN'']) else comma_list (map fst qs))"
    using assms(1) unfolding openflags2symbols_def Let_def init l(1) prod.case
    by (auto simp: c_simps comma_list_snoc split: if_splits)
  show ?thesis unfolding m'
  proof (cases "m' = 0")
    case True
    have "qs \<noteq> []" using l(4) True by (auto simp: psd split: if_splits)
    with True l(2) \<open>m' OR ors qs = flags\<close> t parse_names [of qs v 0]
    show "if m' = 0 then parse_open_flags v t = (flags, None)
      else parse_open_flags v t = (- 1, Some ''UNKNOWN'') \<and> (\<exists>pre. t = pre @ ''UNKNOWN'')"
      by (simp add: parse_open_flags_def fold_ors)
  next
    case False
    with t parse_names_unknown [OF l(2), of 0]
    show "if m' = 0 then parse_open_flags v t = (flags, None)
      else parse_open_flags v t = (- 1, Some ''UNKNOWN'') \<and> (\<exists>pre. t = pre @ ''UNKNOWN'')"
      by (cases "qs = []") (auto simp: parse_open_flags_def comma_list_snoc intro: exI [of _ "comma_list (map fst qs) @ '',''"])
  qed
qed

lemma symbols_read_back:
  assumes "openflags2symbols v flags '','' 1 = Some t" "flag_value v ''O_RDONLY'' = 0"
  shows "parse_open_flags v t = (flags, None) \<or>
    parse_open_flags v t = (- 1, Some ''UNKNOWN'') \<and> (\<exists>pre. t = pre @ ''UNKNOWN'')"
  using openflags_read_back [OF assms] by (auto split: if_splits)

text \<open>A flag that comes later in the table has the value of an earlier one, or is disjoint from or contained in each earlier
one.  Then the loop takes away exactly the flags that the bits contain.\<close>

fun nested :: "fword list \<Rightarrow> (string \<times> fword) list \<Rightarrow> bool" where
  "nested seen [] \<longleftrightarrow> True"
| "nested seen ((n, f) # tab) \<longleftrightarrow> (f \<in> set seen \<or> (\<forall>g \<in> set seen. f AND g = 0 \<or> f AND g = f)) \<and> nested (f # seen) tab"

definition within :: "fword \<Rightarrow> (string \<times> fword) list \<Rightarrow> fword" where
  "within flags tab = ors (filter (\<lambda>p. flags AND snd p = snd p) tab)"

lemma and_ors:
  assumes "\<forall>q \<in> set ps. f AND snd q = 0 \<or> f AND snd q = f"
  shows "f AND ors ps = 0 \<or> f AND ors ps = f"
  using assms
proof (induction ps rule: rev_induct)
  case (snoc p ps)
  then have "f AND ors ps = 0 \<or> f AND ors ps = f" "f AND snd p = 0 \<or> f AND snd p = f" by auto
  then show ?case by (auto simp: ors_snoc bit.conj_disj_distrib)
qed (simp add: ors_def)

lemma bits_step:
  assumes "f AND g = 0 \<or> f AND g = f" "m = flags AND NOT g" "flags AND f = (f :: fword)"
  shows "(if m AND f = f then m AND NOT f else m) = flags AND NOT (g OR f)"
  using assms(1)
proof
  assume z: "f AND g = 0"
  have "m AND f = f" unfolding assms(2) using assms(3) z
    by (intro bit_eqI) (auto simp: bit_simps bit_eq_iff)
  then show ?thesis by (simp add: assms(2) ac_simps bit.de_Morgan_disj)
next
  assume g: "f AND g = f"
  then have "g OR f = g" by (intro bit_eqI) (auto simp: bit_simps bit_eq_iff)
  moreover have "m AND f = 0" unfolding assms(2) using g by (intro bit_eqI) (auto simp: bit_simps bit_eq_iff)
  ultimately show ?thesis by (simp add: assms(2))
qed

lemma in_ors: "f \<in> snd ` set ps \<Longrightarrow> f AND ors ps = f"
proof (induction ps rule: rev_induct)
  case (snoc p ps)
  then have "f AND ors ps = f \<or> f = snd p" by auto
  then show ?case unfolding ors_snoc by (intro bit_eqI) (auto simp: bit_simps bit_eq_iff)
qed simp

lemma symbols_loop_rest:
  assumes "nested (rev (map snd pre)) tab" "m = flags AND NOT (within flags pre)"
  shows "snd (snd (symbols_loop sep tab (t, h, m))) = flags AND NOT (within flags (pre @ tab))"
  using assms
proof (induction tab arbitrary: pre t h m)
  case Nil
  then show ?case by simp
next
  case (Cons p tab)
  obtain n f where p: "p = (n, f)" by (cases p)
  have m: "(if m AND f = f then m AND NOT f else m) = flags AND NOT (within flags (pre @ [p]))"
  proof (cases "flags AND f = f")
    case True
    have "f \<in> snd ` set pre \<or> (\<forall>q \<in> set pre. f AND snd q = 0 \<or> f AND snd q = f)"
      using Cons.prems(1) by (auto simp: p)
    then have "f AND within flags pre = 0 \<or> f AND within flags pre = f"
    proof
      assume "f \<in> snd ` set pre"
      with True show ?thesis unfolding within_def by (intro disjI2 in_ors) auto
    next
      assume "\<forall>q \<in> set pre. f AND snd q = 0 \<or> f AND snd q = f"
      then show ?thesis unfolding within_def by (intro and_ors) auto
    qed
    from bits_step [OF this Cons.prems(2) True] True show ?thesis by (simp add: within_def p ors_snoc)
  next
    case False
    then have "m AND f \<noteq> f" unfolding Cons.prems(2) by (auto simp: bit_eq_iff bit_simps)
    with False show ?thesis by (simp add: Cons.prems(2) within_def p)
  qed
  have "nested (rev (map snd (pre @ [p]))) tab" using Cons.prems(1) by (simp add: p)
  from Cons.IH [OF this m] have r: "snd (snd (symbols_loop sep tab (t', h', if m AND f = f then m AND NOT f else m))) =
      flags AND NOT (within flags (pre @ p # tab))" for t' h' by simp
  show ?case by (cases "m AND f = f") (use r in \<open>auto simp: p\<close>)
qed

text \<open>The values on Linux.\<close>

definition linux_flags :: "string \<Rightarrow> fword option" where
  "linux_flags = map_of [(''O_RDONLY'', 0), (''O_WRONLY'', 1), (''O_RDWR'', 2), (''O_SYNC'', 0x101000), (''O_CREAT'', 0x40),
     (''O_TRUNC'', 0x200), (''O_EXCL'', 0x80), (''O_APPEND'', 0x400), (''O_NONBLOCK'', 0x800), (''O_NOCTTY'', 0x100),
     (''O_DSYNC'', 0x1000), (''O_RSYNC'', 0x101000), (''O_ASYNC'', 0x2000), (''O_NDELAY'', 0x800)]"

text \<open>C22: for any values of the flags in \<open>fcntl.h\<close> with \<open>O_RDONLY\<close> 0 and nested flags (as on Linux), what \<open>openflags2symbols\<close>
writes with commas is read back by \<open>parse_open_flags\<close> as the same flags, exactly when every bit belongs to a flag of the table that
they contain; otherwise mode 1 marks the text, so that it is refused as UNKNOWN.\<close>

theorem open_flags_roundtrip:
  assumes "openflags2symbols v flags '','' 1 = Some t" "flag_value v ''O_RDONLY'' = 0" "nested [] (tl (Open_flags v))"
  shows "parse_open_flags v t =
    (if flags AND NOT (within flags (tl (Open_flags v))) = 0 then (flags, None) else (- 1, Some ''UNKNOWN''))"
proof -
  have "unnamed v flags = flags AND NOT (within flags (tl (Open_flags v)))"
    unfolding unnamed_def using symbols_loop_rest [of "[]"] assms(3) by (simp add: within_def ors_def)
  with openflags_read_back [OF assms(1,2)] show ?thesis by (simp split: if_splits)
qed

text \<open>On Linux: flags that read back, and some with a bit that has no name.\<close>

lemma open_flags_roundtrip_witness:
  "(\<exists>t. openflags2symbols linux_flags 0x101042 '','' 1 = Some t \<and> parse_open_flags linux_flags t = (0x101042, None)) \<and>
   (\<exists>t. openflags2symbols linux_flags 0x801 '','' 1 = Some t \<and> parse_open_flags linux_flags t = (0x801, None)) \<and>
   (\<exists>t. openflags2symbols linux_flags 0x40000001 '','' 1 = Some t \<and> parse_open_flags linux_flags t = (- 1, Some ''UNKNOWN''))"
proof -
  have h: "flag_value linux_flags ''O_RDONLY'' = 0" "nested [] (tl (Open_flags linux_flags))" by code_simp+
  have o: "openflags2symbols linux_flags 0x101042 '','' 1 = Some ''O_RDWR,O_SYNC,O_CREAT''"
    "openflags2symbols linux_flags 0x801 '','' 1 = Some ''O_WRONLY,O_NONBLOCK''"
    "openflags2symbols linux_flags 0x40000001 '','' 1 = Some ''O_WRONLY,UNKNOWN''" by code_simp+
  have r: "0x101042 AND NOT (within 0x101042 (tl (Open_flags linux_flags))) = 0" "0x801 AND NOT (within 0x801 (tl (Open_flags linux_flags))) = 0"
    "0x40000001 AND NOT (within 0x40000001 (tl (Open_flags linux_flags))) \<noteq> 0" by code_simp+
  show ?thesis
    using open_flags_roundtrip [OF o(1) h] open_flags_roundtrip [OF o(2) h] open_flags_roundtrip [OF o(3) h] o r by simp
qed

section \<open>Tokens\<close>

text \<open>For an array of \<open>array_size\<close> pointers, which is what the documentation asks for: fewer tokens are stored with a NULL
after them.  With \<open>array_size\<close> tokens or more all pointers of the array are filled, and the NULL is written behind it.\<close>

lemma string_to_tokens_array:
  assumes "int (length arr) = array_size" "1 < array_size"
  shows "string_to_tokens str (Some arr) array_size (Some sep) =
    (let toks = strtok_all (\<lambda>c. c \<in> set sep) str in
     if int (length toks) < array_size
     then Some (int (length toks), Some (map Some toks @ None # drop (Suc (length toks)) arr)) else None)"
proof -
  let ?toks = "strtok_all (\<lambda>c. c \<in> set sep) str"
  let ?n = "min (length ?toks) (length arr)"
  have n: "min (length ?toks) (nat array_size) = ?n" using assms(1) by auto
  have f: "ofold (\<lambda>i a. wr a (int i) (Some (?toks ! i))) [0..<?n] arr = Some (map Some (take ?n ?toks) @ drop ?n arr)"
  proof -
    have "ofold (\<lambda>i a. wr a (int i) (Some (?toks ! i))) [0..<0 + ?n] arr =
        Some (take 0 arr @ map (\<lambda>i. Some (?toks ! i)) [0..<0 + ?n] @ drop (0 + ?n) arr)"
      by (rule ofold_wr_fill) simp
    moreover have "map (\<lambda>i. Some (?toks ! i)) [0..<?n] = map Some (take ?n ?toks)"
      by (rule nth_equalityI) auto
    ultimately show ?thesis by simp
  qed
  have s: "string_to_tokens str (Some arr) array_size (Some sep) = do {
      arr \<leftarrow> Some (map Some (take ?n ?toks) @ drop ?n arr); arr \<leftarrow> wr arr (int ?n) None; Some (int ?n, Some arr) }"
    using assms(2) unfolding string_to_tokens_def by (simp add: n f Let_def)
  show ?thesis
  proof (cases "length ?toks < length arr")
    case True
    then have "drop (length ?toks) arr = arr ! length ?toks # drop (Suc (length ?toks)) arr"
      by (simp add: Cons_nth_drop_Suc)
    with True assms(1) show ?thesis unfolding s by (auto simp: c_simps Let_def min_def list_update_append)
  next
    case False
    with assms(1) show ?thesis unfolding s by (auto simp: c_simps Let_def min_def)
  qed
qed

section \<open>Kernel versions\<close>

text \<open>A number ends where no digit follows.\<close>

definition no_digit :: "string \<Rightarrow> bool" where
  "no_digit s = (case s of [] \<Rightarrow> True | c # _ \<Rightarrow> case digit_of c of None \<Rightarrow> True | Some d \<Rightarrow> 10 \<le> d)"

lemma atoi_number:
  assumes "0 \<le> i" "no_digit s"
  shows "atoi (int_to_string i @ s) = i"
proof -
  have t: "int_to_string i = nat_to_string (nat i)" using assms(1) by (simp add: int_to_string_def)
  obtain d :: nat and cs where h: "nat_to_string (nat i) = char_of (48 + d) # cs" "d < 10"
    using nat_to_string_head by blast
  have ns: "\<not> isspace (char_of (48 + d))" "char_of (48 + d) \<noteq> CHR ''-''" "char_of (48 + d) \<noteq> CHR ''+''"
    using h(2) by (auto simp: isspace_def char_of_eq_iff take_bit_eq_mod)
  obtain k where k: "k > 0" "\<forall>a m ys. read_digits 10 a m (nat_to_string (nat i) @ ys) = read_digits 10 (a * 10 ^ k + int (nat i)) (m + k) ys"
    using read_nat_to_string by blast
  have e: "read_digits 10 v m s = (v, m, s)" for v m
    using assms(2) by (cases s) (auto simp: no_digit_def split: option.splits)
  have "read_digits 10 0 0 (char_of (48 + d) # cs @ s) = (i, k, s)"
    using k(2) [rule_format, of 0 0 s] e h(1) assms(1) by simp
  with k(1) ns show ?thesis
    by (simp add: atoi_def scan_int_def t h(1) read_sign_def)
qed

text \<open>The three numbers of a version, in the order in which versions are released.\<close>

datatype kver = Kver (major: int) (minor: int) (patch: int)

instantiation kver :: linorder
begin

fun less_eq_kver :: "kver \<Rightarrow> kver \<Rightarrow> bool" where
  "Kver a b c \<le> Kver x y z \<longleftrightarrow> a < x \<or> a = x \<and> (b < y \<or> b = y \<and> c \<le> z)"

fun less_kver :: "kver \<Rightarrow> kver \<Rightarrow> bool" where
  "Kver a b c < Kver x y z \<longleftrightarrow> a < x \<or> a = x \<and> (b < y \<or> b = y \<and> c < z)"

instance
proof
  fix u v w :: kver
  show "u < v \<longleftrightarrow> u \<le> v \<and> \<not> v \<le> u" by (cases u; cases v) auto
  show "u \<le> u" by (cases u) simp
  show "u \<le> v \<Longrightarrow> v \<le> w \<Longrightarrow> u \<le> w" by (cases u; cases v; cases w) auto
  show "u \<le> v \<Longrightarrow> v \<le> u \<Longrightarrow> u = v" by (cases u; cases v) auto
  show "u \<le> v \<or> v \<le> u" by (cases u; cases v) auto
qed

end

definition kver_ok :: "kver \<Rightarrow> bool" where
  "kver_ok v \<longleftrightarrow> 0 \<le> major v \<and> major v < 2 ^ 15 \<and> 0 \<le> minor v \<and> minor v < 256 \<and> 0 \<le> patch v \<and> patch v < 256"

definition kver_value :: "kver \<Rightarrow> int" where
  "kver_value v = major v * 2 ^ 16 + minor v * 2 ^ 8 + patch v"

definition kver_string :: "kver \<Rightarrow> string \<Rightarrow> string" where
  "kver_string v suf = int_to_string (major v) @ ''.'' @ int_to_string (minor v) @ ''.'' @ int_to_string (patch v) @ suf"

lemma kver_number_value: "kver_ok v \<Longrightarrow> kver_number (major v) (minor v) (patch v) = Some (kver_value v)"
  by (simp add: kver_ok_def kver_value_def kver_number_def chk_def fits_int_def INT_MIN_def INT_MAX_def)

text \<open>A text between dots begins with what stands before the first dot.\<close>

lemma split_on_first:
  assumes "c \<notin> set xs"
  shows "\<exists>rest. split_on (\<lambda>x. x = c) (xs @ ys) = (xs @ takeWhile (\<lambda>x. x \<noteq> c) ys) # rest"
proof -
  have "\<forall>x \<in> set xs. x \<noteq> c" using assms by auto
  then show ?thesis by (subst split_on_takeWhile) (simp add: takeWhile_append2)
qed

lemma get_kver_string:
  assumes "kver_ok v" "no_digit suf"
  shows "get_kver (kver_string v suf) = Some (major v, minor v, patch v)"
proof -
  have dot: "CHR ''.'' \<notin> set (int_to_string i)" for i
    using int_to_string_chars [of "CHR ''.''" i] by auto
  have nd: "no_digit []" by (simp add: no_digit_def)
  have p: "0 \<le> major v" "0 \<le> minor v" "0 \<le> patch v" using assms(1) by (simp_all add: kver_ok_def)
  have f: "fits_int (major v)" "fits_int (minor v)" "fits_int (patch v)"
    using assms(1) by (simp_all add: kver_ok_def fits_int_def INT_MIN_def INT_MAX_def)
  let ?suf = "takeWhile (\<lambda>c. c \<noteq> CHR ''.'') suf"
  have "no_digit ?suf" using assms(2) by (cases suf) (auto simp: no_digit_def)
  note a = atoi_number [OF p(1) nd] atoi_number [OF p(2) nd] atoi_number [OF p(3) this]
  obtain rest where "split_on (\<lambda>c. c = CHR ''.'') (int_to_string (patch v) @ suf) = (int_to_string (patch v) @ ?suf) # rest"
    using split_on_first [OF dot [of "patch v"], of suf] by blast
  then show ?thesis
    using a f by (simp add: get_kver_def kver_string_def split_on_char dot c_simps)
qed

lemma kver_value_mono: "kver_ok u \<Longrightarrow> kver_ok v \<Longrightarrow> u < v \<Longrightarrow> kver_value u < kver_value v"
  by (cases u; cases v) (auto simp: kver_ok_def kver_value_def)

text \<open>C25: on a kernel release of three numbers, the first below \<open>2 ^ 15\<close> and the others below 256 (\<open>kver_ok\<close>), followed by any
text that does not begin with a digit, and for a version asked for with the same bounds, \<open>tst_kvercmp\<close> gives the order of versions:
negative when the running kernel is the older one, which is the opposite of what its comment says, and 0 when they are equal.\<close>

theorem kvercmp_order:
  assumes "kver_ok cur" "kver_ok req" "no_digit suf"
  shows "\<exists>d. tst_kvercmp (kver_string cur suf) (major req) (minor req) (patch req) = Some d \<and>
    (d < 0 \<longleftrightarrow> cur < req) \<and> (d = 0 \<longleftrightarrow> cur = req)"
proof -
  let ?d = "kver_value cur - kver_value req"
  have "fits_int ?d" using assms(1,2) by (simp add: kver_ok_def kver_value_def fits_int_def INT_MIN_def INT_MAX_def)
  then have "tst_kvercmp (kver_string cur suf) (major req) (minor req) (patch req) = Some ?d"
    using kver_number_value assms(1,2) get_kver_string [OF assms(1,3)] by (simp add: tst_kvercmp_def chk_def)
  moreover consider "cur < req" | "cur = req" | "req < cur" by (rule linorder_less_linear [THEN disjE]) auto
  then have "(?d < 0 \<longleftrightarrow> cur < req) \<and> (?d = 0 \<longleftrightarrow> cur = req)"
    using kver_value_mono [OF assms(1,2)] kver_value_mono [OF assms(2,1)] by cases auto
  ultimately show ?thesis by blast
qed

lemma kvercmp_order_witness:
  "\<exists>d. tst_kvercmp (kver_string (Kver 2 6 39) ''-rc1.fc14'') 3 0 0 = Some d \<and> d < 0"
  using kvercmp_order [of "Kver 2 6 39" "Kver 3 0 0" "''-rc1.fc14''"] by (auto simp: no_digit_def digit_of_def kver_ok_def)

text \<open>The bound is needed: 4.9.337 counts as newer than 4.10.0.\<close>

lemma kvercmp_long_patch: "tst_kvercmp ''4.9.337'' 4 10 0 = Some 81"
  by code_simp

text \<open>A release with two numbers (3.0, say) makes it follow a NULL pointer.\<close>

lemma kvercmp_two_numbers: "tst_kvercmp ''3.0-rc1'' r1 r2 r3 = None"
  by (simp add: tst_kvercmp_def get_kver_def)

end
