(* ===== verification/Paths.thy ===== *)
theory Paths
imports CString
begin

text \<open>Looking for programs and locking files: \<open>search_path.c\<close>, \<open>get_path.c\<close> and \<open>file_lock.c\<close> of \<open>ltp_framework/lib\<close>.

What \<open>access\<close> and \<open>stat\<close> say of a path, the working directory (\<open>None\<close>: \<open>getcwd\<close> fails), \<open>$PATH\<close> and the results of \<open>fcntl\<close> are
parameters.\<close>

section \<open>search_path\<close>

definition PATH_MAX :: nat where "PATH_MAX = 4096"

record penv_path =
  p_access :: "string \<Rightarrow> bool"
  p_cwd :: "string option"
  p_path :: "string option"

text \<open>The caller's buffer has \<open>PATH_MAX\<close> bytes.\<close>

definition put :: "string \<Rightarrow> string option" where "put s = (if length s < PATH_MAX then Some s else None)"

text \<open>One entry of \<open>$PATH\<close>: the return value with \<open>res_path\<close>, or \<open>curpath\<close> (empty until it is needed) and \<open>toolong\<close> for the
next one.\<close>

definition search_entry :: "penv_path \<Rightarrow> string \<Rightarrow> bool \<Rightarrow> string \<Rightarrow> string \<Rightarrow> nat \<Rightarrow> ((int \<times> string) + (string \<times> nat)) option" where
  "search_entry e cmd fullpath p curpath toolong = do {
     tmppath \<leftarrow> put p;
     if length tmppath + length cmd + 2 > PATH_MAX then Some (Inr (curpath, toolong + 1))
     else let res = tmppath @ ''/'' @ cmd in
       if fullpath \<and> hd res \<noteq> CHR ''/'' then
         (case (if curpath = [] then p_cwd e else Some curpath) of
            None \<Rightarrow> Some (Inl (- 1, []))
          | Some cur \<Rightarrow>
              if length cur + length res + 2 > PATH_MAX then Some (Inr (cur, toolong + 1))
              else if p_access e (cur @ ''/'' @ res) then Some (Inl (0, cur @ ''/'' @ res))
              else Some (Inr (cur, toolong)))
       else if p_access e res then Some (Inl (0, res))
       else Some (Inr (curpath, toolong))
   }"

text \<open>The loop; \<open>cp\<close> is an index into \<open>pathenv\<close>, which stands at the end of the last entry and is stepped over the colon
unless it is still at the beginning.\<close>

partial_function (option) search_loop :: "penv_path \<Rightarrow> string \<Rightarrow> bool \<Rightarrow> string \<Rightarrow> nat \<Rightarrow> string \<Rightarrow> nat \<Rightarrow> (int \<times> string) option" where
  "search_loop e cmd fullpath pathenv cp curpath toolong = do {
     let path = (if cp \<noteq> 0 then cp + 1 else 0);
     let entry = takeWhile (\<lambda>c. c \<noteq> CHR '':'') (drop path pathenv);
     let cp = path + length entry;
     r \<leftarrow> search_entry e cmd fullpath entry curpath toolong;
     case r of
       Inl res \<Rightarrow> Some res
     | Inr (curpath, toolong) \<Rightarrow>
         if cp = length pathenv then
           Some (1, if toolong \<noteq> 0 then ''Unable to find file, '' @ nat_to_string toolong @ '' path/file strings were too long''
             else ''Unable to find file'')
         else search_loop e cmd fullpath pathenv cp curpath toolong
   }"

definition search_path :: "penv_path \<Rightarrow> string \<Rightarrow> bool \<Rightarrow> (int \<times> string) option" where
  "search_path e cmd fullpath =
    (if CHR ''/'' \<in> set cmd then
       (if p_access e cmd then
          (if hd cmd \<noteq> CHR ''/'' then do {
             cur \<leftarrow> p_cwd e;
             if length cur + length cmd + 1 > PATH_MAX
             then Some (- 1, ''cmd (as relative path) and cwd is longer than '' @ nat_to_string PATH_MAX)
             else do { r \<leftarrow> put (cur @ ''/'' @ cmd); Some (0, r) }
           }
           else do { r \<leftarrow> put cmd; Some (0, r) })
        else do { r \<leftarrow> put (''file '' @ cmd @ '' not found''); Some (- 1, r) })
     else (case p_path e of
         None \<Rightarrow> Some (- 1, ''Unable to get PATH env. variable'')
       | Some path \<Rightarrow> search_loop e cmd fullpath path 0 [] 0))"

text \<open>For a command without a slash, and a \<open>$PATH\<close> of short entries that does not begin with a colon, \<open>search_path\<close> finds it in
the first directory that has it.  An empty entry stands for the root directory here, not for the current one.\<close>

definition found :: "penv_path \<Rightarrow> string \<Rightarrow> string list \<Rightarrow> int \<times> string" where
  "found e cmd ps = (case find (\<lambda>p. p_access e (p @ ''/'' @ cmd)) ps of
      None \<Rightarrow> (1, ''Unable to find file'')
    | Some p \<Rightarrow> (0, p @ ''/'' @ cmd))"

lemma search_loop_first:
  assumes "\<forall>p \<in> set (split_on (\<lambda>c. c = CHR '':'') (drop path env)). length p + length cmd + 2 \<le> PATH_MAX"
    "path = (if cp \<noteq> 0 then cp + 1 else 0)" "path \<le> length env" "path = 0 \<longrightarrow> env = [] \<or> hd env \<noteq> CHR '':''"
  shows "search_loop e cmd False env cp cur 0 = Some (found e cmd (split_on (\<lambda>c. c = CHR '':'') (drop path env)))"
  using assms
proof (induction "length env - path" arbitrary: path cp rule: less_induct)
  case less
  let ?P = "\<lambda>c. c = CHR '':''"
  define p where "p = takeWhile (\<lambda>c. \<not> ?P c) (drop path env)"
  define q where "q = dropWhile (\<lambda>c. \<not> ?P c) (drop path env)"
  have pq: "drop path env = p @ q" by (simp add: p_def q_def)
  have lp: "path + length p + length q = length env" using less.prems(3) arg_cong [OF pq, of length] by simp
  have sp: "split_on ?P (drop path env) = p # (case q of [] \<Rightarrow> [] | c # ys \<Rightarrow> split_on ?P ys)"
    unfolding p_def q_def by (rule split_on_takeWhile)
  have entry: "search_entry e cmd False p cur 0 =
      (if p_access e (p @ ''/'' @ cmd) then Some (Inl (0, p @ ''/'' @ cmd)) else Some (Inr (cur, 0)))"
    using less.prems(1) unfolding sp by (simp add: search_entry_def put_def)
  have step: "search_loop e cmd False env cp cur 0 = do {
      r \<leftarrow> search_entry e cmd False p cur 0;
      case r of
        Inl res \<Rightarrow> Some res
      | Inr (cur, n) \<Rightarrow>
          if path + length p = length env then
            Some (1, if n \<noteq> 0 then ''Unable to find file, '' @ nat_to_string n @ '' path/file strings were too long''
              else ''Unable to find file'')
          else search_loop e cmd False env (path + length p) cur n
    }"
    by (subst search_loop.simps) (simp only: Let_def p_def less.prems(2) [symmetric])
  show ?case
  proof (cases q)
    case Nil
    then show ?thesis using lp unfolding step by (simp add: entry sp found_def)
  next
    case (Cons c q')
    have nz: "path + length p \<noteq> 0"
    proof
      assume z: "path + length p = 0"
      then have "hd env = c" "env \<noteq> []" using pq Cons by auto
      moreover have "c = CHR '':''" using Cons hd_dropWhile [of "\<lambda>c. \<not> ?P c" "drop path env"] by (simp add: q_def)
      ultimately show False using less.prems(4) z by simp
    qed
    have q': "drop (path + length p + 1) env = q'"
    proof -
      have "drop (path + length p + 1) env = drop (length p + 1) (drop path env)" by (simp add: add.commute)
      then show ?thesis unfolding pq Cons by simp
    qed
    have "search_loop e cmd False env (path + length p) cur 0 = Some (found e cmd (split_on ?P (drop (path + length p + 1) env)))"
      by (rule less.hyps) (use nz lp less.prems(1) sp Cons q' in auto)
    then show ?thesis unfolding q' step using lp Cons by (simp add: entry sp found_def)
  qed
qed

lemma search_path_first:
  assumes "CHR ''/'' \<notin> set cmd" "p_path e = Some path" "path = [] \<or> hd path \<noteq> CHR '':''"
    "\<forall>p \<in> set (split_on (\<lambda>c. c = CHR '':'') path). length p + length cmd + 2 \<le> PATH_MAX"
  shows "search_path e cmd False = Some (found e cmd (split_on (\<lambda>c. c = CHR '':'') path))"
  using assms search_loop_first [of 0 path cmd 0 e "[]"] by (simp add: search_path_def)

text \<open>A \<open>$PATH\<close> that begins with a colon, which stands for the current directory: \<open>cp\<close> stays at the beginning, and unless the
file is in the root directory the loop never gets to the next entry.\<close>

lemma search_path_hangs:
  assumes "CHR ''/'' \<notin> set cmd" "p_path e = Some (CHR '':'' # path)" "\<not> p_access e (CHR ''/'' # cmd)"
  shows "search_path e cmd fullpath = None"
proof -
  have "\<not> p_access e (CHR ''/'' # cmd) \<longrightarrow> False" if "search_loop e cmd fullpath (CHR '':'' # path) 0 cur n = Some r" for cur n r
  proof -
    have "CHR '':'' # path = CHR '':'' # path \<longrightarrow> (0 :: nat) = 0 \<longrightarrow> \<not> p_access e (CHR ''/'' # cmd) \<longrightarrow> False"
      by (rule search_loop.raw_induct [where P = "\<lambda>e cmd fullpath env cp cur n r. env = CHR '':'' # path \<longrightarrow> cp = 0 \<longrightarrow>
            \<not> p_access e (CHR ''/'' # cmd) \<longrightarrow> False", OF _ that])
        (auto simp: search_entry_def put_def PATH_MAX_def Let_def c_simps bind_eq_Some_conv split: if_splits sum.splits option.splits)
    then show ?thesis by simp
  qed
  with assms(3) have "search_loop e cmd fullpath (CHR '':'' # path) 0 cur n \<noteq> Some r" for cur n r by blast
  then have "search_loop e cmd fullpath (CHR '':'' # path) 0 [] 0 = None" by (metis not_None_eq)
  with assms(1,2) show ?thesis by (simp add: search_path_def)
qed

text \<open>An entry of \<open>PATH_MAX\<close> bytes or more is copied before its length is looked at.\<close>

lemma search_path_overflow:
  assumes "CHR ''/'' \<notin> set cmd" "p_path e = Some (p @ CHR '':'' # path)" "CHR '':'' \<notin> set p" "PATH_MAX \<le> length p"
  shows "search_path e cmd fullpath = None"
proof -
  have "takeWhile (\<lambda>c. c \<noteq> CHR '':'') (p @ CHR '':'' # path) = p" using assms(3) by (subst takeWhile_append2) auto
  then have "search_loop e cmd fullpath (p @ CHR '':'' # path) 0 [] 0 = None" using assms(4)
    by (subst search_loop.simps) (simp add: search_entry_def put_def)
  with assms(1,2) show ?thesis by (simp add: search_path_def)
qed

section \<open>tst_get_path\<close>

text \<open>One entry: \<open>snprintf\<close> of the directory and then of the name behind it.\<close>

definition get_path_entry :: "string \<Rightarrow> nat \<Rightarrow> string \<Rightarrow> (bool \<times> string) option" where
  "get_path_entry prog buf_len d = do {
     chk (0 < buf_len);
     let buf = take (buf_len - 1) d;
     let buf = (if buf = [] then take (buf_len - 1) ''.'' else buf);
     chk (buf \<noteq> []);
     let rest = (if last buf \<noteq> CHR ''/'' then ''/'' @ prog else prog);
     Some (buf_len - length buf > length rest, buf @ take (buf_len - length buf - 1) rest)
   }"

fun get_path_loop :: "(string \<Rightarrow> bool) \<Rightarrow> string \<Rightarrow> nat \<Rightarrow> string list \<Rightarrow> string \<Rightarrow> (int \<times> string) option" where
  "get_path_loop file_exist prog buf_len [] buf = Some (- 1, buf)"
| "get_path_loop file_exist prog buf_len (d # ds) buf = do {
     (fits, buf) \<leftarrow> get_path_entry prog buf_len d;
     if fits \<and> file_exist buf then Some (0, buf) else get_path_loop file_exist prog buf_len ds buf
   }"

definition tst_get_path :: "(string \<Rightarrow> bool) \<Rightarrow> string option \<Rightarrow> string \<Rightarrow> nat \<Rightarrow> string \<Rightarrow> (int \<times> string) option" where
  "tst_get_path file_exist path prog buf_len buf = (case path of
      None \<Rightarrow> Some (- 1, buf)
    | Some path \<Rightarrow> get_path_loop file_exist prog buf_len (split_on (\<lambda>c. c = CHR '':'') path) buf)"

text \<open>The path of a program in a directory of \<open>$PATH\<close>.\<close>

definition in_dir :: "string \<Rightarrow> string \<Rightarrow> string" where
  "in_dir prog d = (let d = (if d = [] then ''.'' else d) in if last d = CHR ''/'' then d @ prog else d @ ''/'' @ prog)"

lemma get_path_entry_in_dir:
  assumes "2 \<le> buf_len" "prog \<noteq> []"
  shows "\<exists>buf. get_path_entry prog buf_len d = Some (length (in_dir prog d) < buf_len, buf) \<and>
    (length (in_dir prog d) < buf_len \<longrightarrow> buf = in_dir prog d)"
proof -
  let ?d = "if d = [] then ''.'' else d"
  have t: "(if take (buf_len - 1) d = [] then take (buf_len - 1) ''.'' else take (buf_len - 1) d) = take (buf_len - 1) ?d"
    using assms(1) by auto
  have n: "take (buf_len - 1) ?d \<noteq> []" using assms(1) by auto
  show ?thesis
  proof (cases "length ?d \<le> buf_len - 1")
    case True
    then have "take (buf_len - 1) ?d = ?d" by simp
    with t n True assms show ?thesis
      by (auto simp: get_path_entry_def Let_def in_dir_def c_simps)
  next
    case False
    then have "length (take (buf_len - 1) ?d) = buf_len - 1" by simp
    with t n False assms show ?thesis
      by (auto simp: get_path_entry_def Let_def in_dir_def c_simps)
  qed
qed

text \<open>\<open>tst_get_path\<close> gives the first file that there is and that fits the buffer, and -1 when there is none.\<close>

lemma tst_get_path_first:
  assumes "2 \<le> buf_len" "prog \<noteq> []"
  shows "\<exists>b. tst_get_path file_exist (Some path) prog buf_len buf =
    Some (case find (\<lambda>d. length (in_dir prog d) < buf_len \<and> file_exist (in_dir prog d)) (split_on (\<lambda>c. c = CHR '':'') path) of
      None \<Rightarrow> (- 1, b) | Some d \<Rightarrow> (0, in_dir prog d))"
proof -
  have "\<exists>b. get_path_loop file_exist prog buf_len ds buf =
    Some (case find (\<lambda>d. length (in_dir prog d) < buf_len \<and> file_exist (in_dir prog d)) ds of
      None \<Rightarrow> (- 1, b) | Some d \<Rightarrow> (0, in_dir prog d))" for ds buf
  proof (induction ds arbitrary: buf)
    case (Cons d ds)
    from get_path_entry_in_dir [OF assms, of d] Cons show ?case by auto
  qed simp
  then show ?thesis by (simp add: tst_get_path_def)
qed

section \<open>Locks\<close>

text \<open>\<open>fc k\<close> is the result of the \<open>k\<close>-th \<open>fcntl\<close>: \<open>Inl errno\<close> or \<open>Inr\<close> the return value.  A lock is its command
(non-blocking or not) and its kind; the flags are those of \<open>flock\<close>.\<close>

datatype lock_kind = F_UNLCK | F_WRLCK | F_RDLCK

definition lock_kind_of :: "bool \<Rightarrow> bool \<Rightarrow> bool \<Rightarrow> lock_kind option" where
  "lock_kind_of un ex sh = (if un then Some F_UNLCK else if ex then Some F_WRLCK else if sh then Some F_RDLCK else None)"

definition EINTR_EACCES_EFSEXCLWR :: "int set" where "EINTR_EACCES_EFSEXCLWR = {4, 13, 503}"

partial_function (option) lock_loop :: "(nat \<Rightarrow> int + int) \<Rightarrow> bool \<Rightarrow> nat \<Rightarrow> (int \<times> nat) option" where
  "lock_loop fc nb k = (case fc k of
      Inl e \<Rightarrow> if nb \<and> e \<in> EINTR_EACCES_EFSEXCLWR then lock_loop fc nb (k + 1) else Some (- 1, k + 1)
    | Inr r \<Rightarrow> Some (r, k + 1))"

text \<open>The return value and the number of calls; \<open>record_lock\<close> differs in the range only.\<close>

definition file_lock :: "(lock_kind \<Rightarrow> nat \<Rightarrow> int + int) \<Rightarrow> bool \<Rightarrow> bool \<Rightarrow> bool \<Rightarrow> bool \<Rightarrow> (int \<times> nat) option" where
  "file_lock fc nb un ex sh = (case lock_kind_of un ex sh of None \<Rightarrow> Some (- 1, 0) | Some t \<Rightarrow> lock_loop (fc t) nb 0)"

definition record_lock :: "(lock_kind \<Rightarrow> int \<Rightarrow> int \<Rightarrow> nat \<Rightarrow> int + int) \<Rightarrow> bool \<Rightarrow> bool \<Rightarrow> bool \<Rightarrow> bool \<Rightarrow> int \<Rightarrow> int \<Rightarrow> (int \<times> nat) option" where
  "record_lock fc nb un ex sh start len =
    (case lock_kind_of un ex sh of None \<Rightarrow> Some (- 1, 0) | Some t \<Rightarrow> lock_loop (fc t start len) nb 0)"

text \<open>The comment has it the other way round: it is the non-blocking request that is repeated, and never returns while
the file stays locked by someone else.\<close>

lemma nonblocking_lock_spins:
  assumes "\<forall>k. fc F_WRLCK k = Inl 13"
  shows "file_lock fc True False True sh = None" "file_lock fc False False True sh = Some (- 1, 1)"
proof -
  have "\<not> (True \<and> (\<forall>k. fc F_WRLCK k = Inl 13))" if "lock_loop (fc F_WRLCK) True 0 = Some r" for r
    by (rule lock_loop.raw_induct [where P = "\<lambda>fc nb k r. \<not> (nb \<and> (\<forall>k. fc k = Inl 13))", OF _ that])
      (auto simp: EINTR_EACCES_EFSEXCLWR_def split: sum.splits if_splits, metis Inl_inject, metis Inr_not_Inl)
  then show "file_lock fc True False True sh = None"
    using assms by (cases "lock_loop (fc F_WRLCK) True 0") (auto simp: file_lock_def lock_kind_of_def)
  show "file_lock fc False False True sh = Some (- 1, 1)"
    using assms by (simp add: file_lock_def lock_kind_of_def lock_loop.simps)
qed

end
