(* ===== verification/MountUtils.thy ===== *)
theory MountUtils
imports CString
begin

text \<open>\<open>ltp_framework/lib/mount_utils.c\<close>: the file system a path is on.

\<open>realpath\<close>, the entries of \<open>/etc/mtab\<close>, what \<open>stat\<close> says of a device and which calls of \<open>malloc\<close> succeed are parameters.  A
block that has been allocated and not yet written is \<open>Some None\<close>; \<open>None\<close> as a result of a function is an access outside a
block or to one that has not been written.\<close>

section \<open>The code\<close>

record mntent =
  mnt_dir :: string
  mnt_fsname :: string

record mntsys =
  m_realpath :: "string \<Rightarrow> string option"
  m_mtab :: "mntent list option"
  m_malloc :: "nat \<Rightarrow> bool"
  m_stat :: "string \<Rightarrow> int option"

definition strcpy_into :: "nat \<Rightarrow> string \<Rightarrow> string option" where
  "strcpy_into n s = (if length s < n then Some s else None)"

definition covers :: "mntent \<Rightarrow> string \<Rightarrow> bool" where
  "covers entry p \<longleftrightarrow> strneq (length (mnt_dir entry)) (mnt_dir entry) p"

text \<open>The loop of \<open>get_mountpoint\<close>; \<open>k\<close> counts the allocations.\<close>

fun mountpoint_loop :: "mntsys \<Rightarrow> string \<Rightarrow> mntent list \<Rightarrow> nat \<Rightarrow> string option option \<Rightarrow> string option option option" where
  "mountpoint_loop sys p [] k dir = Some dir"
| "mountpoint_loop sys p (entry # es) k dir =
    (if \<not> covers entry p then mountpoint_loop sys p es k dir
     else case dir of
       None \<Rightarrow>
         if \<not> m_malloc sys k then mountpoint_loop sys p es (k + 1) None
         else do { d \<leftarrow> strcpy_into (length (mnt_dir entry) + 1) (mnt_dir entry); mountpoint_loop sys p es (k + 1) (Some (Some d)) }
     | Some d \<Rightarrow> do {
         old \<leftarrow> d;
         if covers entry old
         then do { d \<leftarrow> strcpy_into (length (mnt_dir entry)) (mnt_dir entry); mountpoint_loop sys p es k (Some (Some d)) }
         else mountpoint_loop sys p es k dir
       })"

definition get_mountpoint :: "mntsys \<Rightarrow> string option \<Rightarrow> string option option" where
  "get_mountpoint sys path = (case path of
      None \<Rightarrow> Some None
    | Some path \<Rightarrow> (case (m_realpath sys path, m_mtab sys) of
        (Some p, Some es) \<Rightarrow> do {
          dir \<leftarrow> mountpoint_loop sys p es 0 None;
          case dir of None \<Rightarrow> Some None | Some d \<Rightarrow> map_option Some d
        }
      | _ \<Rightarrow> Some None))"

text \<open>\<open>get_block_device\<close> allocates two blocks at a time and copies only when it has got both.\<close>

fun block_loop :: "mntsys \<Rightarrow> string \<Rightarrow> mntent list \<Rightarrow> nat \<Rightarrow> string option option \<Rightarrow> string option option \<Rightarrow>
    (string option option \<times> string option option) option" where
  "block_loop sys p [] k dir fsname = Some (dir, fsname)"
| "block_loop sys p (entry # es) k dir fsname =
    (if \<not> covers entry p then block_loop sys p es k dir fsname
     else case dir of
       None \<Rightarrow>
         if m_malloc sys k \<and> m_malloc sys (k + 1) then do {
           d \<leftarrow> strcpy_into (length (mnt_dir entry) + 1) (mnt_dir entry);
           f \<leftarrow> strcpy_into (length (mnt_fsname entry) + 1) (mnt_fsname entry);
           block_loop sys p es (k + 2) (Some (Some d)) (Some (Some f))
         }
         else block_loop sys p es (k + 2) (if m_malloc sys k then Some None else None) (if m_malloc sys (k + 1) then Some None else None)
     | Some d \<Rightarrow> do {
         old \<leftarrow> d;
         if covers entry old then do {
           d \<leftarrow> strcpy_into (length (mnt_dir entry)) (mnt_dir entry);
           f \<leftarrow> strcpy_into (length (mnt_fsname entry)) (mnt_fsname entry);
           block_loop sys p es k (Some (Some d)) (Some (Some f))
         }
         else block_loop sys p es k dir fsname
       })"

definition get_block_device :: "mntsys \<Rightarrow> string option \<Rightarrow> string option option" where
  "get_block_device sys path = do {
     (dir, fsname) \<leftarrow> (case path of
         None \<Rightarrow> Some (None, None)
       | Some path \<Rightarrow> (case (m_realpath sys path, m_mtab sys) of
           (Some p, Some es) \<Rightarrow> block_loop sys p es 0 None None
         | _ \<Rightarrow> Some (None, None)));
     case fsname of
       None \<Rightarrow> Some None
     | Some f \<Rightarrow> do {
         f \<leftarrow> f;
         Some (if m_stat sys f = Some 2 then None else Some f)
       }
   }"

section \<open>What they find\<close>

lemma covers_iff: "covers entry p \<longleftrightarrow> take (length (mnt_dir entry)) p = mnt_dir entry"
  by (auto simp: covers_def strneq_def)

lemma mountpoint_rest:
  "mountpoint_loop sys p es k (Some (Some d)) =
    (if \<exists>e \<in> set es. covers e p \<and> covers e d then None else Some (Some (Some d)))"
  by (induction es arbitrary: k) (auto simp: strcpy_into_def)

lemma block_rest:
  "block_loop sys p es k (Some (Some d)) (Some (Some f)) =
    (if \<exists>e \<in> set es. covers e p \<and> covers e d then None else Some (Some (Some d), Some (Some f)))"
  by (induction es arbitrary: k) (auto simp: strcpy_into_def)

lemma loop_first:
  assumes "\<forall>k. m_malloc sys k" "dropWhile (\<lambda>e. \<not> covers e p) es = e # es'"
  shows "mountpoint_loop sys p es k None = mountpoint_loop sys p es' (k + 1) (Some (Some (mnt_dir e)))"
    "block_loop sys p es k None None = block_loop sys p es' (k + 2) (Some (Some (mnt_dir e))) (Some (Some (mnt_fsname e)))"
  using assms by (induction es) (auto simp: strcpy_into_def split: if_splits)

lemma loop_none:
  assumes "dropWhile (\<lambda>e. \<not> covers e p) es = []"
  shows "mountpoint_loop sys p es k None = Some None" "block_loop sys p es k None None = Some (None, None)"
  using assms by (induction es) (auto split: if_splits)

text \<open>C33: with all allocations granted, \<open>get_mountpoint\<close> and \<open>get_block_device\<close> give the first entry of \<open>/etc/mtab\<close> whose
directory is a prefix of the path, not the longest one; a later entry matters only if it matches too and its directory is a
prefix of the one already found, and then both functions write one byte past the block they have just made smaller.\<close>

theorem mount_first:
  assumes "\<forall>k. m_malloc sys k" "m_realpath sys path = Some p" "m_mtab sys = Some es"
  shows "(get_mountpoint sys (Some path), get_block_device sys (Some path)) =
    (case dropWhile (\<lambda>e. \<not> covers e p) es of
       [] \<Rightarrow> (Some None, Some None)
     | e # es' \<Rightarrow> if \<exists>e' \<in> set es'. covers e' p \<and> covers e' (mnt_dir e) then (None, None)
         else (Some (Some (mnt_dir e)), Some (if m_stat sys (mnt_fsname e) = Some 2 then None else Some (mnt_fsname e))))"
proof (cases "dropWhile (\<lambda>e. \<not> covers e p) es")
  case Nil
  show ?thesis unfolding Nil by (simp add: get_mountpoint_def get_block_device_def assms loop_none [OF Nil])
next
  case (Cons e es')
  with assms show ?thesis
    by (auto simp: get_mountpoint_def get_block_device_def loop_first [OF assms(1) Cons] mountpoint_rest block_rest)
qed

definition mtab_home :: "mntent list" where
  "mtab_home = [\<lparr>mnt_dir = ''/'', mnt_fsname = ''/dev/sda1''\<rparr>, \<lparr>mnt_dir = ''/home'', mnt_fsname = ''/dev/sda2''\<rparr>]"

text \<open>A file under \<open>/home\<close> is said to be on the root file system when that comes first, as it does; listed the other way
round, the same path overruns the block.  \<open>/home2\<close> counts as under \<open>/home\<close>.\<close>

lemma mount_first_witness:
  "let sys = \<lparr>m_realpath = Some, m_mtab = Some mtab_home, m_malloc = \<lambda>_. True, m_stat = \<lambda>_. None\<rparr> in
   (get_mountpoint sys (Some ''/home/x''), get_block_device sys (Some ''/home/x'')) = (Some (Some ''/''), Some (Some ''/dev/sda1''))"
  using mount_first [of "\<lparr>m_realpath = Some, m_mtab = Some mtab_home, m_malloc = \<lambda>_. True, m_stat = \<lambda>_. None\<rparr>"
      "''/home/x''" "''/home/x''" mtab_home]
  by (simp add: mtab_home_def covers_iff)

lemma mount_overflow:
  "let sys = \<lparr>m_realpath = Some, m_mtab = Some (rev mtab_home), m_malloc = \<lambda>_. True, m_stat = \<lambda>_. None\<rparr> in
   get_mountpoint sys (Some ''/home/x'') = None \<and> get_block_device sys (Some ''/home/x'') = None"
  by (simp add: get_mountpoint_def get_block_device_def mtab_home_def covers_iff strcpy_into_def)

lemma mount_sibling:
  "get_mountpoint \<lparr>m_realpath = Some, m_mtab = Some (tl mtab_home), m_malloc = \<lambda>_. True, m_stat = \<lambda>_. None\<rparr> (Some ''/home2/x'') =
    Some (Some ''/home'')"
  by (simp add: get_mountpoint_def mtab_home_def covers_iff strcpy_into_def)

end
