(* ===== verification/Floats.thy ===== *)
theory Floats
imports Complex_Main CString "HOL-Library.Log_Nat"
begin

text \<open>Where the library computes with \<open>float\<close> and \<open>double\<close>: \<open>str_to_bytes.c\<close> and \<open>tst_cwd_has_free.c\<close>.

A floating point value is the rational number it stands for; \<open>round_to p\<close> gives the nearest number with \<open>p\<close> significant bits,
ties to even (24 for \<open>float\<close>, 53 for \<open>double\<close>).  Overflow to infinity and the loss of bits near 0 do not occur for the values
here.  \<open>int\<close> and \<open>long\<close> have 32 bits.\<close>

section \<open>Rounding\<close>

definition half_even :: "rat \<Rightarrow> int" where
  "half_even x = (let f = \<lfloor>x\<rfloor>; d = x - of_int f in
     if d < 1 / 2 then f else if d > 1 / 2 then f + 1 else if even f then f else f + 1)"

text \<open>The exponent of the last of the \<open>p\<close> bits of a positive number.\<close>

definition pow2 :: "int \<Rightarrow> rat" where
  "pow2 k = (if 0 \<le> k then 2 ^ nat k else 1 / 2 ^ nat (- k))"

definition last_bit :: "nat \<Rightarrow> rat \<Rightarrow> int" where
  "last_bit p x = (case quotient_of x of (a, b) \<Rightarrow>
     let k = bitlen a - bitlen b in (if pow2 k \<le> x then k else k - 1) - int p + 1)"

definition round_to :: "nat \<Rightarrow> rat \<Rightarrow> rat" where
  "round_to p x = (if x = 0 then 0 else
     let e = last_bit p \<bar>x\<bar> in sgn x * of_int (half_even (\<bar>x\<bar> / pow2 e)) * pow2 e)"

text \<open>Whole numbers of at most \<open>p\<close> bits are kept.\<close>

lemma half_even_int [simp]: "half_even (of_int i) = i"
  by (simp add: half_even_def)

lemma bitlen_1: "bitlen 1 = 1"
  using compute_bitlen [of 1] by simp

lemma round_to_nat:
  assumes "n < 2 ^ p"
  shows "round_to p (of_nat n) = of_nat n"
proof (cases "n = 0")
  case True
  then show ?thesis by (simp add: round_to_def)
next
  case False
  let ?k = "bitlen (int n) - 1"
  have b: "bitlen (int n) \<le> int p" using assms False by (simp add: bitlen_le_iff_power)
  have q: "quotient_of (of_nat n) = (int n, 1)" using quotient_of_int [of "int n"] by simp
  have e: "last_bit p (of_nat n) = (if pow2 ?k \<le> of_nat n then ?k else ?k - 1) - int p + 1"
    by (simp add: last_bit_def q Let_def bitlen_1)
  define e where "e = last_bit p (of_nat n)"
  have "e \<le> 0" using b unfolding e_def e by auto
  then have "(of_nat n :: rat) / pow2 e = of_int (int n * 2 ^ nat (- e))" by (cases "e = 0") (simp_all add: pow2_def)
  moreover have "(2 :: rat) ^ nat (- e) * pow2 e = 1" using \<open>e \<le> 0\<close> by (cases "e = 0") (simp_all add: pow2_def)
  ultimately show ?thesis using False
    by (simp add: round_to_def Let_def e_def [symmetric] half_even_int del: of_int_mult of_int_power)
      (simp add: mult.assoc)
qed

section \<open>str_to_bytes\<close>

text \<open>\<open>%f\<close> as far as it is modelled: digits with an optional sign and point.  Exponents, hexadecimal numbers, infinities and
NaN are not, see \<open>plain\<close> below.\<close>

definition scan_float :: "string \<Rightarrow> (rat \<times> string) option" where
  "scan_float s =
    (let (neg, s1) = read_sign (dropWhile isspace s);
         (v, n, r) = read_digits 10 0 0 s1;
         (v, n', r) = (case r of [] \<Rightarrow> (v, n, r) | c # r' \<Rightarrow> if c = CHR ''.'' then read_digits 10 v n r' else (v, n, r))
     in if n' = 0 then None else Some ((if neg then - 1 else 1) * of_int v / 10 ^ (n' - n), r))"

definition plain_form :: "string \<Rightarrow> bool" where
  "plain_form s \<longleftrightarrow> (\<forall>c \<in> set s. c \<notin> set ''eExXpPiInN'')"

text \<open>A conversion to an integer type that cannot hold the value is undefined.\<close>

definition to_int :: "nat \<Rightarrow> rat \<Rightarrow> int option" where
  "to_int bits x = (let i = (if x < 0 then - \<lfloor>- x\<rfloor> else \<lfloor>x\<rfloor>) in
     if - (2 ^ (bits - 1)) \<le> i \<and> i < 2 ^ (bits - 1) then Some i else None)"

definition B_MULT :: rat where "B_MULT = 512"
definition K_MULT :: rat where "K_MULT = 1024"
definition M_MULT :: rat where "M_MULT = 1048576"
definition G_MULT :: rat where "G_MULT = 1073741824"

text \<open>The common body: the precision of \<open>num\<close>, the bits of the result and the size of the type that \<open>K\<close>, \<open>M\<close> and \<open>G\<close> count
in.  The multipliers are powers of two, so that the products need no rounding.  \<open>sscanf\<close> gives -1, not 0, for an empty
text; \<open>mult\<close> is then read without having been written.  (\<open>None\<close> also stands for the forms of a number that are left out.)\<close>

definition str_bytes :: "nat \<Rightarrow> nat \<Rightarrow> rat \<Rightarrow> string \<Rightarrow> int option" where
  "str_bytes p bits sz s = do {
     chk (plain_form s);
     if dropWhile isspace s = [] then None
     else case scan_float s of
       None \<Rightarrow> Some (- 1)
     | Some (x, rest) \<Rightarrow>
         let num = round_to p x in
         (case rest of
           [] \<Rightarrow> to_int bits num
         | [mult] \<Rightarrow>
             if mult = CHR ''b'' then to_int bits (num * B_MULT)
             else if mult = CHR ''k'' then to_int bits (num * K_MULT)
             else if mult = CHR ''K'' then to_int bits ((num * K_MULT) * sz)
             else if mult = CHR ''m'' then to_int bits (num * M_MULT)
             else if mult = CHR ''M'' then to_int bits ((num * M_MULT) * sz)
             else if mult = CHR ''g'' then to_int bits (num * G_MULT)
             else if mult = CHR ''G'' then to_int bits ((num * G_MULT) * sz)
             else Some (- 1)
         | _ \<Rightarrow> Some (- 1))
   }"

definition str_to_bytes :: "string \<Rightarrow> int option" where "str_to_bytes = str_bytes 24 32 4"
definition str_to_lbytes :: "string \<Rightarrow> int option" where "str_to_lbytes = str_bytes 24 32 4"
definition str_to_llbytes :: "string \<Rightarrow> int option" where "str_to_llbytes = str_bytes 53 64 8"

section \<open>tst_cwd_has_free\<close>

text \<open>\<open>1024 / f_bsize\<close> is a division of integers; the float division by its result is one by 0 when blocks are larger than
1024 bytes: infinity, which is not less than anything, or NaN, which is not greater.\<close>

definition tst_cwd_has_free :: "nat \<Rightarrow> int \<Rightarrow> int \<Rightarrow> int option" where
  "tst_cwd_has_free f_bfree f_bsize required_kib = do {
     d \<leftarrow> c_div 1024 f_bsize;
     let free = round_to 24 (of_nat f_bfree);
     Some (if d = 0 then (if f_bfree = 0 then 0 else 1)
       else if round_to 24 (free / of_int d) \<ge> round_to 24 (of_int required_kib) then 1 else 0)
   }"

section \<open>What they compute\<close>

definition mult_of :: "nat \<Rightarrow> char \<Rightarrow> nat option" where
  "mult_of sz c = (if c = CHR ''b'' then Some 512 else if c = CHR ''k'' then Some 1024 else if c = CHR ''K'' then Some (1024 * sz)
     else if c = CHR ''m'' then Some 1048576 else if c = CHR ''M'' then Some (1048576 * sz)
     else if c = CHR ''g'' then Some 1073741824 else if c = CHR ''G'' then Some (1073741824 * sz) else None)"

lemma plain_form_nat: "plain_form (nat_to_string n)"
proof -
  have "c \<notin> set ''eExXpPiInN''" if c: "c \<in> set (nat_to_string n)" for c
  proof -
    obtain d where d: "d < 10" "c = char_of (48 + d :: nat)" using nat_to_string_chars [OF c] by blast
    then have "of_char c = (48 + d :: nat)" by simp
    with d(1) show ?thesis by auto
  qed
  then show ?thesis by (auto simp: plain_form_def)
qed

lemma mult_plain: "mult_of sz c \<noteq> None \<Longrightarrow> plain_form [c] \<and> c \<noteq> CHR ''.'' \<and> (\<forall>a n. read_digits 10 a n [c] = (a, n, [c]))"
  by (auto simp: mult_of_def plain_form_def digit_of_def split: if_splits)

lemma scan_float_nat:
  assumes "\<forall>a n. read_digits 10 a n ms = (a, n, ms)" "ms = [] \<or> hd ms \<noteq> CHR ''.''"
  shows "scan_float (nat_to_string n @ ms) = Some (of_nat n, ms)" "dropWhile isspace (nat_to_string n @ ms) \<noteq> []"
proof -
  obtain d :: nat and cs where h: "nat_to_string n = char_of (48 + d) # cs" "d < 10" using nat_to_string_head by blast
  have ns: "\<not> isspace (char_of (48 + d))" "char_of (48 + d) \<noteq> CHR ''-''" "char_of (48 + d) \<noteq> CHR ''+''"
    using h(2) by (auto simp: isspace_def char_of_eq_iff take_bit_eq_mod)
  obtain k where k: "k > 0" "\<forall>a m ys. read_digits 10 a m (nat_to_string n @ ys) = read_digits 10 (a * 10 ^ k + int n) (m + k) ys"
    using read_nat_to_string [of n] by blast
  have "read_sign (dropWhile isspace (nat_to_string n @ ms)) = (False, nat_to_string n @ ms)"
    using ns h by (simp add: read_sign_def)
  moreover have "read_digits 10 0 0 (nat_to_string n @ ms) = (int n, k, ms)" using k(2) assms(1) by simp
  ultimately show "scan_float (nat_to_string n @ ms) = Some (of_nat n, ms)"
    using k(1) assms(2) by (cases ms) (simp_all add: scan_float_def)
  show "dropWhile isspace (nat_to_string n @ ms) \<noteq> []" using ns(1) h(1) by simp
qed

lemma to_int_nat: "n < 2 ^ (bits - 1) \<Longrightarrow> to_int bits (of_nat n) = Some (int n)"
  by (simp add: to_int_def order.trans [of _ 0])

lemma str_bytes_exact:
  assumes "mult_of sz c = Some f" "n < 2 ^ p" "n * f < 2 ^ (bits - 1)"
  shows "str_bytes p bits (of_nat sz) (nat_to_string n @ [c]) = Some (int (n * f))"
proof -
  have m: "plain_form [c]" "c \<noteq> CHR ''.''" "\<forall>a n. read_digits 10 a n [c] = (a, n, [c])" using mult_plain assms(1) by blast+
  have s: "scan_float (nat_to_string n @ [c]) = Some (of_nat n, [c])" "dropWhile isspace (nat_to_string n @ [c]) \<noteq> []"
    using scan_float_nat [of "[c]" n] m by auto
  have pf: "plain_form (nat_to_string n @ [c])" using plain_form_nat m(1) by (auto simp: plain_form_def)
  have t: "to_int bits (of_nat n * of_nat f) = Some (int n * int f)"
    using to_int_nat [OF assms(3)] by simp
  show ?thesis
    using s pf assms(1) t round_to_nat [OF assms(2)]
    by (auto simp: str_bytes_def c_simps mult_of_def B_MULT_def K_MULT_def M_MULT_def G_MULT_def mult.assoc split: if_splits)
qed

text \<open>C34: of a text that is a number \<open>n\<close> followed by one of the multipliers, \<open>str_to_bytes\<close>, \<open>str_to_lbytes\<close> and
\<open>str_to_llbytes\<close> give \<open>n\<close> times the multiplier, as long as the result fits its type and \<open>n\<close> has no more bits than the
floating point type the number is read into.\<close>

theorem str_to_bytes_exact:
  assumes "mult_of 4 c = Some f" "mult_of 8 c = Some g"
  shows "(n < 2 ^ 24 \<and> n * f < 2 ^ 31 \<longrightarrow>
      str_to_bytes (nat_to_string n @ [c]) = Some (int (n * f)) \<and> str_to_lbytes (nat_to_string n @ [c]) = Some (int (n * f))) \<and>
    (n < 2 ^ 53 \<and> n * g < 2 ^ 63 \<longrightarrow> str_to_llbytes (nat_to_string n @ [c]) = Some (int (n * g)))"
  using str_bytes_exact [OF assms(1), of n 24 32] str_bytes_exact [OF assms(2), of n 53 64]
  by (auto simp: str_to_bytes_def str_to_lbytes_def str_to_llbytes_def)

lemma str_to_bytes_exact_witness:
  "str_to_bytes (nat_to_string 20 @ ''K'') = Some 81920 \<and> str_to_llbytes (nat_to_string 3 @ ''G'') = Some 25769803776"
  using str_to_bytes_exact [of "CHR ''K''" 4096 8192 20] str_to_bytes_exact [of "CHR ''G''" 4294967296 8589934592 3]
  by (simp add: mult_of_def)

text \<open>A number of more bits is rounded without notice, and an empty text has no result.\<close>

lemma str_to_bytes_rounds: "str_to_bytes ''16777217'' = Some 16777216"
  by code_simp

lemma str_to_bytes_empty: "str_to_bytes [] = None"
  by (simp add: str_to_bytes_def str_bytes_def)

text \<open>With blocks of 1024 bytes the answer is right; with larger ones every file system with a free block has enough.\<close>

lemma cwd_has_free_small:
  assumes "f_bfree < 2 ^ 24" "required < 2 ^ 24"
  shows "tst_cwd_has_free f_bfree 1024 (int required) = Some (if f_bfree \<ge> required then 1 else 0)"
  using round_to_nat [OF assms(1)] round_to_nat [OF assms(2)] by (simp add: tst_cwd_has_free_def c_arith)

lemma cwd_has_free_large:
  assumes "1024 < f_bsize"
  shows "tst_cwd_has_free f_bfree f_bsize required = Some (if f_bfree = 0 then 0 else 1)"
  using assms by (simp add: tst_cwd_has_free_def c_arith)

end
