(* ===== verification/UnitMains.thy ===== *)
theory UnitMains
imports StrProps Paths MountUtils Floats
begin

unbundle bit_operations_syntax

text \<open>The small programs at the end of \<open>open_flags.c\<close>, \<open>str_to_bytes.c\<close>, \<open>search_path.c\<close> and \<open>mount_utils.c\<close> of
\<open>ltp_framework/lib\<close>, which call the functions above them with the words of the command line: what they print on the
standard output, with the exit status where they set one.  \<open>argv\<close> begins with the name of the program.

The lemmas run a program on its own output, and show where the report of \<open>search_path\<close> goes wrong.\<close>

section \<open>open_flags.c\<close>

text \<open>\<open>%#o\<close>.\<close>

fun octal :: "nat \<Rightarrow> string" where
  "octal n = (if n < 8 then [char_of (48 + n)] else octal (n div 8) @ [char_of (48 + n mod 8)])"

declare octal.simps [simp del]

definition show_octal :: "fword \<Rightarrow> string" where
  "show_octal w = (if w = 0 then ''0'' else ''0'' @ octal (unat w))"

definition symbols_line :: "fword \<Rightarrow> string \<Rightarrow> string" where
  "symbols_line bits t = ''openflags2symbols('' @ show_octal bits @ '', \",\", 1) returned '' @ t @ [CHR 0x0A]"

text \<open>Both lines about \<open>parse_open_flags\<close> print \<open>argv[0]\<close>, which is not what was parsed.\<close>

definition parsed_line :: "string \<Rightarrow> fword \<Rightarrow> string" where
  "parsed_line prog ret = ''parse_open_flags('' @ prog @ '', &err) returned '' @ show_octal ret @ [CHR 0x0A]"

definition bad_line :: "string \<Rightarrow> string \<Rightarrow> string" where
  "bad_line prog err = ''parse_open_flags('' @ prog @ '', &err) returned -1, err = '' @ err @ [CHR 0x0A]"

text \<open>\<open>err\<close> is set only when a name is not known; a set of all flags is -1 too.\<close>

definition open_flags_main :: "(string \<Rightarrow> fword option) \<Rightarrow> string list \<Rightarrow> (int \<times> string) option" where
  "open_flags_main v argv = (case argv of
      [] \<Rightarrow> None
    | [prog] \<Rightarrow> Some (1, ''Usage: '' @ prog @ '' openflagsbits'' @ [CHR 0x0A, CHR 0x09] @ prog @ '' symbols'' @ [CHR 0x0A])
    | prog # arg # _ \<Rightarrow> (case sscanf_i arg of
        Some bits \<Rightarrow> do {
          chk (fits_int bits);
          t \<leftarrow> openflags2symbols v (word_of_int bits) '','' 1;
          Some (0, symbols_line (word_of_int bits) t)
        }
      | None \<Rightarrow> (case parse_open_flags v arg of (ret, err) \<Rightarrow>
          if ret = - 1 then do { e \<leftarrow> err; Some (0, bad_line prog e) }
          else Some (0, parsed_line prog ret))))"

section \<open>str_to_bytes.c\<close>

definition bytes_lines :: "string \<Rightarrow> string option" where
  "bytes_lines arg = do {
     i \<leftarrow> str_to_bytes arg;
     l \<leftarrow> str_to_lbytes arg;
     ll \<leftarrow> str_to_llbytes arg;
     let line = (\<lambda>f n. f @ ''('' @ arg @ '') returned '' @ int_to_string n @ [CHR 0x0A]);
     Some (line ''str_to_bytes'' i @ line ''str_to_lbytes'' l @ line ''str_to_llbytes'' ll)
   }"

text \<open>The message of the first case is on the standard error output.\<close>

definition str_to_bytes_main :: "string list \<Rightarrow> (int \<times> string) option" where
  "str_to_bytes_main argv = (if length argv = 1 then Some (1, [])
     else do { out \<leftarrow> ofold (\<lambda>arg out. do { t \<leftarrow> bytes_lines arg; Some (out @ t) }) (tl argv) []; Some (0, out) })"

section \<open>search_path.c\<close>

text \<open>\<open>main\<close> ends without a \<open>return\<close>; the status is that of success.\<close>

definition path_line :: "penv_path \<Rightarrow> string \<Rightarrow> string option" where
  "path_line e cmd = do {
     (r, path) \<leftarrow> search_path e cmd False;
     Some (if r < 0 then ''ERROR: '' @ path @ [CHR 0x0A] else ''path of '' @ cmd @ '' is '' @ path @ [CHR 0x0A])
   }"

definition search_path_main :: "penv_path \<Rightarrow> string list \<Rightarrow> (int \<times> string) option" where
  "search_path_main e argv = (if length argv \<le> 1 then Some (1, ''missing argument'' @ [CHR 0x0A])
     else do { out \<leftarrow> ofold (\<lambda>cmd out. do { t \<leftarrow> path_line e cmd; Some (out @ t) }) (tl argv) []; Some (0, out) })"

section \<open>mount_utils.c\<close>

definition unit_paths :: "string list" where
  "unit_paths = [''/home'', ''/mnt'', ''/tmp/foo'', ''/proc'', ''/optimus/store'']"

text \<open>The library prints NULL under \<open>%s\<close> as \<open>(null)\<close>.  \<open>sys p\<close> is what the calls for \<open>p\<close> meet.\<close>

definition device_line :: "(string \<Rightarrow> mntsys) \<Rightarrow> string \<Rightarrow> string option" where
  "device_line sys p = do {
     d \<leftarrow> get_block_device (sys p) (Some p);
     Some (p @ '' - '' @ (case d of None \<Rightarrow> ''(null)'' | Some d \<Rightarrow> d) @ [CHR 0x0A])
   }"

definition mount_main :: "(string \<Rightarrow> mntsys) \<Rightarrow> (int \<times> string) option" where
  "mount_main sys = do {
     out \<leftarrow> ofold (\<lambda>p out. do { t \<leftarrow> device_line sys p; Some (out @ t) }) unit_paths [];
     Some (0, out)
   }"

section \<open>What they show\<close>

text \<open>The output is that of the words one after the other.\<close>

lemma ofold_lines:
  assumes "\<forall>x \<in> set xs. f x = Some (g x)"
  shows "ofold (\<lambda>x out. do { t \<leftarrow> f x; Some (out @ t) }) xs out = Some (out @ concat (map g xs))"
  using assms by (induction xs arbitrary: out) auto

text \<open>A text of flag names is not a number.\<close>

lemma sscanf_letter: "c = CHR ''O'' \<or> c = CHR ''U'' \<Longrightarrow> sscanf_i (c # cs) = None"
proof -
  assume c: "c = CHR ''O'' \<or> c = CHR ''U''"
  then have d: "\<exists>d. digit_of c = Some d \<and> \<not> d < 10" and n: "\<not> isspace c" "c \<noteq> CHR ''-''" "c \<noteq> CHR ''+''" "c \<noteq> CHR ''0''"
    by (auto simp: digit_of_def isspace_def)
  have b: "read_base (c # cs) = (10, c # cs)" using n(4) by (cases cs) (simp_all add: read_base_def)
  from d have "read_digits 10 0 0 (c # cs) = (0, 0, c # cs)" by auto
  with b n show ?thesis by (simp add: sscanf_i_def scan_int_def read_sign_def)
qed

lemma Open_flags_letter: "map_of (Open_flags v) n = Some b \<Longrightarrow> \<exists>cs. n = CHR ''O'' # cs"
proof -
  have "\<forall>n \<in> set flag_names. \<exists>cs. n = CHR ''O'' # cs" by (simp add: flag_names_def always_flags_def)
  moreover assume "map_of (Open_flags v) n = Some b"
  then have "n \<in> set flag_names" by (auto simp: Open_flags_def dest!: map_of_SomeD)
  ultimately show ?thesis by blast
qed

lemma parse_open_flags_head: "parse_open_flags v t = (- 1, Some t) \<or> (\<exists>cs. t = CHR ''O'' # cs)"
proof (cases "map_of (Open_flags v) (takeWhile (\<lambda>c. c \<noteq> CHR '','') t)")
  case None
  then show ?thesis unfolding parse_open_flags_def by (subst parse_flag_names.simps) simp
next
  case (Some b)
  then obtain cs where "takeWhile (\<lambda>c. c \<noteq> CHR '','') t = CHR ''O'' # cs" using Open_flags_letter by blast
  then show ?thesis by (cases t) (auto split: if_splits)
qed

text \<open>The program of \<open>open_flags.c\<close>, run on its own output: given a number it prints a text, and given this text it prints the
number, or names \<open>UNKNOWN\<close> as the flag it does not know.  -1 is left out: a set of all bits cannot be told from an error.\<close>

lemma open_flags_main_again:
  assumes "open_flags_main v [prog, int_to_string bits] = Some (0, out)" "flag_value v ''O_RDONLY'' = 0"
    "(word_of_int bits :: fword) \<noteq> - 1"
  shows "\<exists>t. out = symbols_line (word_of_int bits) t \<and>
    (open_flags_main v [prog, t] = Some (0, parsed_line prog (word_of_int bits)) \<or>
     open_flags_main v [prog, t] = Some (0, bad_line prog ''UNKNOWN''))"
proof -
  obtain t where t: "openflags2symbols v (word_of_int bits) '','' 1 = Some t" "out = symbols_line (word_of_int bits) t"
    using assms(1) by (auto simp: open_flags_main_def c_simps bind_eq_Some_conv split: if_splits)
  note r = symbols_read_back [OF t(1) assms(2)]
  have "sscanf_i t = None"
  proof (cases "\<exists>cs. t = CHR ''O'' # cs")
    case True
    then show ?thesis by (elim exE) (simp add: sscanf_letter)
  next
    case False
    then have "parse_open_flags v t = (- 1, Some t)" using parse_open_flags_head [of v t] by blast
    with r have "t = ''UNKNOWN''" by (elim disjE conjE) simp_all
    then show ?thesis by (simp add: sscanf_letter)
  qed
  then have m: "open_flags_main v [prog, t] = (case parse_open_flags v t of (ret, err) \<Rightarrow>
      if ret = - 1 then do { e \<leftarrow> err; Some (0, bad_line prog e) } else Some (0, parsed_line prog ret))"
    by (simp add: open_flags_main_def)
  from r have "open_flags_main v [prog, t] = Some (0, parsed_line prog (word_of_int bits)) \<or>
      open_flags_main v [prog, t] = Some (0, bad_line prog ''UNKNOWN'')"
    unfolding m using assms(3) by (elim disjE conjE) simp_all
  with t(2) show ?thesis by blast
qed

text \<open>A command that is in none of the directories is reported as found, at the path \<open>Unable to find file\<close>: \<open>search_path\<close>
returns 1 for it, and the program looks for a negative result.\<close>

lemma search_main_not_found:
  assumes "CHR ''/'' \<notin> set cmd" "p_path e = Some path" "path = [] \<or> hd path \<noteq> CHR '':''"
    "\<forall>p \<in> set (split_on (\<lambda>c. c = CHR '':'') path). length p + length cmd + 2 \<le> PATH_MAX \<and> \<not> p_access e (p @ ''/'' @ cmd)"
  shows "search_path_main e [prog, cmd] = Some (0, ''path of '' @ cmd @ '' is Unable to find file'' @ [CHR 0x0A])"
proof -
  have "found e cmd (split_on (\<lambda>c. c = CHR '':'') path) = (1, ''Unable to find file'')"
    using assms(4) find_None_iff [of "\<lambda>p. p_access e (p @ ''/'' @ cmd)" "split_on (\<lambda>c. c = CHR '':'') path"]
    by (simp add: found_def)
  with search_path_first [OF assms(1-3)] assms(4) show ?thesis by (simp add: search_path_main_def path_line_def)
qed

text \<open>On a system with one file system, whose device exists, the program of \<open>mount_utils.c\<close> names it for every path that exists.\<close>

lemma mount_main_root:
  assumes "\<forall>p. m_mtab (sys p) = Some [\<lparr>mnt_dir = ''/'', mnt_fsname = dev\<rparr>] \<and> (\<forall>k. m_malloc (sys p) k)"
    "\<forall>p \<in> set unit_paths. \<exists>q. m_realpath (sys p) p = Some (CHR ''/'' # q)" "\<forall>p. m_stat (sys p) dev \<noteq> Some 2"
  shows "mount_main sys = Some (0, concat (map (\<lambda>p. p @ '' - '' @ dev @ [CHR 0x0A]) unit_paths))"
proof -
  have "device_line sys p = Some (p @ '' - '' @ dev @ [CHR 0x0A])" if p: "p \<in> set unit_paths" for p
  proof -
    obtain q where q: "m_realpath (sys p) p = Some (CHR ''/'' # q)" using assms(2) p by blast
    have c: "covers \<lparr>mnt_dir = ''/'', mnt_fsname = dev\<rparr> (CHR ''/'' # q)" by (simp add: covers_iff)
    then have "dropWhile (\<lambda>e. \<not> covers e (CHR ''/'' # q)) [\<lparr>mnt_dir = ''/'', mnt_fsname = dev\<rparr>] = [\<lparr>mnt_dir = ''/'', mnt_fsname = dev\<rparr>]"
      by simp
    note l = loop_first(2) [OF _ this, of "sys p" 0]
    have "get_block_device (sys p) (Some p) = Some (Some dev)"
      using assms(1,3) q l by (simp add: get_block_device_def)
    then show ?thesis by (simp add: device_line_def)
  qed
  then show ?thesis
    using ofold_lines [of unit_paths "device_line sys" "\<lambda>p. p @ '' - '' @ dev @ [CHR 0x0A]" "[]"] by (simp add: mount_main_def)
qed

end
