(* ===== verification/Forker.thy ===== *)
theory Forker
imports CString
begin

text \<open>\<open>ltp_framework/lib/forker.c\<close>: copies of a process.

In both modes of \<open>forker\<close> each value of \<open>cnt\<close> is forked for by one process, so that \<open>fk cnt\<close> is the result of that fork: the
pid of the child, or \<open>None\<close>.  The model gives all processes that return from \<open>forker\<close>, with their return values and their
copies of \<open>Forker_pids\<close> and \<open>Forker_npids\<close>.  Messages are not modelled, but the pids that the \<open>UNIT_TEST\<close> program prints
are.\<close>

definition FORKER_MAX_PIDS :: int where "FORKER_MAX_PIDS = 4098"

record fpids =
  Forker_pids :: "int list"
  Forker_npids :: int

text \<open>\<open>Forker_npids++; if (Forker_npids < FORKER_MAX_PIDS) Forker_pids[Forker_npids-1] = pid;\<close>\<close>

definition note_pid :: "int \<Rightarrow> fpids \<Rightarrow> fpids option" where
  "note_pid pid s = do {
     let n = Forker_npids s + 1;
     ps \<leftarrow> (if n < FORKER_MAX_PIDS then wr (Forker_pids s) (n - 1) pid else Some (Forker_pids s));
     Some \<lparr>Forker_pids = ps, Forker_npids = n\<rparr>
   }"

definition forker_end :: "int \<Rightarrow> fpids \<Rightarrow> (int \<times> fpids) option" where
  "forker_end cnt s = do {
     ps \<leftarrow> (if Forker_npids s < FORKER_MAX_PIDS then wr (Forker_pids s) (Forker_npids s) 0 else Some (Forker_pids s));
     Some (cnt - 1, s\<lparr>Forker_pids := ps\<rparr>)
   }"

text \<open>The loop from \<open>cnt\<close> on: the process that forks first, its children after it.  The child's \<open>getpid()\<close> is what \<open>fork\<close>
returned to its parent.\<close>

function forker_loop :: "(int \<Rightarrow> int option) \<Rightarrow> int \<Rightarrow> int \<Rightarrow> int \<Rightarrow> fpids \<Rightarrow> (int \<times> fpids) list option" where
  "forker_loop fk ncopies mode cnt s =
    (if cnt < ncopies then (case fk cnt of
        None \<Rightarrow> Some [(if mode = 1 then 0 else cnt - 1, s)]
      | Some pid \<Rightarrow> do {
          s \<leftarrow> note_pid pid s;
          rest \<leftarrow> forker_loop fk ncopies mode (cnt + 1) s;
          if mode = 1 then Some ((cnt - 1, s) # rest) else Some (hd rest # (cnt, s) # tl rest)
        })
     else do { p \<leftarrow> forker_end cnt s; Some [p] })"
  by pat_completeness auto
termination by (relation "measure (\<lambda>(fk, ncopies, mode, cnt, s). nat (ncopies - cnt))") auto

declare forker_loop.simps [simp del]

definition forker :: "(int \<Rightarrow> int option) \<Rightarrow> int \<Rightarrow> int \<Rightarrow> fpids \<Rightarrow> (int \<times> fpids) list option" where
  "forker fk ncopies mode s = do {
     ps \<leftarrow> wr (Forker_pids s) 0 0;
     forker_loop fk ncopies mode 1 (s\<lparr>Forker_pids := ps\<rparr>)
   }"

text \<open>\<open>background\<close>: the exit status of the calling process and the return value in the child (\<open>None\<close>: there is none).\<close>

definition background :: "int + int \<Rightarrow> int \<times> int option" where
  "background fk = (case fk of Inl errno \<Rightarrow> (errno, None) | Inr pid \<Rightarrow> (0, Some 0))"

definition fpids0 :: fpids where "fpids0 = \<lparr>Forker_pids = replicate 4098 0, Forker_npids = 0\<rparr>"

text \<open>The program at the end: its exit status before there are copies, and what each copy prints, its return value and the pids
that it knows.\<close>

definition list_pids :: "int \<times> fpids \<Rightarrow> (int \<times> int list) option" where
  "list_pids p = do {
     pids \<leftarrow> those (map (rd (Forker_pids (snd p))) [0..Forker_npids (snd p) - 1]);
     Some (fst p, pids)
   }"

definition forker_main :: "int + int \<Rightarrow> (int \<Rightarrow> int option) \<Rightarrow> string list \<Rightarrow> (int + (int \<times> int list) list) option" where
  "forker_main bg fk av = (case av of [] \<Rightarrow> Some (Inl 1) | a # rest \<Rightarrow> (case sscanf_i a of None \<Rightarrow> Some (Inl 1) | Some ncopies \<Rightarrow>
     (case (if length rest = 1 then sscanf_i (hd rest) else Some 0) of None \<Rightarrow> Some (Inl 1) | Some mode \<Rightarrow>
       (case background bg of (status, None) \<Rightarrow> Some (Inl status) | (_, Some ret) \<Rightarrow> do {
          chk (fits_int ncopies \<and> fits_int mode);
          ps \<leftarrow> forker fk ncopies mode fpids0;
          out \<leftarrow> those (map list_pids ps);
          Some (Inr out)
        }))))"

section \<open>What it promises\<close>

text \<open>The pids noted after \<open>k\<close> forks.\<close>

definition noted :: "(int \<Rightarrow> int) \<Rightarrow> nat \<Rightarrow> fpids" where
  "noted pid k = \<lparr>Forker_pids = map (\<lambda>i. pid (int i + 1)) [0..<k] @ replicate (4098 - k) 0, Forker_npids = int k\<rparr>"

lemma note_pid_noted:
  assumes "k < 4097"
  shows "note_pid (pid (int k + 1)) (noted pid k) = Some (noted pid (Suc k))"
proof -
  have "replicate (4098 - k) (0 :: int) = 0 # replicate (4098 - Suc k) 0"
    using assms by (simp add: Suc_diff_le [symmetric] replicate_Suc [symmetric] del: replicate_Suc)
  then have "wr (Forker_pids (noted pid k)) (int k) (pid (int k + 1)) = Some (Forker_pids (noted pid (Suc k)))"
    using assms by (simp add: noted_def c_simps list_update_append)
  with assms show ?thesis
    by (simp add: note_pid_def noted_def FORKER_MAX_PIDS_def Let_def)
qed

lemma forker_end_noted:
  assumes "k < 4098"
  shows "forker_end (int k + 1) (noted pid k) = Some (int k, noted pid k)"
proof -
  have "wr (Forker_pids (noted pid k)) (int k) 0 = Some (Forker_pids (noted pid k))"
    using assms by (simp add: noted_def c_simps list_update_append) (cases "4098 - k"; simp)
  with assms show ?thesis by (simp add: forker_end_def noted_def FORKER_MAX_PIDS_def)
qed

text \<open>The processes that a successful run ends with: in mode 1 a chain, else one parent with all the others.\<close>

definition chain :: "(int \<Rightarrow> int) \<Rightarrow> nat \<Rightarrow> nat \<Rightarrow> (int \<times> fpids) list" where
  "chain pid k n = map (\<lambda>j. (int j, noted pid (Suc j))) [k..<n] @ [(int n, noted pid n)]"

definition star :: "(int \<Rightarrow> int) \<Rightarrow> nat \<Rightarrow> nat \<Rightarrow> (int \<times> fpids) list" where
  "star pid k n = (int n, noted pid n) # map (\<lambda>j. (int j + 1, noted pid (Suc j))) [k..<n]"

lemma forker_loop_all:
  assumes "\<forall>i. 1 \<le> i \<longrightarrow> i < ncopies \<longrightarrow> fk i = Some (pid i)" "ncopies = int n + 1" "n < 4098" "k \<le> n"
  shows "forker_loop fk ncopies mode (int k + 1) (noted pid k) = Some (if mode = 1 then chain pid k n else star pid k n)"
  using assms(4)
proof (induction "n - k" arbitrary: k)
  case 0
  with assms(2,3) show ?case
    by (subst forker_loop.simps) (simp add: forker_end_noted chain_def star_def)
next
  case (Suc d)
  then have k: "k < n" "d = n - Suc k" by simp_all
  with assms(3) have "k < 4097" by simp
  note step = note_pid_noted [OF this, of pid]
  have "fk (int k + 1) = Some (pid (int k + 1))" using assms(1,2) k(1) by simp
  moreover have "forker_loop fk ncopies mode (int k + 1 + 1) (noted pid (Suc k)) =
      Some (if mode = 1 then chain pid (Suc k) n else star pid (Suc k) n)"
    using Suc.hyps(1) [OF k(2)] k(1) by (simp add: ac_simps)
  ultimately show ?case
    using k(1) assms(2) by (subst forker_loop.simps) (simp add: step chain_def star_def upt_conv_Cons)
qed

lemma forker_all:
  assumes "\<forall>i. 1 \<le> i \<longrightarrow> i < ncopies \<longrightarrow> fk i = Some (pid i)" "ncopies = int n + 1" "n < 4098"
  shows "forker fk ncopies mode fpids0 = Some (if mode = 1 then chain pid 0 n else star pid 0 n)"
proof -
  have i: "wr (Forker_pids fpids0) 0 0 = Some (Forker_pids fpids0)"
    by (simp add: wr_def fpids0_def list_update_same_conv)
  have "fpids0\<lparr>Forker_pids := Forker_pids fpids0\<rparr> = noted pid 0" by (simp add: fpids0_def noted_def)
  then show ?thesis using forker_loop_all [OF assms, of 0 mode] by (simp add: forker_def i)
qed

lemma upto_as_map: "[1..int n] = map (\<lambda>j. int j + 1) [0..<n]" "[0..int n] = map int [0..<Suc n]"
  by (induction n) (simp_all add: upto_rec2)

text \<open>What a process that returned from \<open>forker\<close> has: its return value and the pids that it has noted.\<close>

definition told_pids :: "int \<times> fpids \<Rightarrow> int \<times> int list" where
  "told_pids p = (fst p, take (nat (Forker_npids (snd p))) (Forker_pids (snd p)))"

lemma told_noted: "told_pids (ret, noted pid k) = (ret, map pid [1..int k])"
  by (simp add: told_pids_def noted_def upto_as_map(1) comp_def)

text \<open>C23: when every fork succeeds, \<open>forker\<close> for up to 4098 copies (the size of \<open>Forker_pids\<close>) makes \<open>ncopies - 1\<close> new processes;
the list gives the return value and the noted pids of every process.  In mode 1 they are a chain, in which the processes
return 0, 1, 2, \<dots> (the first does not return 1, as documented); each but the last has noted one pid more than the one before, down
to that of its own child, and the last one all of them.  Otherwise the caller has noted all pids and returns their number, and
the children return 1, 2, \<dots> and have noted the pids up to their own.\<close>

theorem forker_processes:
  assumes "\<forall>i. 1 \<le> i \<longrightarrow> i < ncopies \<longrightarrow> fk i = Some (pid i)" "1 \<le> ncopies" "ncopies \<le> 4098"
  shows "\<exists>ps. forker fk ncopies mode fpids0 = Some ps \<and>
    map told_pids ps = (if mode = 1
      then map (\<lambda>j. (j, map pid [1..j + 1])) [0..ncopies - 2] @ [(ncopies - 1, map pid [1..ncopies - 1])]
      else (ncopies - 1, map pid [1..ncopies - 1]) # map (\<lambda>j. (j, map pid [1..j])) [1..ncopies - 1])"
proof -
  obtain n where n: "ncopies = int n + 1" "n < 4098"
    using assms(2,3) by (intro that [of "nat (ncopies - 1)"]) auto
  note f = forker_all [OF assms(1) n, of mode]
  have u: "[0..int n - 1] = map int [0..<n]" by (cases n) (simp_all add: upto_as_map(2) del: upt_Suc)
  show ?thesis unfolding f
    by (simp add: n chain_def star_def told_noted u upto_as_map(1) [of n] comp_def ac_simps)
qed

lemma forker_processes_witness:
  "\<exists>ps. forker (\<lambda>i. Some (100 + i)) 4 1 fpids0 = Some ps \<and>
    map told_pids ps = [(0, [101]), (1, [101, 102]), (2, [101, 102, 103]), (3, [101, 102, 103])]"
  using forker_processes [of 4 "\<lambda>i. Some (100 + i)" "\<lambda>i. 100 + i" 1] by (auto simp: upto.simps)

section \<open>The program at the end\<close>

lemma those_map_Some: "(\<And>x. x \<in> set xs \<Longrightarrow> f x = Some (g x)) \<Longrightarrow> those (map f xs) = Some (map g xs)"
  by (induction xs) auto

lemma list_pids_noted:
  assumes "k \<le> 4098"
  shows "list_pids (ret, noted pid k) = Some (ret, map (\<lambda>i. pid (int i + 1)) [0..<k])"
proof -
  have "[0..int k - 1] = map int [0..<k]" by (cases k) (simp_all add: upto_as_map(2) del: upt_Suc)
  moreover have "those (map (rd (Forker_pids (noted pid k)) \<circ> int) [0..<k]) = Some (map (\<lambda>i. pid (int i + 1)) [0..<k])"
    using assms by (intro those_map_Some) (auto simp: noted_def c_simps nth_append)
  ultimately show ?thesis by (simp add: list_pids_def noted_def)
qed

text \<open>With the mode 0 of the program the first process lists all its children, and each child itself and those before it.\<close>

lemma forker_main_star:
  assumes "\<forall>i. 1 \<le> i \<longrightarrow> i < ncopies \<longrightarrow> fk i = Some (pid i)" "ncopies = int n + 1" "n < 4098" "bg = Inr b"
  shows "forker_main bg fk [int_to_string ncopies] =
    Some (Inr ((int n, map (\<lambda>i. pid (int i + 1)) [0..<n]) # map (\<lambda>j. (int j + 1, map (\<lambda>i. pid (int i + 1)) [0..<Suc j])) [0..<n]))"
proof -
  have "those (map list_pids (map (\<lambda>j. (int j + 1, noted pid (Suc j))) [0..<n])) =
      Some (map (\<lambda>j. (int j + 1, map (\<lambda>i. pid (int i + 1)) [0..<Suc j])) [0..<n])"
    unfolding map_map comp_def using assms(3) by (intro those_map_Some) (simp add: list_pids_noted)
  then have "those (map list_pids (star pid 0 n)) =
      Some ((int n, map (\<lambda>i. pid (int i + 1)) [0..<n]) # map (\<lambda>j. (int j + 1, map (\<lambda>i. pid (int i + 1)) [0..<Suc j])) [0..<n])"
    using assms(3) by (simp add: star_def list_pids_noted del: map_map upt_Suc)
  moreover have "fits_int ncopies" "fits_int 0" using assms(2,3) by (simp_all add: fits_int_def INT_MIN_def INT_MAX_def)
  ultimately show ?thesis
    by (simp add: forker_main_def background_def assms(4) forker_all [OF assms(1-3)] c_simps)
qed

end
