(* ===== verification/Rmobj.thy ===== *)
theory Rmobj
imports Paths
begin

text \<open>\<open>ltp_framework/lib/rmobj.c\<close>: removing a file or a directory with all that is in it.

The file system is a tree in which every object says which calls on it succeed: of a file, whether \<open>unlink\<close> does; of a
directory, whether \<open>opendir\<close> does, its link count once it is empty, and whether \<open>unlink\<close> and \<open>remove\<close> (or \<open>rmdir\<close>) do when it
is empty.  The entries \<open>.\<close> and \<open>..\<close>, which the loop skips, are no part of the tree; an object that
exists can be looked at (\<open>lstat\<close> does not fail on it, the second time neither).  Error messages, and the room they take in
\<open>err_msg\<close>, are not modelled.\<close>

section \<open>The code\<close>

record dattr =
  d_open :: bool
  d_nlink :: int
  d_unlink_ok :: bool
  d_remove_ok :: bool

datatype node = File bool | Dir dattr "(string \<times> node) list"

text \<open>\<open>rmobj\<close> gives its return value and what is left of the object, the loop over the entries the value of \<open>ret_val\<close> and what
is left of them.\<close>

fun rmobj :: "string \<Rightarrow> node \<Rightarrow> (int \<times> node option) option"
and rm_entries :: "string \<Rightarrow> (string \<times> node) list \<Rightarrow> int \<Rightarrow> (int \<times> (string \<times> node) list) option" where
  "rmobj obj (File ok) = Some (if ok then (0, None) else (- 1, Some (File ok)))"
| "rmobj obj (Dir a es) =
    (if obj = ''/'' then Some (- 1, Some (Dir a es))
     else if \<not> d_open a then
       (if d_remove_ok a \<and> es = [] then Some (0, None) else Some (- 1, Some (Dir a es)))
     else do {
       (ret_val, es') \<leftarrow> rm_entries obj es 0;
       if ret_val = - 1 then Some (- 1, Some (Dir a es'))
       else if d_nlink a \<ge> 3 then
         (if d_unlink_ok a \<and> es' = [] then Some (0, None) else Some (- 1, Some (Dir a es')))
       else (if d_remove_ok a \<and> es' = [] then Some (0, None) else Some (- 1, Some (Dir a es')))
     })"
| "rm_entries obj [] ret_val = Some (ret_val, [])"
| "rm_entries obj ((n, t) # es) ret_val = do {
     dirobj \<leftarrow> put (obj @ ''/'' @ n);
     (r, t') \<leftarrow> rmobj dirobj t;
     (ret_val, es') \<leftarrow> rm_entries obj es (if r \<noteq> 0 then - 1 else ret_val);
     Some (ret_val, (case t' of None \<Rightarrow> es' | Some t' \<Rightarrow> (n, t') # es'))
   }"

text \<open>The call on a path, where there may be no object.\<close>

definition rmobj_path :: "string \<Rightarrow> node option \<Rightarrow> (int \<times> node option) option" where
  "rmobj_path obj t = (case t of None \<Rightarrow> Some (- 1, None) | Some t \<Rightarrow> rmobj obj t)"

section \<open>What is left\<close>

text \<open>The specification: a directory goes when all its entries go and it can be removed itself.\<close>

definition goes :: "dattr \<Rightarrow> bool" where
  "goes a = (if d_open a \<and> d_nlink a \<ge> 3 then d_unlink_ok a else d_remove_ok a)"

fun left :: "node \<Rightarrow> node option" and left_entries :: "(string \<times> node) list \<Rightarrow> (string \<times> node) list" where
  "left (File ok) = (if ok then None else Some (File ok))"
| "left (Dir a es) = (let es' = (if d_open a then left_entries es else es) in
     if es' = [] \<and> goes a then None else Some (Dir a es'))"
| "left_entries [] = []"
| "left_entries ((n, t) # es) = (case left t of None \<Rightarrow> left_entries es | Some t' \<Rightarrow> (n, t') # left_entries es)"

text \<open>All paths fit their buffer, and names are not empty.\<close>

fun fits :: "string \<Rightarrow> node \<Rightarrow> bool" and fits_entries :: "string \<Rightarrow> (string \<times> node) list \<Rightarrow> bool" where
  "fits obj (File ok) = True"
| "fits obj (Dir a es) = fits_entries obj es"
| "fits_entries obj [] = True"
| "fits_entries obj ((n, t) # es) =
    (n \<noteq> [] \<and> length (obj @ ''/'' @ n) < PATH_MAX \<and> fits (obj @ ''/'' @ n) t \<and> fits_entries obj es)"

lemma rmobj_left_entries:
  "fits obj t \<Longrightarrow> obj \<noteq> ''/'' \<Longrightarrow> rmobj obj t = Some (if left t = None then 0 else - 1, left t)"
  "fits_entries obj es \<Longrightarrow> r \<in> {0, - 1} \<Longrightarrow>
    rm_entries obj es r = Some (if left_entries es = [] then r else - 1, left_entries es)"
proof (induction obj t and obj es r rule: rmobj_rm_entries.induct)
  case (2 obj a es)
  then show ?case by (auto simp: goes_def Let_def)
next
  case (4 obj n t es r)
  have p: "put (obj @ ''/'' @ n) = Some (obj @ ''/'' @ n)" "obj @ ''/'' @ n \<noteq> ''/''"
    using "4.prems" by (auto simp: put_def append_eq_Cons_conv)
  have "rmobj (obj @ ''/'' @ n) t = Some (if left t = None then 0 else - 1, left t)"
    using "4.IH"(1) p "4.prems" by simp
  with 4 p show ?case by (auto split: option.splits)
qed auto

text \<open>C21: \<open>rmobj\<close> removes exactly what can be removed: of a directory tree with paths that fit their buffers it leaves the
objects that refuse to go and the directories on the way to them, and it returns 0 when nothing is left and -1 otherwise.\<close>

theorem rmobj_left:
  assumes "fits obj t" "obj \<noteq> ''/''"
  shows "rmobj obj t = Some (if left t = None then 0 else - 1, left t)"
  by (rule rmobj_left_entries(1) [OF assms])

definition plain :: dattr where "plain = \<lparr>d_open = True, d_nlink = 2, d_unlink_ok = False, d_remove_ok = True\<rparr>"

lemma rmobj_left_witness:
  "rmobj ''/tmp/x'' (Dir plain [(''a'', File True), (''b'', Dir plain [(''c'', File False)]), (''d'', Dir plain [])]) =
    Some (- 1, Some (Dir plain [(''b'', Dir plain [(''c'', File False)])]))"
  using rmobj_left [of "''/tmp/x''" "Dir plain [(''a'', File True), (''b'', Dir plain [(''c'', File False)]), (''d'', Dir plain [])]"]
  by (simp add: plain_def goes_def PATH_MAX_def)

text \<open>The root directory is never touched.\<close>

lemma rmobj_root: "rmobj ''/'' (Dir a es) = Some (- 1, Some (Dir a es))"
  by simp

end
