(* ===== verification/SafeMacros.thy ===== *)
theory SafeMacros
imports TstReport
begin

unbundle bit_operations_syntax

text \<open>\<open>ltp_framework/lib/safe_macros.c\<close>: system calls that break the test when they fail.

The system calls and library functions are a parameter, the record \<open>sysapi\<close>: each gives its return value (with what it
stores through a pointer argument) and \<open>errno\<close>.  A null pointer is \<open>None\<close>; \<open>passwd\<close> and \<open>rusage\<close> are type parameters;
\<open>size_t\<close> and addresses have 32 bits.  A wrapper gives its return value and the state of the reporting library; when
\<open>t_exit\<close> is set in that state, the process has ended and the value is not used.\<close>

section \<open>The code\<close>

type_synonym size_t = "32 word"

record ('p, 'u) sysapi =
  sys_basename :: "string \<Rightarrow> string option \<times> int"
  sys_chdir :: "string \<Rightarrow> int \<times> int"
  sys_close :: "int \<Rightarrow> int \<times> int"
  sys_creat :: "string \<Rightarrow> int \<Rightarrow> int \<times> int"
  sys_dirname :: "string \<Rightarrow> string option \<times> int"
  sys_getcwd :: "size_t \<Rightarrow> string option \<times> int"
  sys_getpwnam :: "string \<Rightarrow> 'p option \<times> int"
  sys_getrusage :: "int \<Rightarrow> (int \<times> 'u) \<times> int"
  sys_malloc :: "size_t \<Rightarrow> size_t option \<times> int"
  sys_mkdir :: "string \<Rightarrow> int \<Rightarrow> int \<times> int"
  sys_mmap :: "size_t \<Rightarrow> size_t \<Rightarrow> int \<Rightarrow> int \<Rightarrow> int \<Rightarrow> int \<Rightarrow> size_t \<times> int"
  sys_munmap :: "size_t \<Rightarrow> size_t \<Rightarrow> int \<times> int"
  sys_open :: "string \<Rightarrow> int \<Rightarrow> int \<Rightarrow> int \<times> int"
  sys_pipe :: "(int \<times> int \<times> int) \<times> int"
  sys_read :: "int \<Rightarrow> size_t \<Rightarrow> (int \<times> byte list) \<times> int"
  sys_setegid :: "int \<Rightarrow> int \<times> int"
  sys_seteuid :: "int \<Rightarrow> int \<times> int"
  sys_setgid :: "int \<Rightarrow> int \<times> int"
  sys_setuid :: "int \<Rightarrow> int \<times> int"
  sys_unlink :: "string \<Rightarrow> int \<times> int"
  sys_write :: "int \<Rightarrow> byte list \<Rightarrow> size_t \<Rightarrow> int \<times> int"

type_synonym cleanup_fn = "(tst \<Rightarrow> tst option) option"

text \<open>The part all wrappers share: the test of the return value and \<open>tst_brkm\<close>.\<close>

definition MAP_FAILED :: size_t where "MAP_FAILED = - 1"

definition safe_check ::
  "tenv \<Rightarrow> cleanup_fn \<Rightarrow> string \<Rightarrow> string \<Rightarrow> int \<Rightarrow> ('v \<Rightarrow> bool) \<Rightarrow> 'v \<times> int \<Rightarrow> tst \<Rightarrow> ('v \<times> tst) option" where
  "safe_check e cleanup_fn name file lineno failed result s = (case result of (rval, err) \<Rightarrow> do {
     let s = s\<lparr>t_errno := err\<rparr>;
     s \<leftarrow> (if failed rval then tst_brkm e (TBROK OR TERRNO) cleanup_fn
         (name @ '' failed at '' @ file @ '':'' @ int_to_string lineno) s else Some s);
     Some (rval, s)
   })"

definition safe_basename :: "('p, 'u) sysapi \<Rightarrow> tenv \<Rightarrow> string \<Rightarrow> int \<Rightarrow> cleanup_fn \<Rightarrow> string \<Rightarrow> tst \<Rightarrow> (string option \<times> tst) option" where
  "safe_basename sys e file lineno cleanup_fn path =
     safe_check e cleanup_fn ''basename'' file lineno (\<lambda>rval. rval = None) (sys_basename sys path)"

definition safe_chdir :: "('p, 'u) sysapi \<Rightarrow> tenv \<Rightarrow> string \<Rightarrow> int \<Rightarrow> cleanup_fn \<Rightarrow> string \<Rightarrow> tst \<Rightarrow> (int \<times> tst) option" where
  "safe_chdir sys e file lineno cleanup_fn path =
     safe_check e cleanup_fn ''chdir'' file lineno (\<lambda>rval. rval = - 1) (sys_chdir sys path)"

definition safe_close :: "('p, 'u) sysapi \<Rightarrow> tenv \<Rightarrow> string \<Rightarrow> int \<Rightarrow> cleanup_fn \<Rightarrow> int \<Rightarrow> tst \<Rightarrow> (int \<times> tst) option" where
  "safe_close sys e file lineno cleanup_fn fildes =
     safe_check e cleanup_fn ''close'' file lineno (\<lambda>rval. rval = - 1) (sys_close sys fildes)"

definition safe_creat :: "('p, 'u) sysapi \<Rightarrow> tenv \<Rightarrow> string \<Rightarrow> int \<Rightarrow> cleanup_fn \<Rightarrow> string \<Rightarrow> int \<Rightarrow> tst \<Rightarrow> (int \<times> tst) option" where
  "safe_creat sys e file lineno cleanup_fn pathname mode =
     safe_check e cleanup_fn ''pipe'' file lineno (\<lambda>rval. rval = - 1) (sys_creat sys pathname mode)"

definition safe_dirname :: "('p, 'u) sysapi \<Rightarrow> tenv \<Rightarrow> string \<Rightarrow> int \<Rightarrow> cleanup_fn \<Rightarrow> string \<Rightarrow> tst \<Rightarrow> (string option \<times> tst) option" where
  "safe_dirname sys e file lineno cleanup_fn path =
     safe_check e cleanup_fn ''dirname'' file lineno (\<lambda>rval. rval = None) (sys_dirname sys path)"

definition safe_getcwd :: "('p, 'u) sysapi \<Rightarrow> tenv \<Rightarrow> string \<Rightarrow> int \<Rightarrow> cleanup_fn \<Rightarrow> size_t \<Rightarrow> tst \<Rightarrow> (string option \<times> tst) option" where
  "safe_getcwd sys e file lineno cleanup_fn sz =
     safe_check e cleanup_fn ''getcwd'' file lineno (\<lambda>rval. rval = None) (sys_getcwd sys sz)"

definition safe_getpwnam :: "('p, 'u) sysapi \<Rightarrow> tenv \<Rightarrow> string \<Rightarrow> int \<Rightarrow> cleanup_fn \<Rightarrow> string \<Rightarrow> tst \<Rightarrow> ('p option \<times> tst) option" where
  "safe_getpwnam sys e file lineno cleanup_fn name =
     safe_check e cleanup_fn ''getpwnam'' file lineno (\<lambda>rval. rval = None) (sys_getpwnam sys name)"

definition safe_getrusage :: "('p, 'u) sysapi \<Rightarrow> tenv \<Rightarrow> string \<Rightarrow> int \<Rightarrow> cleanup_fn \<Rightarrow> int \<Rightarrow> tst \<Rightarrow> ((int \<times> 'u) \<times> tst) option" where
  "safe_getrusage sys e file lineno cleanup_fn who =
     safe_check e cleanup_fn ''getrusage'' file lineno (\<lambda>rval. fst rval = - 1) (sys_getrusage sys who)"

definition safe_malloc :: "('p, 'u) sysapi \<Rightarrow> tenv \<Rightarrow> string \<Rightarrow> int \<Rightarrow> cleanup_fn \<Rightarrow> size_t \<Rightarrow> tst \<Rightarrow> (size_t option \<times> tst) option" where
  "safe_malloc sys e file lineno cleanup_fn sz =
     safe_check e cleanup_fn ''malloc'' file lineno (\<lambda>rval. rval = None) (sys_malloc sys sz)"

definition safe_mkdir :: "('p, 'u) sysapi \<Rightarrow> tenv \<Rightarrow> string \<Rightarrow> int \<Rightarrow> cleanup_fn \<Rightarrow> string \<Rightarrow> int \<Rightarrow> tst \<Rightarrow> (int \<times> tst) option" where
  "safe_mkdir sys e file lineno cleanup_fn pathname mode =
     safe_check e cleanup_fn ''mkdir'' file lineno (\<lambda>rval. rval = - 1) (sys_mkdir sys pathname mode)"

definition safe_mmap :: "('p, 'u) sysapi \<Rightarrow> tenv \<Rightarrow> string \<Rightarrow> int \<Rightarrow> cleanup_fn \<Rightarrow> size_t \<Rightarrow> size_t \<Rightarrow> int \<Rightarrow> int \<Rightarrow> int \<Rightarrow> int \<Rightarrow> tst \<Rightarrow> (size_t \<times> tst) option" where
  "safe_mmap sys e file lineno cleanup_fn addr len prot flags fd off =
     safe_check e cleanup_fn ''mmap'' file lineno (\<lambda>rval. rval = MAP_FAILED) (sys_mmap sys addr len prot flags fd off)"

definition safe_munmap :: "('p, 'u) sysapi \<Rightarrow> tenv \<Rightarrow> string \<Rightarrow> int \<Rightarrow> cleanup_fn \<Rightarrow> size_t \<Rightarrow> size_t \<Rightarrow> tst \<Rightarrow> (int \<times> tst) option" where
  "safe_munmap sys e file lineno cleanup_fn addr len =
     safe_check e cleanup_fn ''munmap'' file lineno (\<lambda>rval. rval = - 1) (sys_munmap sys addr len)"

definition safe_open :: "('p, 'u) sysapi \<Rightarrow> tenv \<Rightarrow> string \<Rightarrow> int \<Rightarrow> cleanup_fn \<Rightarrow> string \<Rightarrow> int \<Rightarrow> int \<Rightarrow> tst \<Rightarrow> (int \<times> tst) option" where
  "safe_open sys e file lineno cleanup_fn pathname oflags mode =
     safe_check e cleanup_fn ''open'' file lineno (\<lambda>rval. rval = - 1) (sys_open sys pathname oflags mode)"

definition safe_pipe :: "('p, 'u) sysapi \<Rightarrow> tenv \<Rightarrow> string \<Rightarrow> int \<Rightarrow> cleanup_fn \<Rightarrow> tst \<Rightarrow> ((int \<times> int \<times> int) \<times> tst) option" where
  "safe_pipe sys e file lineno cleanup_fn =
     safe_check e cleanup_fn ''pipe'' file lineno (\<lambda>rval. fst rval = - 1) (sys_pipe sys)"

text \<open>A negative \<open>ssize_t\<close> is converted for the comparison with \<open>nbyte\<close>.\<close>

definition safe_read :: "('p, 'u) sysapi \<Rightarrow> tenv \<Rightarrow> string \<Rightarrow> int \<Rightarrow> cleanup_fn \<Rightarrow> int \<Rightarrow> int \<Rightarrow> size_t \<Rightarrow> tst \<Rightarrow>
    ((int \<times> byte list) \<times> tst) option" where
  "safe_read sys e file lineno cleanup_fn len_strict fildes nbyte =
     safe_check e cleanup_fn ''read'' file lineno
       (\<lambda>rval. (len_strict = 0 \<and> fst rval = - 1) \<or> word_of_int (fst rval) \<noteq> nbyte) (sys_read sys fildes nbyte)"

definition safe_setegid :: "('p, 'u) sysapi \<Rightarrow> tenv \<Rightarrow> string \<Rightarrow> int \<Rightarrow> cleanup_fn \<Rightarrow> int \<Rightarrow> tst \<Rightarrow> (int \<times> tst) option" where
  "safe_setegid sys e file lineno cleanup_fn egid =
     safe_check e cleanup_fn ''setegid'' file lineno (\<lambda>rval. rval = - 1) (sys_setegid sys egid)"

definition safe_seteuid :: "('p, 'u) sysapi \<Rightarrow> tenv \<Rightarrow> string \<Rightarrow> int \<Rightarrow> cleanup_fn \<Rightarrow> int \<Rightarrow> tst \<Rightarrow> (int \<times> tst) option" where
  "safe_seteuid sys e file lineno cleanup_fn euid =
     safe_check e cleanup_fn ''seteuid'' file lineno (\<lambda>rval. rval = - 1) (sys_seteuid sys euid)"

definition safe_setgid :: "('p, 'u) sysapi \<Rightarrow> tenv \<Rightarrow> string \<Rightarrow> int \<Rightarrow> cleanup_fn \<Rightarrow> int \<Rightarrow> tst \<Rightarrow> (int \<times> tst) option" where
  "safe_setgid sys e file lineno cleanup_fn gid =
     safe_check e cleanup_fn ''setgid'' file lineno (\<lambda>rval. rval = - 1) (sys_setgid sys gid)"

definition safe_setuid :: "('p, 'u) sysapi \<Rightarrow> tenv \<Rightarrow> string \<Rightarrow> int \<Rightarrow> cleanup_fn \<Rightarrow> int \<Rightarrow> tst \<Rightarrow> (int \<times> tst) option" where
  "safe_setuid sys e file lineno cleanup_fn uid =
     safe_check e cleanup_fn ''setuid'' file lineno (\<lambda>rval. rval = - 1) (sys_setuid sys uid)"

definition safe_unlink :: "('p, 'u) sysapi \<Rightarrow> tenv \<Rightarrow> string \<Rightarrow> int \<Rightarrow> cleanup_fn \<Rightarrow> string \<Rightarrow> tst \<Rightarrow> (int \<times> tst) option" where
  "safe_unlink sys e file lineno cleanup_fn pathname =
     safe_check e cleanup_fn ''unlink'' file lineno (\<lambda>rval. rval = - 1) (sys_unlink sys pathname)"

definition safe_write :: "('p, 'u) sysapi \<Rightarrow> tenv \<Rightarrow> string \<Rightarrow> int \<Rightarrow> cleanup_fn \<Rightarrow> int \<Rightarrow> int \<Rightarrow> byte list \<Rightarrow> size_t \<Rightarrow> tst \<Rightarrow>
    (int \<times> tst) option" where
  "safe_write sys e file lineno cleanup_fn len_strict fildes buf nbyte =
     safe_check e cleanup_fn ''write'' file lineno
       (\<lambda>rval. (len_strict = 0 \<and> rval = - 1) \<or> word_of_int rval \<noteq> nbyte) (sys_write sys fildes buf nbyte)"

lemmas safe_defs =
  safe_basename_def safe_chdir_def safe_close_def safe_creat_def safe_dirname_def safe_getcwd_def safe_getpwnam_def safe_getrusage_def safe_malloc_def safe_mkdir_def safe_mmap_def
  safe_munmap_def safe_open_def safe_pipe_def safe_read_def safe_setegid_def safe_seteuid_def safe_setgid_def safe_setuid_def safe_unlink_def safe_write_def

section \<open>Outside a cleanup function\<close>

lemma tst_inv_errno [simp]: "tst_inv (s\<lparr>t_errno := n\<rparr>) = tst_inv s"
  by (cases "t_last s") (auto simp: tst_inv_def)

lemma brok_errno [simp]: "TTYPE_RESULT (TBROK OR TERRNO) = TBROK" "TTYPE_RESULT 258 = TBROK"
  by (simp_all add: TTYPE_RESULT_def)

text \<open>The state in which a test may break: nothing is being cleaned up and the process is running.\<close>

definition running :: "tst \<Rightarrow> bool" where
  "running s \<longleftrightarrow> tst_inv s \<and> brk_entered s = 0 \<and> t_exit s = None"

definition cleaning :: "tst \<Rightarrow> bool" where
  "cleaning s \<longleftrightarrow> tst_inv s \<and> 0 < brk_entered s \<and> t_exit s = None"

text \<open>The exit status of a test that breaks with BROK when it has reported \<open>s\<close> and its cleanup reports \<open>v\<close>.\<close>

definition broken :: "tst \<Rightarrow> int \<Rightarrow> int" where
  "broken s v = (t_exitval s OR TBROK OR v) AND NOT (TRETR OR TINFO OR TCONF)"

lemma broken_nonzero: "broken s v \<noteq> 0"
proof
  assume "broken s v = 0"
  then have "bit (broken s v) 1 = bit (0 :: int) 1" by simp
  moreover have "bit (2 :: int) 1" "\<not> bit (8 OR 16 OR 32 :: int) 1" by simp_all
  ultimately show False by (simp add: broken_def bit_and_iff bit_or_iff bit_not_iff)
qed

text \<open>A test that breaks with BROK and leaves by its cleanup function \<open>f\<close>: after its reports the cleanup function runs, in the
still running process, and the process exits when it has returned; nothing else is done.\<close>

definition left_by :: "tenv \<Rightarrow> (tst \<Rightarrow> tst option) \<Rightarrow> int \<Rightarrow> tst \<Rightarrow> tst \<Rightarrow> bool" where
  "left_by e f v s s' \<longleftrightarrow> (\<exists>s1 s2. t_exit s1 = None \<and> brk_entered s1 = 1 \<and> t_exitval s1 = t_exitval s OR TBROK \<and>
      f s1 = Some s2 \<and> tst_exit e (s2\<lparr>brk_entered := 0\<rparr>) = Some s') \<and>
    t_exit s' = Some (broken s v) \<and> t_exit s' \<noteq> Some 0"

lemma left_by_errno [simp]: "left_by e f v (s\<lparr>t_errno := n\<rparr>) s' = left_by e f v s s'"
  by (simp add: left_by_def broken_def)

context cleanup
begin

lemma tst_brkm_leaves:
  assumes "running s" "TTYPE_RESULT ttype = TBROK" "m \<noteq> []"
  shows "\<exists>s'. tst_brkm e ttype (Some f) m s = Some s' \<and> left_by e f v s s'"
proof -
  have t: "TTYPE_RESULT ttype \<in> set brk_types" using assms(2) by (simp add: brk_types_def)
  have r: "tst_inv s" "brk_entered s = 0" "t_exit s = None" using assms(1) by (simp_all add: running_def)
  obtain s1 s2 s' where "tst_brkm e ttype (Some f) m s = Some s'" "f (s1\<lparr>brk_entered := 1\<rparr>) = Some s2"
    "tst_exit e (s2\<lparr>brk_entered := 0\<rparr>) = Some s'" "t_exit s1 = None" "t_exitval s1 = t_exitval s OR TBROK"
    "t_exit s' = Some (broken s v)"
    using tst_brkm_runs [OF r assms(3) t, of e] assms(2) by (auto simp: broken_def)
  then show ?thesis using broken_nonzero unfolding left_by_def
    by (intro exI [of _ s'] conjI exI [of _ "s1\<lparr>brk_entered := 1\<rparr>"] exI [of _ s2]) auto
qed

lemma safe_check_fails:
  assumes "running s" "failed (fst result)" "name \<noteq> []"
  shows "\<exists>s'. safe_check e (Some f) name file lineno failed result s = Some (fst result, s') \<and> left_by e f v s s'"
  using tst_brkm_leaves [of "s\<lparr>t_errno := snd result\<rparr>" "TBROK OR TERRNO" "name @ '' failed at '' @ file @ '':'' @ int_to_string lineno" e] assms
  by (auto simp: safe_check_def running_def case_prod_beta)

end

lemma safe_check_passes:
  "\<not> failed (fst result) \<Longrightarrow> safe_check e c name file lineno failed result s = Some (fst result, s\<lparr>t_errno := snd result\<rparr>)"
  by (simp add: safe_check_def case_prod_beta)

section \<open>In a cleanup function\<close>

text \<open>There a failed call is reported, and the wrapper returns the failure to its caller.\<close>

lemma safe_check_cleaning:
  assumes "cleaning s" "name \<noteq> []"
  shows "\<exists>s'. safe_check e None name file lineno failed result s = Some (fst result, s') \<and> cleaning s' \<and>
    brk_entered s' = brk_entered s \<and> t_exitval s' = t_exitval s OR (if failed (fst result) then TBROK else 0)"
proof (cases "failed (fst result)")
  case True
  with tst_brkm_nested [of "s\<lparr>t_errno := snd result\<rparr>" "name @ '' failed at '' @ file @ '':'' @ int_to_string lineno"
      "TBROK OR TERRNO" e] assms show ?thesis
    by (auto simp: safe_check_def cleaning_def brk_types_def case_prod_beta)
next
  case False
  with assms show ?thesis by (simp add: safe_check_passes cleaning_def)
qed

text \<open>A cleanup function that closes a descriptor with \<open>SAFE_CLOSE(NULL, fd)\<close>.\<close>

definition close_cleanup :: "('p, 'u) sysapi \<Rightarrow> tenv \<Rightarrow> string \<Rightarrow> int \<Rightarrow> int \<Rightarrow> tst \<Rightarrow> tst option" where
  "close_cleanup sys e file lineno fd s = map_option snd (safe_close sys e file lineno None fd s)"

interpretation closing: cleanup "close_cleanup sys e fname lineno fd" "if fst (sys_close sys fd) = - 1 then TBROK else 0"
  for sys e fname lineno fd
proof
  fix s
  assume "tst_inv s" "0 < brk_entered s" "t_exit s = None"
  then show "\<exists>s'. close_cleanup sys e fname lineno fd s = Some s' \<and> tst_inv s' \<and> brk_entered s' = brk_entered s \<and>
      t_exit s' = None \<and> t_exitval s' = t_exitval s OR (if fst (sys_close sys fd) = - 1 then TBROK else 0)"
    using safe_check_cleaning [of s "''close''" e fname lineno "\<lambda>rval. rval = - 1" "sys_close sys fd"]
    by (auto simp: close_cleanup_def safe_close_def cleaning_def)
qed

lemma safe_open_cases:
  assumes "running s" "cleanup f v"
  shows "\<exists>s'. safe_open sys e file lineno (Some f) path oflags mode s = Some (fst (sys_open sys path oflags mode), s') \<and>
    (if fst (sys_open sys path oflags mode) = - 1 then left_by e f v s s'
     else s' = s\<lparr>t_errno := snd (sys_open sys path oflags mode)\<rparr> \<and> running s')"
proof (cases "fst (sys_open sys path oflags mode) = - 1")
  case True
  from cleanup.safe_check_fails [OF assms(2,1), of "\<lambda>rval. rval = - 1" "sys_open sys path oflags mode" "''open''"] True
  show ?thesis by (fastforce simp: safe_open_def)
next
  case False
  with assms(1) show ?thesis by (simp add: safe_open_def safe_check_passes running_def)
qed

text \<open>C20: \<open>SAFE_OPEN\<close> in a running test, with any cleanup function that keeps its contract and reports \<open>v\<close> (as one that closes
a descriptor with \<open>SAFE_CLOSE\<close> does): when the open succeeds it returns the descriptor and changes nothing but \<open>errno\<close>; when it
fails, BROK is reported, then the cleanup function is called in the still running process, and after it the process exits, with the
status of all that was reported, \<open>v\<close> included, which is not 0.\<close>

theorem safe_open_cleanup:
  assumes "running s" "cleanup f v"
  shows "\<exists>s'. safe_open sys e file lineno (Some f) path oflags mode s = Some (fst (sys_open sys path oflags mode), s') \<and>
    (if fst (sys_open sys path oflags mode) = - 1 then
       (\<exists>s1 s2. t_exit s1 = None \<and> brk_entered s1 = 1 \<and> t_exitval s1 = t_exitval s OR TBROK \<and>
          f s1 = Some s2 \<and> tst_exit e (s2\<lparr>brk_entered := 0\<rparr>) = Some s') \<and>
       t_exit s' = Some ((t_exitval s OR TBROK OR v) AND NOT (TRETR OR TINFO OR TCONF)) \<and> t_exit s' \<noteq> Some 0
     else s' = s\<lparr>t_errno := snd (sys_open sys path oflags mode)\<rparr> \<and> running s')"
  using safe_open_cases [OF assms] by (simp only: left_by_def broken_def)

definition sys_down :: "(string, int) sysapi" where
  "sys_down = \<lparr>sys_basename = \<lambda>_. (None, 2), sys_chdir = \<lambda>_. (- 1, 2), sys_close = \<lambda>_. (- 1, 9), sys_creat = \<lambda>_ _. (- 1, 13),
     sys_dirname = \<lambda>_. (None, 2), sys_getcwd = \<lambda>_. (None, 34), sys_getpwnam = \<lambda>_. (None, 2), sys_getrusage = \<lambda>_. ((- 1, 0), 22),
     sys_malloc = \<lambda>_. (None, 12), sys_mkdir = \<lambda>_ _. (- 1, 17), sys_mmap = \<lambda>_ _ _ _ _ _. (MAP_FAILED, 12),
     sys_munmap = \<lambda>_ _. (- 1, 22), sys_open = \<lambda>_ _ _. (- 1, 2), sys_pipe = ((- 1, 0, 0), 24),
     sys_read = \<lambda>_ _. ((- 1, []), 5), sys_setegid = \<lambda>_. (- 1, 1), sys_seteuid = \<lambda>_. (- 1, 1), sys_setgid = \<lambda>_. (- 1, 1),
     sys_setuid = \<lambda>_. (- 1, 1), sys_unlink = \<lambda>_. (- 1, 2), sys_write = \<lambda>_ _ _. (- 1, 28)\<rparr>"

lemma safe_open_cleanup_witness:
  "\<exists>s'. safe_open sys_down plain_env ''t.c'' 10 (Some (tst_resm plain_env TWARN ''left'')) ''f'' 0 0
    (tst_init ''t'') = Some (- 1, s') \<and> t_exit s' = Some 6"
proof -
  have "cleanup (tst_resm plain_env TWARN ''left'') (TTYPE_RESULT TWARN)" by (rule reporting.cleanup_axioms)
  moreover have "running (tst_init ''t'')" by (simp add: running_def tst_init_inv) (simp add: tst_init_def)
  ultimately show ?thesis
    using safe_open_cleanup [of "tst_init ''t''" "tst_resm plain_env TWARN ''left''" "TTYPE_RESULT TWARN" sys_down plain_env
      "''t.c''" 10 "''f''" 0 0]
    by (auto simp: sys_down_def tst_init_def TTYPE_RESULT_def)
qed

text \<open>With \<open>SAFE_CLOSE\<close> as the cleanup function the process also ends once, whether the close succeeds or not.\<close>

lemma safe_open_closing:
  assumes "running s" "fst (sys_open sys path oflags mode) = - 1"
  shows "\<exists>s'. safe_open sys e file lineno (Some (close_cleanup sys e file' lineno' fd)) path oflags mode s = Some (- 1, s') \<and>
    left_by e (close_cleanup sys e file' lineno' fd) (if fst (sys_close sys fd) = - 1 then TBROK else 0) s s'"
proof -
  have c: "cleanup (close_cleanup sys e file' lineno' fd) (if fst (sys_close sys fd) = - 1 then TBROK else 0)"
    by (rule closing.cleanup_axioms)
  obtain s' where "safe_open sys e file lineno (Some (close_cleanup sys e file' lineno' fd)) path oflags mode s =
      Some (fst (sys_open sys path oflags mode), s')"
    "left_by e (close_cleanup sys e file' lineno' fd) (if fst (sys_close sys fd) = - 1 then TBROK else 0) s s'"
    using safe_open_cases [OF assms(1) c] assms(2) by (metis (no_types))
  with assms(2) show ?thesis by auto
qed

section \<open>len_strict\<close>

text \<open>\<open>safe_read\<close> and \<open>safe_write\<close> do not depend on \<open>len_strict\<close>: a short transfer always breaks the test.  (A failed call for
all of the address space would be the exception.)\<close>

lemma len_strict_ignored:
  assumes "nbyte \<noteq> - 1"
  shows "safe_read sys e file lineno c len_strict fd nbyte = safe_read sys e file lineno c 0 fd nbyte"
    "safe_write sys e file lineno c len_strict fd buf nbyte = safe_write sys e file lineno c 0 fd buf nbyte"
proof -
  have r: "(len_strict = 0 \<and> r = - 1) \<or> word_of_int r \<noteq> nbyte \<longleftrightarrow> r = - 1 \<or> word_of_int r \<noteq> nbyte" for r :: int
    using assms by auto
  show "safe_read sys e file lineno c len_strict fd nbyte = safe_read sys e file lineno c 0 fd nbyte"
    "safe_write sys e file lineno c len_strict fd buf nbyte = safe_write sys e file lineno c 0 fd buf nbyte"
    by (simp_all add: safe_read_def safe_write_def r)
qed

lemma safe_write_complete:
  assumes "running s" "nbyte \<noteq> - 1" "word_of_int (fst (sys_write sys fd buf nbyte)) \<noteq> nbyte"
  shows "\<exists>s'. safe_write sys e file lineno (Some (tst_resm e ttype (c # m))) len_strict fd buf nbyte s =
    Some (fst (sys_write sys fd buf nbyte), s') \<and> t_exit s' = Some (broken s (TTYPE_RESULT ttype))"
proof -
  let ?failed = "\<lambda>rval. (len_strict = 0 \<and> rval = - 1) \<or> word_of_int rval \<noteq> nbyte"
  obtain s' where "safe_check e (Some (tst_resm e ttype (c # m))) ''write'' file lineno ?failed (sys_write sys fd buf nbyte) s =
      Some (fst (sys_write sys fd buf nbyte), s')" "left_by e (tst_resm e ttype (c # m)) (TTYPE_RESULT ttype) s s'"
    using reporting.safe_check_fails [OF assms(1), of ?failed "sys_write sys fd buf nbyte" "''write''"] assms(3) by blast
  then show ?thesis by (simp add: safe_write_def left_by_def)
qed

end
