(* ===== verification/TmpDir.thy ===== *)
theory TmpDir
imports SafeMacros Rmobj
begin

unbundle bit_operations_syntax

text \<open>\<open>ltp_framework/lib/tst_tmpdir.c\<close>: the temporary directory of a test.

The state is that of the reporting library, the static variable \<open>TESTDIR\<close>, the working directory and the file system as
far as it is looked at: \<open>w_fs\<close> gives what an absolute path names (\<open>Rmobj.node\<close>, a tree with all that is below it; the
paths below are not entries of their own).  The environment variables and what the
system calls decide are parameters (record \<open>tmpenv\<close>): a call gives its return value and \<open>errno\<close>, \<open>mkdtemp\<close> also the name
it has written into its argument.  As long as \<open>t_exit\<close> is not set, the process is running; after it has exited nothing
more is done.\<close>

section \<open>State and parameters\<close>

record tmpenv =
  e_tst :: tenv
  e_tdirectory :: "string option"
  e_tmpdir :: "string option"
  e_mkdir :: "string \<Rightarrow> int \<times> int"
  e_mkdtemp :: "string \<Rightarrow> bool \<times> string \<times> int"
  e_strdup :: "string \<Rightarrow> bool \<times> int"
  e_gid :: int
  e_chown :: "string option \<Rightarrow> int \<Rightarrow> int \<times> int"
  e_chmod :: "string option \<Rightarrow> int \<times> int"
  e_chdir :: "string \<Rightarrow> string option \<Rightarrow> int \<times> int"
  e_malloc :: "bool \<times> int"
  e_ino :: "string \<Rightarrow> nat option"
  e_getcwd :: bool
  e_errmsg :: "string \<Rightarrow> string"

record tmpst =
  w_tst :: tst
  w_testdir :: "string option"
  w_cwd :: string
  w_fs :: "string \<Rightarrow> node option"

definition TEMPDIR :: string where "TEMPDIR = ''/tmp''"

text \<open>\<open>%s\<close> of a null pointer.\<close>

definition show_ptr :: "string option \<Rightarrow> string" where
  "show_ptr p = (case p of None \<Rightarrow> ''(null)'' | Some s \<Rightarrow> s)"

text \<open>The path a name stands for, and POSIX \<open>dirname\<close>, which never gives a null pointer.\<close>

definition resolve :: "string \<Rightarrow> string \<Rightarrow> string" where
  "resolve cwd p = (if p \<noteq> [] \<and> hd p = CHR ''/'' then p else cwd @ ''/'' @ p)"

definition strip :: "string \<Rightarrow> string" where
  "strip s = rev (dropWhile (\<lambda>c. c = CHR ''/'') (rev s))"

definition dirname :: "string \<Rightarrow> string option" where
  "dirname p = Some
    (if p = [] then ''.''
     else if strip p = [] then ''/''
     else if CHR ''/'' \<notin> set (strip p) then ''.''
     else let d = strip (rev (dropWhile (\<lambda>c. c \<noteq> CHR ''/'') (rev (strip p))))
          in if d = [] then ''/'' else d)"

section \<open>The code\<close>

text \<open>What follows a call that may have ended the process.\<close>

definition alive :: "(tmpst \<Rightarrow> tmpst option) \<Rightarrow> tmpst \<Rightarrow> tmpst option" where
  "alive f w = (if t_exit (w_tst w) = None then f w else Some w)"

definition with_tst :: "(tst \<Rightarrow> tst option) \<Rightarrow> tmpst \<Rightarrow> tmpst option" where
  "with_tst f w = do { t \<leftarrow> f (w_tst w); Some (w\<lparr>w_tst := t\<rparr>) }"

definition tmpdir_cleanup :: "tenv \<Rightarrow> tst \<Rightarrow> tst option" where
  "tmpdir_cleanup e = tst_brkm e TWARN None ''tmpdir_cleanup: no user cleanup function called before exiting''"

text \<open>A failed call: \<open>errno\<close> is set and the test broken.\<close>

definition brk_errno :: "tmpenv \<Rightarrow> int \<Rightarrow> int \<Rightarrow> cleanup_fn \<Rightarrow> string \<Rightarrow> tmpst \<Rightarrow> tmpst option" where
  "brk_errno e err ttype c mesg = with_tst (\<lambda>t. tst_brkm (e_tst e) ttype c mesg (t\<lparr>t_errno := err\<rparr>))"

definition warn_errno :: "tmpenv \<Rightarrow> int \<Rightarrow> int \<Rightarrow> string \<Rightarrow> tmpst \<Rightarrow> tmpst option" where
  "warn_errno e err ttype mesg = with_tst (\<lambda>t. tst_resm (e_tst e) ttype mesg (t\<lparr>t_errno := err\<rparr>))"

definition get_tst_tmpdir :: "tmpenv \<Rightarrow> tmpst \<Rightarrow> (string option \<times> tmpst) option" where
  "get_tst_tmpdir e w = do {
     w \<leftarrow> (if w_testdir w = None
       then with_tst (tst_brkm (e_tst e) TBROK None ''you must call tst_tmpdir() first'') w else Some w);
     if t_exit (w_tst w) \<noteq> None then Some (None, w)
     else do {
       d \<leftarrow> w_testdir w;
       Some (if fst (e_strdup e d) then Some d else None, w)
     }
   }"

text \<open>The four steps that make a new directory.\<close>

definition tmp_template :: "tmpenv \<Rightarrow> tmpst \<Rightarrow> string" where
  "tmp_template e w = take (PATH_MAX - 1)
     ((case e_tmpdir e of Some d \<Rightarrow> d | None \<Rightarrow> TEMPDIR) @ ''/'' @ take 3 (tcid (w_tst w)) @ ''XXXXXX'')"

definition new_dir :: node where
  "new_dir = Dir \<lparr>d_open = True, d_nlink = 2, d_unlink_ok = False, d_remove_ok = True\<rparr> []"

definition tmp_mkdtemp :: "tmpenv \<Rightarrow> tmpst \<Rightarrow> (string \<times> tmpst) option" where
  "tmp_mkdtemp e w = (case e_mkdtemp e (tmp_template e w) of (ok, name, err) \<Rightarrow>
     if ok then Some (name, w\<lparr>w_fs := (w_fs w)(resolve (w_cwd w) name \<mapsto> new_dir)\<rparr>)
     else do {
       w \<leftarrow> brk_errno e err (TBROK OR TERRNO) (Some (tmpdir_cleanup (e_tst e)))
         (''tst_tmpdir: mkdtemp('' @ name @ '') failed'') w;
       Some (name, w)
     })"

definition tmp_strdup :: "tmpenv \<Rightarrow> string \<Rightarrow> tmpst \<Rightarrow> tmpst option" where
  "tmp_strdup e name w =
    (if fst (e_strdup e name) then Some (w\<lparr>w_testdir := Some name\<rparr>)
     else brk_errno e (snd (e_strdup e name)) (TBROK OR TERRNO) (Some (tmpdir_cleanup (e_tst e)))
       (''tst_tmpdir: strdup('' @ name @ '') failed'') (w\<lparr>w_testdir := None\<rparr>))"

definition tmp_chown :: "tmpenv \<Rightarrow> tmpst \<Rightarrow> tmpst option" where
  "tmp_chown e w = (case e_chown e (w_testdir w) (e_gid e) of (r, err) \<Rightarrow>
     if r = - 1 then brk_errno e err (TBROK OR TERRNO) (Some (tmpdir_cleanup (e_tst e)))
       (''chown('' @ show_ptr (w_testdir w) @ '', -1, '' @ int_to_string (e_gid e) @ '') failed'') w
     else Some w)"

definition tmp_chmod :: "tmpenv \<Rightarrow> tmpst \<Rightarrow> tmpst option" where
  "tmp_chmod e w = (case e_chmod e (w_testdir w) of (r, err) \<Rightarrow>
     if r = - 1 then brk_errno e err (TBROK OR TERRNO) (Some (tmpdir_cleanup (e_tst e)))
       (''chmod('' @ show_ptr (w_testdir w) @ '', 0777) failed'') w
     else Some w)"

text \<open>The branch for a given \<open>TDIRECTORY\<close>, and the change of directory at the end.  When \<open>tst_brkm\<close> returns from there
(which it does only inside another cleanup function), the directory is removed if it was made here.\<close>

definition tmp_given :: "tmpenv \<Rightarrow> string \<Rightarrow> tmpst \<Rightarrow> tmpst option" where
  "tmp_given e d w = (let w = w\<lparr>w_testdir := Some d\<rparr> in case e_mkdir e d of (r, err) \<Rightarrow>
     if r = - 1 \<and> err \<noteq> 17 then brk_errno e err TBROK None (''mkdir('' @ d @ '', 777) failed'') w
     else if r \<noteq> - 1 then Some (w\<lparr>w_fs := (w_fs w)(resolve (w_cwd w) d \<mapsto> new_dir)\<rparr>)
     else Some w)"

definition tmp_chdir :: "tmpenv \<Rightarrow> (string option \<Rightarrow> int \<times> int) \<Rightarrow> bool \<Rightarrow> tmpst \<Rightarrow> tmpst option" where
  "tmp_chdir e rmdir no_cleanup w = (case e_chdir e (w_cwd w) (w_testdir w) of (r, err) \<Rightarrow>
     if r = - 1 then do {
       w \<leftarrow> brk_errno e err (TBROK OR TERRNO) None (''tst_tmpdir: chdir('' @ show_ptr (w_testdir w) @ '') failed'') w;
       alive (\<lambda>w. do {
         w \<leftarrow> (if \<not> no_cleanup then (case rmdir (w_testdir w) of (r, err) \<Rightarrow>
             if r = - 1 then warn_errno e err (TWARN OR TERRNO) (''tst_tmpdir: rmdir('' @ show_ptr (w_testdir w) @ '') failed'') w
             else Some (w\<lparr>w_fs := (case w_testdir w of None \<Rightarrow> w_fs w
               | Some d \<Rightarrow> (w_fs w)(resolve (w_cwd w) d := None))\<rparr>)) else Some w);
         with_tst (tmpdir_cleanup (e_tst e)) w
       }) w
     }
     else do { d \<leftarrow> w_testdir w; Some (w\<lparr>w_cwd := resolve (w_cwd w) d\<rparr>) })"

definition tst_tmpdir :: "tmpenv \<Rightarrow> (string option \<Rightarrow> int \<times> int) \<Rightarrow> tmpst \<Rightarrow> tmpst option" where
  "tst_tmpdir e rmdir w = (case e_tdirectory e of
      Some d \<Rightarrow> do {
        w \<leftarrow> tmp_given e d w;
        alive (tmp_chdir e rmdir True) w
      }
    | None \<Rightarrow> do {
        (name, w) \<leftarrow> tmp_mkdtemp e (w\<lparr>w_testdir := None\<rparr>);
        w \<leftarrow> alive (tmp_strdup e name) w;
        w \<leftarrow> alive (tmp_chown e) w;
        w \<leftarrow> alive (tmp_chmod e) w;
        alive (tmp_chdir e rmdir False) w
      })"

text \<open>The directory above \<open>TESTDIR\<close>.  \<open>strncpy\<close> copies as many bytes as a pointer has; of a longer \<open>TESTDIR\<close> no
terminated string is left.\<close>

definition parent_path :: "tmpenv \<Rightarrow> string \<Rightarrow> tmpst \<Rightarrow> string option" where
  "parent_path e d w =
    (if d = [] \<or> hd d \<noteq> CHR ''/'' then
       (if \<not> e_getcwd e then (if length d < 4 then Some d else None)
        else if length (w_cwd w @ ''/'' @ d) < PATH_MAX then Some (w_cwd w @ ''/'' @ d) else None)
     else if length d < PATH_MAX then Some d else None)"

definition tmp_remove :: "tmpenv \<Rightarrow> string \<Rightarrow> tmpst \<Rightarrow> tmpst option" where
  "tmp_remove e d w = do {
     let path = resolve (w_cwd w) d;
     (r, t) \<leftarrow> rmobj_path d (w_fs w path);
     let w = w\<lparr>w_fs := (w_fs w)(path := t)\<rparr>;
     if r = - 1 then with_tst (tst_resm (e_tst e) TWARN (''tst_rmdir: rmobj('' @ d @ '') failed: '' @ e_errmsg e d)) w
     else Some w
   }"

definition tst_rmdir :: "tmpenv \<Rightarrow> tmpst \<Rightarrow> tmpst option" where
  "tst_rmdir e w =
    (if e_tdirectory e \<noteq> None then Some w
     else case w_testdir w of
       None \<Rightarrow> with_tst (tst_resm (e_tst e) TWARN ''tst_rmdir: TESTDIR was NULL; no removal attempted'') w
     | Some d \<Rightarrow> do {
         w \<leftarrow> (if fst (e_malloc e) then Some w
           else brk_errno e (snd (e_malloc e)) (TBROK OR TERRNO) None ''tst_rmdir: malloc(4096) failed'' w);
         alive (\<lambda>w.
           if e_ino e (resolve (w_cwd w) d) \<noteq> None \<and> e_ino e ''/'' \<noteq> None \<and> e_ino e (resolve (w_cwd w) d) = e_ino e ''/''
           then with_tst (tst_resm (e_tst e) TWARN ''tst_rmdir: will not remove /'') w
           else if CHR ''*'' \<in> set d
           then with_tst (tst_resm (e_tst e) TWARN ''tst_rmdir: will not remove *'') w
           else do {
             chk (fst (e_malloc e));
             parent \<leftarrow> parent_path e d w;
             case dirname parent of
               None \<Rightarrow> warn_errno e 0 (TWARN OR TERRNO) ''tst_rmdir: dirname failed'' w
             | Some parent \<Rightarrow> do {
                 w \<leftarrow> (case e_chdir e (w_cwd w) (Some parent) of (r, err) \<Rightarrow>
                   if r \<noteq> 0 then warn_errno e err (TWARN OR TERRNO)
                     (''tst_rmdir: chdir('' @ parent @ '') failed'' @ [CHR 0x0A] @ ''Attempting to remove temp dir anyway'') w
                   else Some (w\<lparr>w_cwd := resolve (w_cwd w) parent\<rparr>));
                 tmp_remove e d w
               }
           }) w
       })"

section \<open>Breaking\<close>

text \<open>\<open>tmpdir_cleanup\<close> calls \<open>tst_brkm\<close> with TWARN, which that does not accept: it warns about the type and reports BROK.\<close>

lemma tmpdir_cleanup_returns:
  assumes "tst_inv s" "t_out s" "0 < brk_entered s" "t_exit s = None"
  shows "\<exists>s'. tmpdir_cleanup e s = Some s' \<and> tst_inv s' \<and> brk_entered s' = brk_entered s \<and> t_exit s' = None \<and>
    t_exitval s' = t_exitval s OR (TWARN OR TBROK)"
proof -
  let ?m = "''tst_brk: Invalid Type: '' @ int_to_string 4 @ ''. Using TBROK''"
  let ?u = "''tmpdir_cleanup: no user cleanup function called before exiting''"
  have f: "t_file s = None" using assms(1) by (simp add: tst_inv_def)
  obtain s1 where s1: "tst_print e (tcid s) 0 TWARN ?m s = Some s1" "tst_inv s1" "brk_entered s1 = brk_entered s"
    "t_exit s1 = None" "t_exitval s1 = t_exitval s OR TWARN"
    using tst_print_plain [OF f assms(2), of e "tcid s" 0 TWARN ?m] assms
    by (auto simp: tst_inv_def TTYPE_RESULT_def or_absorb_mono split: option.splits)
  obtain s2 where s2: "tst_resm e TBROK ?u s1 = Some s2" "reported TBROK s1 s2"
    using tst_resm_plain [OF s1(2), of ?u e TBROK] by auto
  have t: "TTYPE_RESULT TWARN = TWARN" "TTYPE_RESULT TBROK = TBROK" "(TWARN AND NOT TWARN) OR TBROK = TBROK"
    by (simp_all add: TTYPE_RESULT_def)
  have "tmpdir_cleanup e s = Some s2"
    using s1 s2 t assms(3)
    by (simp add: tmpdir_cleanup_def tst_brkm_brk tst_brk_def EXPAND_simps tst_res_resm Let_def c_simps reported_def)
  with s1 s2 t assms show ?thesis by (auto simp: reported_def or.assoc)
qed

interpretation leaving: cleanup "tmpdir_cleanup e" "TWARN OR TBROK" for e
  by unfold_locales (rule tmpdir_cleanup_returns)

lemma tst_brkm_alone:
  assumes "running s" "m \<noteq> []" "TTYPE_RESULT ttype \<in> set brk_types"
  shows "\<exists>s'. tst_brkm e ttype None m s = Some s' \<and>
    t_exit s' = Some ((t_exitval s OR TTYPE_RESULT ttype) AND NOT (TRETR OR TINFO OR TCONF))"
proof -
  obtain s1 where s1: "brk_reports e ttype m s = Some s1" "tst_inv s1" "brk_entered s1 = 0" "t_exit s1 = None"
    "t_exitval s1 = t_exitval s OR TTYPE_RESULT ttype"
    using brk_reports_ok [OF _ assms(2), of s e ttype] assms(1) by (auto simp: running_def)
  from tst_exit_plain [OF s1(2), of e] s1 show ?thesis
    using tst_brkm_eq [OF assms(2,3), of e None s] by auto
qed

text \<open>A failed call of \<open>tst_tmpdir\<close> ends the process with a status that holds BROK.\<close>

definition ended :: "tmpst \<Rightarrow> tmpst \<Rightarrow> bool" where
  "ended w w' \<longleftrightarrow> (\<exists>v. t_exit (w_tst w') = Some (broken (w_tst w) v))"

lemma brk_errno_ends:
  assumes "running (w_tst w)" "m \<noteq> []" "TTYPE_RESULT ttype = TBROK" "c = None \<or> c = Some (tmpdir_cleanup (e_tst e))"
  shows "\<exists>w'. brk_errno e err ttype c m w = Some w' \<and> ended w w'"
proof -
  let ?s = "w_tst w\<lparr>t_errno := err\<rparr>"
  have r: "running ?s" "tst_inv ?s" "brk_entered ?s = 0" "t_exit ?s = None"
    using assms(1) by (auto simp: running_def)
  have b: "broken ?s v = broken (w_tst w) v" for v by (simp add: broken_def)
  have t: "TTYPE_RESULT ttype \<in> set brk_types" using assms(3) by (simp add: brk_types_def)
  from assms(4) show ?thesis
  proof
    assume "c = None"
    moreover have "broken (w_tst w) 0 = (t_exitval ?s OR TTYPE_RESULT ttype) AND NOT (TRETR OR TINFO OR TCONF)"
      by (simp add: broken_def assms(3))
    ultimately show ?thesis using tst_brkm_alone [OF r(1) assms(2) t, of "e_tst e"]
      by (auto simp: brk_errno_def with_tst_def ended_def intro!: exI [where x = 0])
  next
    assume "c = Some (tmpdir_cleanup (e_tst e))"
    then show ?thesis using leaving.tst_brkm_exits [OF r(2-4) assms(2) t, of "e_tst e" "e_tst e"] assms(3)
      by (auto simp: brk_errno_def with_tst_def ended_def broken_def intro!: exI [where x = 6])
  qed
qed

lemma ended_not_alive: "ended w w' \<Longrightarrow> alive f w' = Some w'"
  by (auto simp: ended_def alive_def)

lemma running_alive: "running (w_tst w) \<Longrightarrow> alive f w = f w"
  by (simp add: running_def alive_def)

section \<open>Making the directory\<close>

text \<open>All calls succeed; the directory that is made then.\<close>

definition tmp_name :: "tmpenv \<Rightarrow> tmpst \<Rightarrow> string" where
  "tmp_name e w = fst (snd (e_mkdtemp e (tmp_template e w)))"

definition tmp_path :: "tmpenv \<Rightarrow> tmpst \<Rightarrow> string" where
  "tmp_path e w = resolve (w_cwd w) (tmp_name e w)"

definition made :: "tmpenv \<Rightarrow> tmpst \<Rightarrow> bool" where
  "made e w \<longleftrightarrow> fst (e_mkdtemp e (tmp_template e w)) \<and> fst (e_strdup e (tmp_name e w)) \<and>
     fst (e_chown e (Some (tmp_name e w)) (e_gid e)) \<noteq> - 1 \<and> fst (e_chmod e (Some (tmp_name e w))) \<noteq> - 1 \<and>
     fst (e_chdir e (w_cwd w) (Some (tmp_name e w))) \<noteq> - 1"

definition in_tmpdir :: "tmpenv \<Rightarrow> tmpst \<Rightarrow> tmpst" where
  "in_tmpdir e w = w\<lparr>w_testdir := Some (tmp_name e w), w_cwd := tmp_path e w, w_fs := (w_fs w)(tmp_path e w \<mapsto> new_dir)\<rparr>"

lemma template_testdir [simp]: "tmp_template e (w\<lparr>w_testdir := d\<rparr>) = tmp_template e w"
  by (simp add: tmp_template_def)

lemma ended_fields [simp]: "ended (w\<lparr>w_testdir := d\<rparr>) = ended w" "ended (w\<lparr>w_fs := fs\<rparr>) = ended w"
  by (auto simp: ended_def fun_eq_iff)

text \<open>The steps: each goes on with the state it is said to reach, or ends the process.\<close>

lemma tmp_steps:
  assumes r: "running (w_tst w)" and d: "w_testdir w = Some d"
  shows "fst (e_chown e (Some d) (e_gid e)) \<noteq> - 1 \<Longrightarrow> tmp_chown e w = Some w"
    "fst (e_chown e (Some d) (e_gid e)) = - 1 \<Longrightarrow> \<exists>w'. tmp_chown e w = Some w' \<and> ended w w'"
    "fst (e_chmod e (Some d)) \<noteq> - 1 \<Longrightarrow> tmp_chmod e w = Some w"
    "fst (e_chmod e (Some d)) = - 1 \<Longrightarrow> \<exists>w'. tmp_chmod e w = Some w' \<and> ended w w'"
    "fst (e_chdir e (w_cwd w) (Some d)) \<noteq> - 1 \<Longrightarrow> tmp_chdir e rmdir nc w = Some (w\<lparr>w_cwd := resolve (w_cwd w) d\<rparr>)"
    "fst (e_chdir e (w_cwd w) (Some d)) = - 1 \<Longrightarrow> \<exists>w'. tmp_chdir e rmdir nc w = Some w' \<and> ended w w'"
proof -
  note b = brk_errno_ends [OF r]
  show "fst (e_chown e (Some d) (e_gid e)) = - 1 \<Longrightarrow> \<exists>w'. tmp_chown e w = Some w' \<and> ended w w'"
    using d b by (simp add: tmp_chown_def case_prod_beta)
  show "fst (e_chmod e (Some d)) = - 1 \<Longrightarrow> \<exists>w'. tmp_chmod e w = Some w' \<and> ended w w'"
    using d b by (simp add: tmp_chmod_def case_prod_beta)
  show "\<exists>w'. tmp_chdir e rmdir nc w = Some w' \<and> ended w w'" if f: "fst (e_chdir e (w_cwd w) (Some d)) = - 1"
  proof -
    obtain w' where "brk_errno e (snd (e_chdir e (w_cwd w) (Some d))) (TBROK OR TERRNO) None
        (''tst_tmpdir: chdir('' @ show_ptr (w_testdir w) @ '') failed'') w = Some w'" "ended w w'"
      using b [of "''tst_tmpdir: chdir('' @ show_ptr (w_testdir w) @ '') failed''" "TBROK OR TERRNO" None] by auto
    then show ?thesis using f d by (simp add: tmp_chdir_def case_prod_beta ended_not_alive)
  qed
qed (use d in \<open>simp_all add: tmp_chown_def tmp_chmod_def tmp_chdir_def case_prod_beta\<close>)

lemma tmp_mkdtemp_cases:
  assumes "running (w_tst w)"
  shows "fst (e_mkdtemp e (tmp_template e w)) \<Longrightarrow> tmp_mkdtemp e w = Some (tmp_name e w, w\<lparr>w_fs := (w_fs w)(tmp_path e w \<mapsto> new_dir)\<rparr>)"
    "\<not> fst (e_mkdtemp e (tmp_template e w)) \<Longrightarrow> \<exists>w'. tmp_mkdtemp e w = Some (tmp_name e w, w') \<and> ended w w'"
proof -
  show "fst (e_mkdtemp e (tmp_template e w)) \<Longrightarrow> tmp_mkdtemp e w = Some (tmp_name e w, w\<lparr>w_fs := (w_fs w)(tmp_path e w \<mapsto> new_dir)\<rparr>)"
    by (simp add: tmp_mkdtemp_def case_prod_beta tmp_name_def tmp_path_def)
  assume f: "\<not> fst (e_mkdtemp e (tmp_template e w))"
  obtain w' where "brk_errno e (snd (snd (e_mkdtemp e (tmp_template e w)))) (TBROK OR TERRNO) (Some (tmpdir_cleanup (e_tst e)))
      (''tst_tmpdir: mkdtemp('' @ tmp_name e w @ '') failed'') w = Some w'" "ended w w'"
    using brk_errno_ends [OF assms, of "''tst_tmpdir: mkdtemp('' @ tmp_name e w @ '') failed''" "TBROK OR TERRNO"
      "Some (tmpdir_cleanup (e_tst e))" e] by auto
  with f show "\<exists>w'. tmp_mkdtemp e w = Some (tmp_name e w, w') \<and> ended w w'"
    by (simp add: tmp_mkdtemp_def case_prod_beta tmp_name_def)
qed

lemma tmp_strdup_cases:
  assumes "running (w_tst w)"
  shows "fst (e_strdup e name) \<Longrightarrow> tmp_strdup e name w = Some (w\<lparr>w_testdir := Some name\<rparr>)"
    "\<not> fst (e_strdup e name) \<Longrightarrow> \<exists>w'. tmp_strdup e name w = Some w' \<and> ended w w'"
  using brk_errno_ends [of "w\<lparr>w_testdir := None\<rparr>" "''tst_tmpdir: strdup('' @ name @ '') failed''" "TBROK OR TERRNO"
      "Some (tmpdir_cleanup (e_tst e))" e "snd (e_strdup e name)"] assms
  by (simp_all add: tmp_strdup_def)

text \<open>The calls on the directory once \<open>TESTDIR\<close> is set.\<close>

definition tmp_tail :: "tmpenv \<Rightarrow> (string option \<Rightarrow> int \<times> int) \<Rightarrow> tmpst \<Rightarrow> tmpst option" where
  "tmp_tail e rmdir w = tmp_chown e w \<bind> alive (tmp_chmod e) \<bind> alive (tmp_chdir e rmdir False)"

definition tail_ok :: "tmpenv \<Rightarrow> string \<Rightarrow> string \<Rightarrow> bool" where
  "tail_ok e cwd d \<longleftrightarrow> fst (e_chown e (Some d) (e_gid e)) \<noteq> - 1 \<and> fst (e_chmod e (Some d)) \<noteq> - 1 \<and> fst (e_chdir e cwd (Some d)) \<noteq> - 1"

lemma tmp_tail_cases:
  assumes "running (w_tst w)" "w_testdir w = Some d"
  shows "tail_ok e (w_cwd w) d \<Longrightarrow> tmp_tail e rmdir w = Some (w\<lparr>w_cwd := resolve (w_cwd w) d\<rparr>)"
    "\<not> tail_ok e (w_cwd w) d \<Longrightarrow> \<exists>w'. tmp_tail e rmdir w = Some w' \<and> ended w w'"
proof -
  note st = tmp_steps [OF assms, of e]
  show "tail_ok e (w_cwd w) d \<Longrightarrow> tmp_tail e rmdir w = Some (w\<lparr>w_cwd := resolve (w_cwd w) d\<rparr>)"
    using st(1,3) st(5) [of rmdir False] assms(1) by (simp add: tmp_tail_def tail_ok_def running_alive)
  assume n: "\<not> tail_ok e (w_cwd w) d"
  consider (chown) "fst (e_chown e (Some d) (e_gid e)) = - 1"
    | (chmod) "fst (e_chown e (Some d) (e_gid e)) \<noteq> - 1" "fst (e_chmod e (Some d)) = - 1"
    | (chdir) "fst (e_chown e (Some d) (e_gid e)) \<noteq> - 1" "fst (e_chmod e (Some d)) \<noteq> - 1"
        "fst (e_chdir e (w_cwd w) (Some d)) = - 1" using n by (auto simp: tail_ok_def)
  then show "\<exists>w'. tmp_tail e rmdir w = Some w' \<and> ended w w'"
  proof cases
    case chown
    with st(2) show ?thesis by (auto simp: tmp_tail_def ended_not_alive)
  next
    case chmod
    with st(1,4) assms(1) show ?thesis by (auto simp: tmp_tail_def ended_not_alive running_alive)
  next
    case chdir
    with st(1,3) st(6) [of rmdir False] assms(1) show ?thesis by (auto simp: tmp_tail_def running_alive)
  qed
qed

lemma tst_tmpdir_cases:
  assumes "running (w_tst w)" "e_tdirectory e = None"
  shows "if made e w then tst_tmpdir e rmdir w = Some (in_tmpdir e w)
    else (\<exists>w' status. tst_tmpdir e rmdir w = Some w' \<and> t_exit (w_tst w') = Some status \<and> status \<noteq> 0)"
proof -
  let ?n = "tmp_name e w"
  let ?w0 = "w\<lparr>w_testdir := None\<rparr>"
  let ?w1 = "?w0\<lparr>w_fs := (w_fs w)(tmp_path e w \<mapsto> new_dir)\<rparr>"
  let ?w2 = "?w1\<lparr>w_testdir := Some ?n\<rparr>"
  have n: "tmp_name e ?w0 = ?n" "tmp_path e ?w0 = tmp_path e w" by (simp_all add: tmp_name_def tmp_path_def)
  have r: "running (w_tst ?w0)" "running (w_tst ?w1)" "running (w_tst ?w2)" using assms(1) by simp_all
  note mkd = tmp_mkdtemp_cases [OF r(1), of e, unfolded n, simplified]
  note sdp = tmp_strdup_cases [OF r(2), of e ?n]
  note tl = tmp_tail_cases [OF r(3), of ?n e rmdir, simplified]
  have fin: ?thesis if "\<not> made e w" "tst_tmpdir e rmdir w = Some w'" "ended w w'" for w'
    using that broken_nonzero by (auto simp: ended_def)
  consider (mk) "\<not> fst (e_mkdtemp e (tmp_template e w))"
    | (sd) "fst (e_mkdtemp e (tmp_template e w))" "\<not> fst (e_strdup e ?n)"
    | (ok) "fst (e_mkdtemp e (tmp_template e w))" "fst (e_strdup e ?n)" by blast
  then show ?thesis
  proof cases
    case mk
    with mkd(2) [OF mk] obtain w' where w': "tmp_mkdtemp e ?w0 = Some (?n, w')" "ended w w'" by auto
    then have "tst_tmpdir e rmdir w = Some w'" using assms(2) by (simp add: tst_tmpdir_def ended_not_alive)
    with fin mk w'(2) show ?thesis by (simp add: made_def)
  next
    case sd
    with sdp(2) [OF sd(2)] obtain w' where w': "tmp_strdup e ?n ?w1 = Some w'" "ended w w'" by auto
    then have "tst_tmpdir e rmdir w = Some w'" using assms mkd(1) [OF sd(1)]
      by (simp add: tst_tmpdir_def ended_not_alive running_alive)
    with fin sd w'(2) show ?thesis by (simp add: made_def)
  next
    case ok
    have run: "tst_tmpdir e rmdir w = tmp_tail e rmdir ?w2"
      using assms mkd(1) [OF ok(1)] sdp(1) [OF ok(2)] by (simp add: tst_tmpdir_def running_alive tmp_tail_def)
    have m: "made e w \<longleftrightarrow> tail_ok e (w_cwd w) ?n" using ok by (simp add: made_def tail_ok_def)
    show ?thesis
    proof (cases "made e w")
      case True
      with tl(1) m run show ?thesis by (simp add: in_tmpdir_def tmp_path_def)
    next
      case False
      with tl(2) m run fin show ?thesis by auto
    qed
  qed
qed

text \<open>With a given \<open>TDIRECTORY\<close>: the directory is there or is made, and entered.\<close>

definition entered_given :: "tmpenv \<Rightarrow> tmpst \<Rightarrow> string \<Rightarrow> bool" where
  "entered_given e w d \<longleftrightarrow> (fst (e_mkdir e d) \<noteq> - 1 \<or> snd (e_mkdir e d) = 17) \<and> fst (e_chdir e (w_cwd w) (Some d)) \<noteq> - 1"

definition in_given :: "tmpenv \<Rightarrow> tmpst \<Rightarrow> string \<Rightarrow> tmpst" where
  "in_given e w d = w\<lparr>w_testdir := Some d, w_cwd := resolve (w_cwd w) d,
     w_fs := (if fst (e_mkdir e d) = - 1 then w_fs w else (w_fs w)(resolve (w_cwd w) d \<mapsto> new_dir))\<rparr>"

lemma tst_tmpdir_given:
  assumes "running (w_tst w)" "e_tdirectory e = Some d"
  shows "if entered_given e w d then tst_tmpdir e rmdir w = Some (in_given e w d)
    else (\<exists>w'. tst_tmpdir e rmdir w = Some w' \<and> ended w w')"
proof -
  let ?w = "w\<lparr>w_testdir := Some d\<rparr>"
  let ?w1 = "?w\<lparr>w_fs := (if fst (e_mkdir e d) = - 1 then w_fs w else (w_fs w)(resolve (w_cwd w) d \<mapsto> new_dir))\<rparr>"
  have r: "running (w_tst ?w)" "running (w_tst ?w1)" using assms(1) by simp_all
  have t: "TTYPE_RESULT TBROK = TBROK" by (simp add: TTYPE_RESULT_def)
  show ?thesis
  proof (cases "fst (e_mkdir e d) = - 1 \<and> snd (e_mkdir e d) \<noteq> 17")
    case True
    obtain w' where "brk_errno e (snd (e_mkdir e d)) TBROK None (''mkdir('' @ d @ '', 777) failed'') ?w = Some w'" "ended ?w w'"
      using brk_errno_ends [OF r(1), of "''mkdir('' @ d @ '', 777) failed''" TBROK None] t by auto
    with True show ?thesis
      by (simp add: tst_tmpdir_def assms(2) tmp_given_def case_prod_beta entered_given_def ended_not_alive)
  next
    case False
    then have g: "tmp_given e d w = Some ?w1" by (auto simp: tmp_given_def case_prod_beta)
    have run: "tst_tmpdir e rmdir w = tmp_chdir e rmdir True ?w1"
      using assms(1) by (simp add: tst_tmpdir_def assms(2) g running_alive)
    have "entered_given e w d \<longleftrightarrow> fst (e_chdir e (w_cwd ?w1) (Some d)) \<noteq> - 1" using False by (auto simp: entered_given_def)
    then show ?thesis
      using tmp_steps(5,6) [OF r(2), of d e rmdir True] run by (auto simp: in_given_def)
  qed
qed

text \<open>C18: what \<open>tst_tmpdir\<close> of a running test does.  Without \<open>TDIRECTORY\<close>, when all five calls succeed, it makes a new, empty
directory named by \<open>mkdtemp\<close>, keeps its name in \<open>TESTDIR\<close> and changes into it, with nothing reported.  With \<open>TDIRECTORY\<close>, when
that directory is there already or can be made, and can be entered, it changes into that one, and makes an empty one only if
there was none.  Otherwise it ends the process with a status other than 0.  In no case does it return to a test that is not in
its directory.\<close>

theorem tst_tmpdir_outcome:
  assumes "running (w_tst w)"
  shows "if (case e_tdirectory e of None \<Rightarrow> made e w | Some d \<Rightarrow> entered_given e w d)
    then tst_tmpdir e rmdir w = Some (case e_tdirectory e of None \<Rightarrow> in_tmpdir e w | Some d \<Rightarrow> in_given e w d)
    else (\<exists>w' status. tst_tmpdir e rmdir w = Some w' \<and> t_exit (w_tst w') = Some status \<and> status \<noteq> 0)"
proof (cases "e_tdirectory e")
  case None
  with tst_tmpdir_cases [OF assms None, of rmdir] show ?thesis by (auto split: if_splits)
next
  case (Some d)
  with tst_tmpdir_given [OF assms Some, of rmdir] broken_nonzero show ?thesis by (auto simp: ended_def)
qed

definition tmpenv_ok :: tmpenv where
  "tmpenv_ok = \<lparr>e_tst = plain_env, e_tdirectory = None, e_tmpdir = None, e_mkdir = \<lambda>_. (0, 0),
     e_mkdtemp = \<lambda>s. (True, take (length s - 6) s @ ''a1B2c3'', 0), e_strdup = \<lambda>_. (True, 0), e_gid = 100,
     e_chown = \<lambda>_ _. (0, 0), e_chmod = \<lambda>_. (0, 0), e_chdir = \<lambda>_ _. (0, 0), e_malloc = (True, 0),
     e_ino = \<lambda>p. Some (length p), e_getcwd = True, e_errmsg = \<lambda>_. []\<rparr>"

definition tmpst0 :: tmpst where
  "tmpst0 = \<lparr>w_tst = tst_init ''dma_test'', w_testdir = None, w_cwd = ''/home'', w_fs = \<lambda>_. None\<rparr>"

lemma tmpst0_running: "running (w_tst tmpst0)"
  by (simp add: tmpst0_def running_def tst_init_inv) (simp add: tst_init_def)

lemma tst_tmpdir_outcome_witness:
  "\<exists>w'. tst_tmpdir tmpenv_ok (\<lambda>_. (0, 0)) tmpst0 = Some w' \<and> w_cwd w' = ''/tmp/dmaa1B2c3'' \<and>
    w_testdir w' = Some ''/tmp/dmaa1B2c3'' \<and> w_fs w' ''/tmp/dmaa1B2c3'' = Some new_dir"
  using tst_tmpdir_outcome [OF tmpst0_running, of tmpenv_ok "\<lambda>_. (0, 0)"]
  by (simp add: made_def tmpenv_ok_def in_tmpdir_def tmp_path_def tmp_name_def tmp_template_def resolve_def PATH_MAX_def
    TEMPDIR_def tmpst0_def tst_init_def eval_nat_numeral)

section \<open>Removing it\<close>

text \<open>An absolute, not too long name without a star, which is not that of the root directory.\<close>

definition safe_name :: "tmpenv \<Rightarrow> string \<Rightarrow> bool" where
  "safe_name e d \<longleftrightarrow> d \<noteq> [] \<and> hd d = CHR ''/'' \<and> d \<noteq> ''/'' \<and> length d < PATH_MAX \<and> CHR ''*'' \<notin> set d \<and> e_ino e d \<noteq> e_ino e ''/''"

lemma with_tst_warn:
  assumes "running (w_tst w)" "m \<noteq> []"
  shows "\<exists>t. with_tst (tst_resm e TWARN m) w = Some (w\<lparr>w_tst := t\<rparr>) \<and> running t \<and> t_exitval t = t_exitval (w_tst w) OR TWARN"
    "\<exists>t. warn_errno e' err (TWARN OR TERRNO) m w = Some (w\<lparr>w_tst := t\<rparr>) \<and> running t \<and> t_exitval t = t_exitval (w_tst w) OR TWARN"
proof -
  have t: "TTYPE_RESULT TWARN = TWARN" "TTYPE_RESULT 260 = TWARN" by (simp_all add: TTYPE_RESULT_def)
  have "tst_inv (w_tst w)" "tst_inv (w_tst w\<lparr>t_errno := err\<rparr>)" using assms(1) by (simp_all add: running_def)
  note r = tst_resm_plain [OF this(1) assms(2), of e TWARN] tst_resm_plain [OF this(2) assms(2), of "e_tst e'" "TWARN OR TERRNO"]
  from r(1) t assms(1) show "\<exists>t. with_tst (tst_resm e TWARN m) w = Some (w\<lparr>w_tst := t\<rparr>) \<and> running t \<and>
      t_exitval t = t_exitval (w_tst w) OR TWARN"
    by (auto simp: with_tst_def running_def reported_def)
  from r(2) t assms(1) show "\<exists>t. warn_errno e' err (TWARN OR TERRNO) m w = Some (w\<lparr>w_tst := t\<rparr>) \<and> running t \<and>
      t_exitval t = t_exitval (w_tst w) OR TWARN"
    by (auto simp: with_tst_def warn_errno_def running_def reported_def)
qed

lemma tmp_remove_absolute:
  assumes "running (w_tst w)" "d \<noteq> []" "hd d = CHR ''/''" "d \<noteq> ''/''" "w_fs w d = Some t" "fits d t"
  shows "\<exists>w'. tmp_remove e d w = Some w' \<and> w_fs w' = (w_fs w)(d := left t) \<and> running (w_tst w') \<and>
    t_exitval (w_tst w') = t_exitval (w_tst w) OR (if left t = None then 0 else TWARN)"
proof -
  have p: "resolve (w_cwd w) d = d" using assms(2,3) by (simp add: resolve_def)
  obtain t' where "with_tst (tst_resm (e_tst e) TWARN (''tst_rmdir: rmobj('' @ d @ '') failed: '' @ e_errmsg e d))
      (w\<lparr>w_fs := (w_fs w)(d := left t)\<rparr>) = Some (w\<lparr>w_fs := (w_fs w)(d := left t), w_tst := t'\<rparr>)" "running t'"
      "t_exitval t' = t_exitval (w_tst w) OR TWARN"
    using with_tst_warn(1) [of "w\<lparr>w_fs := (w_fs w)(d := left t)\<rparr>" "''tst_rmdir: rmobj('' @ d @ '') failed: '' @ e_errmsg e d" "e_tst e"]
      assms(1) by auto
  then show ?thesis
    using rmobj_left_entries(1) [OF assms(6,4)] assms(1,5) p by (simp add: tmp_remove_def rmobj_path_def)
qed

lemma tst_rmdir_absolute:
  assumes "running (w_tst w)" "e_tdirectory e = None" "w_testdir w = Some d" "fst (e_malloc e)" "safe_name e d"
    "w_fs w d = Some t" "fits d t"
  shows "\<exists>w' v. tst_rmdir e w = Some w' \<and> w_fs w' = (w_fs w)(d := left t) \<and> running (w_tst w') \<and>
    t_exitval (w_tst w') = (t_exitval (w_tst w) OR v) OR (if left t = None then 0 else TWARN) \<and>
    v = (if fst (e_chdir e (w_cwd w) (dirname d)) = 0 then 0 else TWARN)"
proof -
  have d: "d \<noteq> []" "hd d = CHR ''/''" "d \<noteq> ''/''" "CHR ''*'' \<notin> set d" "resolve (w_cwd w) d = d"
    using assms(5) by (simp_all add: safe_name_def resolve_def)
  obtain p where p: "dirname d = Some p" by (simp add: dirname_def)
  have pp: "parent_path e d w = Some d" using assms(5) by (simp add: parent_path_def safe_name_def)
  obtain w1 v where w1: "(case e_chdir e (w_cwd w) (Some p) of (r, err) \<Rightarrow>
        if r \<noteq> 0 then warn_errno e err (TWARN OR TERRNO)
          (''tst_rmdir: chdir('' @ p @ '') failed'' @ [CHR 0x0A] @ ''Attempting to remove temp dir anyway'') w
        else Some (w\<lparr>w_cwd := resolve (w_cwd w) p\<rparr>)) = Some w1" "running (w_tst w1)" "w_fs w1 = w_fs w"
      "t_exitval (w_tst w1) = t_exitval (w_tst w) OR v" "v = (if fst (e_chdir e (w_cwd w) (dirname d)) = 0 then 0 else TWARN)"
    using with_tst_warn(2) [OF assms(1), of "''tst_rmdir: chdir('' @ p @ '') failed'' @ [CHR 0x0A] @
        ''Attempting to remove temp dir anyway''" e "snd (e_chdir e (w_cwd w) (Some p))"] assms(1) p
    by (cases "fst (e_chdir e (w_cwd w) (Some p)) = 0") (auto simp: case_prod_beta)
  obtain w2 where w2: "tmp_remove e d w1 = Some w2" "w_fs w2 = (w_fs w1)(d := left t)" "running (w_tst w2)"
      "t_exitval (w_tst w2) = t_exitval (w_tst w1) OR (if left t = None then 0 else TWARN)"
    using tmp_remove_absolute [OF w1(2) d(1-3), of t e] assms(6,7) w1(3) by auto
  have "tst_rmdir e w = Some w2"
    using assms(1-5) d p pp w1(1) w2(1) by (simp add: tst_rmdir_def running_alive safe_name_def c_simps cong: prod.case_cong)
  with w1 w2 show ?thesis by auto
qed

text \<open>C10: the life of a temporary directory.  A running test without \<open>TDIRECTORY\<close>, for which \<open>tst_tmpdir\<close> makes a directory
with an absolute name that is shorter than \<open>PATH_MAX\<close>, holds no star and is not that of the root directory (\<open>safe_name\<close>),
does what it likes there, as long as \<open>TESTDIR\<close> stays what it was and the paths below the directory fit their buffers
(\<open>fits\<close>), and calls \<open>tst_rmdir\<close>, whose \<open>malloc\<close> succeeds.  Then of the directory exactly that is left
which refuses to be removed (nothing, in the ordinary case), every other path is as the test left it, and the test is still
running, with a WARN in its exit value only if something is left or its parent directory could not be entered.  (For a
relative \<open>TMPDIR\<close> see \<open>relative_tmpdir_stays\<close> below.)\<close>

theorem tmpdir_lifecycle:
  assumes "running (w_tst w)" "e_tdirectory e = None" "made e w" "safe_name e (tmp_name e w)" "fst (e_malloc e)"
    "tst_tmpdir e rmdir w = Some w1"
    "w_testdir w2 = w_testdir w1" "running (w_tst w2)" "w_fs w2 (tmp_path e w) = Some t" "fits (tmp_name e w) t"
  shows "\<exists>w'. tst_rmdir e w2 = Some w' \<and> w_fs w' = (w_fs w2)(tmp_path e w := left t) \<and> running (w_tst w') \<and>
    (t_exitval (w_tst w') = t_exitval (w_tst w2) \<or> t_exitval (w_tst w') = t_exitval (w_tst w2) OR TWARN) \<and>
    (left t = None \<longrightarrow> fst (e_chdir e (w_cwd w2) (dirname (tmp_name e w))) = 0 \<longrightarrow> t_exitval (w_tst w') = t_exitval (w_tst w2))"
proof -
  have p: "tmp_path e w = tmp_name e w" using assms(4) by (simp add: tmp_path_def safe_name_def resolve_def)
  have "w1 = in_tmpdir e w" using tst_tmpdir_cases [OF assms(1,2), of rmdir] assms(3,6) by simp
  then have "w_testdir w2 = Some (tmp_name e w)" using assms(7) by (simp add: in_tmpdir_def)
  from tst_rmdir_absolute [OF assms(8,2) this assms(5,4) _ assms(10)] assms(9) p show ?thesis
    by (auto simp: or.assoc)
qed

definition tmpst_after :: "node \<Rightarrow> tmpst" where
  "tmpst_after t = (in_tmpdir tmpenv_ok tmpst0)\<lparr>w_fs := (w_fs tmpst0)(''/tmp/dmaa1B2c3'' \<mapsto> t)\<rparr>"

lemma tmpdir_lifecycle_witness:
  "\<exists>w'. tst_rmdir tmpenv_ok (tmpst_after (Dir plain [(''log'', File True), (''d'', Dir plain [(''x'', File True)])])) = Some w' \<and>
    w_fs w' = (\<lambda>_. None) \<and> t_exitval (w_tst w') = 0"
proof -
  let ?t = "Dir plain [(''log'', File True), (''d'', Dir plain [(''x'', File True)])]"
  have n: "tmp_name tmpenv_ok tmpst0 = ''/tmp/dmaa1B2c3''" "tmp_path tmpenv_ok tmpst0 = ''/tmp/dmaa1B2c3''"
    by (simp_all add: tmpenv_ok_def tmp_path_def tmp_name_def tmp_template_def resolve_def PATH_MAX_def TEMPDIR_def tmpst0_def
      tst_init_def eval_nat_numeral)
  have m: "made tmpenv_ok tmpst0" by (simp add: made_def tmpenv_ok_def)
  have s: "safe_name tmpenv_ok ''/tmp/dmaa1B2c3''" by (simp add: safe_name_def tmpenv_ok_def PATH_MAX_def)
  have o: "tst_tmpdir tmpenv_ok (\<lambda>_. (0, 0)) tmpst0 = Some (in_tmpdir tmpenv_ok tmpst0)"
    using tst_tmpdir_cases [OF tmpst0_running, of tmpenv_ok] m by (simp add: tmpenv_ok_def)
  have r: "running (w_tst (tmpst_after ?t))" "t_exitval (w_tst (tmpst_after ?t)) = 0"
    using tmpst0_running by (simp_all add: tmpst_after_def in_tmpdir_def) (simp add: tmpst0_def tst_init_def)
  have f: "w_fs (tmpst_after ?t) ''/tmp/dmaa1B2c3'' = Some ?t" "fits ''/tmp/dmaa1B2c3'' ?t" "left ?t = None"
    "(w_fs (tmpst_after ?t))(''/tmp/dmaa1B2c3'' := None) = (\<lambda>_. None)"
    by (simp_all add: tmpst_after_def PATH_MAX_def plain_def goes_def tmpst0_def fun_eq_iff)
  have e: "e_tdirectory tmpenv_ok = None" "fst (e_malloc tmpenv_ok)" "fst (e_chdir tmpenv_ok c p) = 0" for c p
    by (simp_all add: tmpenv_ok_def)
  have d: "w_testdir (tmpst_after ?t) = w_testdir (in_tmpdir tmpenv_ok tmpst0)" by (simp add: tmpst_after_def)
  show ?thesis
    using tmpdir_lifecycle [OF tmpst0_running e(1) m s [folded n(1)] e(2) o d r(1) f(1) [folded n(2)] f(2) [folded n(1)],
      unfolded n f(3,4) r(2)] e(3) by auto
qed

section \<open>When it is not removed\<close>

text \<open>With a relative \<open>TMPDIR\<close> the name is relative to the directory the test was started in; \<open>tst_rmdir\<close> takes it as
relative to the directory the test is in, which is the temporary directory itself.  Nothing is removed there.\<close>

lemma relative_tmpdir_stays:
  assumes "running (w_tst w)" "e_tdirectory e = None" "w_testdir w = Some d" "d \<noteq> []" "hd d \<noteq> CHR ''/''" "fst (e_malloc e)"
    "CHR ''*'' \<notin> set d" "w_cwd w = resolve base d" "e_getcwd e" "length (w_cwd w @ ''/'' @ d) < PATH_MAX"
    "e_ino e (w_cwd w @ ''/'' @ d) = None" "w_fs w (w_cwd w @ ''/'' @ d) = None"
    "fst (e_chdir e (w_cwd w) (dirname (w_cwd w @ ''/'' @ d))) \<noteq> 0"
  shows "\<exists>w'. tst_rmdir e w = Some w' \<and> w_fs w' = w_fs w \<and> t_exitval (w_tst w') = t_exitval (w_tst w) OR TWARN"
proof -
  have rs: "resolve (w_cwd w) d = w_cwd w @ ''/'' @ d" using assms(5) by (simp add: resolve_def)
  have pp: "parent_path e d w = Some (w_cwd w @ ''/'' @ d)" using assms(4,5,9,10) by (simp add: parent_path_def)
  obtain p where p: "dirname (w_cwd w @ ''/'' @ d) = Some p" by (simp add: dirname_def)
  let ?m = "''tst_rmdir: chdir('' @ p @ '') failed'' @ [CHR 0x0A] @ ''Attempting to remove temp dir anyway''"
  let ?n = "''tst_rmdir: rmobj('' @ d @ '') failed: '' @ e_errmsg e d"
  obtain t1 where t1: "warn_errno e (snd (e_chdir e (w_cwd w) (Some p))) (TWARN OR TERRNO) ?m w = Some (w\<lparr>w_tst := t1\<rparr>)"
      "running t1" "t_exitval t1 = t_exitval (w_tst w) OR TWARN"
    using with_tst_warn(2) [OF assms(1), of ?m] by auto
  have fs: "(w_fs w)(w_cwd w @ ''/'' @ d := None) = w_fs w" using assms(12) by (simp add: fun_upd_idem)
  obtain t2 where t2: "with_tst (tst_resm (e_tst e) TWARN ?n) (w\<lparr>w_tst := t1, w_fs := w_fs w\<rparr>) = Some (w\<lparr>w_tst := t2, w_fs := w_fs w\<rparr>)"
      "t_exitval t2 = t_exitval t1 OR TWARN"
    using with_tst_warn(1) [of "w\<lparr>w_tst := t1, w_fs := w_fs w\<rparr>" ?n "e_tst e"] t1(2) by auto
  have "tmp_remove e d (w\<lparr>w_tst := t1\<rparr>) = Some (w\<lparr>w_tst := t2, w_fs := w_fs w\<rparr>)"
    using t2 rs fs assms(12) by (simp add: tmp_remove_def rmobj_path_def)
  then have "tst_rmdir e w = Some (w\<lparr>w_tst := t2, w_fs := w_fs w\<rparr>)"
    using assms(1-3,6,7,11,13) rs pp p t1(1) by (simp add: tst_rmdir_def running_alive c_simps case_prod_beta)
  with t1 t2 show ?thesis by (auto simp: or.assoc)
qed

end
