(* ===== verification/TestSuite.thy ===== *)
theory TestSuite
imports TmpDir
begin

unbundle bit_operations_syntax

text \<open>\<open>ltp_framework/lib/libtestsuite.c\<close>: a user's entry, a file for a test, and pipes on which a process waits for others.

\<open>fd[2]\<close> is a pair of integers; what the system calls return is a parameter of each function.  \<open>sync_pipe_wait\<close> and
\<open>sync_pipe_notify\<close> are cut at their blocking call, so that the step relation below can interleave the processes.\<close>

section \<open>The code\<close>

text \<open>The copy of the entry, and the null pointers it does not look for: when \<open>tst_brkm\<close> returns, and of \<open>malloc\<close>.\<close>

definition my_getpwnam :: "tenv \<Rightarrow> (string \<Rightarrow> 'p option) \<Rightarrow> bool \<Rightarrow> string \<Rightarrow> tst \<Rightarrow> ('p option \<times> tst) option" where
  "my_getpwnam e getpwnam malloc_ok name s = do {
     s \<leftarrow> (if getpwnam name = None then tst_brkm e TBROK None ''getpwnam() failed'' s else Some s);
     if t_exit s \<noteq> None then Some (None, s)
     else do { chk malloc_ok; pwent \<leftarrow> getpwnam name; Some (Some pwent, s) }
   }"

text \<open>\<open>open\<close> and \<open>close\<close> give their return value and \<open>errno\<close>.\<close>

definition errno_text :: "tenv \<Rightarrow> int \<Rightarrow> string" where
  "errno_text e err = ''errno='' @ int_to_string err @ '' : '' @ env_strerror e err"

definition do_file_setup :: "tenv \<Rightarrow> (string \<Rightarrow> int \<times> int) \<Rightarrow> (int \<Rightarrow> int \<times> int) \<Rightarrow> string \<Rightarrow> tst \<Rightarrow> tst option" where
  "do_file_setup e open_file close_fd fname s = do {
     let (fd, err) = open_file fname;
     s \<leftarrow> (if fd = - 1 then tst_resm e TBROK
         (''open('' @ fname @ '', O_RDWR|O_CREAT,0700) Failed, '' @ errno_text e err) (s\<lparr>t_errno := err\<rparr>) else Some s);
     let (r, err) = close_fd fd;
     if r = - 1 then tst_resm e TWARN (''close('' @ fname @ '') Failed on file create, '' @ errno_text e err) (s\<lparr>t_errno := err\<rparr>)
     else Some s
   }"

definition basename_of :: "string \<Rightarrow> string" where
  "basename_of name = rev (takeWhile (\<lambda>c. c \<noteq> CHR ''/'') (rev name))"

definition generate_pipe_name :: "string \<Rightarrow> string" where
  "generate_pipe_name name = take 254 (''/tmp'' @ ''/ltp_fifo_'' @ basename_of name)"

text \<open>Opening: the results of the three possible opens of the FIFO, of \<open>mkfifo\<close>, and of \<open>pipe\<close>.\<close>

record pipe_sys =
  o_first :: "string \<Rightarrow> int"
  o_read :: "string \<Rightarrow> int"
  o_write :: "string \<Rightarrow> int"
  o_mkfifo :: "string \<Rightarrow> int"
  o_pipe :: "int \<times> int \<times> int"

definition sync_pipe_create :: "pipe_sys \<Rightarrow> string option \<Rightarrow> int \<times> int \<Rightarrow> int \<times> (int \<times> int)" where
  "sync_pipe_create sys name fd = (case name of
      Some name \<Rightarrow>
        (let p = generate_pipe_name name; ret = o_first sys p in
         if ret \<noteq> - 1 then (ret, (ret, o_write sys p))
         else let ret = o_mkfifo sys p in
           if ret = 0 then (ret, (o_read sys p, o_write sys p)) else (ret, fd))
    | None \<Rightarrow> (case o_pipe sys of (ret, r, w) \<Rightarrow> (ret, if ret = 0 then (r, w) else fd)))"

text \<open>Closing: the return value, and the name that is unlinked.\<close>

definition sync_pipe_close :: "(int \<Rightarrow> int) \<Rightarrow> string option \<Rightarrow> int \<times> int \<Rightarrow> int \<times> string option" where
  "sync_pipe_close close_fd name fd =
    ((if fst fd \<noteq> - 1 then close_fd (fst fd) else 0) OR (if snd fd \<noteq> - 1 then close_fd (snd fd) else 0),
     map_option generate_pipe_name name)"

definition wait_close :: "int \<times> int \<Rightarrow> int \<times> int" where
  "wait_close fd = (if snd fd \<noteq> - 1 then (fst fd, - 1) else fd)"

definition wait_result :: "int \<Rightarrow> char \<Rightarrow> int" where
  "wait_result r buf = (if r \<noteq> 1 \<or> buf \<noteq> CHR ''A'' then - 1 else 0)"

definition sync_pipe_wait :: "(int \<Rightarrow> int \<times> char) \<Rightarrow> int \<times> int \<Rightarrow> int \<times> (int \<times> int)" where
  "sync_pipe_wait read_fd fd = (let fd = wait_close fd; (r, buf) = read_fd (fst fd) in (wait_result r buf, fd))"

definition notify_close :: "int \<times> int \<Rightarrow> int \<times> int" where
  "notify_close fd = (if fst fd \<noteq> - 1 then (- 1, snd fd) else fd)"

definition notify_result :: "int \<Rightarrow> int" where
  "notify_result r = (if r \<noteq> 1 then - 1 else 0)"

definition sync_pipe_notify :: "(int \<Rightarrow> char \<Rightarrow> int) \<Rightarrow> int \<times> int \<Rightarrow> int \<times> (int \<times> int)" where
  "sync_pipe_notify write_fd fd = (let fd = notify_close fd in (notify_result (write_fd (snd fd) (CHR ''A'')), fd))"

section \<open>Return values\<close>

text \<open>For a FIFO that exists already, \<open>sync_pipe_create\<close> returns its descriptor; for a new one, 0.\<close>

lemma sync_pipe_create_existing:
  assumes "o_first sys (generate_pipe_name name) = fd0" "fd0 \<noteq> - 1"
  shows "sync_pipe_create sys (Some name) fd = (fd0, (fd0, o_write sys (generate_pipe_name name)))"
  using assms by (simp add: sync_pipe_create_def)

text \<open>When the file cannot be created, its descriptor -1 is closed too, and both failures are reported.\<close>

lemma do_file_setup_closes:
  assumes "running s" "fst (open_file fname) = - 1" "fst (close_fd (- 1)) = - 1"
  shows "\<exists>s'. do_file_setup e open_file close_fd fname s = Some s' \<and> t_exitval s' = t_exitval s OR TBROK OR TWARN"
proof -
  let ?m = "''open('' @ fname @ '', O_RDWR|O_CREAT,0700) Failed, '' @ errno_text e (snd (open_file fname))"
  let ?n = "''close('' @ fname @ '') Failed on file create, '' @ errno_text e (snd (close_fd (- 1)))"
  obtain s1 where s1: "tst_resm e TBROK ?m (s\<lparr>t_errno := snd (open_file fname)\<rparr>) = Some s1" "tst_inv s1"
      "t_exitval s1 = t_exitval s OR TBROK"
    using tst_resm_plain [of "s\<lparr>t_errno := snd (open_file fname)\<rparr>" ?m e TBROK] assms(1)
    by (auto simp: running_def reported_def TTYPE_RESULT_def)
  obtain s2 where s2: "tst_resm e TWARN ?n (s1\<lparr>t_errno := snd (close_fd (- 1))\<rparr>) = Some s2" "t_exitval s2 = t_exitval s1 OR TWARN"
    using tst_resm_plain [of "s1\<lparr>t_errno := snd (close_fd (- 1))\<rparr>" ?n e TWARN] s1(2)
    by (auto simp: reported_def TTYPE_RESULT_def)
  have "do_file_setup e open_file close_fd fname s = Some s2"
    using assms(2,3) s1(1) s2(1) by (cases "open_file fname"; cases "close_fd (- 1)") (simp add: do_file_setup_def)
  with s1 s2 show ?thesis by (simp add: or.assoc)
qed

end
