(* ===== verification/SyncPipe.thy ===== *)
theory SyncPipe
imports TestSuite
begin

text \<open>One process waiting for others on a pipe made by \<open>sync_pipe_create\<close> (\<open>libtestsuite.c\<close>): a step relation over the
operations of \<open>TestSuite\<close>, with the kernel's pipe as its bytes and the descriptors that are open.

A pipe without a name has a reading and a writing end; of a named one, \<open>sync_pipe_create\<close> opens both descriptors
\<open>O_RDWR\<close>, so that each can do both (\<open>y_rdwr\<close>).  A read waits while the pipe is empty and can be written to, and ends with
0 bytes when it is empty and cannot; a write to a pipe that cannot be read kills the process (SIGPIPE).  Every process holds
both descriptors at first, as after a fork; a process that ends, at any point where it is not in a call, closes its own.
No call is interrupted by a signal and no read fails: what \<open>sync_pipe_wait\<close> makes of such a read (-1) is in \<open>wait_result\<close> of
\<open>TestSuite\<close>, not in these steps.\<close>

section \<open>Processes and steps\<close>

datatype wpc = W_start | W_reading | W_done int

datatype npc = Idle | Writing | Told int | Gone

record peer =
  n_pc :: npc
  n_fd :: "int \<times> int"

record sync =
  y_rdwr :: bool
  y_buf :: string
  y_wpc :: wpc
  y_wfd :: "int \<times> int"
  y_peers :: "peer list"

definition closed :: "int \<times> int" where "closed = (- 1, - 1)"

definition can_write :: "bool \<Rightarrow> int \<times> int \<Rightarrow> bool" where
  "can_write rdwr fd \<longleftrightarrow> snd fd \<noteq> - 1 \<or> (rdwr \<and> fst fd \<noteq> - 1)"

definition can_read :: "bool \<Rightarrow> int \<times> int \<Rightarrow> bool" where
  "can_read rdwr fd \<longleftrightarrow> fst fd \<noteq> - 1 \<or> (rdwr \<and> snd fd \<noteq> - 1)"

definition writable :: "sync \<Rightarrow> bool" where
  "writable s \<longleftrightarrow> can_write (y_rdwr s) (y_wfd s) \<or> (\<exists>p \<in> set (y_peers s). can_write (y_rdwr s) (n_fd p))"

definition readable :: "sync \<Rightarrow> bool" where
  "readable s \<longleftrightarrow> can_read (y_rdwr s) (y_wfd s) \<or> (\<exists>p \<in> set (y_peers s). can_read (y_rdwr s) (n_fd p))"

text \<open>A step of a peer: its new state and the bytes it writes.\<close>

inductive peer_step :: "bool \<Rightarrow> peer \<Rightarrow> peer \<Rightarrow> string \<Rightarrow> bool" where
  n_close: "n_pc p = Idle \<Longrightarrow> peer_step ready p (p\<lparr>n_pc := Writing, n_fd := notify_close (n_fd p)\<rparr>) []"
| n_write: "n_pc p = Writing \<Longrightarrow> ready \<Longrightarrow> peer_step ready p (p\<lparr>n_pc := Told (notify_result 1)\<rparr>) ''A''"
| n_broken: "n_pc p = Writing \<Longrightarrow> \<not> ready \<Longrightarrow> peer_step ready p \<lparr>n_pc = Gone, n_fd = closed\<rparr> []"
| n_quit: "n_pc p = Idle \<Longrightarrow> peer_step ready p \<lparr>n_pc = Gone, n_fd = closed\<rparr> []"
| n_exit: "n_pc p = Told r \<Longrightarrow> n_fd p \<noteq> closed \<Longrightarrow> peer_step ready p (p\<lparr>n_fd := closed\<rparr>) []"

inductive sync_step :: "sync \<Rightarrow> sync \<Rightarrow> bool" where
  w_close: "y_wpc s = W_start \<Longrightarrow> sync_step s (s\<lparr>y_wpc := W_reading, y_wfd := wait_close (y_wfd s)\<rparr>)"
| w_data: "y_wpc s = W_reading \<Longrightarrow> y_buf s = c # cs \<Longrightarrow> sync_step s (s\<lparr>y_buf := cs, y_wpc := W_done (wait_result 1 c)\<rparr>)"
| w_eof: "y_wpc s = W_reading \<Longrightarrow> y_buf s = [] \<Longrightarrow> \<not> writable s \<Longrightarrow> sync_step s (s\<lparr>y_wpc := W_done (wait_result 0 c)\<rparr>)"
| w_exit: "y_wpc s = W_done r \<Longrightarrow> y_wfd s \<noteq> closed \<Longrightarrow> sync_step s (s\<lparr>y_wfd := closed\<rparr>)"
| n_step: "i < length (y_peers s) \<Longrightarrow> peer_step (readable s) (y_peers s ! i) p out \<Longrightarrow>
    sync_step s (s\<lparr>y_peers := (y_peers s)[i := p], y_buf := y_buf s @ out\<rparr>)"

inductive_cases peer_stepE: "peer_step ready p p' out"
inductive_cases sync_stepE: "sync_step s s'"

definition sync_start :: "bool \<Rightarrow> int \<times> int \<Rightarrow> nat \<Rightarrow> sync" where
  "sync_start rdwr fd n = \<lparr>y_rdwr = rdwr, y_buf = [], y_wpc = W_start, y_wfd = fd,
     y_peers = replicate n \<lparr>n_pc = Idle, n_fd = fd\<rparr>\<rparr>"

definition sync_reach :: "bool \<Rightarrow> int \<times> int \<Rightarrow> nat \<Rightarrow> sync \<Rightarrow> bool" where
  "sync_reach rdwr fd n s \<longleftrightarrow> sync_step\<^sup>*\<^sup>* (sync_start rdwr fd n) s"

section \<open>The invariant\<close>

text \<open>Of a peer: which descriptors it has at which point; and that of the bytes: every peer that has told the waiter has
written one.\<close>

fun peer_ok :: "peer \<Rightarrow> bool" where
  "peer_ok p = (case n_pc p of
      Idle \<Rightarrow> fst (n_fd p) \<noteq> - 1 \<and> snd (n_fd p) \<noteq> - 1
    | Writing \<Rightarrow> snd (n_fd p) \<noteq> - 1
    | Told r \<Rightarrow> r = 0 \<and> (snd (n_fd p) \<noteq> - 1 \<or> n_fd p = closed)
    | Gone \<Rightarrow> n_fd p = closed)"

definition told :: "sync \<Rightarrow> nat" where
  "told s = length (filter (\<lambda>p. n_pc p = Told 0) (y_peers s))"

definition sync_inv :: "sync \<Rightarrow> bool" where
  "sync_inv s \<longleftrightarrow> set (y_buf s) \<subseteq> {CHR ''A''} \<and> (\<forall>p \<in> set (y_peers s). peer_ok p) \<and>
     length (y_buf s) + (if y_wpc s = W_done 0 then 1 else 0) = told s \<and>
     (case y_wpc s of
        W_start \<Rightarrow> fst (y_wfd s) \<noteq> - 1
      | W_reading \<Rightarrow> fst (y_wfd s) \<noteq> - 1 \<and> snd (y_wfd s) = - 1
      | W_done r \<Rightarrow> r = 0 \<or> (r = - 1 \<and> \<not> y_rdwr s \<and> (\<forall>p \<in> set (y_peers s). n_pc p = Gone)))"

lemma peer_step_ok:
  assumes "peer_step ready p p' out" "peer_ok p"
  shows "peer_ok p'" "n_pc p \<noteq> Gone" "set out \<subseteq> {CHR ''A''}"
    "length out = (if n_pc p' = Told 0 then 1 else 0) - (if n_pc p = Told 0 then 1 else 0)"
    "n_pc p = Told 0 \<Longrightarrow> n_pc p' = Told 0"
  using assms by (auto elim!: peer_stepE simp: notify_close_def notify_result_def)

lemma sum_update: "i < length ps \<Longrightarrow> sum_list (map f (ps[i := p])) + f (ps ! i) = sum_list (map f ps) + (f p :: nat)"
  by (induction ps arbitrary: i) (auto split: nat.splits simp: nth_Cons')

lemma told_sum: "told s = sum_list (map (\<lambda>p. if n_pc p = Told 0 then 1 else 0) (y_peers s))"
  by (simp add: told_def sum_list_map_filter' [symmetric] sum_list_triv)

lemma sync_step_inv:
  assumes "sync_step s s'" "sync_inv s"
  shows "sync_inv s'"
  using assms(1)
proof cases
  case (n_step i p out)
  let ?q = "y_peers s ! i"
  have q: "?q \<in> set (y_peers s)" using n_step(2) by simp
  then have ok: "peer_ok ?q" using assms(2) by (auto simp: sync_inv_def)
  note st = peer_step_ok [OF n_step(3) ok]
  have m: "length out + (if n_pc ?q = Told 0 then 1 else 0) = (if n_pc p = Told 0 then 1 else 0 :: nat)"
    using st(4,5) by auto
  have t: "told s' + (if n_pc ?q = Told 0 then 1 else 0) = told s + (if n_pc p = Told 0 then 1 else 0)"
    using sum_update [OF n_step(2), of "\<lambda>p. if n_pc p = Told 0 then 1 else 0" p] n_step(1) by (simp add: told_sum)
  have g: "\<not> (\<forall>p \<in> set (y_peers s). n_pc p = Gone)" using q st(2) by auto
  have pk: "\<forall>p \<in> set (y_peers s'). peer_ok p"
    using n_step(1) st(1) assms(2) by (auto simp: sync_inv_def dest!: set_update_subset_insert [THEN subsetD])
  have "length (y_buf s') + (if y_wpc s' = W_done 0 then 1 else 0) = told s'"
    using assms(2) n_step(1) m t by (auto simp: sync_inv_def)
  then show ?thesis
    using assms(2) n_step(1) st(3) g pk by (auto simp: sync_inv_def split: wpc.splits)
next
  case (w_eof c)
  have "\<forall>p \<in> set (y_peers s). n_pc p = Gone"
  proof
    fix p assume p: "p \<in> set (y_peers s)"
    then have "peer_ok p" "snd (n_fd p) = - 1" "n_pc p \<noteq> Told 0"
      using assms(2) w_eof by (auto simp: sync_inv_def writable_def can_write_def told_def filter_empty_conv)
    then show "n_pc p = Gone" by (auto split: npc.splits)
  qed
  then show ?thesis
    using assms(2) w_eof by (auto simp: sync_inv_def told_def wait_result_def writable_def can_write_def)
qed (use assms(2) in \<open>auto simp: sync_inv_def told_def wait_close_def wait_result_def split: wpc.splits\<close>)

lemma sync_start_inv:
  assumes "fst fd \<noteq> - 1" "snd fd \<noteq> - 1"
  shows "sync_inv (sync_start rdwr fd n)"
  using assms by (auto simp: sync_inv_def sync_start_def told_def)

lemma sync_reach_induct [consumes 1, case_names start step]:
  assumes "sync_reach rdwr fd n s" "P (sync_start rdwr fd n)" "\<And>s s'. sync_reach rdwr fd n s \<Longrightarrow> P s \<Longrightarrow> sync_step s s' \<Longrightarrow> P s'"
  shows "P s"
  using assms(1) unfolding sync_reach_def
  by (induction rule: rtranclp_induct) (use assms(2,3) in \<open>auto simp: sync_reach_def\<close>)

lemma sync_reach_inv:
  assumes "sync_reach rdwr fd n s" "fst fd \<noteq> - 1" "snd fd \<noteq> - 1"
  shows "sync_inv s" "y_rdwr s = rdwr" "length (y_peers s) = n"
  using assms
proof (induction rule: sync_reach_induct)
  case start
  { case 1 then show ?case by (simp add: sync_start_inv)
  next case 2 then show ?case by (simp add: sync_start_def)
  next case 3 then show ?case by (simp add: sync_start_def) }
next
  case (step s s')
  { case 1 then show ?case using step sync_step_inv by auto
  next case 2 then show ?case using step by (auto elim!: sync_stepE)
  next case 3 then show ?case using step by (auto elim!: sync_stepE) }
qed

lemma sync_wait_cases:
  assumes "sync_reach rdwr fd n s" "fst fd \<noteq> - 1" "snd fd \<noteq> - 1" "y_wpc s = W_done r"
  shows "(r = 0 \<and> (\<exists>p \<in> set (y_peers s). n_pc p = Told 0)) \<or> (r = - 1 \<and> \<not> rdwr \<and> (\<forall>p \<in> set (y_peers s). n_pc p = Gone))"
proof -
  note i = sync_reach_inv [OF assms(1-3)]
  show ?thesis
  proof (cases "r = 0")
    case True
    with i(1) assms(4) have "told s \<noteq> 0" by (simp add: sync_inv_def split: if_splits)
    then obtain p where "p \<in> set (y_peers s)" "n_pc p = Told 0" by (auto simp: told_def filter_empty_conv)
    with True show ?thesis by auto
  next
    case False
    with i assms(4) show ?thesis by (auto simp: sync_inv_def)
  qed
qed

text \<open>C9: whatever the interleaving of a waiting process with any number of processes that notify it or end, as soon as
\<open>sync_pipe_wait\<close> has returned: it has returned 0 and one of the others has been through \<open>sync_pipe_notify\<close>; or it has
returned -1, the pipe is one without a name, and all others have ended without notifying.\<close>

theorem sync_pipe_safe:
  assumes "sync_reach rdwr fd n s" "fst fd \<noteq> - 1" "snd fd \<noteq> - 1" "y_wpc s = W_done r"
  shows "(r = 0 \<and> (\<exists>p \<in> set (y_peers s). n_pc p = Told 0)) \<or> (r = - 1 \<and> \<not> rdwr \<and> (\<forall>p \<in> set (y_peers s). n_pc p = Gone))"
  using assms by (rule sync_wait_cases)

text \<open>A run in which one process notifies the waiting one, and one in which it ends without doing so.\<close>

lemma sync_run_told:
  "sync_reach False (3, 4) 1 \<lparr>y_rdwr = False, y_buf = [], y_wpc = W_done 0, y_wfd = (3, - 1),
     y_peers = [\<lparr>n_pc = Told 0, n_fd = (- 1, 4)\<rparr>]\<rparr>" (is "sync_reach _ _ _ ?s4")
proof -
  let ?s1 = "\<lparr>y_rdwr = False, y_buf = [], y_wpc = W_reading, y_wfd = (3, - 1), y_peers = [\<lparr>n_pc = Idle, n_fd = (3, 4)\<rparr>]\<rparr>"
  let ?s2 = "\<lparr>y_rdwr = False, y_buf = [], y_wpc = W_reading, y_wfd = (3, - 1), y_peers = [\<lparr>n_pc = Writing, n_fd = (- 1, 4)\<rparr>]\<rparr>"
  let ?s3 = "\<lparr>y_rdwr = False, y_buf = ''A'', y_wpc = W_reading, y_wfd = (3, - 1), y_peers = [\<lparr>n_pc = Told 0, n_fd = (- 1, 4)\<rparr>]\<rparr>"
  have "sync_step (sync_start False (3, 4) 1) ?s1"
    using w_close [of "sync_start False (3, 4) 1"] by (simp add: sync_start_def wait_close_def)
  moreover have "sync_step ?s1 ?s2"
    using n_step [of 0 ?s1 "\<lparr>n_pc = Writing, n_fd = (- 1, 4)\<rparr>" "[]"] n_close [of "\<lparr>n_pc = Idle, n_fd = (3, 4)\<rparr>" "readable ?s1"]
    by (simp add: notify_close_def)
  moreover have "sync_step ?s2 ?s3"
    using n_step [of 0 ?s2 "\<lparr>n_pc = Told 0, n_fd = (- 1, 4)\<rparr>" "''A''"] n_write [of "\<lparr>n_pc = Writing, n_fd = (- 1, 4)\<rparr>" "readable ?s2"]
    by (simp add: notify_result_def readable_def can_read_def)
  moreover have "sync_step ?s3 ?s4"
    using w_data [of ?s3 "CHR ''A''" "[]"] by (simp add: wait_result_def)
  ultimately show ?thesis
    unfolding sync_reach_def by (meson converse_rtranclp_into_rtranclp rtranclp.rtrancl_refl)
qed

lemma sync_pipe_safe_witness:
  "\<exists>s. sync_reach False (3, 4) 1 s \<and> y_wpc s = W_done 0 \<and> (\<exists>p \<in> set (y_peers s). n_pc p = Told 0)"
  using sync_run_told sync_pipe_safe [OF sync_run_told] by (intro exI conjI) auto

section \<open>Every run ends\<close>

text \<open>What is left to do.\<close>

fun w_left :: "wpc \<Rightarrow> int \<times> int \<Rightarrow> nat" where
  "w_left W_start fd = 3"
| "w_left W_reading fd = 2"
| "w_left (W_done r) fd = (if fd = closed then 0 else 1)"

fun n_left :: "peer \<Rightarrow> nat" where
  "n_left p = (case n_pc p of Idle \<Rightarrow> 3 | Writing \<Rightarrow> 2 | Told r \<Rightarrow> (if n_fd p = closed then 0 else 1) | Gone \<Rightarrow> 0)"

definition sync_left :: "sync \<Rightarrow> nat" where
  "sync_left s = w_left (y_wpc s) (y_wfd s) + sum_list (map n_left (y_peers s))"

lemma sync_step_decreases: "sync_step s s' \<Longrightarrow> sync_left s' < sync_left s"
proof (induction rule: sync_step.induct)
  case (n_step i s p out)
  then have "n_left p < n_left (y_peers s ! i)" by (auto elim!: peer_stepE)
  with sum_update [OF n_step(1), of n_left p] show ?case by (simp add: sync_left_def)
qed (auto simp: sync_left_def)

text \<open>C12: no process can keep the others going for ever: there is no infinite run, and where nothing more can happen,
\<open>sync_pipe_wait\<close> has returned 0 if at least one process has notified it.  If none has, it has returned -1 on a pipe without
a name, but on a named one it is still waiting, for ever, because its own descriptor keeps the pipe writable.\<close>

theorem sync_pipe_final:
  assumes "sync_reach rdwr fd n s" "fst fd \<noteq> - 1" "snd fd \<noteq> - 1"
  shows "\<not> (\<exists>f. f 0 = s \<and> (\<forall>k. sync_step (f k) (f (Suc k)))) \<and>
    ((\<forall>s'. \<not> sync_step s s') \<longrightarrow>
      y_wpc s = (if \<exists>p \<in> set (y_peers s). n_pc p = Told 0 then W_done 0 else if rdwr then W_reading else W_done (- 1)))"
proof (intro conjI impI notI)
  assume "\<exists>f. f 0 = s \<and> (\<forall>k. sync_step (f k) (f (Suc k)))"
  then obtain f where "\<forall>k. sync_step (f k) (f (Suc k))" by blast
  then have "\<forall>k. (f (Suc k), f k) \<in> measure sync_left" using sync_step_decreases by auto
  then show False using wf_no_infinite_down_chainE [OF wf_measure [of sync_left]] by metis
next
  assume no: "\<forall>s'. \<not> sync_step s s'"
  note i = sync_reach_inv [OF assms]
  have peers: "n_pc p = Gone \<or> (n_pc p = Told 0 \<and> n_fd p = closed)" if p: "p \<in> set (y_peers s)" for p
  proof -
    from p obtain k where k: "k < length (y_peers s)" "y_peers s ! k = p" by (auto simp: in_set_conv_nth)
    have "\<not> peer_step (readable s) p p' out" for p' out using no n_step [OF k(1)] k(2) by blast
    moreover have "peer_ok p" using i(1) p by (simp add: sync_inv_def)
    ultimately show ?thesis
      using n_quit [of p] n_write [of p] n_broken [of p] n_exit [of p 0]
      by (cases "n_pc p"; cases "readable s") auto
  qed
  show "y_wpc s = (if \<exists>p \<in> set (y_peers s). n_pc p = Told 0 then W_done 0 else if rdwr then W_reading else W_done (- 1))"
  proof (cases "y_wpc s")
    case W_start
    with no w_close show ?thesis by blast
  next
    case W_reading
    have b: "y_buf s = []" using no w_data [OF W_reading] by (cases "y_buf s") blast+
    then have w: "writable s" using no w_eof [OF W_reading] by blast
    have t: "\<forall>p \<in> set (y_peers s). n_pc p \<noteq> Told 0"
      using i(1) b W_reading by (simp add: sync_inv_def told_def filter_empty_conv)
    with peers i(1) have "\<forall>p \<in> set (y_peers s). n_fd p = closed" by (auto simp: sync_inv_def)
    with w i W_reading have rdwr by (auto simp: writable_def can_write_def closed_def sync_inv_def)
    with t W_reading show ?thesis by simp
  next
    case (W_done r)
    with sync_wait_cases [OF assms W_done] show ?thesis by auto
  qed
qed

lemma sync_run_silent:
  "sync_reach True (3, 4) 1 \<lparr>y_rdwr = True, y_buf = [], y_wpc = W_reading, y_wfd = (3, - 1),
     y_peers = [\<lparr>n_pc = Gone, n_fd = closed\<rparr>]\<rparr>" (is "sync_reach _ _ _ ?s2")
proof -
  let ?s1 = "\<lparr>y_rdwr = True, y_buf = [], y_wpc = W_reading, y_wfd = (3, - 1), y_peers = [\<lparr>n_pc = Idle, n_fd = (3, 4)\<rparr>]\<rparr>"
  have "sync_step (sync_start True (3, 4) 1) ?s1"
    using w_close [of "sync_start True (3, 4) 1"] by (simp add: sync_start_def wait_close_def)
  moreover have "sync_step ?s1 ?s2"
    using n_step [of 0 ?s1 "\<lparr>n_pc = Gone, n_fd = closed\<rparr>" "[]"] n_quit [of "\<lparr>n_pc = Idle, n_fd = (3, 4)\<rparr>" "readable ?s1"] by simp
  ultimately show ?thesis
    unfolding sync_reach_def by (meson converse_rtranclp_into_rtranclp rtranclp.rtrancl_refl)
qed

lemma sync_pipe_final_witness:
  "\<exists>s. sync_reach True (3, 4) 1 s \<and> (\<forall>s'. \<not> sync_step s s') \<and> y_wpc s = W_reading"
proof -
  let ?s = "\<lparr>y_rdwr = True, y_buf = [], y_wpc = W_reading, y_wfd = (3, - 1), y_peers = [\<lparr>n_pc = Gone, n_fd = closed\<rparr>]\<rparr>"
  have "\<not> sync_step ?s s'" for s'
    by (auto elim!: sync_stepE peer_stepE simp: writable_def can_write_def)
  then show ?thesis using sync_run_silent sync_pipe_final [OF sync_run_silent] by (intro exI [of _ ?s]) simp
qed

end
