(* ===== verification/TstSig.thy ===== *)
theory TstSig
imports SafeMacros
begin

unbundle bit_operations_syntax

text \<open>\<open>ltp_framework/lib/tst_sig.c\<close>: catching unexpected signals, as it is built with glibc on Linux (\<open>NSIG\<close> is 65, there is
no \<open>_SC_SIGRT_MIN\<close>, and \<open>__SIGRTMIN\<close> and \<open>__SIGRTMAX\<close> are 32 and 64).

The state is that of the reporting library, \<open>T_cleanup\<close> and the handler of every signal; what \<open>sigaction\<close> returns for a
signal, with \<open>errno\<close>, is a parameter.  \<open>None\<close> as the handler given to \<open>tst_sig\<close> is \<open>DEF_HANDLER\<close>.\<close>

section \<open>The code\<close>

datatype handler = SIG_DFL | Def_handler | User_handler nat

record sigst =
  g_tst :: tst
  g_cleanup :: cleanup_fn
  g_action :: "int \<Rightarrow> handler"

definition NSIG :: int where "NSIG = 65"

text \<open>\<open>tst_setup_signal\<close>: the old handler, or \<open>None\<close> for \<open>SIG_ERR\<close>.\<close>

definition tst_setup_signal :: "(int \<Rightarrow> int \<times> int) \<Rightarrow> int \<Rightarrow> handler \<Rightarrow> sigst \<Rightarrow> handler option \<times> sigst" where
  "tst_setup_signal sigaction sig h s = (case sigaction sig of (ret, err) \<Rightarrow>
     if ret = 0 then (Some (g_action s sig), s\<lparr>g_action := (g_action s)(sig := h)\<rparr>)
     else (None, s\<lparr>g_tst := g_tst s\<lparr>t_errno := err\<rparr>\<rparr>))"

text \<open>The cases of the \<open>switch\<close> that do nothing: SIGKILL, SIGSTOP, SIGCONT and the two runs of real-time signals.\<close>

definition sig_skipped :: "int \<Rightarrow> bool" where
  "sig_skipped sig \<longleftrightarrow> sig = 9 \<or> sig = 19 \<or> sig = 18 \<or> (32 \<le> sig \<and> sig \<le> 32 + 15) \<or> (64 - 15 \<le> sig \<and> sig \<le> 64)"

definition SIGCLD :: int where "SIGCLD = 17"

definition FORK :: int where "FORK = 1"

definition sig_step :: "tenv \<Rightarrow> (int \<Rightarrow> int \<times> int) \<Rightarrow> int \<Rightarrow> int \<Rightarrow> handler \<Rightarrow> int \<Rightarrow> sigst \<Rightarrow> sigst option" where
  "sig_step e sigaction std_copies fork_flag h sig s =
    (if sig_skipped sig then Some s
     else if sig = SIGCLD \<and> (fork_flag = FORK \<or> std_copies > 1) then Some s
     else (case tst_setup_signal sigaction sig h s of (r, s) \<Rightarrow>
       if r = None then do {
         t \<leftarrow> tst_resm e (TWARN OR TERRNO) (''signal failed for signal '' @ int_to_string sig) (g_tst s);
         Some (s\<lparr>g_tst := t\<rparr>)
       } else Some s))"

definition tst_sig :: "tenv \<Rightarrow> (int \<Rightarrow> int \<times> int) \<Rightarrow> int \<Rightarrow> int \<Rightarrow> nat option \<Rightarrow> cleanup_fn \<Rightarrow> sigst \<Rightarrow> sigst option" where
  "tst_sig e sigaction std_copies fork_flag h func s = do {
     let s = s\<lparr>g_cleanup := func\<rparr>;
     let h = (case h of None \<Rightarrow> Def_handler | Some n \<Rightarrow> User_handler n);
     ofold (sig_step e sigaction std_copies fork_flag h) [1..NSIG - 1] s
   }"

definition def_handler :: "tenv \<Rightarrow> int \<Rightarrow> int \<Rightarrow> sigst \<Rightarrow> sigst option" where
  "def_handler e pid sig s = do {
     t \<leftarrow> tst_brkm e TBROK (g_cleanup s) (''unexpected signal '' @ int_to_string sig @ '' received (pid = '' @ int_to_string pid @ '').'') (g_tst s);
     Some (s\<lparr>g_tst := t\<rparr>)
   }"

section \<open>Which signals are caught\<close>

definition caught :: "int \<Rightarrow> int \<Rightarrow> int \<Rightarrow> bool" where
  "caught std_copies fork_flag sig \<longleftrightarrow> 1 \<le> sig \<and> sig < NSIG \<and> sig \<notin> {9, 18, 19} \<and> (sig < 32 \<or> sig = 48) \<and>
     (sig = 17 \<longrightarrow> fork_flag \<noteq> FORK \<and> std_copies \<le> 1)"

lemma caught_iff:
  assumes "1 \<le> sig" "sig < NSIG"
  shows "caught std_copies fork_flag sig \<longleftrightarrow> \<not> sig_skipped sig \<and> \<not> (sig = SIGCLD \<and> (fork_flag = FORK \<or> std_copies > 1))"
  using assms by (auto simp: caught_def sig_skipped_def SIGCLD_def NSIG_def)

lemma sig_step_eq:
  assumes "1 \<le> sig" "sig < NSIG"
  shows "sig_step e sigaction std_copies fork_flag h sig s = (if caught std_copies fork_flag sig then
      (case tst_setup_signal sigaction sig h s of (r, s) \<Rightarrow>
       if r = None then do {
         t \<leftarrow> tst_resm e (TWARN OR TERRNO) (''signal failed for signal '' @ int_to_string sig) (g_tst s);
         Some (s\<lparr>g_tst := t\<rparr>)
       } else Some s) else Some s)"
  using caught_iff [OF assms, of std_copies fork_flag] by (cases "caught std_copies fork_flag sig") (auto simp: sig_step_def)

text \<open>The state after the signals \<open>xs\<close> have been seen: their handlers, and a WARN when one could not be set.\<close>

definition after_sigs :: "(int \<Rightarrow> int \<times> int) \<Rightarrow> (int \<Rightarrow> bool) \<Rightarrow> handler \<Rightarrow> int list \<Rightarrow> sigst \<Rightarrow> sigst \<Rightarrow> bool" where
  "after_sigs sigaction C h xs s s' \<longleftrightarrow> running (g_tst s') \<and> g_cleanup s' = g_cleanup s \<and>
     g_action s' = (\<lambda>sig. if sig \<in> set xs \<and> C sig \<and> fst (sigaction sig) = 0 then h else g_action s sig) \<and>
     t_exitval (g_tst s') = t_exitval (g_tst s) OR (if \<exists>sig \<in> set xs. C sig \<and> fst (sigaction sig) \<noteq> 0 then TWARN else 0)"

lemma sig_step_after:
  assumes "running (g_tst s)" "1 \<le> sig" "sig < NSIG"
  shows "\<exists>s'. sig_step e sigaction std_copies fork_flag h sig s = Some s' \<and>
    after_sigs sigaction (caught std_copies fork_flag) h [sig] s s'"
proof (cases "caught std_copies fork_flag sig")
  case False
  with assms show ?thesis by (auto simp: sig_step_eq after_sigs_def fun_eq_iff)
next
  case c: True
  show ?thesis
  proof (cases "fst (sigaction sig) = 0")
    case True
    with c assms show ?thesis
      by (auto simp: sig_step_eq after_sigs_def tst_setup_signal_def case_prod_beta fun_eq_iff)
  next
    case False
    let ?t = "g_tst s\<lparr>t_errno := snd (sigaction sig)\<rparr>"
    have t: "TTYPE_RESULT 260 = TWARN" by (simp add: TTYPE_RESULT_def)
    obtain t' where "tst_resm e (TWARN OR TERRNO) (''signal failed for signal '' @ int_to_string sig) ?t = Some t'"
        "reported (TWARN OR TERRNO) ?t t'"
      using tst_resm_plain [of ?t "''signal failed for signal '' @ int_to_string sig" e "TWARN OR TERRNO"] assms(1)
      by (auto simp: running_def)
    with False c assms t show ?thesis
      by (auto simp: sig_step_eq after_sigs_def tst_setup_signal_def case_prod_beta reported_def running_def)
  qed
qed

lemma sig_loop_after:
  assumes "running (g_tst s)" "\<forall>sig \<in> set xs. 1 \<le> sig \<and> sig < NSIG"
  shows "\<exists>s'. ofold (sig_step e sigaction std_copies fork_flag h) xs s = Some s' \<and>
    after_sigs sigaction (caught std_copies fork_flag) h xs s s'"
  using assms
proof (induction xs arbitrary: s)
  case Nil
  then show ?case by (simp add: after_sigs_def)
next
  case (Cons x xs)
  obtain s1 where s1: "sig_step e sigaction std_copies fork_flag h x s = Some s1"
      "after_sigs sigaction (caught std_copies fork_flag) h [x] s s1"
    using sig_step_after Cons.prems by fastforce
  then have "running (g_tst s1)" by (simp add: after_sigs_def)
  from Cons.IH [OF this] Cons.prems obtain s' where s': "ofold (sig_step e sigaction std_copies fork_flag h) xs s1 = Some s'"
      "after_sigs sigaction (caught std_copies fork_flag) h xs s1 s'" by auto
  from s1(2) s'(2) have "after_sigs sigaction (caught std_copies fork_flag) h (x # xs) s s'"
    by (auto simp: after_sigs_def fun_eq_iff or.assoc)
  with s1(1) s'(1) show ?case by auto
qed

text \<open>Real-time signals are meant to be left alone, and all are but the one in the middle.\<close>

lemma realtime_48: "{sig. 32 \<le> sig \<and> caught std_copies fork_flag sig} = {48}"
  by (auto simp: caught_def NSIG_def)

text \<open>C19: when \<open>sigaction\<close> succeeds, exactly the signals \<open>caught\<close> have the default handler after \<open>tst_sig\<close>, all other handlers are
what they were, and the test is running with nothing reported.  When such a signal arrives, the default handler reports BROK,
calls the cleanup function that was given to \<open>tst_sig\<close> (any one that keeps its contract and reports \<open>v\<close>) in the still running process, and
after it the process exits, with the status of all that was reported, \<open>v\<close> included, which is not 0.\<close>

theorem tst_sig_unexpected:
  assumes "running (g_tst s)" "\<forall>sig. fst (sigaction sig) = 0" "cleanup f v"
  shows "\<exists>s'. tst_sig e sigaction std_copies fork_flag None (Some f) s = Some s' \<and>
    running (g_tst s') \<and> t_exitval (g_tst s') = t_exitval (g_tst s) \<and>
    (\<forall>sig. g_action s' sig = (if caught std_copies fork_flag sig then Def_handler else g_action s sig)) \<and>
    (\<forall>pid sig. \<exists>s'' s1 s2. def_handler e pid sig s' = Some s'' \<and>
      t_exit s1 = None \<and> brk_entered s1 = 1 \<and> t_exitval s1 = t_exitval (g_tst s) OR TBROK \<and>
      f s1 = Some s2 \<and> tst_exit e (s2\<lparr>brk_entered := 0\<rparr>) = Some (g_tst s'') \<and>
      t_exit (g_tst s'') = Some ((t_exitval (g_tst s) OR TBROK OR v) AND NOT (TRETR OR TINFO OR TCONF)) \<and>
      t_exit (g_tst s'') \<noteq> Some 0)"
proof -
  let ?s = "s\<lparr>g_cleanup := Some f\<rparr>"
  obtain s' where s': "ofold (sig_step e sigaction std_copies fork_flag Def_handler) [1..NSIG - 1] ?s = Some s'"
      "after_sigs sigaction (caught std_copies fork_flag) Def_handler [1..NSIG - 1] ?s s'"
    using sig_loop_after [of ?s "[1..NSIG - 1]" e sigaction std_copies fork_flag Def_handler] assms(1) by (auto simp: NSIG_def)
  have c: "sig \<in> set [1..NSIG - 1]" if "caught std_copies fork_flag sig" for sig
    using that by (auto simp: caught_def NSIG_def)
  from s'(2) assms(2) have a: "running (g_tst s')" "g_cleanup s' = Some f" "t_exitval (g_tst s') = t_exitval (g_tst s)"
      "\<forall>sig. g_action s' sig = (if caught std_copies fork_flag sig then Def_handler else g_action s sig)"
    using c by (auto simp: after_sigs_def)
  have "\<exists>s''. def_handler e pid sig s' = Some s'' \<and> left_by e f v (g_tst s') (g_tst s'')" for pid sig
  proof -
    let ?m = "''unexpected signal '' @ int_to_string sig @ '' received (pid = '' @ int_to_string pid @ '').''"
    obtain t where "tst_brkm e TBROK (Some f) ?m (g_tst s') = Some t" "left_by e f v (g_tst s') t"
      using cleanup.tst_brkm_leaves [OF assms(3) a(1) brk_types_self(2), of ?m e] by auto
    then show ?thesis using a(2) by (intro exI [of _ "s'\<lparr>g_tst := t\<rparr>"]) (simp add: def_handler_def)
  qed
  then show ?thesis using s'(1) a unfolding left_by_def broken_def
    by (intro exI [of _ s'] conjI) (simp_all add: tst_sig_def, blast?)
qed

definition sigst0 :: sigst where "sigst0 = \<lparr>g_tst = tst_init ''t'', g_cleanup = None, g_action = \<lambda>_. SIG_DFL\<rparr>"

lemma tst_sig_unexpected_witness:
  "\<exists>s' s''. tst_sig plain_env (\<lambda>_. (0, 0)) 1 FORK None (Some (tst_resm plain_env TWARN ''left'')) sigst0 = Some s' \<and>
    g_action s' 11 = Def_handler \<and> g_action s' 17 = SIG_DFL \<and> g_action s' 34 = SIG_DFL \<and> g_action s' 48 = Def_handler \<and>
    def_handler plain_env 100 11 s' = Some s'' \<and> t_exit (g_tst s'') = Some 6"
proof -
  have r: "running (g_tst sigst0)" by (simp add: sigst0_def running_def tst_init_inv) (simp add: tst_init_def)
  have c: "cleanup (tst_resm plain_env TWARN ''left'') (TTYPE_RESULT TWARN)" by (rule reporting.cleanup_axioms)
  have v: "(t_exitval (g_tst sigst0) OR TBROK OR TTYPE_RESULT TWARN) AND NOT (TRETR OR TINFO OR TCONF) = 6"
    by (simp add: sigst0_def tst_init_def TTYPE_RESULT_def)
  obtain s' where s': "tst_sig plain_env (\<lambda>_. (0, 0)) 1 FORK None (Some (tst_resm plain_env TWARN ''left'')) sigst0 = Some s'"
      "\<And>sig. g_action s' sig = (if caught 1 FORK sig then Def_handler else g_action sigst0 sig)"
      "\<exists>s''. def_handler plain_env 100 11 s' = Some s'' \<and> t_exit (g_tst s'') = Some 6"
    using tst_sig_unexpected [OF r _ c, of "\<lambda>_. (0, 0)" plain_env 1 FORK] unfolding v by fastforce
  then show ?thesis by (simp add: caught_def NSIG_def FORK_def) (simp add: sigst0_def)
qed

end
