(* ===== verification/SysInfo.thy ===== *)
theory SysInfo
imports SafeMacros CString
begin

unbundle bit_operations_syntax

text \<open>Asking the system, and cloning: \<open>tst_is_cwd.c\<close>, \<open>system_specific_process_info.c\<close>,
\<open>system_specific_hugepages_info.c\<close> and \<open>cloner.c\<close> of \<open>ltp_framework/lib\<close>.

What \<open>statfs\<close>, the files and the commands deliver is a parameter: \<open>None\<close> for a file that cannot be opened or a command that
cannot be started, otherwise the text.\<close>

section \<open>tst_is_cwd.c\<close>

text \<open>The type of the file system, as \<open>statfs\<close> gives it; when it fails, \<open>sf\<close> is read without having been written.\<close>

definition TMPFS_MAGIC :: "32 word" where "TMPFS_MAGIC = 0x01021994"
definition NFS_MAGIC :: "32 word" where "NFS_MAGIC = 0x6969"
definition V9FS_MAGIC :: "32 word" where "V9FS_MAGIC = 0x01021997"
definition RAMFS_MAGIC :: "32 word" where "RAMFS_MAGIC = 0x858458f6"

definition tst_is_cwd_tmpfs :: "32 word option \<Rightarrow> int option" where
  "tst_is_cwd_tmpfs statfs = do { f_type \<leftarrow> statfs; Some (if f_type = TMPFS_MAGIC then 1 else 0) }"

definition tst_is_cwd_nfs :: "32 word option \<Rightarrow> int option" where
  "tst_is_cwd_nfs statfs = do { f_type \<leftarrow> statfs; Some (if f_type = NFS_MAGIC then 1 else 0) }"

definition tst_is_cwd_v9fs :: "32 word option \<Rightarrow> int option" where
  "tst_is_cwd_v9fs statfs = do { f_type \<leftarrow> statfs; Some (if f_type = V9FS_MAGIC then 1 else 0) }"

definition tst_is_cwd_ramfs :: "32 word option \<Rightarrow> int option" where
  "tst_is_cwd_ramfs statfs = do { f_type \<leftarrow> statfs; Some (if f_type = RAMFS_MAGIC then 1 else 0) }"

text \<open>At most one of them answers yes.\<close>

lemma cwd_exclusive:
  "length (filter (\<lambda>r. r = Some 1) [tst_is_cwd_tmpfs t, tst_is_cwd_nfs t, tst_is_cwd_v9fs t, tst_is_cwd_ramfs t]) \<le> 1"
  by (cases t) (auto simp: tst_is_cwd_tmpfs_def tst_is_cwd_nfs_def tst_is_cwd_v9fs_def tst_is_cwd_ramfs_def
    TMPFS_MAGIC_def NFS_MAGIC_def V9FS_MAGIC_def RAMFS_MAGIC_def)

section \<open>Processes\<close>

text \<open>\<open>fgets\<close> into a buffer of \<open>n\<close> bytes: the first line with its newline, cut to what fits; nothing of an empty text.\<close>

definition fgets :: "nat \<Rightarrow> string \<Rightarrow> string option" where
  "fgets n s = (if s = [] then None else
     let line = takeWhile (\<lambda>c. c \<noteq> CHR 0x0A) s in
     Some (take (n - 1) (if length line < length s then line @ [CHR 0x0A] else line)))"

definition get_max_pids :: "tenv \<Rightarrow> string option \<Rightarrow> tst \<Rightarrow> (int \<times> tst) option" where
  "get_max_pids e pid_max s = (case pid_max of
      None \<Rightarrow> do { s \<leftarrow> tst_resm e TBROK ''Could not open /proc/sys/kernel/pid_max'' s; Some (- 1, s) }
    | Some txt \<Rightarrow> (case fgets 512 txt of
        None \<Rightarrow> do { s \<leftarrow> tst_resm e TBROK ''Could not read /proc/sys/kernel/pid_max'' s; Some (- 1, s) }
      | Some buf \<Rightarrow> Some (atoi buf, s)))"

definition get_free_pids :: "tenv \<Rightarrow> string option \<Rightarrow> string option \<Rightarrow> tst \<Rightarrow> (int \<times> tst) option" where
  "get_free_pids e ps pid_max s = (case ps of
      None \<Rightarrow> do { s \<leftarrow> tst_resm e TBROK ''Could not run 'ps' to calculate used pids'' s; Some (- 1, s) }
    | Some txt \<Rightarrow> (case sscanf_i txt of
        None \<Rightarrow> do { s \<leftarrow> tst_resm e TBROK ''Could not read output of 'ps' to calculate used pids'' s; Some (- 1, s) }
      | Some used_pids \<Rightarrow>
          if used_pids < 0
          then do { s \<leftarrow> tst_resm e TBROK ''Could not read output of 'ps' to calculate used pids'' s; Some (- 1, s) }
          else do {
            (max_pids, s) \<leftarrow> get_max_pids e pid_max s;
            Some (if max_pids < 0 then - 1 else max_pids - used_pids, s)
          }))"

text \<open>Free and used add up to the maximum, nothing is reported; any failure is reported as BROK and gives -1.\<close>

lemma get_free_pids_ok:
  assumes "0 \<le> used" "0 \<le> max_pids" "fgets 512 txt = Some buf" "atoi buf = max_pids"
  shows "get_free_pids e (Some (int_to_string used)) (Some txt) s = Some (max_pids - used, s)"
  using assms by (simp add: get_free_pids_def get_max_pids_def)

lemma get_free_pids_fails:
  assumes "running s" "ps = None \<or> pid_max = None \<or> sscanf_i (the ps) = None \<or> the (sscanf_i (the ps)) < 0 \<or> pid_max = Some []"
  shows "\<exists>s'. get_free_pids e ps pid_max s = Some (- 1, s') \<and> running s' \<and> t_exitval s' = t_exitval s OR TBROK"
proof -
  have i: "tst_inv s" using assms(1) by (simp add: running_def)
  have r: "\<exists>s'. (tst_resm e TBROK m s \<bind> (\<lambda>s. Some (- 1 :: int, s))) = Some (- 1, s') \<and> running s' \<and>
      t_exitval s' = t_exitval s OR TBROK" if "m \<noteq> []" for m
    using tst_resm_plain [OF i that, of e TBROK] assms(1) by (auto simp: reported_def running_def TTYPE_RESULT_def)
  have mx: "\<exists>s'. get_max_pids e pid_max s = Some (- 1, s') \<and> running s' \<and> t_exitval s' = t_exitval s OR TBROK"
    if "pid_max = None \<or> pid_max = Some []"
    using that by (elim disjE) (simp_all add: get_max_pids_def fgets_def r)
  show ?thesis
  proof (cases "ps = None \<or> sscanf_i (the ps) = None \<or> the (sscanf_i (the ps)) < 0")
    case True
    then show ?thesis by (cases ps; cases "sscanf_i (the ps)") (auto simp: get_free_pids_def r)
  next
    case False
    with mx assms(2) show ?thesis by (auto simp: get_free_pids_def)
  qed
qed

section \<open>Huge pages\<close>

text \<open>The number a command prints.  \<open>tst_brkm\<close> without a cleanup function returns only inside another one; then the null
stream is read, or the closed one closed again.\<close>

definition meminfo_number :: "tenv \<Rightarrow> string \<Rightarrow> string \<Rightarrow> string option \<Rightarrow> tst \<Rightarrow> (int option \<times> tst) option" where
  "meminfo_number e no_info no_read out s = (case out of
      None \<Rightarrow> do { s \<leftarrow> tst_brkm e TBROK None no_info s; chk (t_exit s \<noteq> None); Some (None, s) }
    | Some txt \<Rightarrow> (case fgets 10 txt of
        None \<Rightarrow> do { s \<leftarrow> tst_brkm e TBROK None no_read s; chk (t_exit s \<noteq> None); Some (None, s) }
      | Some buf \<Rightarrow> Some (Some (atoi buf), s)))"

definition get_no_of_hugepages :: "tenv \<Rightarrow> string option \<Rightarrow> tst \<Rightarrow> (int option \<times> tst) option" where
  "get_no_of_hugepages e = meminfo_number e ''Could not get info about Total_Hugepages from /proc/meminfo''
     ''Could not read Total_Hugepages from /proc/meminfo''"

definition get_no_of_free_hugepages :: "tenv \<Rightarrow> string option \<Rightarrow> tst \<Rightarrow> (int option \<times> tst) option" where
  "get_no_of_free_hugepages e = meminfo_number e ''Could not get info about HugePages_Free from /proc/meminfo''
     ''Could not read HugePages_Free from /proc/meminfo''"

definition hugepages_size :: "tenv \<Rightarrow> string option \<Rightarrow> tst \<Rightarrow> (int option \<times> tst) option" where
  "hugepages_size e = meminfo_number e ''Could not get info about HugePages_Size from /proc/meminfo''
     ''Could not read HugePages_Size from /proc/meminfo''"

text \<open>A number of up to nine digits is read back.\<close>

lemma meminfo_number_ok:
  assumes "length (int_to_string i) \<le> 9"
  shows "meminfo_number e a b (Some (int_to_string i)) s = Some (Some i, s)"
proof -
  have p: "\<forall>c \<in> set (int_to_string i). c \<noteq> CHR 0x0A" "int_to_string i \<noteq> []"
    using int_to_string_chars [of "CHR 0x0A" i] int_to_string_plain(3) by auto
  have "takeWhile (\<lambda>c. c \<noteq> CHR 0x0A) (int_to_string i) = int_to_string i" using p(1) by (simp add: takeWhile_eq_all_conv)
  then have "fgets 10 (int_to_string i) = Some (int_to_string i)"
    using assms p(2) by (simp only: fgets_def Let_def) simp
  then show ?thesis by (simp add: meminfo_number_def)
qed

section \<open>Cloning\<close>

text \<open>The blocks that are allocated, and \<open>errno\<close>.  What \<open>clone\<close> returns for a stack (\<open>None\<close>: a null pointer), and the \<open>errno\<close>
that \<open>free\<close> leaves, are parameters; addresses have 32 bits, and stacks grow downwards.\<close>

record clst =
  c_blocks :: "size_t list"
  c_errno :: int

definition ltp_clone :: "(size_t option \<Rightarrow> int \<times> int) \<Rightarrow> size_t \<Rightarrow> size_t option \<Rightarrow> clst \<Rightarrow> int \<times> clst" where
  "ltp_clone clone stack_size stack c = (case clone (map_option (\<lambda>p. p + stack_size) stack) of
     (ret, err) \<Rightarrow> (ret, if ret = - 1 then c\<lparr>c_errno := err\<rparr> else c))"

definition ltp_clone_malloc ::
  "(size_t option \<Rightarrow> int \<times> int) \<Rightarrow> (size_t \<Rightarrow> size_t option) \<Rightarrow> (int \<Rightarrow> int) \<Rightarrow> size_t \<Rightarrow> clst \<Rightarrow> int \<times> clst" where
  "ltp_clone_malloc clone malloc free_errno stack_size c = (case malloc stack_size of
      None \<Rightarrow> (- 1, c\<lparr>c_errno := 12\<rparr>)
    | Some stack \<Rightarrow>
        (case ltp_clone clone stack_size (Some stack) (c\<lparr>c_blocks := stack # c_blocks c\<rparr>) of (ret, c) \<Rightarrow>
          if ret = - 1 then
            (let saved_errno = c_errno c;
                 c = c\<lparr>c_blocks := remove1 stack (c_blocks c), c_errno := free_errno (c_errno c)\<rparr>
             in (ret, c\<lparr>c_errno := saved_errno\<rparr>))
          else (ret, c)))"

definition ltp_clone_quick ::
  "(size_t option \<Rightarrow> int \<times> int) \<Rightarrow> (size_t \<Rightarrow> size_t option) \<Rightarrow> (int \<Rightarrow> int) \<Rightarrow> size_t \<Rightarrow> clst \<Rightarrow> int \<times> clst" where
  "ltp_clone_quick clone malloc free_errno getpagesize c = ltp_clone_malloc clone malloc free_errno (getpagesize * 4) c"

text \<open>A failed clone leaves no block behind and the \<open>errno\<close> of the clone, whatever \<open>free\<close> does to it; a successful one leaves
the stack, whose top the child has got, and nobody frees it.\<close>

lemma ltp_clone_quick_blocks:
  assumes "malloc (pg * 4) = Some p"
  shows "ltp_clone_quick clone malloc fe pg c = (case clone (Some (p + pg * 4)) of (ret, err) \<Rightarrow>
    if ret = - 1 then (- 1, c\<lparr>c_errno := err\<rparr>) else (ret, c\<lparr>c_blocks := p # c_blocks c\<rparr>))"
  using assms by (cases "clone (Some (p + pg * 4))") (simp add: ltp_clone_quick_def ltp_clone_malloc_def ltp_clone_def Let_def)

end
