(* ===== verification/SelfExec.thy ===== *)
theory SelfExec
imports SafeMacros CString
begin

text \<open>\<open>ltp_framework/lib/self_exec.c\<close>: running a function of the test in a new image of the program, for systems without
\<open>fork\<close>.  The parent passes its directory and arguments as one option (\<open>-C dir,arg,\<dots>\<close>), which the new image takes apart.

What \<open>getcwd\<close>, \<open>chdir\<close>, \<open>execlp\<close> and the allocations do is a parameter.  The variable arguments are lists: values on the
side of \<open>self_exec\<close>, and on the side of \<open>maybe_run_child\<close> places for them, a string buffer with its size.  \<open>None\<close> is undefined
behaviour: a missing or wrongly typed argument, a write past a buffer, a null pointer that is read.\<close>

section \<open>self_exec\<close>

datatype xarg = Int_arg int | Str_arg string

datatype exec_result = Ret int | Exec "string list"

record execsys =
  x_cwd :: "string option"
  x_strdup :: bool
  x_asprintf :: "string \<Rightarrow> bool"
  x_chdir :: "string \<Rightarrow> int"
  x_execlp :: bool

text \<open>The text of an argument for its format character; the inner \<open>None\<close> is an unknown character.\<close>

definition xarg_text :: "char \<Rightarrow> xarg \<Rightarrow> string option" where
  "xarg_text c a = (case a of
      Int_arg i \<Rightarrow> if c = CHR ''d'' \<or> c = CHR ''n'' then Some (int_to_string i) else None
    | Str_arg s \<Rightarrow> if c = CHR ''s'' \<or> c = CHR ''S'' then Some s else None)"

definition not_implemented :: "char \<Rightarrow> string" where
  "not_implemented c = ''Format string option '' @ [c] @ '' not implemented''"

text \<open>\<open>asprintf\<close>: the new text and its length, or -1.\<close>

definition asprintf :: "execsys \<Rightarrow> string \<Rightarrow> int \<times> string" where
  "asprintf x s = (if x_asprintf x s then (int (length s), s) else (- 1, []))"

text \<open>The loop over the format: the text so far and the reporting state; \<open>Inl\<close> is the early return of -1.\<close>

fun exec_loop :: "tenv \<Rightarrow> execsys \<Rightarrow> string \<Rightarrow> xarg list \<Rightarrow> string \<Rightarrow> tst \<Rightarrow> ((tst + string) \<times> tst) option" where
  "exec_loop e x [] as arg s = Some (Inr arg, s)"
| "exec_loop e x (c # fmt) as arg s =
    (if c \<notin> set ''dnsS'' then do { s \<leftarrow> tst_resm e TBROK (not_implemented c) s; Some (Inl s, s) }
     else case as of
       [] \<Rightarrow> None
     | a # as \<Rightarrow> do {
         txt \<leftarrow> xarg_text c a;
         let (rv, arg) = asprintf x (arg @ '','' @ txt);
         if rv < 0 then do { s \<leftarrow> tst_resm e TBROK ''Could not produce self_exec string'' s; Some (Inl s, s) }
         else exec_loop e x fmt as arg s
       })"

definition self_exec :: "tenv \<Rightarrow> execsys \<Rightarrow> string \<Rightarrow> string \<Rightarrow> string \<Rightarrow> xarg list \<Rightarrow> tst \<Rightarrow> (exec_result \<times> tst) option" where
  "self_exec e x start_cwd argv0 fmt as s = (case x_cwd x of
      None \<Rightarrow> do { s \<leftarrow> tst_resm e TBROK ''Could not getcwd()'' s; Some (Ret (- 1), s) }
    | Some tmp_cwd \<Rightarrow>
        if \<not> x_strdup x then do { s \<leftarrow> tst_resm e TBROK ''Could not produce self_exec string'' s; Some (Ret (- 1), s) }
        else do {
          (r, s) \<leftarrow> exec_loop e x fmt as tmp_cwd s;
          case r of
            Inl s \<Rightarrow> Some (Ret (- 1), s)
          | Inr arg \<Rightarrow>
              if x_chdir x start_cwd < 0 then do {
                s \<leftarrow> tst_resm e TBROK (''Could not change to '' @ start_cwd @ '' for self_exec'') s;
                Some (Ret (- 1), s)
              }
              else Some (if x_execlp x then Exec [argv0, ''-C'', arg] else Ret (- 1), s)
        })"

section \<open>maybe_run_child\<close>

datatype slot = Int_var | Num int | Buf nat | Ptr_var

datatype child_result = Not_child | Exited | Wrong_child | Child_run string "xarg list"

text \<open>\<open>strtol\<close> with base 10, whose result \<open>long\<close> is as wide as \<open>int\<close>; \<open>None\<close> when something is left of the text.\<close>

definition strtol_all :: "string \<Rightarrow> int option" where
  "strtol_all tok = (case scan_int (Some 10) tok of
      Some (i, []) \<Rightarrow> Some (if i < INT_MIN then INT_MIN else if INT_MAX < i then INT_MAX else i)
    | _ \<Rightarrow> None)"

definition brok_exit :: "tenv \<Rightarrow> string \<Rightarrow> tst \<Rightarrow> tst option" where
  "brok_exit e m s = tst_resm e TBROK m s \<bind> tst_exit e"

text \<open>The loop over the format.  \<open>strtok\<close> never delivers an empty token.\<close>

fun child_loop :: "tenv \<Rightarrow> bool \<Rightarrow> string \<Rightarrow> slot list \<Rightarrow> string list \<Rightarrow> xarg list \<Rightarrow> tst \<Rightarrow> ((child_result + xarg list) \<times> tst) option" where
  "child_loop e dup [] slots toks vals s = Some (Inr vals, s)"
| "child_loop e dup (c # fmt) slots toks vals s = (case toks of
      [] \<Rightarrow> do { s \<leftarrow> brok_exit e ''Invalid argument to -C option'' s; Some (Inl Exited, s) }
    | tok # toks \<Rightarrow>
        if c \<notin> set ''dnsS'' then do { s \<leftarrow> brok_exit e (not_implemented c) s; Some (Inl Exited, s) }
        else (case slots of
          [] \<Rightarrow> None
        | sl # slots \<Rightarrow>
            if c = CHR ''d'' then do {
              chk (sl = Int_var);
              case strtol_all tok of
                None \<Rightarrow> do { s \<leftarrow> brok_exit e ''Invalid argument to -C option'' s; Some (Inl Exited, s) }
              | Some i \<Rightarrow> child_loop e dup fmt slots toks (vals @ [Int_arg i]) s
            }
            else if c = CHR ''n'' then (case sl of
                Num j \<Rightarrow> (case strtol_all tok of
                    None \<Rightarrow> do { s \<leftarrow> brok_exit e ''Invalid argument to -C option'' s; Some (Inl Exited, s) }
                  | Some i \<Rightarrow> if j \<noteq> i then Some (Inl Wrong_child, s) else child_loop e dup fmt slots toks vals s)
              | _ \<Rightarrow> None)
            else if c = CHR ''s'' then (case sl of
                Buf n \<Rightarrow> if length tok < n then child_loop e dup fmt slots toks (vals @ [Str_arg tok]) s else None
              | _ \<Rightarrow> None)
            else do {
              chk (sl = Ptr_var);
              if dup then child_loop e dup fmt slots toks (vals @ [Str_arg tok]) s
              else do { s \<leftarrow> brok_exit e ''Could not strdup for -C option'' s; Some (Inl Exited, s) }
            }))"

text \<open>The whole function; \<open>child\<close> is the function to run, which is expected not to return.\<close>

definition maybe_run_child ::
  "tenv \<Rightarrow> bool \<Rightarrow> (string \<Rightarrow> int) \<Rightarrow> (string \<Rightarrow> xarg list \<Rightarrow> tst \<Rightarrow> tst option) \<Rightarrow> string option \<Rightarrow> string \<Rightarrow> slot list \<Rightarrow> tst \<Rightarrow>
    (child_result \<times> tst) option" where
  "maybe_run_child e dup chdir child child_args fmt slots s = (case child_args of
      None \<Rightarrow> Some (Not_child, s)
    | Some args \<Rightarrow> (case strtok_all (\<lambda>c. c = CHR '','') args of
        [] \<Rightarrow> None
      | child_dir # toks \<Rightarrow> do {
          (r, s) \<leftarrow> child_loop e dup fmt slots toks [] s;
          case r of
            Inl r \<Rightarrow> Some (r, s)
          | Inr vals \<Rightarrow>
              if chdir child_dir < 0 then do {
                s \<leftarrow> brok_exit e (''Could not change to '' @ child_dir @ '' for child'') s;
                Some (Exited, s)
              }
              else do {
                s \<leftarrow> child child_dir vals s;
                s \<leftarrow> (if t_exit s = None then tst_resm e TWARN ''Child function returned unexpectedly'' s else Some s);
                Some (Child_run child_dir vals, s)
              }
        }))"

section \<open>From one image to the other\<close>

text \<open>The arguments and the places for them fit the format: numbers are ints, the \<open>n\<close> of the two sides agree, strings are not
empty, have no comma and fit their buffer.\<close>

fun passes :: "string \<Rightarrow> xarg list \<Rightarrow> slot list \<Rightarrow> bool" where
  "passes [] [] [] = True"
| "passes (c # fmt) (a # as) (sl # slots) = (passes fmt as slots \<and>
    (case (a, sl) of
       (Int_arg i, Int_var) \<Rightarrow> c = CHR ''d'' \<and> fits_int i
     | (Int_arg i, Num j) \<Rightarrow> c = CHR ''n'' \<and> fits_int i \<and> i = j
     | (Str_arg t, Buf n) \<Rightarrow> c = CHR ''s'' \<and> t \<noteq> [] \<and> CHR '','' \<notin> set t \<and> length t < n
     | (Str_arg t, Ptr_var) \<Rightarrow> c = CHR ''S'' \<and> t \<noteq> [] \<and> CHR '','' \<notin> set t
     | _ \<Rightarrow> False))"
| "passes _ _ _ = False"

text \<open>What the child gets: all but the numbers it was told apart by.\<close>

fun received :: "string \<Rightarrow> xarg list \<Rightarrow> xarg list" where
  "received (c # fmt) (a # as) = (if c = CHR ''n'' then received fmt as else a # received fmt as)"
| "received _ _ = []"

definition xarg_string :: "xarg \<Rightarrow> string" where
  "xarg_string a = (case a of Int_arg i \<Rightarrow> int_to_string i | Str_arg s \<Rightarrow> s)"

lemma strtol_all_int: "fits_int i \<Longrightarrow> strtol_all (int_to_string i) = Some i"
  by (simp add: strtol_all_def scan_int_to_string fits_int_def)

lemma exec_loop_text:
  assumes "passes fmt as slots" "\<And>t. x_asprintf x t"
  shows "exec_loop e x fmt as arg s = Some (Inr (arg @ concat (map (\<lambda>a. '','' @ xarg_string a) as)), s)"
  using assms(1)
  by (induction fmt as slots arbitrary: arg rule: passes.induct)
    (auto simp: xarg_text_def xarg_string_def asprintf_def assms(2) split: xarg.splits slot.splits)

lemma passes_plain:
  "passes fmt as slots \<Longrightarrow> a \<in> set as \<Longrightarrow> xarg_string a \<noteq> [] \<and> CHR '','' \<notin> set (xarg_string a)"
  by (induction fmt as slots rule: passes.induct)
    (auto simp: xarg_string_def int_to_string_plain split: xarg.splits slot.splits)

lemma child_loop_values:
  assumes "passes fmt as slots"
  shows "child_loop e True fmt slots (map xarg_string as) vals s = Some (Inr (vals @ received fmt as), s)"
  using assms
  by (induction fmt as slots arbitrary: vals rule: passes.induct)
    (auto simp: xarg_string_def strtol_all_int c_simps split: xarg.splits slot.splits)

lemma strtok_commas:
  assumes "\<forall>t \<in> set (d # ts). t \<noteq> [] \<and> CHR '','' \<notin> set t"
  shows "strtok_all (\<lambda>c. c = CHR '','') (d @ concat (map (\<lambda>t. '','' @ t) ts)) = d # ts"
  using assms
proof (induction ts arbitrary: d)
  case Nil
  then show ?case by (simp add: strtok_all_def split_on_plain_char)
next
  case (Cons t ts)
  then have "strtok_all (\<lambda>c. c = CHR '','') (t @ concat (map (\<lambda>t. '','' @ t) ts)) = t # ts" by simp
  with Cons.prems show ?case by (simp add: strtok_all_def split_on_char)
qed

text \<open>C24: what a parent passes with \<open>self_exec\<close> the child gets back from \<open>maybe_run_child\<close>: if the arguments fit the format on
both sides and the directory has no comma in its name, the new image runs the child function in the directory of the
parent with exactly the parent's arguments, provided the calls succeed.\<close>

theorem self_exec_roundtrip:
  assumes "passes fmt as slots" "cwd \<noteq> []" "CHR '','' \<notin> set cwd" "x_cwd x = Some cwd" "x_strdup x" "\<And>t. x_asprintf x t"
    "0 \<le> x_chdir x start_cwd" "x_execlp x" "0 \<le> chdir cwd"
    "child cwd (received fmt as) s' = Some s''" "t_exit s'' \<noteq> None"
  shows "\<exists>arg. self_exec e x start_cwd argv0 fmt as s = Some (Exec [argv0, ''-C'', arg], s) \<and>
    maybe_run_child e' True chdir child (Some arg) fmt slots s' = Some (Child_run cwd (received fmt as), s'')"
proof -
  let ?arg = "cwd @ concat (map (\<lambda>a. '','' @ xarg_string a) as)"
  have "self_exec e x start_cwd argv0 fmt as s = Some (Exec [argv0, ''-C'', ?arg], s)"
    using assms(4-8) exec_loop_text [OF assms(1,6)] by (simp add: self_exec_def)
  moreover have "strtok_all (\<lambda>c. c = CHR '','') ?arg = cwd # map xarg_string as"
    using strtok_commas [of cwd "map xarg_string as"] passes_plain [OF assms(1)] assms(2,3) by (simp add: comp_def)
  then have "maybe_run_child e' True chdir child (Some ?arg) fmt slots s' = Some (Child_run cwd (received fmt as), s'')"
    using child_loop_values [OF assms(1), of e' "[]" s'] assms(9-11) by (auto simp: maybe_run_child_def)
  ultimately show ?thesis by blast
qed

definition exec_ok :: execsys where
  "exec_ok = \<lparr>x_cwd = Some ''/tmp/x'', x_strdup = True, x_asprintf = \<lambda>_. True, x_chdir = \<lambda>_. 0, x_execlp = True\<rparr>"

lemma self_exec_roundtrip_witness:
  "\<exists>arg. self_exec plain_env exec_ok ''/'' ''t'' ''ndS'' [Int_arg 2, Int_arg (- 7), Str_arg ''log''] (tst_init ''t'') =
      Some (Exec [''t'', ''-C'', arg], tst_init ''t'') \<and>
    maybe_run_child plain_env True (\<lambda>_. 0) (\<lambda>_ _ s. Some (s\<lparr>t_exit := Some 0\<rparr>)) (Some arg) ''ndS'' [Num 2, Int_var, Ptr_var] (tst_init ''t'') =
      Some (Child_run ''/tmp/x'' [Int_arg (- 7), Str_arg ''log''], (tst_init ''t'')\<lparr>t_exit := Some 0\<rparr>)"
  using self_exec_roundtrip [of "''ndS''" "[Int_arg 2, Int_arg (- 7), Str_arg ''log'']" "[Num 2, Int_var, Ptr_var]" "''/tmp/x''" exec_ok
      "''/''" "\<lambda>_. 0" "\<lambda>_ _ s. Some (s\<lparr>t_exit := Some 0\<rparr>)" "tst_init ''t''" "(tst_init ''t'')\<lparr>t_exit := Some 0\<rparr>" plain_env "''t''" "tst_init ''t''" plain_env]
  by (simp add: fits_int_def INT_MIN_def INT_MAX_def exec_ok_def)

section \<open>Where it fails\<close>

text \<open>An empty string is lost on the way (\<open>strtok\<close> joins the commas), and an option that is empty or only commas crashes.\<close>

lemma empty_string_lost:
  "maybe_run_child e True chdir child (Some ''/,,7'') ''sd'' [Buf 10, Int_var] s =
    do { s \<leftarrow> brok_exit e ''Invalid argument to -C option'' s; Some (Exited, s) }"
proof -
  have "strtok_all (\<lambda>c. c = CHR '','') ''/,,7'' = [''/'', ''7'']" by (simp add: strtok_all_def)
  then show ?thesis by (simp add: maybe_run_child_def cong: option.case_cong)
qed

lemma empty_option_crashes: "maybe_run_child e dup chdir child (Some '','') fmt slots s = None"
  by (simp add: maybe_run_child_def strtok_all_def)

end
