(* ===== verification/DataPid.thy ===== *)
theory DataPid
imports Generator
begin

unbundle bit_operations_syntax

text \<open>\<open>ltp_framework/lib/datapid.c\<close>: buffers of words that hold the process id and the offset of the word in the file.

They exist on a Cray only (\<open>cray\<close>), where a word has 64 bits, \<open>int\<close> too, and the first byte is the highest; elsewhere both
functions only say that they are not supported.  Offsets and sizes are not negative.  The message is not modelled.\<close>

section \<open>The code\<close>

definition NBPW :: nat where "NBPW = 8"

definition pid_word :: "int \<Rightarrow> nat \<Rightarrow> 64 word" where
  "pid_word pid woff = push_bit 48 (word_of_int pid AND 0xFFFF) OR push_bit 16 (word_of_nat woff AND 0xFFFFFFFF) OR
     (word_of_int pid AND 0xFFFF)"

text \<open>\<open>((char *)&word)[i]\<close>.\<close>

definition word_byte :: "64 word \<Rightarrow> nat \<Rightarrow> byte" where
  "word_byte w i = ucast (drop_bit (8 * (7 - i)) w)"

text \<open>The byte loops: \<open>n\<close> bytes of a word from \<open>chr\<close> on, into the buffer at \<open>boff\<close>.\<close>

definition put_word :: "64 word \<Rightarrow> nat \<Rightarrow> nat \<Rightarrow> nat \<Rightarrow> byte list \<Rightarrow> byte list option" where
  "put_word w chr boff n buffer = ofold (\<lambda>i b. wr b (int i) (word_byte w (chr + (i - boff)))) [boff..<boff + n] buffer"

fun gen_words :: "int \<Rightarrow> nat \<Rightarrow> nat \<Rightarrow> nat \<Rightarrow> byte list \<Rightarrow> byte list option" where
  "gen_words pid 0 woff boff buffer = Some buffer"
| "gen_words pid (Suc n) woff boff buffer = do {
     buffer \<leftarrow> put_word (pid_word pid woff) 0 boff NBPW buffer;
     gen_words pid n (woff + NBPW) (boff + NBPW) buffer
   }"

definition datapidgen :: "bool \<Rightarrow> int \<Rightarrow> byte list \<Rightarrow> nat \<Rightarrow> nat \<Rightarrow> (int \<times> byte list) option" where
  "datapidgen cray pid buffer bsize offset = (if \<not> cray then Some (- 1, buffer) else do {
     let cnt = offset mod NBPW;
     let boff = (if cnt \<noteq> 0 then min (NBPW - cnt) bsize else 0);
     buffer \<leftarrow> (if cnt \<noteq> 0 then put_word (pid_word pid (offset - cnt)) cnt 0 boff buffer else Some buffer);
     let num_full_words = (bsize - boff) div NBPW;
     let woff = offset + boff;
     buffer \<leftarrow> gen_words pid num_full_words woff boff buffer;
     let boff = boff + NBPW * num_full_words;
     let woff = woff + NBPW * num_full_words;
     let cnt = (bsize - boff) mod NBPW;
     buffer \<leftarrow> (if cnt \<noteq> 0 then put_word (pid_word pid woff) 0 boff cnt buffer else Some buffer);
     Some (int bsize, buffer)
   })"

text \<open>The comparing loops: the index in the buffer of the first byte that differs.\<close>

fun cmp_word :: "64 word \<Rightarrow> nat \<Rightarrow> nat \<Rightarrow> nat \<Rightarrow> byte list \<Rightarrow> nat option option" where
  "cmp_word w chr boff 0 buffer = Some None"
| "cmp_word w chr boff (Suc n) buffer = do {
     b \<leftarrow> rd buffer (int boff);
     if b \<noteq> word_byte w chr then Some (Some boff) else cmp_word w (chr + 1) (boff + 1) n buffer
   }"

text \<open>In the whole words the offset of the word is returned, not that of the byte.\<close>

fun chk_words :: "int \<Rightarrow> nat \<Rightarrow> nat \<Rightarrow> nat \<Rightarrow> byte list \<Rightarrow> nat option option" where
  "chk_words pid 0 woff boff buffer = Some None"
| "chk_words pid (Suc n) woff boff buffer = do {
     r \<leftarrow> cmp_word (pid_word pid woff) 0 boff NBPW buffer;
     if r \<noteq> None then Some (Some woff) else chk_words pid n (woff + NBPW) (boff + NBPW) buffer
   }"

definition datapidchk :: "bool \<Rightarrow> int \<Rightarrow> byte list \<Rightarrow> nat \<Rightarrow> nat \<Rightarrow> int option" where
  "datapidchk cray pid buffer bsize offset = (if \<not> cray then Some 0 else do {
     let cnt = offset mod NBPW;
     let boff = (if cnt \<noteq> 0 then min (NBPW - cnt) bsize else 0);
     r \<leftarrow> (if cnt \<noteq> 0 then cmp_word (pid_word pid (offset - cnt)) cnt 0 boff buffer else Some None);
     case r of Some b \<Rightarrow> Some (int (offset + b)) | None \<Rightarrow> do {
       let num_full_words = (bsize - boff) div NBPW;
       let woff = offset + boff;
       r \<leftarrow> chk_words pid num_full_words woff boff buffer;
       case r of Some wo \<Rightarrow> Some (int wo) | None \<Rightarrow> do {
         let boff = boff + NBPW * num_full_words;
         let woff = woff + NBPW * num_full_words;
         let cnt = (bsize - boff) mod NBPW;
         r \<leftarrow> (if cnt \<noteq> 0 then cmp_word (pid_word pid woff) 0 boff cnt buffer else Some None);
         case r of Some b \<Rightarrow> Some (int (offset + b)) | None \<Rightarrow> Some (- 1)
       }
     }
   })"

section \<open>The bytes they agree on\<close>

text \<open>The byte at an offset of the file.\<close>

definition pid_byte :: "int \<Rightarrow> nat \<Rightarrow> byte" where
  "pid_byte pid off = word_byte (pid_word pid (off - off mod 8)) (off mod 8)"

definition pid_bytes :: "int \<Rightarrow> nat \<Rightarrow> nat \<Rightarrow> byte list" where
  "pid_bytes pid off n = map (pid_byte pid) [off..<off + n]"

lemma length_pid_bytes [simp]: "length (pid_bytes pid off n) = n"
  by (simp add: pid_bytes_def)

lemma pid_bytes_append: "pid_bytes pid off m @ pid_bytes pid (off + m) n = pid_bytes pid off (m + n)"
  using upt_add_eq_append [of off "off + m" n] by (simp add: pid_bytes_def add.assoc)

lemma pid_byte_word: "woff mod 8 = 0 \<Longrightarrow> i < 8 \<Longrightarrow> pid_byte pid (woff + i) = word_byte (pid_word pid woff) i"
  by (simp add: pid_byte_def mod_add_left_eq [symmetric, of woff i])

lemma pid_bytes_word:
  assumes "woff mod 8 = 0" "chr + n \<le> 8"
  shows "map (\<lambda>i. word_byte (pid_word pid woff) (chr + (i - boff))) [boff..<boff + n] = pid_bytes pid (woff + chr) n"
  using assms by (intro nth_equalityI) (simp_all add: pid_bytes_def pid_byte_word add.assoc)

lemma put_word_bytes:
  assumes "woff mod 8 = 0" "chr + n \<le> 8" "boff + n \<le> length buf" "woff + chr = off + boff"
  shows "put_word (pid_word pid woff) chr boff n (pid_bytes pid off boff @ drop boff buf) =
    Some (pid_bytes pid off (boff + n) @ drop (boff + n) buf)"
  using ofold_wr_fill [of boff n "pid_bytes pid off boff @ drop boff buf" "\<lambda>i. word_byte (pid_word pid woff) (chr + (i - boff))"]
    assms pid_bytes_word [OF assms(1,2), of pid boff] pid_bytes_append [of pid off boff n]
  by (simp add: put_word_def add.commute)

lemma gen_words_bytes:
  assumes "woff mod 8 = 0" "boff + 8 * n \<le> length buf" "woff = off + boff"
  shows "gen_words pid n woff boff (pid_bytes pid off boff @ drop boff buf) =
    Some (pid_bytes pid off (boff + 8 * n) @ drop (boff + 8 * n) buf)"
  using assms
proof (induction n arbitrary: woff boff)
  case (Suc n)
  have "gen_words pid n (woff + 8) (boff + 8) (pid_bytes pid off (boff + 8) @ drop (boff + 8) buf) =
      Some (pid_bytes pid off (boff + 8 + 8 * n) @ drop (boff + 8 + 8 * n) buf)"
    using Suc.IH [of "woff + 8" "boff + 8"] Suc.prems by simp
  moreover have "boff + 8 * Suc n = boff + 8 + 8 * n" by simp
  moreover have "put_word (pid_word pid woff) 0 boff 8 (pid_bytes pid off boff @ drop boff buf) =
      Some (pid_bytes pid off (boff + 8) @ drop (boff + 8) buf)"
    using put_word_bytes [of woff 0 8 boff buf off pid] Suc.prems by simp
  ultimately show ?case by (simp only: gen_words.simps NBPW_def Option.bind.simps)
qed simp

lemma word_start: "(x - x mod 8) mod 8 = (0 :: nat)"
  by presburger

text \<open>Where the three parts of a buffer meet.\<close>

lemma pid_parts:
  fixes offset bsize head n :: nat
  assumes "head = (if offset mod 8 \<noteq> 0 then min (8 - offset mod 8) bsize else 0)" "n = (bsize - head) div 8"
  shows "head \<le> bsize" "head + 8 * n \<le> bsize" "bsize - (head + 8 * n) = (bsize - head) mod 8" "0 < n \<or> head + 8 * n < bsize \<Longrightarrow> (offset + head) mod 8 = 0"
    "0 < n \<or> head + 8 * n < bsize \<Longrightarrow> (offset + head + 8 * n) mod 8 = 0"
proof -
  show h: "head \<le> bsize" using assms(1) by simp
  show b: "head + 8 * n \<le> bsize" "bsize - (head + 8 * n) = (bsize - head) mod 8"
    using h assms(2) div_mult_mod_eq [of "bsize - head" 8] by linarith+
  show m: "(offset + head) mod 8 = 0" if "0 < n \<or> head + 8 * n < bsize"
  proof -
    have "head < bsize" using that b(1) by auto
    then have "head = (if offset mod 8 \<noteq> 0 then 8 - offset mod 8 else 0)" using assms(1) by auto
    then show ?thesis by presburger
  qed
  then show "(offset + head + 8 * n) mod 8 = 0" if "0 < n \<or> head + 8 * n < bsize" using that by (metis mod_mult_self2)
qed

lemma datapidgen_bytes:
  assumes "bsize \<le> length buf"
  shows "datapidgen True pid buf bsize offset = Some (int bsize, pid_bytes pid offset bsize @ drop bsize buf)"
proof -
  obtain head where h: "head = (if offset mod 8 \<noteq> 0 then min (8 - offset mod 8) bsize else 0)" by simp
  obtain n where n: "n = (bsize - head) div 8" by simp
  note p = pid_parts [OF h n]
  have a: "(if offset mod 8 \<noteq> 0 then put_word (pid_word pid (offset - offset mod 8)) (offset mod 8) 0 head buf else Some buf) =
      Some (pid_bytes pid offset head @ drop head buf)"
  proof (cases "offset mod 8 = 0")
    case True
    then show ?thesis using h by (simp add: pid_bytes_def)
  next
    case False
    from word_start [of offset] False h put_word_bytes [of "offset - offset mod 8" "offset mod 8" head 0 buf offset pid] assms p(1) show ?thesis
      by (simp add: pid_bytes_def)
  qed
  have b: "gen_words pid n (offset + head) head (pid_bytes pid offset head @ drop head buf) =
      Some (pid_bytes pid offset (head + 8 * n) @ drop (head + 8 * n) buf)"
    using gen_words_bytes [of "offset + head" head n buf offset pid] p assms by (cases "n = 0") auto
  obtain c where c: "c = bsize - (head + 8 * n)" by simp
  have s: "head + 8 * n + c = bsize" "c mod 8 = c" "c \<le> 8" using p(2,3) c by simp_all
  have d: "(if c \<noteq> 0 then put_word (pid_word pid (offset + head + 8 * n)) 0 (head + 8 * n) c
        (pid_bytes pid offset (head + 8 * n) @ drop (head + 8 * n) buf) else Some (pid_bytes pid offset (head + 8 * n) @ drop (head + 8 * n) buf)) =
      Some (pid_bytes pid offset bsize @ drop bsize buf)"
  proof (cases "c = 0")
    case True
    with s(1) show ?thesis by simp
  next
    case False
    with p(5) s(1) have "(offset + head + 8 * n) mod 8 = 0" by simp
    with False s assms put_word_bytes [of "offset + head + 8 * n" 0 c "head + 8 * n" buf offset pid] show ?thesis
      by (simp add: add.assoc)
  qed
  show ?thesis
    by (simp only: datapidgen_def Let_def NBPW_def h [symmetric] n [symmetric] c [symmetric] s(2) a b d Option.bind.simps
      not_True_eq_False if_False)
qed

section \<open>The check\<close>

lemma first_diff_append:
  "length xs = length ys \<Longrightarrow> first_diff (xs @ xs') (ys @ ys') =
    (case first_diff xs ys of Some i \<Rightarrow> Some i | None \<Rightarrow> map_option (\<lambda>i. length xs + i) (first_diff xs' ys'))"
proof (induction xs ys rule: list_induct2)
  case Nil
  then show ?case by (cases "first_diff xs' ys'") simp_all
next
  case (Cons x xs y ys)
  then show ?case by (cases "first_diff xs' ys'") (auto split: option.splits)
qed

lemma pid_bytes_Suc: "pid_bytes pid off (Suc n) = pid_byte pid off # pid_bytes pid (Suc off) n"
  by (simp add: pid_bytes_def upt_conv_Cons del: upt_Suc)

lemma cmp_word_first:
  assumes "woff mod 8 = 0" "chr + n \<le> 8" "boff + n \<le> length buf"
  shows "cmp_word (pid_word pid woff) chr boff n buf =
    Some (map_option (\<lambda>i. boff + i) (first_diff (pid_bytes pid (woff + chr) n) (take n (drop boff buf))))"
  using assms(2,3)
proof (induction n arbitrary: chr boff)
  case (Suc n)
  have d: "take (Suc n) (drop boff buf) = buf ! boff # take n (drop (Suc boff) buf)"
    using Suc.prems by (simp add: Cons_nth_drop_Suc [symmetric])
  show ?case
    using Suc.IH [of "chr + 1" "boff + 1"] Suc.prems d pid_byte_word [OF assms(1), of chr pid]
    by (auto simp: pid_bytes_Suc c_simps option.map_comp comp_def)
qed (simp add: pid_bytes_def)

lemma chk_words_first:
  assumes "woff mod 8 = 0" "boff + 8 * n \<le> length buf"
  shows "chk_words pid n woff boff buf =
    Some (map_option (\<lambda>i. woff + (i - i mod 8)) (first_diff (pid_bytes pid woff (8 * n)) (take (8 * n) (drop boff buf))))"
  using assms
proof (induction n arbitrary: woff boff)
  case (Suc n)
  have s: "pid_bytes pid woff (8 * Suc n) = pid_bytes pid woff 8 @ pid_bytes pid (woff + 8) (8 * n)"
    using pid_bytes_append [of pid woff 8 "8 * n"] by simp
  have t: "take (8 * Suc n) (drop boff buf) = take 8 (drop boff buf) @ take (8 * n) (drop (boff + 8) buf)"
    using take_add [of 8 "8 * n" "drop boff buf"] by (simp add: add.commute)
  have l: "length (take 8 (drop boff buf)) = 8" using Suc.prems by simp
  have ih: "chk_words pid n (woff + 8) (boff + 8) buf =
      Some (map_option (\<lambda>i. woff + 8 + (i - i mod 8)) (first_diff (pid_bytes pid (woff + 8) (8 * n)) (take (8 * n) (drop (boff + 8) buf))))"
    using Suc.IH [of "woff + 8" "boff + 8"] Suc.prems by simp
  have cw: "cmp_word (pid_word pid woff) 0 boff 8 buf = Some (map_option (\<lambda>i. boff + i) (first_diff (pid_bytes pid woff 8) (take 8 (drop boff buf))))"
    using cmp_word_first [of woff 0 8 boff buf pid] Suc.prems by simp
  show ?case
  proof (cases "first_diff (pid_bytes pid woff 8) (take 8 (drop boff buf))")
    case None
    have i: "woff + (8 + i - (8 + i) mod 8) = woff + 8 + (i - i mod 8)" for i :: nat by (simp add: mod_less_eq_dividend)
    have "chk_words pid (Suc n) woff boff buf = chk_words pid n (woff + 8) (boff + 8) buf"
      using None by (simp add: NBPW_def cw)
    moreover have "first_diff (pid_bytes pid woff 8 @ pid_bytes pid (woff + 8) (8 * n))
        (take 8 (drop boff buf) @ take (8 * n) (drop (boff + 8) buf)) =
      map_option (\<lambda>i. 8 + i) (first_diff (pid_bytes pid (woff + 8) (8 * n)) (take (8 * n) (drop (boff + 8) buf)))"
      using first_diff_append [of "pid_bytes pid woff 8" "take 8 (drop boff buf)"] None l by simp
    ultimately show ?thesis
      unfolding s t ih by (simp only: option.map_comp comp_def i)
  next
    case (Some i)
    with first_diff_Some [OF this] have "i < 8" by simp
    then show ?thesis unfolding s t using first_diff_append [of "pid_bytes pid woff 8" "take 8 (drop boff buf)"] Some l
      by (simp add: NBPW_def cw)
  qed
qed (simp add: pid_bytes_def)

text \<open>Where the first wrong byte is reported to be: at its offset, or at that of its word when that is whole.\<close>

definition reported_at :: "nat \<Rightarrow> nat \<Rightarrow> nat \<Rightarrow> nat \<Rightarrow> nat" where
  "reported_at offset head n i = (if head \<le> i \<and> i < head + 8 * n then (offset + i) - (offset + i) mod 8 else offset + i)"

text \<open>The first difference, split where the code splits the buffer: a broken word, whole words, a broken word.\<close>

lemma first_diff_parts:
  assumes "bsize = h + m + c" "bsize \<le> length buf"
    "f1 = first_diff (pid_bytes pid offset h) (take h buf)"
    "f2 = first_diff (pid_bytes pid (offset + h) m) (take m (drop h buf))"
    "f3 = first_diff (pid_bytes pid (offset + h + m) c) (take c (drop (h + m) buf))"
  shows "first_diff (pid_bytes pid offset bsize) (take bsize buf) = (case f1 of Some i \<Rightarrow> Some i | None \<Rightarrow>
      (case f2 of Some i \<Rightarrow> Some (h + i) | None \<Rightarrow> map_option (\<lambda>i. h + m + i) f3))"
proof -
  have pb: "pid_bytes pid offset bsize = pid_bytes pid offset h @ pid_bytes pid (offset + h) m @ pid_bytes pid (offset + h + m) c"
    using assms(1) pid_bytes_append [of pid offset h "m + c"] pid_bytes_append [of pid "offset + h" m c] by (simp add: add.assoc)
  have tb: "take bsize buf = take h buf @ take m (drop h buf) @ take c (drop (h + m) buf)"
    using take_add [of h "m + c" buf] take_add [of m c "drop h buf"] unfolding assms(1) add.assoc by (simp add: add.commute)
  have l: "length (pid_bytes pid offset h) = length (take h buf)"
    "length (pid_bytes pid (offset + h) m) = length (take m (drop h buf))" using assms(1,2) by simp_all
  show ?thesis
    unfolding pb tb first_diff_append [OF l(1)] first_diff_append [OF l(2)] assms(3-5) [symmetric] length_pid_bytes
    by (cases f1; cases f2; cases f3) simp_all
qed

text \<open>The place that a difference is reported at: the start of its word for a whole word, its own place otherwise.\<close>

lemma reported_at_parts:
  assumes f: "f1 = first_diff (pid_bytes pid offset head) b1" "f2 = first_diff (pid_bytes pid (offset + head) (8 * n)) b2"
    and w: "n \<noteq> 0 \<Longrightarrow> (offset + head) mod 8 = 0"
  shows "(case f1 of Some i \<Rightarrow> int (offset + i) | None \<Rightarrow> (case f2 of Some i \<Rightarrow> int (offset + head + (i - i mod 8)) | None \<Rightarrow>
        (case f3 of Some i \<Rightarrow> int (offset + (head + 8 * n + i)) | None \<Rightarrow> - 1))) =
    (case (case f1 of Some i \<Rightarrow> Some i | None \<Rightarrow>
      (case f2 of Some i \<Rightarrow> Some (head + i) | None \<Rightarrow> map_option (\<lambda>i. head + 8 * n + i) f3)) of None \<Rightarrow> - 1
      | Some i \<Rightarrow> int (reported_at offset head n i))"
proof (cases f1)
  case n1: None
  show ?thesis
  proof (cases f2)
    case None
    with n1 show ?thesis by (auto simp: reported_at_def split: option.splits)
  next
    case (Some i)
    with f(2) have i: "i < 8 * n" using first_diff_Some [OF f(2) [symmetric, unfolded Some]] by simp
    then have "(offset + head) mod 8 = 0" using w by simp
    then have "offset + (head + i) - (offset + (head + i)) mod 8 = offset + head + (i - i mod 8)"
      by (metis add.assoc mod_add_left_eq add_0 mod_less_eq_dividend Nat.add_diff_assoc)
    with n1 Some i show ?thesis by (simp add: reported_at_def)
  qed
next
  case (Some i)
  with f(1) have "i < head" using first_diff_Some [OF f(1) [symmetric, unfolded Some]] by simp
  with Some show ?thesis by (simp add: reported_at_def)
qed

lemma datapidchk_first:
  assumes "bsize \<le> length buf" "head = (if offset mod 8 \<noteq> 0 then min (8 - offset mod 8) bsize else 0)" "n = (bsize - head) div 8"
  shows "datapidchk True pid buf bsize offset =
    Some (case first_diff (pid_bytes pid offset bsize) (take bsize buf) of None \<Rightarrow> - 1 | Some i \<Rightarrow> int (reported_at offset head n i))"
proof -
  note p = pid_parts [OF assms(2,3)]
  obtain c where c: "c = bsize - (head + 8 * n)" by simp
  have s: "head + 8 * n + c = bsize" "c mod 8 = c" "c \<le> 8" using p(2,3) c by simp_all
  obtain f1 where f1: "f1 = first_diff (pid_bytes pid offset head) (take head buf)" by simp
  obtain f2 where f2: "f2 = first_diff (pid_bytes pid (offset + head) (8 * n)) (take (8 * n) (drop head buf))" by simp
  obtain f3 where f3: "f3 = first_diff (pid_bytes pid (offset + head + 8 * n) c) (take c (drop (head + 8 * n) buf))" by simp
  have a: "(if offset mod 8 \<noteq> 0 then cmp_word (pid_word pid (offset - offset mod 8)) (offset mod 8) 0 head buf else Some None) = Some f1"
  proof (cases "offset mod 8 = 0")
    case True
    then show ?thesis using assms(2) f1 by (simp add: pid_bytes_def)
  next
    case False
    have "offset mod 8 + head \<le> 8" "0 + head \<le> length buf" using assms(1,2) p(1) by auto
    note cmp_word_first [OF word_start this, where pid = pid]
    moreover have "offset - offset mod 8 + offset mod 8 = offset" by simp
    ultimately show ?thesis using False f1 by (simp add: option.map_ident)
  qed
  have b: "chk_words pid n (offset + head) head buf = Some (map_option (\<lambda>i. offset + head + (i - i mod 8)) f2)"
    using chk_words_first [of "offset + head" head n buf pid] p assms(1) f2 by (cases "n = 0") auto
  have d: "(if c \<noteq> 0 then cmp_word (pid_word pid (offset + head + 8 * n)) 0 (head + 8 * n) c buf else Some None) =
      Some (map_option (\<lambda>i. head + 8 * n + i) f3)"
  proof (cases "c = 0")
    case True
    with f3 show ?thesis by (simp add: pid_bytes_def)
  next
    case False
    with p(5) s(1) have "(offset + head + 8 * n) mod 8 = 0" by simp
    with False s assms(1) f3 cmp_word_first [of "offset + head + 8 * n" 0 c "head + 8 * n" buf pid] show ?thesis by simp
  qed
  have "datapidchk True pid buf bsize offset = Some (case f1 of Some i \<Rightarrow> int (offset + i) | None \<Rightarrow>
      (case f2 of Some i \<Rightarrow> int (offset + head + (i - i mod 8)) | None \<Rightarrow>
        (case f3 of Some i \<Rightarrow> int (offset + (head + 8 * n + i)) | None \<Rightarrow> - 1)))"
    by (simp only: datapidchk_def Let_def NBPW_def assms(2) [symmetric] assms(3) [symmetric] c [symmetric] s(2) a b d
      Option.bind.simps not_True_eq_False if_False)
      (auto split: option.splits)
  also have "\<dots> = Some (case first_diff (pid_bytes pid offset bsize) (take bsize buf) of None \<Rightarrow> - 1
      | Some i \<Rightarrow> int (reported_at offset head n i))"
    unfolding first_diff_parts [OF s(1) [symmetric] assms(1) f1 f2 f3]
    by (rule arg_cong [where f = Some], rule reported_at_parts [OF f1 f2]) (use p(4) in simp)
  finally show ?thesis .
qed

text \<open>On a Cray, the two routines are a generator in the sense of the other data files.\<close>

lemma datapidchk_iff:
  assumes "bsize \<le> length buf"
  shows "datapidchk True pid buf bsize offset = Some (- 1) \<longleftrightarrow> take bsize buf = pid_bytes pid offset bsize"
proof -
  obtain head where h: "head = (if offset mod 8 \<noteq> 0 then min (8 - offset mod 8) bsize else 0)" by simp
  obtain n where n: "n = (bsize - head) div 8" by simp
  have "first_diff (pid_bytes pid offset bsize) (take bsize buf) = None \<longleftrightarrow> take bsize buf = pid_bytes pid offset bsize"
    using assms by (auto simp: first_diff_None)
  then show ?thesis unfolding datapidchk_first [OF assms h n]
    by (cases "first_diff (pid_bytes pid offset bsize) (take bsize buf)") auto
qed

interpretation pid: generator
  "\<lambda>(pid, off) buf. map_option snd (datapidgen True pid buf (length buf) off)"
  "\<lambda>(pid, off) buf. map_option (\<lambda>r. r = - 1) (datapidchk True pid buf (length buf) off)"
  "\<lambda>(pid, off). pid_bytes pid off" "\<lambda>_ _. True"
proof
  fix p :: "int \<times> nat" and buf :: "byte list"
  obtain pid off where p: "p = (pid, off)" by (cases p)
  obtain r where "datapidchk True pid buf (length buf) off = Some r"
    using datapidchk_first [OF order.refl refl refl, of pid buf off] by blast
  then show "(case p of (pid, off) \<Rightarrow> \<lambda>buf. map_option (\<lambda>r. r = - 1) (datapidchk True pid buf (length buf) off)) buf =
      Some (buf = (case p of (pid, off) \<Rightarrow> pid_bytes pid off) (length buf))"
    using datapidchk_iff [OF order.refl, of pid buf off] p by auto
qed (auto simp: datapidgen_bytes split: prod.splits)

text \<open>On a Cray, \<open>datapidgen\<close> fills a buffer so that \<open>datapidchk\<close> at the same offset accepts it; after any one byte is
changed it does not, and the offset it returns is that of the byte or of the word the byte is in.\<close>

theorem datapid_roundtrip:
  assumes "i < length buf"
  shows "\<exists>b. datapidgen True pid buf (length buf) offset = Some (int (length buf), b) \<and> length b = length buf \<and>
    datapidchk True pid b (length buf) offset = Some (- 1) \<and>
    (v \<noteq> b ! i \<longrightarrow> (\<exists>r. datapidchk True pid (b[i := v]) (length buf) offset = Some (int r) \<and> r \<le> offset + i \<and> offset + i < r + 8))"
proof -
  let ?b = "pid_bytes pid offset (length buf)"
  have "\<exists>r. datapidchk True pid (?b[i := v]) (length buf) offset = Some (int r) \<and> r \<le> offset + i \<and> offset + i < r + 8" if v: "v \<noteq> ?b ! i"
  proof -
    have d: "first_diff ?b (?b[i := v]) = Some i" using first_diff_update [of i ?b v] v assms by simp
    have "k - k mod 8 \<le> k" "k < k - k mod 8 + 8" for k :: nat by presburger+
    then show ?thesis
      using datapidchk_first [of "length buf" "?b[i := v]", OF _ refl refl, of pid offset] d by (auto simp: reported_at_def)
  qed
  moreover have "datapidchk True pid ?b (length buf) offset = Some (- 1)" by (simp add: datapidchk_iff)
  ultimately show ?thesis using datapidgen_bytes [OF order.refl, of pid buf offset] by auto
qed

lemma datapid_roundtrip_witness:
  "\<exists>b. datapidgen True 77 (replicate 21 0) 21 3 = Some (21, b) \<and> datapidchk True 77 b 21 3 = Some (- 1)"
  using datapid_roundtrip [of 13 "replicate 21 0" 77 3] by auto

text \<open>On other machines the check answers with offset 0, as if the first byte were wrong.\<close>

lemma datapid_unsupported: "datapidgen False pid buf bsize offset = Some (- 1, buf)" "datapidchk False pid buf bsize offset = Some 0"
  by (simp_all add: datapidgen_def datapidchk_def)

end
