(* ===== verification/DataTests.thy ===== *)
theory DataTests
imports DataProps DataPid
begin

text \<open>The programs at the end of \<open>dataascii.c\<close>, \<open>databin.c\<close> and \<open>datapid.c\<close> (compiled with \<open>UNIT_TEST\<close>) that try the functions
of their file.  A program gives its exit status and the verdicts it prints, in order; the memory that \<open>malloc\<close> gives is a
parameter, whatever it holds.\<close>

section \<open>The programs\<close>

datatype verdict = Pass int | Fail int int

text \<open>The \<open>PASS\<close> or \<open>FAIL\<close> line after a check that returned \<open>ret\<close>.\<close>

definition expect :: "int \<Rightarrow> int \<Rightarrow> verdict" where
  "expect ret v = (if ret = v then Pass ret else Fail ret v)"

definition verdict_of :: "int \<Rightarrow> int list \<Rightarrow> verdict" where
  "verdict_of ret vs = (if ret \<in> set vs then Pass ret else Fail ret (hd vs))"

definition my_string :: "byte list" where
  "my_string = map of_char ''this is a test of the my string''"

text \<open>What the program of \<open>dataascii.c\<close> does for each of two lists of characters.\<close>

definition ascii_part :: "byte list option \<Rightarrow> int \<Rightarrow> byte list \<Rightarrow> (verdict list \<times> byte list) option" where
  "ascii_part listofchars sz buffer = do {
     (_, buffer) \<leftarrow> dataasciigen listofchars buffer sz 0;
     r1 \<leftarrow> dataasciichk listofchars buffer sz 0;
     r2 \<leftarrow> dataasciichk listofchars (drop 1 buffer) (sz - 1) 1;
     buffer \<leftarrow> wr buffer 25 0;
     r3 \<leftarrow> dataasciichk listofchars (drop 1 buffer) (sz - 1) 1;
     Some ([expect r1 (- 1), expect r2 (- 1), expect r3 25], buffer)
   }"

definition dataascii_main :: "byte list option \<Rightarrow> (int \<times> verdict list) option" where
  "dataascii_main memory = (case memory of None \<Rightarrow> Some (2, []) | Some buffer \<Rightarrow> do {
     (v1, buffer) \<leftarrow> ascii_part None 1023 buffer;
     (v2, buffer) \<leftarrow> ascii_part (Some my_string) 1023 buffer;
     Some (0, v1 @ v2)
   })"

text \<open>What the program of \<open>databin.c\<close> does for the modes \<open>a\<close> and \<open>c\<close>, and for \<open>C\<close>.\<close>

definition bin_part :: "(nat \<Rightarrow> int) \<Rightarrow> char \<Rightarrow> int \<Rightarrow> byte list \<Rightarrow> (verdict list \<times> byte list) option" where
  "bin_part rnd mode sz buffer = do {
     buffer \<leftarrow> databingen rnd mode buffer sz 0;
     r1 \<leftarrow> databinchk mode buffer sz 0;
     let offset = 232400;
     r2 \<leftarrow> databinchk mode (drop 1 buffer) (sz - 1) offset;
     buffer \<leftarrow> wr buffer 15 0;
     let number = offset + 15;
     r3 \<leftarrow> databinchk mode (drop 1 buffer) (sz - 1) (offset + 1);
     Some ([expect r1 (- 1), expect r2 (- 1), expect r3 number], buffer)
   }"

definition bin_count_part :: "(nat \<Rightarrow> int) \<Rightarrow> int \<Rightarrow> byte list \<Rightarrow> verdict list option" where
  "bin_count_part rnd sz buffer = do {
     buffer \<leftarrow> databingen rnd (CHR ''C'') buffer sz 0;
     r1 \<leftarrow> databinchk (CHR ''C'') buffer sz 0;
     r2 \<leftarrow> databinchk (CHR ''C'') (drop 18 buffer) (sz - 18) 18;
     buffer \<leftarrow> wr buffer 20 0;
     buffer \<leftarrow> wr buffer 21 0;
     r3 \<leftarrow> databinchk (CHR ''C'') (drop 18 buffer) (sz - 18) 18;
     Some [expect r1 (- 1), expect r2 (- 1), verdict_of r3 [20, 21]]
   }"

definition databin_main :: "(nat \<Rightarrow> int) \<Rightarrow> byte list option \<Rightarrow> (int \<times> verdict list) option" where
  "databin_main rnd memory = (case memory of None \<Rightarrow> Some (2, []) | Some buffer \<Rightarrow> do {
     (v1, buffer) \<leftarrow> bin_part rnd (CHR ''a'') 1023 buffer;
     (v2, buffer) \<leftarrow> bin_part rnd (CHR ''c'') 1023 buffer;
     v3 \<leftarrow> bin_count_part rnd 1023 buffer;
     Some (0, v1 @ v2 @ v3)
   })"

text \<open>The program of \<open>datapid.c\<close> prints what its six checks return, without a verdict.\<close>

definition datapid_main :: "bool \<Rightarrow> int \<Rightarrow> byte list option \<Rightarrow> (int \<times> int list) option" where
  "datapid_main cray getpid memory = (case memory of None \<Rightarrow> Some (2, []) | Some buffer \<Rightarrow> do {
     (_, buffer) \<leftarrow> datapidgen cray (- 1) buffer 1234 3;
     r1 \<leftarrow> datapidchk cray (- 1) buffer 1234 3;
     r2 \<leftarrow> datapidchk cray (- 1) (drop 1 buffer) (1234 - 1) 4;
     buffer \<leftarrow> wr buffer 25 0;
     buffer \<leftarrow> wr buffer 26 0;
     buffer \<leftarrow> wr buffer 27 0;
     buffer \<leftarrow> wr buffer 28 0;
     r3 \<leftarrow> datapidchk cray (- 1) (drop 1 buffer) (1234 - 1) 4;
     (_, buffer) \<leftarrow> datapidgen cray getpid buffer 1234 5;
     r4 \<leftarrow> datapidchk cray getpid buffer 1234 5;
     r5 \<leftarrow> datapidchk cray getpid (drop 1 buffer) (1234 - 1) 6;
     buffer \<leftarrow> wr buffer 25 0;
     r6 \<leftarrow> datapidchk cray getpid (drop 1 buffer) (1234 - 1) 6;
     Some (0, [r1, r2, r3, r4, r5, r6])
   })"

section \<open>Parts of a filled buffer\<close>

lemma first_diff_at:
  "length xs = length ys \<Longrightarrow> take i xs = take i ys \<Longrightarrow> i < length xs \<Longrightarrow> xs ! i \<noteq> ys ! i \<Longrightarrow> first_diff xs ys = Some i"
proof (induction xs ys arbitrary: i rule: first_diff.induct)
  case (1 x xs y ys)
  then show ?case by (cases i) auto
qed auto

lemma first_diff_same [simp]: "first_diff xs xs = None"
  by (simp add: first_diff_None)

lemma ascii_ref_drop: "0 \<le> offset \<Longrightarrow> drop k (ascii_ref l offset (k + n)) = ascii_ref l (offset + int k) n"
  by (rule nth_equalityI) (simp_all add: ascii_ref_def ac_simps)

lemma bin_ref_drop: "mode \<noteq> CHR ''r'' \<Longrightarrow> drop k (bin_ref rnd mode offset (k + n)) = bin_ref rnd mode (offset + int k) n"
  by (rule nth_equalityI) (auto simp: bin_ref_def ac_simps)

lemma length_refs [simp]: "length (ascii_ref l offset n) = n" "length (bin_ref rnd mode offset n) = n"
  by (simp_all add: ascii_ref_def bin_ref_def)

text \<open>A check of the rest of a buffer, from the offset of its first byte on.\<close>

lemma ascii_chk_rest:
  assumes "l \<noteq> Some []" "length b = k + n" "int k + int n < 1000000"
  shows "dataasciichk l (drop k b) (int n) (int k) = Some (chk_code (int k) (first_diff (drop k (ascii_ref l 0 (k + n))) (drop k b)))"
proof -
  have "ascii_ok (l, int k) n" using assms(1,3) by (simp add: ascii_ok_def fits_int_def INT_MIN_def INT_MAX_def)
  then show ?thesis
    using dataasciichk_ref [of l "int k" n "drop k b"] assms(2) by (simp add: ascii_ref_drop)
qed

lemma ascii_part_passes:
  assumes "l \<noteq> Some []" "length buf = 1023" "ascii_ref l 0 1023 ! 25 \<noteq> 0"
  shows "\<exists>b. ascii_part l 1023 buf = Some ([Pass (- 1), Pass (- 1), Pass 25], b) \<and> length b = 1023"
proof -
  let ?r = "ascii_ref l 0 1023"
  have ok: "ascii_ok (l, 0) 1023" using assms(1) by (simp add: ascii_ok_def fits_int_def INT_MIN_def INT_MAX_def)
  have g: "dataasciigen l buf 1023 0 = Some (1023, ?r)"
    using dataasciigen_ref [OF ok, of buf] assms(2) by simp
  have c0: "dataasciichk l ?r 1023 0 = Some (- 1)"
    using dataasciichk_ref [OF ok, of ?r] by (simp add: chk_code_def)
  have c1: "dataasciichk l (drop 1 b) 1022 1 = Some (chk_code 1 (first_diff (drop 1 ?r) (drop 1 b)))" if "length b = 1023" for b
    using ascii_chk_rest [OF assms(1), of b 1 1022] that by simp
  have d: "first_diff (drop 1 ?r) (drop 1 (?r[25 := 0])) = Some 24"
    using first_diff_update [of 24 "drop 1 ?r" 0] assms(3) by (simp add: drop_update_swap)
  have w: "wr ?r 25 0 = Some (?r[25 := 0])" by (simp add: wr_def)
  show ?thesis
    by (simp add: ascii_part_def g c0 c1 [unfolded One_nat_def] w d [unfolded One_nat_def] chk_code_def expect_def)
qed

text \<open>The program that tries \<open>dataascii.c\<close> prints \<open>PASS\<close> for each of its six checks, whatever is in the memory that it
gets.\<close>

theorem dataascii_main_passes:
  assumes "length buf = 1023"
  shows "dataascii_main (Some buf) = Some (0, [Pass (- 1), Pass (- 1), Pass 25, Pass (- 1), Pass (- 1), Pass 25])"
proof -
  have "ascii_ref None 0 1023 ! 25 \<noteq> 0" "ascii_ref (Some my_string) 0 1023 ! 25 \<noteq> 0"
    by (simp_all add: ascii_ref_def charlist_of_def CHARS_def my_string_def)
  moreover have "Some my_string \<noteq> Some []" by (simp add: my_string_def)
  ultimately obtain b1 where "ascii_part None 1023 buf = Some ([Pass (- 1), Pass (- 1), Pass 25], b1)" "length b1 = 1023"
    "\<exists>b2. ascii_part (Some my_string) 1023 b1 = Some ([Pass (- 1), Pass (- 1), Pass 25], b2)"
    using ascii_part_passes [of None buf] ascii_part_passes [of "Some my_string"] assms by blast
  then show ?thesis by (auto simp: dataascii_main_def)
qed

lemma dataascii_main_passes_witness:
  "dataascii_main (Some (replicate 1023 7)) = Some (0, [Pass (- 1), Pass (- 1), Pass 25, Pass (- 1), Pass (- 1), Pass 25])"
  by (rule dataascii_main_passes) simp

section \<open>databin.c and datapid.c\<close>

lemma bin_chk_rest:
  assumes "mode \<noteq> CHR ''r''" "0 \<le> offset" "length b = k + n"
  shows "databinchk mode (drop k b) (int n) offset = Some (chk_code offset (first_diff (bin_ref rnd mode offset n) (drop k b)))"
  using databinchk_ref [of offset n "drop k b" mode rnd] assms by simp

text \<open>Of the modes with one byte the offset does not matter.\<close>

lemma bin_part_passes:
  assumes "mode \<in> {CHR ''a'', CHR ''c''}" "length buf = 1023"
  shows "\<exists>b. bin_part rnd mode 1023 buf = Some ([Pass (- 1), Pass (- 1), Pass 232415], b) \<and> length b = 1023"
proof -
  define v :: byte where "v = (if mode = CHR ''c'' then 0xf0 else 0x55)"
  have r: "bin_ref rnd mode offset n = replicate n v" and v: "v \<noteq> 0" for offset n
    using assms(1) by (auto simp: bin_ref_def v_def)
  have m: "mode \<noteq> CHR ''r''" using assms(1) by auto
  let ?r = "replicate 1023 v"
  have g: "databingen rnd mode buf 1023 0 = Some ?r"
    using databingen_ref [of 0 1023 buf rnd mode] assms(2) r by simp
  have c0: "databinchk mode ?r 1023 0 = Some (- 1)"
    using bin_chk_rest [OF m, of 0 ?r 0 1023 rnd] r by (simp add: chk_code_def)
  have c1: "databinchk mode (drop 1 b) 1022 offset = Some (chk_code offset (first_diff (replicate 1022 v) (drop 1 b)))"
    if "length b = 1023" "0 \<le> offset" for b offset
    using bin_chk_rest [OF m, of offset b 1 1022 rnd] that r by simp
  have d: "first_diff (replicate 1022 v) (drop 1 (?r[15 := 0])) = Some 14"
    using first_diff_update [of 14 "replicate 1022 v" 0] v by (simp add: drop_update_swap)
  have w: "wr ?r 15 0 = Some (?r[15 := 0])" by (simp add: wr_def)
  have c2: "databinchk mode (replicate 1022 v) 1022 232400 = Some (- 1)" using c1 [of ?r 232400] by (simp add: chk_code_def)
  show ?thesis
    by (simp add: bin_part_def g c0 c2 c1 [unfolded One_nat_def] w d [unfolded One_nat_def] chk_code_def expect_def)
qed

lemma bin_count_part_passes:
  assumes "length buf = 1023"
  shows "bin_count_part rnd 1023 buf = Some [Pass (- 1), Pass (- 1), Pass 20]"
proof -
  let ?r = "bin_ref rnd (CHR ''C'') 0 1023"
  have g: "databingen rnd (CHR ''C'') buf 1023 0 = Some ?r"
    using databingen_ref [of 0 1023 buf rnd] assms by simp
  have c0: "databinchk (CHR ''C'') ?r 1023 0 = Some (- 1)"
    using bin_chk_rest [of "CHR ''C''" 0 ?r 0 1023 rnd] by (simp add: chk_code_def)
  have rd: "bin_ref rnd (CHR ''C'') 18 1005 = drop 18 ?r" using bin_ref_drop [of "CHR ''C''" 18 rnd 0 1005] by simp
  have c1: "databinchk (CHR ''C'') (drop 18 b) 1005 18 = Some (chk_code 18 (first_diff (drop 18 ?r) (drop 18 b)))"
    if "length b = 1023" for b
    using bin_chk_rest [of "CHR ''C''" 18 b 18 1005 rnd] that rd by simp
  have n: "?r ! 20 \<noteq> 0" by (simp add: bin_ref_def)
  have d: "first_diff (drop 18 ?r) (drop 18 (?r[20 := 0, 21 := 0])) = Some 2"
    using n by (intro first_diff_at) (simp_all add: take_drop take_update_cancel)
  have w: "wr ?r 20 0 = Some (?r[20 := 0])" "wr (?r[20 := 0]) 21 0 = Some (?r[20 := 0, 21 := 0])" by (simp_all add: wr_def)
  show ?thesis
    by (simp add: bin_count_part_def g c0 c1 w d chk_code_def expect_def verdict_of_def)
qed

text \<open>The program that tries \<open>databin.c\<close> prints \<open>PASS\<close> for each of its nine checks; the byte that it finds changed is the
one that it changed, the first of two.\<close>

theorem databin_main_passes:
  assumes "length buf = 1023"
  shows "databin_main rnd (Some buf) = Some (0, [Pass (- 1), Pass (- 1), Pass 232415, Pass (- 1), Pass (- 1), Pass 232415,
    Pass (- 1), Pass (- 1), Pass 20])"
proof -
  obtain b1 where b1: "bin_part rnd (CHR ''a'') 1023 buf = Some ([Pass (- 1), Pass (- 1), Pass 232415], b1)" "length b1 = 1023"
    using bin_part_passes [of "CHR ''a''" buf rnd] assms by auto
  obtain b2 where "bin_part rnd (CHR ''c'') 1023 b1 = Some ([Pass (- 1), Pass (- 1), Pass 232415], b2)" "length b2 = 1023"
    using bin_part_passes [of "CHR ''c''" b1 rnd] b1(2) by auto
  with b1 show ?thesis by (simp add: databin_main_def bin_count_part_passes)
qed

lemma databin_main_passes_witness:
  "databin_main (\<lambda>_. 3) (Some (replicate 1023 9)) = Some (0, [Pass (- 1), Pass (- 1), Pass 232415, Pass (- 1), Pass (- 1), Pass 232415,
    Pass (- 1), Pass (- 1), Pass 20])"
  by (rule databin_main_passes) simp

text \<open>The bytes of a word: the process id, the offset, and the process id again.\<close>

lemma pid_chk_rest:
  assumes "length b = k + n" "h = (if offset mod 8 \<noteq> 0 then min (8 - offset mod 8) n else 0)"
  shows "datapidchk True pid (drop k b) n offset = Some (case first_diff (pid_bytes pid offset n) (drop k b) of
    None \<Rightarrow> - 1 | Some i \<Rightarrow> int (reported_at offset h ((n - h) div 8) i))"
  using datapidchk_first [OF _ assms(2) refl, of "drop k b" pid] assms(1) by simp

lemma pid_bytes_drop: "drop k (pid_bytes pid off (k + n)) = pid_bytes pid (off + k) n"
  by (rule nth_equalityI) (simp_all add: pid_bytes_def add.assoc)

lemma pid_byte_high:
  assumes "0 \<le> pid" "pid < 65536"
  shows "pid_byte pid 30 = 0 \<longleftrightarrow> pid < 256"
proof -
  have "bit (255 :: int) n" if "n < 8" for n
    using that bit_mask_iff [where ?'a = int and m = 8 and n = n] by (simp add: mask_eq_exp_minus_1)
  then have "word_byte (pid_word pid woff) 6 = word_of_int (drop_bit 8 pid)" for woff
    by (intro bit_eqI) (auto simp: word_byte_def pid_word_def bit_simps)
  then have "pid_byte pid 30 = word_of_int (drop_bit 8 pid)" by (simp add: pid_byte_def)
  moreover have "0 \<le> drop_bit 8 pid" "drop_bit 8 pid < 256" "drop_bit 8 pid = 0 \<longleftrightarrow> pid < 256"
    using assms by (auto simp: drop_bit_eq_div)
  ultimately show ?thesis
    by (metis uint_byte_eq uint_0_eq)
qed

lemma pid_bytes_of_24: "pid_byte (- 1) 28 = 0" "pid_byte (- 1) 29 = 24"
  by code_simp+

text \<open>On a Cray the program that tries \<open>datapid.c\<close> finds its buffers right before it changes them; four bytes that it sets to
0 in the word at offset 24 are reported there.  Of the last check, which follows a change of the upper byte of a process id,
nothing can be said: for a process id below 256 the byte was 0 before.\<close>

theorem datapid_main_results:
  assumes "length buf = 1234" "0 \<le> pid" "pid < 65536"
  shows "datapid_main True pid (Some buf) = Some (0, [- 1, - 1, 24, - 1, - 1, if pid < 256 then - 1 else 24])"
proof -
  let ?a = "pid_bytes (- 1) 3 1234" and ?b = "pid_bytes pid 5 1234"
  have g: "datapidgen True p b 1234 off = Some (1234, pid_bytes p off 1234)" if "length b = 1234" for p b off
    using datapidgen_bytes [of 1234 b p off] that by simp
  have c0: "datapidchk True p (pid_bytes p off 1234) 1234 off = Some (- 1)" for p off
    using pid_chk_rest [of "pid_bytes p off 1234" 0 1234 _ off p] by simp
  have d: "drop (Suc 0) (pid_bytes p off 1234) = pid_bytes p (Suc off) 1233" for p off
    using pid_bytes_drop [of 1 p off 1233] by simp
  have c1: "datapidchk True p (drop (Suc 0) b) 1233 off = Some (case first_diff (pid_bytes p off 1233) (drop (Suc 0) b) of
      None \<Rightarrow> - 1 | Some i \<Rightarrow> int (reported_at off h ((1233 - h) div 8) i))"
    if "length b = 1234" "h = (if off mod 8 \<noteq> 0 then min (8 - off mod 8) 1233 else 0)" for p b off h
    using pid_chk_rest [of b 1 1233 h off p] that by simp
  have nth: "?a ! 25 = 0" "?a ! 26 = 24" "?b ! 25 = pid_byte pid 30" by (simp_all add: pid_bytes_def pid_bytes_of_24)
  have a: "?a[25 := 0] = ?a" using list_update_id [of ?a 25] nth(1) by simp
  have f1: "first_diff (drop (Suc 0) ?a) (drop (Suc 0) (?a[26 := 0, 27 := 0, 28 := 0])) = Some 25"
    using nth(2) by (intro first_diff_at) (simp_all add: take_drop take_update_cancel)
  have f2: "first_diff (drop (Suc 0) ?b) (drop (Suc 0) (?b[25 := 0])) = (if pid < 256 then None else Some 24)"
  proof (cases "pid < 256")
    case True
    then have "?b[25 := 0] = ?b" using list_update_id [of ?b 25] nth(3) pid_byte_high [OF assms(2,3)] by simp
    with True show ?thesis by simp
  next
    case False
    then show ?thesis using nth(3) pid_byte_high [OF assms(2,3)]
      by (intro first_diff_at [THEN trans]) (simp_all add: take_drop take_update_cancel)
  qed
  have w: "wr ?a 25 0 = Some (?a[25 := 0])" "wr ?a 26 0 = Some (?a[26 := 0])" "wr (?a[26 := 0]) 27 0 = Some (?a[26 := 0, 27 := 0])"
    "wr (?a[26 := 0, 27 := 0]) 28 0 = Some (?a[26 := 0, 27 := 0, 28 := 0])" "wr ?b 25 0 = Some (?b[25 := 0])"
    by (simp_all add: wr_def)
  have r: "datapidchk True (- 1) (drop (Suc 0) ?a) 1233 4 = Some (- 1)" "datapidchk True pid (drop (Suc 0) ?b) 1233 6 = Some (- 1)"
    "datapidchk True (- 1) (drop (Suc 0) (?a[26 := 0, 27 := 0, 28 := 0])) 1233 4 = Some 24"
    "datapidchk True pid (drop (Suc 0) (?b[25 := 0])) 1233 6 = Some (if pid < 256 then - 1 else 24)"
    using c1 [of ?a _ 4 "- 1"] c1 [of ?b _ 6 pid] c1 [of "?a[26 := 0, 27 := 0, 28 := 0]" 4 4 "- 1"] c1 [of "?b[25 := 0]" 2 6 pid] f1 f2
    by (simp_all add: d reported_at_def)
  show ?thesis by (simp add: datapid_main_def g assms(1) c0 w a r)
qed

lemma datapid_main_results_witness:
  "datapid_main True 4711 (Some (replicate 1234 1)) = Some (0, [- 1, - 1, 24, - 1, - 1, 24])"
  using datapid_main_results [of "replicate 1234 1" 4711] by simp

end
