(* ===== verification/RandomTests.thy ===== *)
theory RandomTests
imports RandomProps
begin

unbundle bit_operations_syntax

text \<open>The programs at the end of \<open>random_range.c\<close>: \<open>UNIT_TEST\<close> draws numbers and counts how many fall into each of ten parts of
the range, \<open>RANDOM_BIT_UNITTEST\<close> draws bits of masks.  \<open>lr n\<close> is the n-th value of \<open>lrand48\<close>; a program gives its exit status
and what it prints.  Systems with 64-bit bounds for \<open>long\<close> (CRAY, some MIPS) are left out.\<close>

section \<open>The programs\<close>

definition PARTNUM :: nat where "PARTNUM = 10"

record rstats =
  s_cnt :: "nat list"
  s_min :: int
  s_max :: int

definition bounds_of :: "int \<Rightarrow> int list" where
  "bounds_of mx = map (\<lambda>ind. mx div int PARTNUM * int ind) [0..<PARTNUM]"

text \<open>The body of the counting loop.\<close>

definition tally :: "int list \<Rightarrow> int \<Rightarrow> rstats \<Rightarrow> rstats" where
  "tally valbound ret s = (
     let s = (if ret < s_min s then s\<lparr>s_min := ret\<rparr> else s);
         s = (if s_max s < ret then s\<lparr>s_max := ret\<rparr> else s);
         s = (case find (\<lambda>ind. valbound ! ind < ret \<and> ret \<le> valbound ! (ind + 1)) [0..<PARTNUM - 1] of
           None \<Rightarrow> s | Some ind \<Rightarrow> s\<lparr>s_cnt := (s_cnt s)[ind := s_cnt s ! ind + 1]\<rparr>)
     in if valbound ! (PARTNUM - 1) < ret then s\<lparr>s_cnt := (s_cnt s)[PARTNUM - 1 := s_cnt s ! (PARTNUM - 1) + 1]\<rparr> else s)"

text \<open>What a drawing function returns: -1 when it fails.\<close>

definition drawn :: "rerror + int \<Rightarrow> int" where
  "drawn r = (case r of Inl e \<Rightarrow> - 1 | Inr v \<Rightarrow> v)"

definition count_draws :: "(int \<Rightarrow> (rerror + int) option) \<Rightarrow> int \<Rightarrow> (nat \<Rightarrow> int) \<Rightarrow> nat \<Rightarrow> rstats option" where
  "count_draws draw mx lr iter = ofold (\<lambda>cnt s. do {
     ret \<leftarrow> draw (lr cnt);
     Some (tally (bounds_of mx) (drawn ret) s)
   }) [0..<iter] \<lparr>s_cnt = replicate PARTNUM 0, s_min = mx, s_max = 0\<rparr>"

text \<open>The function that the first argument names, and the upper bound that the program gives it.\<close>

definition range_draw :: "nat \<Rightarrow> string \<Rightarrow> (int \<Rightarrow> (rerror + int) option) \<times> int" where
  "range_draw wl func =
    (if func = ''random_rangel'' then (random_rangel wl 0 1048576 1, 1048576)
     else if func = ''random_rangell'' then (random_rangell 0 85899345920 1, 85899345920)
     else (random_range 0 1048576 1, 1048576))"

definition range_main :: "nat \<Rightarrow> (nat \<Rightarrow> int) \<Rightarrow> string list \<Rightarrow> (int \<times> rstats option) option" where
  "range_main wl lr av = (case av of
     [] \<Rightarrow> Some (1, None)
   | func # rest \<Rightarrow> (case (case rest of [] \<Rightarrow> Some 10 | a # _ \<Rightarrow> sscanf_i a) of
       None \<Rightarrow> Some (1, None)
     | Some iter \<Rightarrow> do {
         chk (fits_int iter);
         let (draw, mx) = range_draw wl func;
         s \<leftarrow> count_draws draw mx lr (nat iter);
         Some (0, Some s)
       }))"

text \<open>Both masks at the ends of a \<open>long\<close>, and then each mask of the command line \<open>iter\<close> times; an argument that is no number
leaves the mask as it was.\<close>

fun bit_args :: "nat \<Rightarrow> string list \<Rightarrow> (nat \<Rightarrow> int) \<Rightarrow> 'l::len word \<Rightarrow> ('l word \<times> 'l word) list \<Rightarrow> ('l word \<times> 'l word) list option" where
  "bit_args iter [] lr msk out = Some out"
| "bit_args iter (a # as) lr msk out = do {
     let msk = (case sscanf_i a of None \<Rightarrow> msk | Some v \<Rightarrow> word_of_int v);
     out \<leftarrow> ofold (\<lambda>cnt out. do { ret \<leftarrow> random_bit msk (lr cnt); Some (out @ [(msk, ret)]) }) [0..<iter] out;
     bit_args iter as (\<lambda>n. lr (n + iter)) msk out
   }"

definition random_bit_main :: "(nat \<Rightarrow> int) \<Rightarrow> string list \<Rightarrow> ('l::len word \<times> 'l word) list option" where
  "random_bit_main lr av = do {
     let msk = 1;
     r1 \<leftarrow> random_bit msk (lr 0);
     let hibit = push_bit (LENGTH('l) - 1) 1;
     r2 \<leftarrow> random_bit hibit (lr 1);
     let out = [(msk, r1), (hibit, r2)];
     case av of
       n # a # as \<Rightarrow> bit_args (nat (atoi n)) (a # as) (\<lambda>n. lr (n + 2)) hibit out
     | _ \<Rightarrow> Some out
   }"

section \<open>What is counted\<close>

text \<open>The part that a number belongs to: the lower bound is not in it, the upper one is; the last part has no upper bound.\<close>

definition in_part :: "int \<Rightarrow> nat \<Rightarrow> int \<Rightarrow> bool" where
  "in_part mx i v \<longleftrightarrow> (let part = mx div 10 in part * int i < v \<and> (i < 9 \<longrightarrow> v \<le> part * (int i + 1)))"

definition part_of :: "int \<Rightarrow> int \<Rightarrow> nat" where
  "part_of mx v = min 9 (nat ((v - 1) div (mx div 10)))"

lemma times_less_iff: "0 < (p :: int) \<Longrightarrow> p * k < v \<longleftrightarrow> k \<le> (v - 1) div p"
proof
  assume p: "0 < p" "p * k < v"
  then have "p * k div p \<le> (v - 1) div p" by (intro zdiv_mono1) simp_all
  then show "k \<le> (v - 1) div p" using p(1) by simp
next
  assume p: "0 < p" "k \<le> (v - 1) div p"
  then have "p * k \<le> p * ((v - 1) div p)" by simp
  also have "\<dots> \<le> v - 1" using p(1) pos_mod_sign [of p "v - 1"] mult_div_mod_eq [of p "v - 1"] by linarith
  finally show "p * k < v" by simp
qed

lemma part_arith: "i < 10 \<Longrightarrow> int i \<le> q \<and> (i < 9 \<longrightarrow> q < int i + 1) \<longleftrightarrow> 0 \<le> q \<and> i = min 9 (nat q)"
  by (cases "i < 9") auto

lemma in_part_iff:
  assumes "10 \<le> mx" "i < 10"
  shows "in_part mx i v \<longleftrightarrow> 0 < v \<and> i = part_of mx v"
proof -
  obtain p where p: "p = mx div 10" "0 < p" using assms(1) by (simp add: pos_imp_zdiv_pos_iff)
  obtain q where q: "q = (v - 1) div p" by simp
  have "0 \<le> q \<longleftrightarrow> 0 < v" using p(2) by (simp add: q pos_imp_zdiv_nonneg_iff)
  moreover have "p * int i < v \<longleftrightarrow> int i \<le> q" by (simp only: q times_less_iff [OF p(2)])
  moreover have "v \<le> p * (int i + 1) \<longleftrightarrow> q < int i + 1"
    unfolding q using times_less_iff [OF p(2), of "int i + 1" v] by (metis linorder_not_le)
  ultimately show ?thesis
    using part_arith [OF assms(2), of q] by (simp only: in_part_def part_of_def Let_def p(1) [symmetric] q [symmetric])
qed

lemma bounds_of_nth: "i < 10 \<Longrightarrow> bounds_of mx ! i = mx div 10 * int i"
  by (simp add: bounds_of_def PARTNUM_def del: upt_Suc upt_rec_numeral)

text \<open>One number: the count of its part goes up, and no other.\<close>

lemma tally_cnt:
  assumes "10 \<le> mx" "length (s_cnt s) = 10"
  shows "s_cnt (tally (bounds_of mx) v s) = (if 0 < v then (s_cnt s)[part_of mx v := s_cnt s ! part_of mx v + 1] else s_cnt s)"
    "s_min (tally (bounds_of mx) v s) = min v (s_min s)" "s_max (tally (bounds_of mx) v s) = max v (s_max s)"
proof -
  let ?P = "\<lambda>ind. bounds_of mx ! ind < v \<and> v \<le> bounds_of mx ! (ind + 1)"
  have i9: "?P i \<longleftrightarrow> 0 < v \<and> i = part_of mx v" if "i < 9" for i
  proof -
    have i: "i < 10" "i + 1 < 10" using that by simp_all
    then have b: "bounds_of mx ! i = mx div 10 * int i" "bounds_of mx ! (i + 1) = mx div 10 * (int i + 1)"
      using bounds_of_nth [of i mx] bounds_of_nth [of "i + 1" mx] by (simp_all only: of_nat_add of_nat_1)
    show ?thesis unfolding in_part_iff [OF assms(1) i(1), symmetric] in_part_def Let_def b using that by blast
  qed
  have last: "bounds_of mx ! 9 < v \<longleftrightarrow> 0 < v \<and> 9 = part_of mx v"
  proof -
    have i: "(9 :: nat) < 10" by simp
    show ?thesis unfolding in_part_iff [OF assms(1) i, symmetric] in_part_def Let_def bounds_of_nth [OF i] by blast
  qed
  have f: "find ?P [0..<9] = (if 0 < v \<and> part_of mx v < 9 then Some (part_of mx v) else None)"
  proof (cases "find ?P [0..<9]")
    case None
    then have "\<not> ?P i" if "i < 9" for i using that by (simp only: find_None_iff) auto
    with i9 [of "part_of mx v"] None show ?thesis by auto
  next
    case (Some j)
    then have "?P j" "j < 9" by (auto simp only: find_Some_iff length_upt nth_upt)
    with i9 [of j] Some show ?thesis by auto
  qed
  have "part_of mx v \<le> 9" by (simp add: part_of_def)
  then show "s_cnt (tally (bounds_of mx) v s) = (if 0 < v then (s_cnt s)[part_of mx v := s_cnt s ! part_of mx v + 1] else s_cnt s)"
    "s_min (tally (bounds_of mx) v s) = min v (s_min s)" "s_max (tally (bounds_of mx) v s) = max v (s_max s)"
    using last f by (auto simp: tally_def PARTNUM_def Let_def split: option.splits simp del: upt_Suc)
qed

definition counted_all :: "int \<Rightarrow> int list \<Rightarrow> rstats \<Rightarrow> bool" where
  "counted_all mx vs s \<longleftrightarrow> length (s_cnt s) = 10 \<and> (\<forall>i < 10. s_cnt s ! i = length (filter (in_part mx i) vs)) \<and>
    sum_list (s_cnt s) + count_list vs 0 = length vs \<and> s_min s = fold min vs mx \<and> s_max s = fold max vs 0"

lemma tally_counted:
  assumes "10 \<le> mx" "0 \<le> v" "counted_all mx vs s"
  shows "counted_all mx (vs @ [v]) (tally (bounds_of mx) v s)"
proof -
  have l: "length (s_cnt s) = 10" using assms(3) by (simp add: counted_all_def)
  note t = tally_cnt [OF assms(1) l, of v]
  have p: "part_of mx v < 10" by (simp add: part_of_def)
  have "in_part mx i v \<longleftrightarrow> 0 < v \<and> i = part_of mx v" if "i < 10" for i using in_part_iff [OF assms(1) that] .
  moreover have "sum_list ((s_cnt s)[part_of mx v := s_cnt s ! part_of mx v + 1]) = sum_list (s_cnt s) + 1"
    using p l member_le_sum_list [of "s_cnt s ! part_of mx v" "s_cnt s"] by (simp add: sum_list_update)
  ultimately show ?thesis
    using assms(2,3) p l by (auto simp: counted_all_def t nth_list_update)
qed

lemma count_draws_counted:
  assumes "10 \<le> mx" "\<And>k. draw (lr k) = Some (Inr (f k))" "\<And>k. 0 \<le> f k"
  shows "\<exists>s. count_draws draw mx lr n = Some s \<and> counted_all mx (map f [0..<n]) s"
proof (induction n)
  case 0
  then show ?case by (simp add: count_draws_def counted_all_def PARTNUM_def)
next
  case (Suc n)
  then obtain s where s: "count_draws draw mx lr n = Some s" "counted_all mx (map f [0..<n]) s" by blast
  then have "count_draws draw mx lr (Suc n) = Some (tally (bounds_of mx) (f n) s)"
    by (simp add: count_draws_def ofold_append assms(2) drawn_def)
  with tally_counted [OF assms(1,3) s(2), of n] show ?case by simp
qed

lemma some_value:
  assumes "\<exists>r. x = Some r \<and> (case r of Inl e \<Rightarrow> e = No_multiples 0 mx 1 \<and> (\<nexists>v. candidate 0 mx 1 v) | Inr v \<Rightarrow> candidate 0 mx 1 v)" "0 \<le> mx"
  shows "\<exists>v. x = Some (Inr v) \<and> 0 \<le> v \<and> v \<le> mx"
proof -
  obtain r where r: "x = Some r" "case r of Inl e \<Rightarrow> e = No_multiples 0 mx 1 \<and> (\<nexists>v. candidate 0 mx 1 v) | Inr v \<Rightarrow> candidate 0 mx 1 v"
    using assms(1) by blast
  have "candidate 0 mx 1 0" using assms(2) by (simp add: candidate_def)
  with r assms(2) show ?thesis by (cases r) (auto simp: candidate_def)
qed

lemma range_draw_values:
  assumes "0 \<le> lr" "lr \<le> INT_MAX" "32 \<le> wl"
  shows "\<exists>v. fst (range_draw wl func) lr = Some (Inr v) \<and> 0 \<le> v \<and> v \<le> snd (range_draw wl func)"
proof -
  have "max 0 1048576 + (1 :: int) < 2 ^ 31" by simp
  also have "(2 :: int) ^ 31 \<le> 2 ^ (wl - 1)" using assms(3) by (intro power_increasing) auto
  finally have w: "max 0 1048576 + (1 :: int) < 2 ^ (wl - 1)" .
  have w32: "max 0 1048576 + (1 :: int) < 2 ^ (32 - 1)" by simp
  note r = random_rangel_candidates(1) [OF _ _ _ _ assms(1), of 0 1048576 1]
  have "\<exists>v. random_rangel wl 0 1048576 1 lr = Some (Inr v) \<and> 0 \<le> v \<and> v \<le> 1048576" by (rule some_value [OF r]) (use w in simp_all)
  moreover have "\<exists>v. random_range 0 1048576 1 lr = Some (Inr v) \<and> 0 \<le> v \<and> v \<le> 1048576"
    unfolding random_range_rangel by (rule some_value [OF r]) (use w32 in simp_all)
  moreover have "\<exists>v. random_rangell 0 85899345920 1 lr = Some (Inr v) \<and> 0 \<le> v \<and> v \<le> 85899345920"
    by (rule some_value [OF random_rangell_candidates]) (use assms(1,2) in simp_all)
  ultimately show ?thesis by (simp add: range_draw_def)
qed

text \<open>C35: the program that tries \<open>random_range.c\<close> counts every number it draws in the part of the range that the number is in,
whichever of the three functions it is asked for, but it leaves out zero, which is in none: the ten counts add up to the
number of draws less the number of zeros.\<close>

theorem range_main_counts:
  assumes "\<forall>k. 0 \<le> lr k \<and> lr k \<le> INT_MAX" "32 \<le> wl" "0 \<le> n" "fits_int n"
  shows "\<exists>f s. range_main wl lr [func, int_to_string n] = Some (0, Some s) \<and>
    (\<forall>k. fst (range_draw wl func) (lr k) = Some (Inr (f k)) \<and> 0 \<le> f k \<and> f k \<le> snd (range_draw wl func)) \<and>
    (\<forall>i < 10. s_cnt s ! i = length (filter (in_part (snd (range_draw wl func)) i) (map f [0..<nat n]))) \<and>
    sum_list (s_cnt s) + count_list (map f [0..<nat n]) 0 = nat n"
proof -
  obtain draw mx where d: "range_draw wl func = (draw, mx)" by fastforce
  then have mx: "10 \<le> mx" by (auto simp: range_draw_def split: if_splits)
  have "\<forall>k. \<exists>v. draw (lr k) = Some (Inr v) \<and> 0 \<le> v \<and> v \<le> mx"
    using range_draw_values [OF _ _ assms(2), of _ func] assms(1) d by simp
  then obtain f where f: "draw (lr k) = Some (Inr (f k))" "0 \<le> f k" "f k \<le> mx" for k by metis
  obtain s where "count_draws draw mx lr (nat n) = Some s" "counted_all mx (map f [0..<nat n]) s"
    using count_draws_counted [where draw = draw and lr = lr and f = f, OF mx f(1,2)] by blast
  then show ?thesis using f assms(3,4)
    by (intro exI [of _ f] exI [of _ s]) (simp add: range_main_def d c_simps counted_all_def)
qed

lemma range_main_counts_witness:
  "\<exists>(f :: nat \<Rightarrow> int) s. range_main 64 (\<lambda>k. 12345) [''random_rangell'', int_to_string 50] = Some (0, Some s) \<and>
    sum_list (s_cnt s) + count_list (map f [0..<50]) 0 = 50"
proof -
  have p: "\<forall>k :: nat. 0 \<le> (12345 :: int) \<and> (12345 :: int) \<le> INT_MAX" "(32 :: nat) \<le> 64" "(0 :: int) \<le> 50" "fits_int 50"
    by (simp_all add: INT_MAX_def fits_int_def INT_MIN_def)
  obtain f :: "nat \<Rightarrow> int" and s where "range_main 64 (\<lambda>k. 12345) [''random_rangell'', int_to_string 50] = Some (0, Some s)"
    "sum_list (s_cnt s) + count_list (map f [0..<nat 50]) 0 = nat 50"
    using range_main_counts [OF p, of "''random_rangell''"] by blast
  then show ?thesis by (intro exI [of _ f] exI [of _ s]) (simp del: upt_Suc upt_rec_numeral)
qed

text \<open>With the random numbers 0 and 1 only one of two draws is counted.\<close>

lemma zero_not_counted:
  "map_option (map_prod id (map_option s_cnt)) (range_main 64 int [''random_range'', ''2'']) = Some (0, Some [1, 0, 0, 0, 0, 0, 0, 0, 0, 0])"
  by code_simp

section \<open>Single bits\<close>

lemma random_single_bit:
  fixes m :: "'l::len word"
  assumes "m = push_bit k 1" "k < LENGTH('l)" "int LENGTH('l) < INT_MAX" "0 \<le> lr"
  shows "random_bit m lr = Some m"
proof -
  have b: "bit m j \<longleftrightarrow> j = k" for j using assms(1,2) by (auto simp: bit_simps)
  have "bit m k" using b by simp
  then have "m \<noteq> 0" by auto
  note r = random_bit_ones [OF this assms(3,4)]
  have "ones m 0 ! nat (lr mod int (length (ones m 0))) \<in> set (ones m 0)"
    using r(2) assms(4) by (intro nth_mem) (simp add: nat_less_iff)
  then have "ones m 0 ! nat (lr mod int (length (ones m 0))) = k" by (simp add: ones_def b)
  with r(1) assms(1) show ?thesis by simp
qed

text \<open>Without masks of its own \<open>RANDOM_BIT_UNITTEST\<close> prints the two masks themselves.\<close>

lemma random_bit_main_ends:
  assumes "int LENGTH('l) < INT_MAX" "\<forall>k. 0 \<le> lr k"
  shows "random_bit_main lr [] = Some [(1, 1), (push_bit (LENGTH('l) - 1) 1, push_bit (LENGTH('l) - 1) 1 :: 'l::len word)]"
  using random_single_bit [where m = "1 :: 'l word" and k = 0] random_single_bit [where m = "push_bit (LENGTH('l) - 1) 1 :: 'l word" and k = "LENGTH('l) - 1"] assms
  by (simp add: random_bit_main_def Let_def)

end
