(* ===== verification/TlibioTests.thy ===== *)
theory TlibioTests
imports TlibioProps
begin

unbundle bit_operations_syntax

text \<open>The program at the end of \<open>tlibio.c\<close> (compiled with \<open>UNIT_TEST\<close>): it writes a block to a file and reads it back, with
the method of the option \<open>-s\<close> or with each of a table.  It gives its exit status; what it prints is not modelled.\<close>

section \<open>The program\<close>

definition SIGUSR1 :: int where "SIGUSR1 = 10"
definition SIGUSR2 :: int where "SIGUSR2 = 12"

text \<open>The calls of the program itself: \<open>open\<close>, \<open>lseek (fd, 0, 0)\<close> (whether it succeeds) and \<open>unlink\<close>.\<close>

record 'w ukern =
  uk_sys :: "'w lsys"
  uk_open :: "'w \<Rightarrow> int \<times> 'w"
  uk_rewind :: "'w \<Rightarrow> bool \<times> 'w"
  uk_unlink :: "'w \<Rightarrow> 'w"

record uopts =
  o_symbols :: "string option"
  o_die :: nat
  o_iter :: int

definition unit_opts :: "string list \<Rightarrow> uopts" where
  "unit_opts av = fold (\<lambda>(c, a) u.
     if c = CHR ''s'' then u\<lparr>o_symbols := a\<rparr>
     else if c = CHR ''d'' then u\<lparr>o_die := o_die u + 1\<rparr>
     else if c = CHR ''i'' then u\<lparr>o_iter := (case a of None \<Rightarrow> o_iter u | Some t \<Rightarrow> atoi t)\<rparr>
     else u) (getopt ''s:di:'' [] av) \<lparr>o_symbols = None, o_die = 0, o_iter = 3\<rparr>"

definition Unit_info :: "(mword \<times> int) list" where
  "Unit_info = [
     (LIO_IO_SYNC, 0), (LIO_IO_SYNCV, 0), (LIO_IO_SYNCP, 0), (LIO_IO_ASYNC, 0), (LIO_IO_SLISTIO, 0), (LIO_IO_ALISTIO, 0),
     (LIO_IO_ASYNC OR LIO_WAIT_ACTIVE, 0), (LIO_IO_ASYNC OR LIO_WAIT_RECALL, 0),
     (LIO_IO_ASYNC OR LIO_WAIT_SIGPAUSE, SIGUSR1), (LIO_IO_ASYNC OR LIO_WAIT_SIGACTIVE, SIGUSR1),
     (LIO_IO_ALISTIO OR LIO_WAIT_ACTIVE, 0), (LIO_IO_ALISTIO OR LIO_WAIT_RECALL, 0),
     (LIO_IO_ALISTIO OR LIO_WAIT_SIGACTIVE, SIGUSR1), (LIO_IO_ALISTIO OR LIO_WAIT_SIGPAUSE, SIGUSR1),
     (LIO_IO_ASYNC, SIGUSR2), (LIO_IO_ALISTIO, SIGUSR2)]"

definition rewind :: "'w ukern \<Rightarrow> nat \<times> 'w lio \<Rightarrow> nat \<times> 'w lio" where
  "rewind k st = (case st of (n, s) \<Rightarrow> let (ok, w) = uk_rewind k (l_world s) in
     (if ok then n else n + 1, s\<lparr>l_world := w\<rparr>))"

definition block_A :: "byte list" where "block_A = replicate 4096 65"
definition block_B :: "byte list" where "block_B = replicate 4096 66"

definition all_A :: "byte list \<Rightarrow> bool" where "all_A buffer \<longleftrightarrow> (\<forall>b \<in> set (take 4096 buffer). b = 65)"

text \<open>One round with the method of \<open>-s\<close>.  The results of the transfers are printed but not counted.  \<open>lr\<close> are the values
of \<open>lrand48\<close>, two for each transfer.\<close>

definition symbols_round :: "'w ukern \<Rightarrow> int \<Rightarrow> mword \<Rightarrow> (nat \<Rightarrow> int) \<Rightarrow> nat \<times> 'w lio \<Rightarrow> (nat \<times> 'w lio) option" where
  "symbols_round k fd m lr st = do {
     let (n, s) = rewind k st;
     (ret, s) \<leftarrow> lio_write_buffer (uk_sys k) fd m block_A 4096 SIGUSR1 (lr 0) (lr 1) s;
     let (n, s) = rewind k (n, s);
     (ret, buffer, s) \<leftarrow> lio_read_buffer (uk_sys k) fd m block_B 4096 SIGUSR2 (lr 2) (lr 3) s;
     Some (if all_A buffer then n else n + 1, s)
   }"

fun symbols_loop :: "'w ukern \<Rightarrow> int \<Rightarrow> mword \<Rightarrow> (nat \<Rightarrow> int) \<Rightarrow> nat \<Rightarrow> 'w lio \<Rightarrow> (nat \<times> 'w lio) option" where
  "symbols_loop k fd m lr 0 s = Some (0, s\<lparr>l_world := uk_unlink k (l_world s)\<rparr>)"
| "symbols_loop k fd m lr (Suc i) s = do {
     (n, s) \<leftarrow> symbols_round k fd m lr (0, s);
     if n \<noteq> 0 then Some (n, s) else symbols_loop k fd m (\<lambda>j. lr (j + 4)) i s
   }"

text \<open>One entry of the table, where a transfer that does not return the size counts; with \<open>-d\<close> the first error ends it
(\<open>Inl\<close>).\<close>

definition table_entry :: "'w ukern \<Rightarrow> bool \<Rightarrow> int \<Rightarrow> mword \<times> int \<Rightarrow> nat \<times> 'w lio \<Rightarrow> (nat \<times> 'w lio + nat \<times> 'w lio) option" where
  "table_entry k die fd e st = (case e of (m, sig) \<Rightarrow> do {
     let (n, s) = rewind k st;
     (ret, s) \<leftarrow> lio_write_buffer (uk_sys k) fd m block_A 4096 sig 0 0 s;
     let n = (if ret \<noteq> 4096 then n + 1 else n);
     if ret \<noteq> 4096 \<and> die then Some (Inl (n, s)) else do {
       let (n, s) = rewind k (n, s);
       (ret, buffer, s) \<leftarrow> lio_read_buffer (uk_sys k) fd m block_B 4096 sig 0 0 s;
       let n = (if ret \<noteq> 4096 then n + 1 else n);
       if ret \<noteq> 4096 \<and> die then Some (Inl (n, s))
       else if all_A buffer then Some (Inr (n, s))
       else if die then Some (Inl (n + 1, s)) else Some (Inr (n + 1, s))
     }
   })"

fun table_loop :: "'w ukern \<Rightarrow> bool \<Rightarrow> int \<Rightarrow> (mword \<times> int) list \<Rightarrow> nat \<times> 'w lio \<Rightarrow> (nat \<times> 'w lio) option" where
  "table_loop k die fd [] st = Some (fst st, (snd st)\<lparr>l_world := uk_unlink k (l_world (snd st))\<rparr>)"
| "table_loop k die fd (e # es) st = do {
     r \<leftarrow> table_entry k die fd e st;
     case r of Inl st \<Rightarrow> Some st | Inr st \<Rightarrow> table_loop k die fd es st
   }"

definition tlibio_main :: "'w ukern \<Rightarrow> (nat \<Rightarrow> int) \<Rightarrow> string list \<Rightarrow> 'w lio \<Rightarrow> (nat \<times> 'w lio) option" where
  "tlibio_main k lr av s = (
     let u = unit_opts av; (fd, w) = uk_open k (l_world s); s = s\<lparr>l_world := w\<rparr> in
     if fd = - 1 then Some (1, s) else
       let s = s\<lparr>Debug_level := 9\<rparr> in
       (case o_symbols u of
         Some symbols \<Rightarrow> do {
           (m, err) \<leftarrow> lio_parse_io_arg2 (Some symbols);
           if m = - 1 \<and> 0 < o_die u then Some (1, s) else symbols_loop k fd m lr (nat (o_iter u)) s
         }
       | None \<Rightarrow> table_loop k (0 < o_die u) fd Unit_info (0, s)))"

section \<open>A file\<close>

text \<open>What a file promises: before the position are the bytes written, after it those to read; \<open>lseek\<close> to the start leaves
all of them to read.\<close>

definition file_ok :: "'w ukern \<Rightarrow> ('w \<Rightarrow> byte list) \<Rightarrow> ('w \<Rightarrow> byte list) \<Rightarrow> ('w \<Rightarrow> nat) \<Rightarrow> ('w \<Rightarrow> nat) \<Rightarrow> bool" where
  "file_ok k content rest wstalls rstalls \<longleftrightarrow>
    accepts (uk_sys k) content wstalls \<and> delivers (uk_sys k) rest rstalls \<and> (\<forall>w. can_seek (uk_sys k) w) \<and>
    (\<forall>w. \<exists>w' tl. uk_rewind k w = (True, w') \<and> content w' = [] \<and> rest w' = content w @ tl)"

lemma rewind_file:
  assumes "file_ok k content rest wstalls rstalls"
  obtains s' tl where "rewind k (n, s) = (n, s')" "content (l_world s') = []" "rest (l_world s') = content (l_world s) @ tl"
proof -
  obtain w' tl where "uk_rewind k (l_world s) = (True, w')" "content w' = []" "rest w' = content (l_world s) @ tl"
    using assms unfolding file_ok_def by blast
  then show thesis by (intro that [of "s\<lparr>l_world := w'\<rparr>" tl]) (simp_all add: rewind_def)
qed

lemma sync_method: "has LIO_IO_SYNC LIO_IO_SYNC" "\<not> has LIO_IO_SYNC LIO_RANDOM"
  by (simp_all add: has_def lio_bits LIO_RANDOM_def)

lemma symbols_round_sync:
  assumes f: "file_ok k content rest wstalls rstalls"
  shows "\<exists>s'. symbols_round k fd LIO_IO_SYNC lr (n, s) = Some (n, s')"
proof -
  obtain s1 tl1 where s1: "rewind k (n, s) = (n, s1)" "content (l_world s1) = []" by (rule rewind_file [OF f])
  have a: "accepts (uk_sys k) content wstalls" "delivers (uk_sys k) rest rstalls" "can_seek (uk_sys k) w" for w
    using f by (simp_all add: file_ok_def)
  have lens: "(0 :: int) < 4096" "4096 \<le> int (length block_A)" "4096 \<le> int (length block_B)" by (simp_all add: block_A_def block_B_def)
  obtain ret s2 where s2: "lio_write_buffer (uk_sys k) fd LIO_IO_SYNC block_A 4096 SIGUSR1 (lr 0) (lr 1) s1 = Some (ret, s2)"
    "content (l_world s2) = block_A"
    using lio_write_pieces [OF a(1,3) disjI1 [OF sync_method(1)] sync_method(2) lens(1,2),
      where s = s1 and fd = fd and sig = SIGUSR1 and ?lr1.0 = "lr 0" and ?lr2.0 = "lr 1"] s1(2)
    by (auto simp: block_A_def)
  obtain s3 tl3 where s3: "rewind k (n, s2) = (n, s3)" "rest (l_world s3) = block_A @ tl3"
    using s2(2) by (metis rewind_file [OF f])
  obtain ret' s4 where s4: "lio_read_buffer (uk_sys k) fd LIO_IO_SYNC block_B 4096 SIGUSR2 (lr 2) (lr 3) s3 =
      Some (ret', stored (take 4096 (rest (l_world s3))) block_B, s4)"
    using lio_read_pieces [OF a(2,3) disjI1 [OF sync_method(1)] sync_method(2) lens(1,3),
      where s = s3 and fd = fd and sig = SIGUSR2 and ?lr1.0 = "lr 2" and ?lr2.0 = "lr 3"] by auto
  have "all_A (stored (take 4096 (rest (l_world s3))) block_B)"
    by (simp add: s3(2) stored_def all_A_def block_A_def block_B_def)
  with s1 s2 s3 s4 show ?thesis by (simp add: symbols_round_def)
qed

lemma symbols_loop_sync:
  assumes "file_ok k content rest wstalls rstalls"
  shows "\<exists>s'. symbols_loop k fd LIO_IO_SYNC lr i s = Some (0, s')"
proof (induction i arbitrary: lr s)
  case (Suc i)
  obtain s' where "symbols_round k fd LIO_IO_SYNC lr (0, s) = Some (0, s')" using symbols_round_sync [OF assms] by blast
  then show ?case using Suc.IH [of "\<lambda>j. lr (j + 4)" s'] by simp
qed simp

lemma parse_sync: "lio_parse_io_arg2 (Some ''sync'') = Some (LIO_IO_SYNC, None)"
  by (simp add: lio_parse_io_arg2_def parse_tokens2.simps token_bits_def lookup_token_def Lio_info2_def)

lemma opts_sync: "unit_opts [''-s'', ''sync'', ''-i'', int_to_string i] = \<lparr>o_symbols = Some ''sync'', o_die = 0, o_iter = i\<rparr>"
  by (simp add: unit_opts_def strchr_def takes_arg_def)

text \<open>C36: with \<open>-s sync\<close> the program that tries \<open>tlibio.c\<close> exits with 0 on every file that takes and gives its bytes in pieces
and remembers them, however often it is made to try: what it writes comes back.\<close>

theorem tlibio_main_sync:
  assumes "file_ok k content rest wstalls rstalls" "fst (uk_open k (l_world s)) \<noteq> - 1"
  shows "\<exists>s'. tlibio_main k lr [''-s'', ''sync'', ''-i'', int_to_string i] s = Some (0, s')"
proof -
  obtain fd w where o: "uk_open k (l_world s) = (fd, w)" "fd \<noteq> - 1" using assms(2) by (cases "uk_open k (l_world s)") auto
  then show ?thesis
    using symbols_loop_sync [OF assms(1), of fd lr "nat i" "s\<lparr>l_world := w, Debug_level := 9\<rparr>"]
    by (simp add: tlibio_main_def opts_sync parse_sync Let_def)
qed

text \<open>A file as the bytes before and after the position, with the numbers of bytes that the next calls can move.\<close>

type_synonym zip = "byte list \<times> byte list \<times> nat list"

definition zip_write :: "byte list \<Rightarrow> zip \<Rightarrow> (int + int) \<times> zip" where
  "zip_write xs w = (case w of
      (b, a, []) \<Rightarrow> (Inr (int (length xs)), (b @ xs, drop (length xs) a, []))
    | (b, a, k # ks) \<Rightarrow> if k = 0 then (Inl EAGAIN, (b, a, ks))
        else (Inr (int (min k (length xs))), (b @ take k xs, drop (min k (length xs)) a, ks)))"

definition zip_read :: "int \<Rightarrow> zip \<Rightarrow> (int + byte list) \<times> zip" where
  "zip_read n w = (case w of
      (b, a, []) \<Rightarrow> (Inr (take (nat n) a), (b @ take (nat n) a, drop (nat n) a, []))
    | (b, a, k # ks) \<Rightarrow> if k = 0 then (Inl EAGAIN, (b, a, ks))
        else (Inr (take (min k (nat n)) a), (b @ take (min k (nat n)) a, drop (min k (nat n)) a, ks)))"

definition zip_sys :: "zip lsys" where
  "zip_sys = \<lparr>sys_lseek = Pair (Inl ESPIPE), sys_write = zip_write, sys_writev = zip_write,
     sys_pwrite = \<lambda>xs off. Pair (Inl ESPIPE), sys_read = zip_read, sys_readv = zip_read,
     sys_pread = \<lambda>n off. Pair (Inl ESPIPE), sys_select = \<lambda>b. id, sys_aio_write = \<lambda>cb. Pair (Inl EAGAIN),
     sys_aio_read = \<lambda>cb. Pair (Inl EAGAIN), sys_lio_listio = \<lambda>b cb. Pair (Inl EAGAIN), sys_aio_error = Pair 0,
     sys_aio_return = Pair 0, sys_aio_suspend = Pair (Inr 0), sys_aio_data = \<lambda>w. [], sys_pause = id,
     sys_sigset = \<lambda>sig. id, sys_sighold = \<lambda>sig. id, sys_sigrelse = \<lambda>sig. id, sys_caught = Pair 0\<rparr>"

definition zip_file :: "zip ukern" where
  "zip_file = \<lparr>uk_sys = zip_sys, uk_open = Pair 3, uk_rewind = \<lambda>(b, a, ks). (True, ([], b @ a, ks)), uk_unlink = id\<rparr>"

lemma zip_file_ok: "file_ok zip_file fst (\<lambda>w. fst (snd w)) (\<lambda>w. length (snd (snd w))) (\<lambda>w. length (snd (snd w)))"
proof -
  have "accepts zip_sys fst (\<lambda>w. length (snd (snd w)))"
    by (auto simp: accepts_def zip_sys_def zip_write_def min_def split: list.splits if_splits prod.splits)
  moreover have "delivers zip_sys (\<lambda>w. fst (snd w)) (\<lambda>w. length (snd (snd w)))"
    by (auto simp: delivers_def zip_sys_def zip_read_def min_def split: list.splits if_splits prod.splits)
  moreover have "can_seek zip_sys w" for w by (simp add: can_seek_def zip_sys_def)
  ultimately show ?thesis by (auto simp: file_ok_def zip_file_def)
qed

lemma tlibio_main_sync_witness:
  "\<exists>s'. tlibio_main zip_file (\<lambda>_. 0) [''-s'', ''sync'', ''-i'', int_to_string 2] (lio0 ([], [], [0, 100, 7])) = Some (0, s')"
  by (rule tlibio_main_sync [OF zip_file_ok]) (simp add: zip_file_def)

end
