(* ===== verification/ResTest.thy ===== *)
theory ResTest
imports TstReport CString
begin

text \<open>The program at the end of \<open>tst_res.c\<close> (compiled with \<open>UNIT_TEST\<close>): it reads the functions to call and their arguments
from its standard input.  Its prompts are not modelled.\<close>

section \<open>The program\<close>

definition newline :: char where "newline = CHR 0x0A"

definition RES :: "int \<Rightarrow> string \<Rightarrow> string" where
  "RES ttype fname = ''tst_res.c UNIT TEST message; ttype = '' @ int_to_string ttype @ ''; contents of '' @ [CHR 0x22] @ fname @
     [CHR 0x22] @ '':''"

definition RESM :: "int \<Rightarrow> string" where
  "RESM ttype = ''tst_res.c UNIT TEST message; ttype = '' @ int_to_string ttype"

text \<open>What the program has: the rest of its input and its variables, which have no value at first.\<close>

record rin =
  r_in :: string
  r_type :: "int option"
  r_name :: "string option"

text \<open>\<open>scanf ("%d%c", &ttype, &chr)\<close>: without a number \<open>ttype\<close> stays as it is, and only blanks and a sign are read.\<close>

definition scan_type :: "rin \<Rightarrow> rin option" where
  "scan_type u = (case scan_int (Some 10) (r_in u) of
     Some (v, rest) \<Rightarrow> do { chk (fits_int v); Some (u\<lparr>r_in := tl rest, r_type := Some v\<rparr>) }
   | None \<Rightarrow> Some (u\<lparr>r_in := snd (read_sign (dropWhile isspace (r_in u)))\<rparr>))"

text \<open>\<open>gets (fname)\<close>: at the end of the input \<open>fname\<close> stays as it is; a line of 80 bytes or more does not fit.\<close>

definition gets_name :: "rin \<Rightarrow> rin option" where
  "gets_name u = (if r_in u = [] then Some u else do {
     let line = takeWhile (\<lambda>c. c \<noteq> newline) (r_in u);
     chk (length line < MAXMESG);
     Some (u\<lparr>r_in := drop (length line + 1) (r_in u), r_name := Some line\<rparr>)
   })"

text \<open>The two calls that take a file name, if there is one.\<close>

definition call_brk :: "tenv \<Rightarrow> rin \<Rightarrow> tst \<Rightarrow> tst option" where
  "call_brk e u s = do {
     ttype \<leftarrow> r_type u;
     fname \<leftarrow> r_name u;
     if fname = [] then tst_brkm e ttype (Some (tst_exit e)) (RESM ttype) s
     else tst_brk e ttype (Some fname) (Some (tst_exit e)) (RES ttype fname) s
   }"

definition call_res :: "tenv \<Rightarrow> rin \<Rightarrow> tst \<Rightarrow> tst option" where
  "call_res e u s = do {
     ttype \<leftarrow> r_type u;
     fname \<leftarrow> r_name u;
     if fname = [] then tst_resm e ttype (RESM ttype) s else tst_res e ttype (Some fname) (RES ttype fname) s
   }"

text \<open>\<open>while (1)\<close>: it ends when the process does.\<close>

partial_function (option) unit_loop :: "tenv \<Rightarrow> rin \<Rightarrow> tst \<Rightarrow> tst option" where
  "unit_loop e u s = do {
     u \<leftarrow> scan_type u;
     ttype \<leftarrow> r_type u;
     if ttype = - 1 then tst_exit e s
     else if ttype = - 2 then do { s \<leftarrow> tst_flush e s; unit_loop e u s }
     else if ttype = - 3 then do {
       u \<leftarrow> scan_type u;
       u \<leftarrow> gets_name u;
       s \<leftarrow> call_brk e u s;
       if t_exit s \<noteq> None then Some s else unit_loop e u s
     }
     else do {
       u \<leftarrow> (if ttype = - 4 then scan_type u else Some u);
       u \<leftarrow> gets_name u;
       s \<leftarrow> call_res e u s;
       if t_exit s \<noteq> None then Some s else unit_loop e u s
     }
   }"

definition res_main :: "tenv \<Rightarrow> string \<Rightarrow> tst option" where
  "res_main e input = unit_loop e \<lparr>r_in = input, r_type = None, r_name = None\<rparr> (tst_init ''TESTTCID'')"

section \<open>What it does with a script\<close>

text \<open>A script that reports results without a file, and then ends the program.\<close>

definition res_line :: "int \<Rightarrow> string" where "res_line ttype = int_to_string ttype @ [newline, newline]"

definition res_script :: "int list \<Rightarrow> string" where
  "res_script ts = concat (map res_line ts) @ int_to_string (- 1) @ [newline]"

lemma newline_no_digit [simp]: "digit_of newline = None"
  by (simp add: digit_of_def newline_def)

lemma scan_type_number:
  assumes "fits_int v"
  shows "scan_type (u\<lparr>r_in := int_to_string v @ newline # rest\<rparr>) = Some (u\<lparr>r_in := rest, r_type := Some v\<rparr>)"
  using assms scan_int_prefix [of "newline # rest" v] by (simp add: scan_type_def c_simps)

lemma gets_name_empty: "gets_name (u\<lparr>r_in := newline # rest, r_type := t\<rparr>) = Some (u\<lparr>r_in := rest, r_type := t, r_name := Some []\<rparr>)"
  by (simp add: gets_name_def c_simps MAXMESG_def)

lemma RESM_nonempty [simp]: "RESM t \<noteq> []"
  by (simp add: RESM_def)

lemma unit_loop_script:
  assumes "tst_inv s" "t_exit s = None" "\<forall>t \<in> set ts. fits_int t \<and> t \<notin> {- 1, - 2, - 3, - 4}"
  shows "unit_loop e (u\<lparr>r_in := res_script ts\<rparr>) s = reports e (map (\<lambda>t. (t, RESM t)) ts) s \<bind> tst_exit e"
  using assms
proof (induction ts arbitrary: u s)
  case Nil
  have "fits_int (- 1)" by (simp add: fits_int_def INT_MIN_def INT_MAX_def)
  then show ?case
    by (subst unit_loop.simps) (simp add: res_script_def reports_def scan_type_number)
next
  case (Cons t ts)
  let ?rest = "res_script ts"
  have r: "res_script (t # ts) = int_to_string t @ newline # newline # ?rest" by (simp add: res_script_def res_line_def)
  obtain s1 where s1: "tst_resm e t (RESM t) s = Some s1" "reported t s s1"
    using tst_resm_plain [OF Cons.prems(1) RESM_nonempty] by blast
  then have i: "tst_inv s1" "t_exit s1 = None" using Cons.prems(2) by (simp_all add: reported_def)
  have ih: "unit_loop e (u\<lparr>r_in := ?rest, r_type := Some t, r_name := Some []\<rparr>) s1 =
      reports e (map (\<lambda>t. (t, RESM t)) ts) s1 \<bind> tst_exit e"
    using Cons.IH [OF i, of "u\<lparr>r_type := Some t, r_name := Some []\<rparr>"] Cons.prems(3) by (cases u) simp
  have "unit_loop e (u\<lparr>r_in := int_to_string t @ newline # newline # ?rest\<rparr>) s =
      unit_loop e (u\<lparr>r_in := ?rest, r_type := Some t, r_name := Some []\<rparr>) s1"
    using Cons.prems(3) by (subst unit_loop.simps)
      (simp add: scan_type_number gets_name_empty call_res_def s1(1) i(2))
  then show ?case by (simp add: r ih reports_def s1(1))
qed

text \<open>C37: a script that reports a list of results, one to a line, makes the unit test of \<open>tst_res.c\<close> do what a test does that
reports these results and exits: reading the script, the loop and the reporting functions fit together.\<close>

theorem res_main_script:
  assumes "\<forall>t \<in> set ts. fits_int t \<and> t \<notin> {- 1, - 2, - 3, - 4}"
  shows "res_main e (res_script ts) = reports e (map (\<lambda>t. (t, RESM t)) ts) (tst_init ''TESTTCID'') \<bind> tst_exit e"
proof -
  have "t_exit (tst_init ''TESTTCID'') = None" by (simp add: tst_init_def)
  from unit_loop_script [OF tst_init_inv this assms, of e "\<lparr>r_in = [], r_type = None, r_name = None\<rparr>"]
  show ?thesis by (simp add: res_main_def)
qed

lemma res_main_script_witness:
  "res_main plain_env (res_script [TPASS, TCONF, TPASS]) =
    reports plain_env [(TPASS, RESM TPASS), (TCONF, RESM TCONF), (TPASS, RESM TPASS)] (tst_init ''TESTTCID'') \<bind> tst_exit plain_env"
  using res_main_script [of "[TPASS, TCONF, TPASS]" plain_env] by (simp add: fits_int_def INT_MIN_def INT_MAX_def)

text \<open>At the end of its input the program does not stop: \<open>scanf\<close> and \<open>gets\<close> fail without being noticed, and the last result is
reported for ever.\<close>

lemma unit_loop_end_of_input:
  "r_in u = [] \<Longrightarrow> r_type u = Some t \<Longrightarrow> r_name u = Some [] \<Longrightarrow> t \<notin> {- 1, - 2, - 3, - 4} \<Longrightarrow> tst_inv s \<Longrightarrow> t_exit s = None \<Longrightarrow>
    unit_loop e u s \<noteq> Some r"
proof
  assume h: "r_in u = []" "r_type u = Some t" "r_name u = Some []" "t \<notin> {- 1, - 2, - 3, - 4}" "tst_inv s" "t_exit s = None"
  assume "unit_loop e u s = Some r"
  then have "r_in u = [] \<longrightarrow> r_type u = Some t \<longrightarrow> r_name u = Some [] \<longrightarrow> tst_inv s \<longrightarrow> t_exit s = None \<longrightarrow> False"
  proof (rule unit_loop.raw_induct [where P = "\<lambda>e (u :: rin) s r. r_in u = [] \<longrightarrow> r_type u = Some t \<longrightarrow> r_name u = Some [] \<longrightarrow>
      tst_inv s \<longrightarrow> t_exit s = None \<longrightarrow> False", rotated], intro impI)
    fix loop :: "tenv \<Rightarrow> rin \<Rightarrow> tst \<Rightarrow> tst option" and e :: tenv and u :: rin and s r
    assume ih: "\<And>e u s r. loop e u s = Some r \<Longrightarrow> r_in u = [] \<longrightarrow> r_type u = Some t \<longrightarrow> r_name u = Some [] \<longrightarrow>
      tst_inv s \<longrightarrow> t_exit s = None \<longrightarrow> False"
      and u: "r_in u = []" "r_type u = Some t" "r_name u = Some []" and s: "tst_inv s" "t_exit s = None"
    have sc: "scan_type u = Some u" "gets_name u = Some u"
      using u(1) by (cases u; simp add: scan_type_def scan_int_def read_sign_def gets_name_def)+
    obtain s1 where s1: "tst_resm e t (RESM t) s = Some s1" "reported t s s1" using tst_resm_plain [OF s(1) RESM_nonempty] by blast
    then have i: "tst_inv s1" "t_exit s1 = None" using s(2) by (simp_all add: reported_def)
    assume "(do {
     u \<leftarrow> scan_type u;
     ttype \<leftarrow> r_type u;
     if ttype = - 1 then tst_exit e s
     else if ttype = - 2 then do { s \<leftarrow> tst_flush e s; loop e u s }
     else if ttype = - 3 then do {
       u \<leftarrow> scan_type u;
       u \<leftarrow> gets_name u;
       s \<leftarrow> call_brk e u s;
       if t_exit s \<noteq> None then Some s else loop e u s
     }
     else do {
       u \<leftarrow> (if ttype = - 4 then scan_type u else Some u);
       u \<leftarrow> gets_name u;
       s \<leftarrow> call_res e u s;
       if t_exit s \<noteq> None then Some s else loop e u s
     }
   }) = Some r"
    then have "loop e u s1 = Some r" using h(4) u sc s1(1) i(2) by (simp add: call_res_def)
    with ih [of e u s1 r] u i show False by simp
  qed
  with h show False by simp
qed

end
