(* ===== verification/TmpMain.thy ===== *)
theory TmpMain
imports TmpDir ResTest
begin

text \<open>The program at the end of \<open>tst_tmpdir.c\<close> (compiled with \<open>UNIT_TEST\<close>): it reads from its standard input which of
\<open>tst_exit\<close>, \<open>tst_tmpdir\<close> and \<open>tst_rmdir\<close> to call.  Its prompts are not modelled.\<close>

section \<open>The program\<close>

text \<open>One call: \<open>option\<close> as it was read; any other number does nothing.\<close>

definition tmp_call :: "tmpenv \<Rightarrow> (string option \<Rightarrow> int \<times> int) \<Rightarrow> int \<Rightarrow> tmpst \<Rightarrow> tmpst option" where
  "tmp_call e rmdir opt w =
    (if opt = - 1 then with_tst (tst_exit (e_tst e)) w
     else if opt = 0 then tst_tmpdir e rmdir w
     else if opt = 1 then tst_rmdir e w
     else Some w)"

text \<open>\<open>while (1)\<close>: \<open>e n\<close> is what the system does for the n-th call.  The input is read as in the program of \<open>tst_res.c\<close>
(\<open>scan_type\<close>), with the same format.\<close>

partial_function (option) tmp_loop ::
    "(nat \<Rightarrow> tmpenv) \<Rightarrow> (string option \<Rightarrow> int \<times> int) \<Rightarrow> nat \<Rightarrow> rin \<Rightarrow> tmpst \<Rightarrow> tmpst option" where
  "tmp_loop e rmdir n u w = do {
     u \<leftarrow> scan_type u;
     opt \<leftarrow> r_type u;
     w \<leftarrow> tmp_call (e n) rmdir opt w;
     if t_exit (w_tst w) \<noteq> None then Some w else tmp_loop e rmdir (n + 1) u w
   }"

definition tmp_main ::
    "(nat \<Rightarrow> tmpenv) \<Rightarrow> (string option \<Rightarrow> int \<times> int) \<Rightarrow> string \<Rightarrow> (string \<Rightarrow> node option) \<Rightarrow> string \<Rightarrow> tmpst option" where
  "tmp_main e rmdir cwd fs input = tmp_loop e rmdir 0 \<lparr>r_in = input, r_type = None, r_name = None\<rparr>
     \<lparr>w_tst = tst_init ''TESTTCID'', w_testdir = None, w_cwd = cwd, w_fs = fs\<rparr>"

section \<open>What it does\<close>

definition opt_line :: "int \<Rightarrow> string" where "opt_line opt = int_to_string opt @ [newline]"

lemma tmp_loop_line:
  assumes "fits_int opt"
  shows "tmp_loop e rmdir n (u\<lparr>r_in := opt_line opt @ rest\<rparr>) w = do {
     w \<leftarrow> tmp_call (e n) rmdir opt w;
     if t_exit (w_tst w) \<noteq> None then Some w else tmp_loop e rmdir (n + 1) (u\<lparr>r_in := rest, r_type := Some opt\<rparr>) w
   }"
  using assms by (subst tmp_loop.simps) (simp add: opt_line_def scan_type_number)

lemma left_new_dir: "left new_dir = None"
  by (simp add: new_dir_def goes_def)

lemma fits_new_dir: "fits d new_dir"
  by (simp add: new_dir_def)

text \<open>A directory that is made and removed at once: nothing of it is left, and the program ends with status 0.\<close>

lemma tmp_main_makes_and_removes:
  fixes fs :: "string \<Rightarrow> node option" and cwd :: string
  defines "w0 \<equiv> \<lparr>w_tst = tst_init ''TESTTCID'', w_testdir = None, w_cwd = cwd, w_fs = fs\<rparr>"
  assumes "e_tdirectory (e 0) = None" "made (e 0) w0" "fs (tmp_path (e 0) w0) = None"
    "safe_name (e 1) (tmp_name (e 0) w0)" "e_tdirectory (e 1) = None" "fst (e_malloc (e 1))"
    "fst (e_chdir (e 1) (tmp_path (e 0) w0) (dirname (tmp_name (e 0) w0))) = 0"
  shows "\<exists>w. tmp_main e rmdir cwd fs (opt_line 0 @ opt_line 1 @ opt_line (- 1)) = Some w \<and> w_fs w = fs \<and> t_exit (w_tst w) = Some 0"
proof -
  let ?w1 = "in_tmpdir (e 0) w0"
  have r0: "running (w_tst w0)" by (simp add: w0_def running_def tst_init_inv) (simp add: tst_init_def)
  have x0: "t_exitval (w_tst w0) = 0" by (simp add: w0_def tst_init_def)
  have m: "tst_tmpdir (e 0) rmdir w0 = Some ?w1" using tst_tmpdir_cases [OF r0, of "e 0" rmdir] assms(2,3) by simp
  have p: "tmp_path (e 0) w0 = tmp_name (e 0) w0" using assms(5) by (simp add: tmp_path_def safe_name_def resolve_def)
  have r1: "running (w_tst ?w1)" "w_testdir ?w1 = Some (tmp_name (e 0) w0)" "w_fs ?w1 (tmp_name (e 0) w0) = Some new_dir"
    using r0 p by (simp_all add: in_tmpdir_def)
  obtain w2 where w2: "tst_rmdir (e 1) ?w1 = Some w2" "w_fs w2 = fs" "running (w_tst w2)" "t_exitval (w_tst w2) = 0"
    using tst_rmdir_absolute [OF r1(1) assms(6) r1(2) assms(7,5) r1(3) fits_new_dir] assms(4,8) left_new_dir p x0
    by (auto simp: in_tmpdir_def w0_def fun_upd_idem)
  obtain t where t: "tst_exit (e_tst (e 2)) (w_tst w2) = Some t" "t_exit t = Some 0"
    using tst_exit_plain [of "w_tst w2" "e_tst (e 2)"] w2(3,4) by (auto simp: running_def)
  have i: "fits_int 0" "fits_int 1" "fits_int (- 1)" by (simp_all add: fits_int_def INT_MIN_def INT_MAX_def)
  let ?u = "\<lparr>r_in = [], r_type = None, r_name = None\<rparr>"
  have "tmp_main e rmdir cwd fs (opt_line 0 @ opt_line 1 @ opt_line (- 1)) =
      tmp_loop e rmdir 0 (?u\<lparr>r_in := opt_line 0 @ opt_line 1 @ opt_line (- 1)\<rparr>) w0"
    by (simp add: tmp_main_def w0_def)
  also have "\<dots> = tmp_loop e rmdir 1 (?u\<lparr>r_type := Some 0, r_in := opt_line 1 @ opt_line (- 1)\<rparr>) ?w1"
    using r1(1) by (subst tmp_loop_line [OF i(1)]) (simp add: tmp_call_def m running_def)
  also have "\<dots> = tmp_loop e rmdir 2 (?u\<lparr>r_type := Some 1, r_in := opt_line (- 1) @ []\<rparr>) w2"
    using w2(3) by (subst tmp_loop_line [OF i(2)]) (simp add: tmp_call_def w2(1) [unfolded One_nat_def] running_def numeral_2_eq_2)
  also have "\<dots> = Some (w2\<lparr>w_tst := t\<rparr>)"
    by (subst tmp_loop_line [OF i(3)]) (simp add: tmp_call_def with_tst_def t)
  finally show ?thesis using w2(2) t(2) by simp
qed

end
