(* ===== verification/Spec2Isabelle.thy ===== *)
theory Spec2Isabelle
imports DmaProps DmaUser DataProps SensorProps RandomProps WriteLogProps TlibioProps
  Hooks UnitMains StrProps Forker Rmobj SyncPipe TstSig MountUtils Floats SysInfo SelfExec DataTests RandomTests TlibioTests ResTest TmpMain
begin

text \<open>Verification of the snowball LTP tests: the kernel DMA tests with the user program that runs them, the sensor
tests, and the part of the LTP library (\<open>src/ltp_framework/lib\<close>) that these and the I/O tests rest on.

\<^bold>\<open>The program.\<close>  A test is a small program.  It hands its command line to \<open>parse_opts\<close> (\<open>parse_opts.c\<close>), repeats its
body as long as \<open>TEST_LOOPING\<close> (\<open>usctest.h\<close>, \<open>usc_test_looping\<close>) says, and reports each result with \<open>tst_res.c\<close>, whose
exit status is the verdict.  It may take a temporary directory (\<open>tst_tmpdir.c\<close>), catch signals (\<open>tst_sig.c\<close>), make its
system calls through \<open>safe_macros.c\<close> and run in several processes (\<open>forker.c\<close>, \<open>cloner.c\<close>, \<open>self_exec.c\<close>) that wait for one
another (\<open>libtestsuite.c\<close>); whatever goes wrong there ends in \<open>tst_brkm\<close>, which runs the cleanup function of the test and
exits.  \<open>dma.c\<close> is such a program: its body reads one debugfs file for each DMA test.  The file
is served by the kernel module \<open>dma_test_module.c\<close>, which runs the test on the channels of the DMA engine through
\<open>dma_test_lib.c\<close> and answers with one line of text.  The four sensor tests are such programs too: they write and read
files of sysfs.  The I/O tests fill their buffers with \<open>pattern.c\<close>, \<open>dataascii.c\<close>, \<open>databin.c\<close> and \<open>datapid.c\<close>, pick positions
and sizes with \<open>random_range.c\<close>, transfer them with \<open>tlibio.c\<close> and keep a history of what they wrote with \<open>write_log.c\<close>.

\<^bold>\<open>Conventions\<close> (theory \<open>Prelude\<close>).  C code that can fail is a function into \<open>option\<close>: \<open>None\<close> is undefined behaviour (an
access out of bounds, a division by zero, an overflow, a NULL pointer, a stream closed twice), a kernel oops, or a loop
that does not return.  \<open>chk\<close> is such a requirement.  C integers are \<open>int\<close> where they stay in range, with \<open>fits_int\<close> or
\<open>sfits\<close> checked where they may not, and words where wrap-around matters.  What is outside the sources (the kernel, the
DMA engine, drivers, the clock, the environment, random numbers) is an argument.  Loops are structural recursion or
\<open>function\<close> with a measure where they end, and \<open>partial_function (option)\<close> where they may not; that they do end is then
part of each theorem that gives their result.  There is no fuel.

\<^bold>\<open>Kernel DMA tests.\<close>
  \<^item> \<open>DmaLib\<close>: \<open>dma_test_lib.c\<close>.  The record \<open>buflist\<close> is \<open>struct dmatest_buflist\<close>; \<open>kenv\<close> is the kernel.
  \<^item> \<open>DmaEngine\<close>: \<open>struct tc_struct\<close> (record \<open>tc\<close>) and its events: starting the work, the callback, waiting.
  \<^item> \<open>DmaTests\<close>: the 69 tests and the dispatcher \<open>d40_test_run\<close>, module init.
  \<^item> \<open>DmaFs\<close>: the module in the file system: loading, the files of the tests, opening and reading one, unloading.
  \<^item> \<open>DmaSizes\<close>, \<open>DmaCorrect\<close>, \<open>DmaParallel\<close>, \<open>DmaLink\<close>, \<open>DmaRun\<close>: on a kernel where nothing fails (\<open>good_kernel\<close>) every test
    that is built in returns 0 and gives back what it took; the theories follow the code from the set-up of one list to
    the dispatcher.
  \<^item> \<open>DmaSchedule\<close>, \<open>DmaFaulty\<close>, \<open>DmaShared\<close>: engines that copy anything (locale \<open>confined_engine\<close>: nothing is written outside the
    bytes asked for), one that copies nothing (\<open>dead_engine\<close>), and the interleavings (\<open>pstep\<close>, an inductive relation) of the events
    of parallel tests on an engine they share: how many events there are (\<open>left_over\<close>) and what each test finds.
  \<^item> \<open>DmaProps\<close>: the properties, with the error paths that leak, oops, hang or pass wrongly.
  \<^item> \<open>DmaUser\<close>: \<open>dma.c\<close>, from the command line through the module to the exit status.

\<^bold>\<open>Reporting.\<close>  \<open>TstRes\<close> models \<open>tst_res.c\<close>: the record \<open>tst\<close> holds the static variables of the file and the lines printed.
\<open>TstReport\<close> proves the exit status, refines the condensed output to a specification on the list of all results, and
gives the contract of a cleanup function as a locale (\<open>cleanup\<close>), with a cleanup that reports and one that breaks in turn
as its instances.  \<open>SafeMacros\<close> models the 21 wrappers of \<open>safe_macros.c\<close> over a record of system calls (\<open>sysapi\<close>); a
cleanup that closes a descriptor with \<open>SAFE_CLOSE\<close> is a further instance of the locale.

\<^bold>\<open>The surroundings of a test.\<close>
  \<^item> \<open>TmpDir\<close>: \<open>tst_tmpdir.c\<close>.  The record \<open>tmpst\<close> adds to the reporting state \<open>TESTDIR\<close>, the working directory and what paths
    name.  \<open>tst_tmpdir\<close> either gives a new directory or ends the process (\<open>ended\<close>, through \<open>tmpdir_cleanup\<close> as an instance of
    \<open>cleanup\<close>); \<open>tst_rmdir\<close> removes what can be removed.
  \<^item> \<open>Paths\<close> and \<open>Rmobj\<close>: \<open>search_path.c\<close>, \<open>get_path.c\<close>, \<open>file_lock.c\<close> and \<open>rmobj.c\<close>; a directory is a tree of objects that say
    which calls on them succeed, and the theorem gives the tree that is left.
  \<^item> \<open>TstSig\<close>: \<open>tst_sig.c\<close>, the table of signals and the handler that breaks the test.
  \<^item> \<open>TestSuite\<close> and \<open>SyncPipe\<close>: \<open>libtestsuite.c\<close>.  \<open>SyncPipe\<close> runs \<open>sync_pipe_wait\<close> and any number of \<open>sync_pipe_notify\<close> against
    the pipe of the kernel (inductive relations \<open>peer_step\<close> and \<open>sync_step\<close>): an invariant of all reachable states, a measure
    that every step lowers, and the states in which nothing more can happen.
  \<^item> \<open>Forker\<close>: \<open>forker.c\<close>, with all processes it makes as one list.
  \<^item> \<open>SelfExec\<close>: \<open>self_exec.c\<close>, both sides of the option \<open>-C\<close>.
  \<^item> \<open>MountUtils\<close>, \<open>SysInfo\<close>: \<open>mount_utils.c\<close>, \<open>tst_is_cwd.c\<close>, the readers of \<open>/proc\<close> and \<open>cloner.c\<close>.

\<^bold>\<open>Options and looping.\<close>  \<open>CString\<close> models the text functions of the C library that the sources use.  \<open>ParseOpts\<close> models
\<open>parse_opts.c\<close> with its help texts: the record \<open>std\<close> holds the static variables, \<open>penv\<close> the environment.  \<open>ParseProps\<close> goes from
the command line to the number of iterations and copies.  \<open>Hooks\<close> models what a test calls at its start and in each iteration
(\<open>usctest.h\<close> and the hooks of \<open>parse_opts.c\<close>): waiting for SIGUSR1, moving the program break, \<open>get_high_address.c\<close>.

\<^bold>\<open>Data.\<close>  \<open>Pattern\<close> and \<open>DataGen\<close> model the generators and checkers; \<open>Generator\<close> is their contract (locales \<open>generator\<close> and
\<open>locating_generator\<close>), which \<open>DataGen\<close> and \<open>DataProps\<close> discharge for all three, and \<open>DataPid\<close> for \<open>datapid.c\<close>.

\<^bold>\<open>Text.\<close>  \<open>StrHelpers\<close> and \<open>StrProps\<close>: \<open>open_flags.c\<close>, \<open>string_to_tokens.c\<close> and \<open>tst_kvercmp.c\<close>, the last against the order of
versions (type \<open>kver\<close>).  \<open>Floats\<close>: \<open>str_to_bytes.c\<close> and \<open>tst_cwd_has_free.c\<close>, with floating point numbers as rationals that are
rounded to 24 or 53 bits.

\<^bold>\<open>Random numbers.\<close>  \<open>RandomRange\<close> models \<open>random_range.c\<close>; \<open>RandomProps\<close> characterises the numbers that each function can
return.  The syntax of ranges is proved for any format of numbers (locale \<open>number_format\<close>), of which \<open>%i\<close> is an instance.

\<^bold>\<open>Input and output.\<close>  \<open>Tlibio\<close> models \<open>tlibio.c\<close>: the letters and words of its methods, and \<open>lio_write_buffer\<close> and
\<open>lio_read_buffer\<close> with each kind of request and each way to wait for it, over a record of system calls (\<open>lsys\<close>).  \<open>TlibioProps\<close>
shows what is transferred on any descriptor that takes or gives its bytes in pieces.

\<^bold>\<open>Write log.\<close>  \<open>WriteLog\<close> models \<open>write_log.c\<close>: a file is its bytes, a record is packed into 28 bytes and its names.
\<open>WriteLogProps\<close> shows that what is written is what a backward scan finds, over any number of buffers of the scan.

\<^bold>\<open>Sensor tests.\<close>  \<open>Stdio\<close> models buffered streams over the files of a driver, and the \<open>main\<close> that the four programs share;
\<open>Sensors\<close> the programs; \<open>SensorProps\<close> what they can find and what they cannot.

\<^bold>\<open>The library's own tests.\<close>  Several files end in a program that tries them (compiled with \<open>UNIT_TEST\<close>).  \<open>DataTests\<close> shows
that those of \<open>dataascii.c\<close> and \<open>databin.c\<close> print \<open>PASS\<close> only, and what that of \<open>datapid.c\<close> prints; \<open>RandomTests\<close> what that of
\<open>random_range.c\<close> counts; \<open>TlibioTests\<close> that of \<open>tlibio.c\<close> on a file that moves its bytes in pieces (\<open>file_ok\<close>); \<open>ResTest\<close> that
of \<open>tst_res.c\<close> on a script of results; \<open>TmpMain\<close> that of \<open>tst_tmpdir.c\<close>; \<open>UnitMains\<close> the small ones of \<open>open_flags.c\<close>,
\<open>str_to_bytes.c\<close>, \<open>search_path.c\<close> and \<open>mount_utils.c\<close>; \<open>Forker\<close> has that of \<open>forker.c\<close>.

\<^bold>\<open>Not modelled.\<close>  The branches for other systems (CRAY, sgi), but for \<open>datapid.c\<close>, which does nothing elsewhere; debug output
and prompts; the text that \<open>strerror\<close> gives; the \<open>UNIT_TEST\<close> program of \<open>parse_opts.c\<close>, which calls that function with
three of its four arguments and does not compile.  Calls that are taken to succeed: the allocations inside a DMA buffer list
and the preparation of its descriptors, \<open>lstat\<close> of an object that exists, and, in the steps of \<open>SyncPipe\<close>, \<open>read\<close> (no signal
interrupts it); pausing a channel does not change what the engine does later.  The remaining headers hold declarations and constants; build files and shell
scripts are not C.\<close>

end
